(* ===== verification/Prelude.thy ===== *)
theory Prelude
  imports Main "HOL-Library.AList" "HOL-Library.Char_ord" "HOL-Library.List_Lexorder" "HOL-Library.Word"
begin

text \<open>
  The shared base of the development: Python exceptions and fallible results, the string
  operations the bridge uses, insertion-ordered dictionaries, and the named collections
  of facts that the component theories feed and use.

  Strings. A Python \<open>str\<close> is a list of code points; HOL's \<^typ>\<open>string\<close> is a list of
  8-bit characters. The development reads a \<^typ>\<open>char\<close> as one code point of the range
  U+0000 to U+00FF, so that \<open>len\<close>, slicing, \<open>strip\<close> and comparison mean what they mean in
  Python; code points above U+00FF are outside the model. The function \<open>utf8\<close> below is
  the \<open>.encode("utf-8")\<close> of such a string (two bytes for U+0080 to U+00FF).
\<close>

named_theorems res_simps \<open>evaluation of fallible results\<close>
named_theorems dict_simps \<open>lookup after update in ordered dictionaries\<close>

section \<open>Exceptions and fallible results\<close>

text \<open>One constructor per Python exception class that the modelled code raises.\<close>

datatype exc =
    ValueError string
  | TypeError string
  | KeyError string
  | LookupError string
  | PermissionError string
  | RuntimeError string
  | IntegrityError string
  | AttributeError string
  | AssertionError string
  | ZeroDivisionError string
  | OverflowError string
  | OperationalError string
  | SecretPlaneError string
  | SecretAccessDenied string
  | SecretNotAvailable string
  | SecretExposureError string
  | ProjectionUnavailable string
  | ApprovalSealError string
  | HumanAuthorityError string
  | PublisherError string
  | JSONDecodeError

type_synonym 'a res = "exc + 'a"

text \<open>Sequencing: an exception skips the rest, as \<open>raise\<close> does.\<close>

definition res_bind :: "'a res \<Rightarrow> ('a \<Rightarrow> 'b res) \<Rightarrow> 'b res" where
  "res_bind m f = (case m of Inl e \<Rightarrow> Inl e | Inr x \<Rightarrow> f x)"

text \<open>\<open>if bad: raise e\<close>, as a step of a sequence.\<close>

definition raise_if :: "bool \<Rightarrow> exc \<Rightarrow> unit res" where
  "raise_if bad e = (if bad then Inl e else Inr ())"

text \<open>A \<open>for\<close> loop whose body may raise.\<close>

fun res_map :: "('a \<Rightarrow> 'b res) \<Rightarrow> 'a list \<Rightarrow> 'b list res" where
  "res_map f [] = Inr []"
| "res_map f (x # xs) = res_bind (f x) (\<lambda>y. res_bind (res_map f xs) (\<lambda>ys. Inr (y # ys)))"

fun res_fold :: "('a \<Rightarrow> 's \<Rightarrow> 's res) \<Rightarrow> 'a list \<Rightarrow> 's \<Rightarrow> 's res" where
  "res_fold f [] s = Inr s"
| "res_fold f (x # xs) s = res_bind (f x s) (res_fold f xs)"

lemma res_bind_Inl [simp, res_simps]: "res_bind (Inl e) f = Inl e"
  by (simp add: res_bind_def)

lemma res_bind_Inr [simp, res_simps]: "res_bind (Inr x) f = f x"
  by (simp add: res_bind_def)

lemma res_bind_eq_Inr [res_simps]:
  "res_bind m f = Inr y \<longleftrightarrow> (\<exists>x. m = Inr x \<and> f x = Inr y)"
  by (cases m) auto

lemma res_bind_eq_Inl:
  "res_bind m f = Inl e \<longleftrightarrow> m = Inl e \<or> (\<exists>x. m = Inr x \<and> f x = Inl e)"
  by (cases m) auto

lemma res_bind_InrE [elim!]:
  assumes "res_bind m f = Inr y"
  obtains x where "m = Inr x" and "f x = Inr y"
  using assms by (auto simp: res_bind_eq_Inr)

lemma raise_if_eq_Inr [simp, res_simps]: "raise_if bad e = Inr u \<longleftrightarrow> \<not> bad"
  by (simp add: raise_if_def)

lemma raise_if_eq_Inl [simp, res_simps]: "raise_if bad e = Inl e' \<longleftrightarrow> bad \<and> e' = e"
  by (auto simp: raise_if_def)

lemma raise_if_True [simp]: "raise_if True e = Inl e"
  by (simp add: raise_if_def)

lemma raise_if_False [simp]: "raise_if False e = Inr ()"
  by (simp add: raise_if_def)

text \<open>The invariant rule of a loop that may raise.\<close>

lemma res_fold_invariant:
  assumes "res_fold f xs s = Inr s'" and "P s"
    and "\<And>x t t'. x \<in> set xs \<Longrightarrow> P t \<Longrightarrow> f x t = Inr t' \<Longrightarrow> P t'"
  shows "P s'"
  using assms
proof (induction xs arbitrary: s)
  case Nil
  then show ?case by simp
next
  case (Cons x xs)
  from Cons.prems(1) obtain t where t: "f x s = Inr t" "res_fold f xs t = Inr s'" by auto
  have "P t" using Cons.prems(2,3) t(1) by (meson list.set_intros(1))
  with t(2) show ?case using Cons.prems(3) by (intro Cons.IH) auto
qed

lemma res_map_length: "res_map f xs = Inr ys \<Longrightarrow> length ys = length xs"
  by (induction xs arbitrary: ys) auto

section \<open>Strings\<close>

text \<open>\<open>str.isspace\<close> on the code points U+0000 to U+00FF.\<close>

definition is_space :: "char \<Rightarrow> bool" where
  "is_space c = (let n = of_char c :: nat in
     (9 \<le> n \<and> n \<le> 13) \<or> (28 \<le> n \<and> n \<le> 32) \<or> n = 133 \<or> n = 160)"

text \<open>\<open>str.strip()\<close>.\<close>

definition strip :: "string \<Rightarrow> string" where
  "strip s = rev (dropWhile is_space (rev (dropWhile is_space s)))"

text \<open>
  \<open>str.lower()\<close> and \<open>str.upper()\<close>. Both act letter by letter on U+0000 to U+00FF but for
  two facts of \<open>upper\<close>: sharp s (U+00DF) becomes \<open>SS\<close>, and the micro sign (U+00B5)
  and y with diaeresis (U+00FF) have upper-case forms above U+00FF; they are left as they
  are.
\<close>

definition lower_char :: "char \<Rightarrow> char" where
  "lower_char c = (let n = of_char c :: nat in
     if (65 \<le> n \<and> n \<le> 90) \<or> (192 \<le> n \<and> n \<le> 222 \<and> n \<noteq> 215) then char_of (n + 32) else c)"

definition lower :: "string \<Rightarrow> string" where
  "lower s = map lower_char s"

definition upper_char :: "char \<Rightarrow> string" where
  "upper_char c = (let n = of_char c :: nat in
     if n = 223 then ''SS''
     else if (97 \<le> n \<and> n \<le> 122) \<or> (224 \<le> n \<and> n \<le> 254 \<and> n \<noteq> 247) then [char_of (n - 32)]
     else [c])"

definition upper :: "string \<Rightarrow> string" where
  "upper s = concat (map upper_char s)"

text \<open>\<open>sep.join(parts)\<close>.\<close>

fun join :: "string \<Rightarrow> string list \<Rightarrow> string" where
  "join sep [] = ''''"
| "join sep [x] = x"
| "join sep (x # y # ys) = x @ sep @ join sep (y # ys)"

text \<open>\<open>str(n)\<close> for an \<open>int\<close>.\<close>

definition digit_char :: "nat \<Rightarrow> char" where
  "digit_char d = ''0123456789'' ! d"

fun nat_text :: "nat \<Rightarrow> string" where
  "nat_text n = (if n < 10 then [digit_char n] else nat_text (n div 10) @ [digit_char (n mod 10)])"

declare nat_text.simps [simp del]

definition int_text :: "int \<Rightarrow> string" where
  "int_text i = (if i < 0 then CHR ''-'' # nat_text (nat (- i)) else nat_text (nat i))"

text \<open>\<open>"0" .. "9"\<close> and \<open>"a" .. "f"\<close>, and the regular expression \<open>[0-9a-f]{n}\<close> under
  \<open>fullmatch\<close>.\<close>

definition is_digit :: "char \<Rightarrow> bool" where
  "is_digit c = (let n = of_char c :: nat in 48 \<le> n \<and> n \<le> 57)"

definition is_hex_lower :: "char \<Rightarrow> bool" where
  "is_hex_lower c = (let n = of_char c :: nat in (48 \<le> n \<and> n \<le> 57) \<or> (97 \<le> n \<and> n \<le> 102))"

definition hex_lower_n :: "nat \<Rightarrow> string \<Rightarrow> bool" where
  "hex_lower_n k s = (length s = k \<and> list_all is_hex_lower s)"

text \<open>\<open>str.encode("utf-8")\<close>.\<close>

type_synonym byte = "8 word"

definition utf8_char :: "char \<Rightarrow> byte list" where
  "utf8_char c = (let n = of_char c :: nat in
     if n < 128 then [of_nat n] else [of_nat (192 + n div 64), of_nat (128 + n mod 64)])"

definition utf8 :: "string \<Rightarrow> byte list" where
  "utf8 s = concat (map utf8_char s)"

text \<open>
  \<open>bytes.decode("utf-8")\<close>. \<open>None\<close> stands for bytes that are no UTF-8, and for a text with code
  points above U+00FF, which occurs in no text of the model.
\<close>

fun utf8_decode :: "byte list \<Rightarrow> string option" where
  "utf8_decode [] = Some ''''"
| "utf8_decode (b # bs) =
     (if unat b < 128 then map_option ((#) (char_of (unat b))) (utf8_decode bs)
      else (case bs of
          [] \<Rightarrow> None
        | c # cs \<Rightarrow>
            if (unat b = 194 \<or> unat b = 195) \<and> 128 \<le> unat c \<and> unat c < 192
            then map_option ((#) (char_of ((unat b - 192) * 64 + (unat c - 128)))) (utf8_decode cs)
            else None))"

text \<open>\<open>part in whole\<close> for texts and bytes.\<close>

fun starts_with :: "'a list \<Rightarrow> 'a list \<Rightarrow> bool" where
  "starts_with [] w = True"
| "starts_with (p # ps) (c # cs) = (p = c \<and> starts_with ps cs)"
| "starts_with (p # ps) [] = False"

fun occurs_in :: "'a list \<Rightarrow> 'a list \<Rightarrow> bool" where
  "occurs_in p [] = (p = [])"
| "occurs_in p (c # cs) = (starts_with p (c # cs) \<or> occurs_in p cs)"

text \<open>The code points a string holds are all ASCII.\<close>

definition is_ascii :: "string \<Rightarrow> bool" where
  "is_ascii s = list_all (\<lambda>c. (of_char c :: nat) < 128) s"

text \<open>
  \<open>hmac.compare_digest(a, b)\<close> on two \<open>str\<close> arguments: it raises \<open>TypeError\<close> unless both
  are ASCII, and otherwise is their equality.
\<close>

definition compare_digest :: "string \<Rightarrow> string \<Rightarrow> bool res" where
  "compare_digest a b =
     (if is_ascii a \<and> is_ascii b then Inr (a = b)
      else Inl (TypeError ''comparing strings with non-ASCII characters is not supported''))"

text \<open>\<open>not isinstance(value, str) or not value.strip()\<close> for a value known to be a string.\<close>

definition blank :: "string \<Rightarrow> bool" where
  "blank s = (strip s = '''')"

definition require_text :: "string \<Rightarrow> string \<Rightarrow> unit res" where
  "require_text s name = raise_if (blank s) (ValueError (name @ '' must be a non-empty string''))"

lemma blank_iff: "blank s \<longleftrightarrow> list_all is_space s"
proof
  assume "blank s"
  then have "dropWhile is_space s = []"
  proof -
    have "dropWhile is_space (rev (dropWhile is_space s)) = []"
      using \<open>blank s\<close> by (simp add: blank_def strip_def)
    then have "\<forall>c \<in> set (dropWhile is_space s). is_space c" by simp
    then show ?thesis
      by (metis hd_dropWhile hd_in_set)
  qed
  then show "list_all is_space s" by (simp add: list_all_iff)
next
  assume "list_all is_space s"
  then have "\<forall>c \<in> set (dropWhile is_space s). is_space c"
    by (meson list_all_iff set_dropWhileD)
  then show "blank s" by (simp add: blank_def strip_def)
qed

lemma blank_Nil [simp]: "blank ''''"
  by (simp add: blank_iff)

lemma not_blank_nonempty: "\<not> blank s \<Longrightarrow> s \<noteq> ''''"
  by auto

lemma strip_idem: "strip (strip s) = strip s"
proof -
  define t where "t = dropWhile is_space s"
  define u where "u = dropWhile is_space (rev t)"
  have u: "strip s = rev u" by (simp add: strip_def t_def u_def)
  have dd: "dropWhile is_space u = u" by (simp add: u_def)
  have "dropWhile is_space (rev u) = rev u"
  proof (cases "rev u")
    case Nil
    then show ?thesis by simp
  next
    case (Cons a r)
    obtain w where w: "rev t = w @ u" unfolding u_def by (metis takeWhile_dropWhile_id)
    then have "t = rev u @ rev w" by (metis rev_append rev_rev_ident)
    then have "hd t = a" and "t \<noteq> []" using Cons by auto
    then have "\<not> is_space a" using hd_dropWhile [of is_space s] by (auto simp: t_def)
    then show ?thesis using Cons by simp
  qed
  then show ?thesis unfolding u by (simp add: strip_def [of "rev u"] dd)
qed

lemma blank_strip [simp]: "blank (strip s) \<longleftrightarrow> blank s"
  by (simp add: blank_def strip_idem)

section \<open>Insertion-ordered dictionaries\<close>

text \<open>
  A Python \<open>dict\<close> is an association list with distinct keys, in insertion order. Storing
  under a new key appends, storing under a present key keeps its position: that is
  \<open>AList.update\<close>. Reading is \<open>map_of\<close>.
\<close>

type_synonym ('k, 'v) dict = "('k \<times> 'v) list"

definition dict_ok :: "('k, 'v) dict \<Rightarrow> bool" where
  "dict_ok d = distinct (map fst d)"

definition dict_set :: "('k, 'v) dict \<Rightarrow> 'k \<Rightarrow> 'v \<Rightarrow> ('k, 'v) dict" where
  "dict_set d k v = AList.update k v d"

lemma dict_ok_Nil [simp]: "dict_ok []"
  by (simp add: dict_ok_def)

lemma dict_ok_set [intro, simp]: "dict_ok d \<Longrightarrow> dict_ok (dict_set d k v)"
  by (simp add: dict_ok_def dict_set_def distinct_update)

lemma map_of_dict_set [simp, dict_simps]: "map_of (dict_set d k v) = (map_of d)(k \<mapsto> v)"
  by (simp add: dict_set_def update_conv')

lemma dict_keys_set [simp, dict_simps]:
  "set (map fst (dict_set d k v)) = insert k (set (map fst d))"
  by (metis dom_map_of_conv_image_fst dom_fun_upd list.set_map map_of_dict_set option.distinct(1))

lemma set_dict_set: "set (dict_set d k v) \<subseteq> insert (k, v) (set d)"
  unfolding dict_set_def by (induction d) auto

lemma dict_set_new: "k \<notin> set (map fst d) \<Longrightarrow> dict_set d k v = d @ [(k, v)]"
  unfolding dict_set_def by (induction d) auto

section \<open>Texts and bytes\<close>

lemma starts_with_iff: "starts_with p w \<longleftrightarrow> (\<exists>r. w = p @ r)"
  by (induction p w rule: starts_with.induct) auto

lemma occurs_in_iff: "occurs_in p w \<longleftrightarrow> (\<exists>a b. w = a @ p @ b)"
proof (induction p w rule: occurs_in.induct)
  case (2 p c cs)
  have "(\<exists>a b. c # cs = a @ p @ b) \<longleftrightarrow> (\<exists>b. c # cs = p @ b) \<or> (\<exists>a b. cs = a @ p @ b)"
    by (metis append_Cons append_Nil list.exhaust list.inject)
  then show ?case using 2 by (simp add: starts_with_iff)
qed auto

lemma char_byte_small: "(of_char c :: nat) < 128 \<Longrightarrow> utf8_decode (utf8_char c @ bs) = map_option ((#) c) (utf8_decode bs)"
  by (simp add: utf8_char_def Let_def unat_of_nat take_bit_eq_mod)

lemma char_byte_large:
  assumes "\<not> (of_char c :: nat) < 128"
  shows "utf8_decode (utf8_char c @ bs) = map_option ((#) c) (utf8_decode bs)"
proof -
  define n where "n = (of_char c :: nat)"
  have n: "128 \<le> n" "n < 256" "char_of n = c" using assms by (simp_all add: n_def)
  then have d: "n div 64 = 2 \<or> n div 64 = 3" by linarith
  have m: "n mod 64 < 64" by simp
  have small: "unat (of_nat k :: byte) = k" if "k < 256" for k :: nat
    using that by (simp add: unat_of_nat take_bit_eq_mod)
  have hi: "unat (of_nat (192 + n div 64) :: byte) = 192 + n div 64" by (rule small) (use d in auto)
  have lo: "unat (of_nat (128 + n mod 64) :: byte) = 128 + n mod 64" by (rule small) (use m in linarith)
  have "(n div 64) * 64 + n mod 64 = n" by simp
  moreover have "utf8_char c = [of_nat (192 + n div 64), of_nat (128 + n mod 64)]"
    using n(1) by (simp add: utf8_char_def Let_def n_def [symmetric])
  ultimately show ?thesis
    using d m n(3) by (auto simp only: append_Cons append_Nil utf8_decode.simps list.case hi lo split: if_split) auto
qed

text \<open>Decoding undoes encoding.\<close>

lemma utf8_decode_encode: "utf8_decode (utf8 s) = Some s"
proof (induction s)
  case (Cons c s)
  have "utf8_decode (utf8_char c @ utf8 s) = map_option ((#) c) (utf8_decode (utf8 s))"
    using char_byte_small char_byte_large by blast
  then show ?case using Cons by (simp add: utf8_def)
qed (simp add: utf8_def)

end
