(* ===== verification/Sha256.thy ===== *)
theory Sha256
  imports Prelude
begin

text \<open>
  The part of Python's \<open>hashlib\<close>, \<open>hmac\<close> and \<open>bytes\<close> that the bridge uses: SHA-256 on
  32-bit words, HMAC-SHA256, \<open>bytes.hex\<close> and \<open>bytes.fromhex\<close>. The functions are
  executable; \<open>sha256_abc\<close> checks the published digest of \<open>"abc"\<close>. The lemmas give
  what callers rely on: a digest has 32 bytes, its text is 64 lower-case hexadecimal
  characters and hence ASCII, and \<open>fromhex\<close> inverts \<open>hex\<close>. No claim of collision
  resistance is made here; theorems that need it name the finite set of texts on which
  the digest must be injective.
\<close>

unbundle bit_operations_syntax

type_synonym w32 = "32 word"

section \<open>The compression function\<close>

text \<open>Rotation to the right by \<open>n\<close> (0 < n < 32): the \<open>n\<close> low bits move to the top.\<close>

definition rotr :: "nat \<Rightarrow> w32 \<Rightarrow> w32" where
  "rotr n x = drop_bit n x OR push_bit (32 - n) (take_bit n x)"

definition add32 :: "w32 \<Rightarrow> w32 \<Rightarrow> w32" where
  "add32 x y = x + y"

definition big_sigma0 :: "w32 \<Rightarrow> w32" where
  "big_sigma0 x = rotr 2 x XOR rotr 13 x XOR rotr 22 x"

definition big_sigma1 :: "w32 \<Rightarrow> w32" where
  "big_sigma1 x = rotr 6 x XOR rotr 11 x XOR rotr 25 x"

definition small_sigma0 :: "w32 \<Rightarrow> w32" where
  "small_sigma0 x = rotr 7 x XOR rotr 18 x XOR drop_bit 3 x"

definition small_sigma1 :: "w32 \<Rightarrow> w32" where
  "small_sigma1 x = rotr 17 x XOR rotr 19 x XOR drop_bit 10 x"

definition bit_choice :: "w32 \<Rightarrow> w32 \<Rightarrow> w32 \<Rightarrow> w32" where
  "bit_choice x y z = (x AND y) XOR ((NOT x) AND z)"

definition bit_majority :: "w32 \<Rightarrow> w32 \<Rightarrow> w32 \<Rightarrow> w32" where
  "bit_majority x y z = (x AND y) XOR (x AND z) XOR (y AND z)"

definition round_constants :: "w32 list" where
  "round_constants =
    [1116352408, 1899447441, 3049323471, 3921009573, 961987163, 1508970993, 2453635748,
     2870763221, 3624381080, 310598401, 607225278, 1426881987, 1925078388, 2162078206,
     2614888103, 3248222580, 3835390401, 4022224774, 264347078, 604807628, 770255983,
     1249150122, 1555081692, 1996064986, 2554220882, 2821834349, 2952996808, 3210313671,
     3336571891, 3584528711, 113926993, 338241895, 666307205, 773529912, 1294757372,
     1396182291, 1695183700, 1986661051, 2177026350, 2456956037, 2730485921, 2820302411,
     3259730800, 3345764771, 3516065817, 3600352804, 4094571909, 275423344, 430227734,
     506948616, 659060556, 883997877, 958139571, 1322822218, 1537002063, 1747873779,
     1955562222, 2024104815, 2227730452, 2361852424, 2428436474, 2756734187, 3204031479,
     3329325298]"

datatype hash_words = HW w32 w32 w32 w32 w32 w32 w32 w32

definition initial_words :: hash_words where
  "initial_words = HW 1779033703 3144134277 1013904242 2773480762
                      1359893119 2600822924 528734635 1541459225"

text \<open>The message schedule: a window of the last 16 words, one word out per step.\<close>

fun schedule :: "nat \<Rightarrow> w32 list \<Rightarrow> w32 list" where
  "schedule 0 win = []"
| "schedule (Suc n) win = hd win # schedule n (tl win @
     [add32 (add32 (small_sigma1 (win ! 14)) (win ! 9)) (add32 (small_sigma0 (win ! 1)) (win ! 0))])"

fun hash_round :: "hash_words \<Rightarrow> w32 \<times> w32 \<Rightarrow> hash_words" where
  "hash_round (HW a b c d e f g h) (k, w) =
    (let t1 = add32 (add32 (add32 h (big_sigma1 e)) (add32 (bit_choice e f g) k)) w;
         t2 = add32 (big_sigma0 a) (bit_majority a b c)
     in HW (add32 t1 t2) a b c (add32 d t1) e f g)"

fun add_words :: "hash_words \<Rightarrow> hash_words \<Rightarrow> hash_words" where
  "add_words (HW a b c d e f g h) (HW a' b' c' d' e' f' g' h') =
    HW (add32 a a') (add32 b b') (add32 c c') (add32 d d')
       (add32 e e') (add32 f f') (add32 g g') (add32 h h')"

fun words_of_bytes :: "byte list \<Rightarrow> w32 list" where
  "words_of_bytes (a # b # c # d # r) =
     (push_bit 24 (ucast a) OR push_bit 16 (ucast b) OR push_bit 8 (ucast c) OR ucast d) # words_of_bytes r"
| "words_of_bytes _ = []"

definition compress_block :: "hash_words \<Rightarrow> byte list \<Rightarrow> hash_words" where
  "compress_block s blk =
     add_words s (foldl hash_round s (zip round_constants (schedule 64 (words_of_bytes blk))))"

fun hash_blocks :: "nat \<Rightarrow> byte list \<Rightarrow> hash_words \<Rightarrow> hash_words" where
  "hash_blocks 0 bs s = s"
| "hash_blocks (Suc n) bs s = hash_blocks n (drop 64 bs) (compress_block s (take 64 bs))"

text \<open>The \<open>k\<close> big-endian bytes of \<open>n\<close>.\<close>

fun bytes_be :: "nat \<Rightarrow> nat \<Rightarrow> byte list" where
  "bytes_be 0 n = []"
| "bytes_be (Suc k) n = bytes_be k (n div 256) @ [of_nat (n mod 256)]"

definition pad_message :: "byte list \<Rightarrow> byte list" where
  "pad_message m = m @ [128] @ replicate (63 - (length m + 8) mod 64) 0 @ bytes_be 8 (8 * length m)"

fun digest_bytes :: "hash_words \<Rightarrow> byte list" where
  "digest_bytes (HW a b c d e f g h) =
     concat (map (\<lambda>w. bytes_be 4 (unat w)) [a, b, c, d, e, f, g, h])"

text \<open>\<open>hashlib.sha256(data).digest()\<close>.\<close>

definition sha256 :: "byte list \<Rightarrow> byte list" where
  "sha256 m = (let p = pad_message m in digest_bytes (hash_blocks (length p div 64) p initial_words))"

section \<open>Hexadecimal text\<close>

definition hex_digit :: "nat \<Rightarrow> char" where
  "hex_digit n = ''0123456789abcdef'' ! n"

definition byte_hex :: "byte \<Rightarrow> string" where
  "byte_hex b = [hex_digit (unat b div 16), hex_digit (unat b mod 16)]"

text \<open>\<open>bytes.hex()\<close>.\<close>

definition bytes_hex :: "byte list \<Rightarrow> string" where
  "bytes_hex bs = concat (map byte_hex bs)"

definition hex_value :: "char \<Rightarrow> nat option" where
  "hex_value c = (let n = of_char c :: nat in
     if 48 \<le> n \<and> n \<le> 57 then Some (n - 48)
     else if 97 \<le> n \<and> n \<le> 102 then Some (n - 87)
     else if 65 \<le> n \<and> n \<le> 70 then Some (n - 55)
     else None)"

text \<open>
  \<open>bytes.fromhex(text)\<close> on a text with no white space between the digits, which is
  how the modelled code calls it: \<open>None\<close> is its \<open>ValueError\<close>.
\<close>

fun bytes_fromhex :: "string \<Rightarrow> byte list option" where
  "bytes_fromhex [] = Some []"
| "bytes_fromhex [c] = None"
| "bytes_fromhex (c # d # r) =
     (case (hex_value c, hex_value d, bytes_fromhex r) of
        (Some x, Some y, Some bs) \<Rightarrow> Some (of_nat (16 * x + y) # bs)
      | _ \<Rightarrow> None)"

text \<open>\<open>sha256(text.encode("utf-8")).hexdigest()\<close>, the digest of a text.\<close>

definition sha256_text :: "string \<Rightarrow> string" where
  "sha256_text s = bytes_hex (sha256 (utf8 s))"

text \<open>\<open>hmac.new(key, msg, hashlib.sha256).hexdigest()\<close>.\<close>

definition hmac_key :: "byte list \<Rightarrow> byte list" where
  "hmac_key k = (let k' = (if length k > 64 then sha256 k else k) in k' @ replicate (64 - length k') 0)"

definition hmac_sha256 :: "byte list \<Rightarrow> byte list \<Rightarrow> byte list" where
  "hmac_sha256 key msg = (let k = hmac_key key in
     sha256 (map (\<lambda>b. b XOR 92) k @ sha256 (map (\<lambda>b. b XOR 54) k @ msg)))"

definition hmac_text :: "string \<Rightarrow> string \<Rightarrow> string" where
  "hmac_text key msg = bytes_hex (hmac_sha256 (utf8 key) (utf8 msg))"

section \<open>Lengths and alphabets\<close>

lemma length_bytes_be [simp]: "length (bytes_be k n) = k"
  by (induction k arbitrary: n) auto

lemma length_digest_bytes [simp]: "length (digest_bytes w) = 32"
  by (cases w) simp

lemma length_sha256 [simp]: "length (sha256 m) = 32"
  by (simp add: sha256_def Let_def)

lemma length_hmac_sha256 [simp]: "length (hmac_sha256 k m) = 32"
  by (simp add: hmac_sha256_def Let_def)

lemma length_bytes_hex [simp]: "length (bytes_hex bs) = 2 * length bs"
  by (induction bs) (auto simp: bytes_hex_def byte_hex_def)

lemma hex_digit_table:
  "list_all (\<lambda>n. is_hex_lower (hex_digit n) \<and> hex_value (hex_digit n) = Some n) [0..<16]"
  by code_simp

lemma hex_digit_lower: "n < 16 \<Longrightarrow> is_hex_lower (hex_digit n)"
  using hex_digit_table by (simp add: list_all_iff)

lemma byte_bounds: "unat (b :: byte) div 16 < 16" "unat b mod 16 < 16"
proof -
  have "unat b < 2 ^ 8" using unsigned_less [of b] by simp
  then show "unat b div 16 < 16" by simp
qed simp

lemma bytes_hex_lower: "list_all is_hex_lower (bytes_hex bs)"
  by (induction bs) (auto simp: bytes_hex_def byte_hex_def hex_digit_lower byte_bounds)

lemma sha256_text_hex: "hex_lower_n 64 (sha256_text s)"
  by (simp add: hex_lower_n_def sha256_text_def bytes_hex_lower)

lemma hmac_text_hex: "hex_lower_n 64 (hmac_text k m)"
  by (simp add: hex_lower_n_def hmac_text_def bytes_hex_lower)

lemma hex_lower_ascii: "hex_lower_n k s \<Longrightarrow> is_ascii s"
  by (auto simp: hex_lower_n_def is_ascii_def list_all_iff is_hex_lower_def Let_def)

lemma sha256_text_ascii [simp]: "is_ascii (sha256_text s)"
  by (rule hex_lower_ascii [OF sha256_text_hex])

lemma hmac_text_ascii [simp]: "is_ascii (hmac_text k m)"
  by (rule hex_lower_ascii [OF hmac_text_hex])

lemma length_sha256_text [simp]: "length (sha256_text s) = 64"
  using sha256_text_hex by (simp add: hex_lower_n_def)

lemma length_hmac_text [simp]: "length (hmac_text k m) = 64"
  using hmac_text_hex by (simp add: hex_lower_n_def)

lemma sha256_text_nonempty [simp]: "sha256_text s \<noteq> ''''"
  using length_sha256_text [of s] by (metis length_0_conv zero_neq_numeral)

lemma hex_value_digit: "n < 16 \<Longrightarrow> hex_value (hex_digit n) = Some n"
  using hex_digit_table by (simp add: list_all_iff)

lemma bytes_fromhex_hex [simp]: "bytes_fromhex (bytes_hex bs) = Some bs"
proof (induction bs)
  case Nil
  then show ?case by (simp add: bytes_hex_def)
next
  case (Cons b bs)
  have "of_nat (16 * (unat b div 16) + unat b mod 16) = b" by simp
  moreover have "bytes_hex (b # bs) = hex_digit (unat b div 16) # hex_digit (unat b mod 16) # bytes_hex bs"
    by (simp add: bytes_hex_def byte_hex_def)
  ultimately show ?case using Cons by (simp add: hex_value_digit byte_bounds del: of_nat_add of_nat_mult)
qed

lemma bytes_hex_inj: "bytes_hex a = bytes_hex b \<Longrightarrow> a = b"
  by (metis bytes_fromhex_hex option.inject)

section \<open>UTF-8 is injective\<close>

lemma utf8_char_head:
  "(of_char c :: nat) < 128 \<Longrightarrow> utf8_char c = [of_nat (of_char c)]"
  "\<not> (of_char c :: nat) < 128 \<Longrightarrow>
     utf8_char c = [of_nat (192 + of_char c div 64), of_nat (128 + of_char c mod 64)]"
  by (simp_all add: utf8_char_def Let_def)

lemma of_char_less_256: "(of_char c :: nat) < 256"
  by (rule nat_of_char_less_256)

lemma byte_of_nat_eq:
  assumes "m < 256" and "n < 256" and "(of_nat m :: byte) = of_nat n"
  shows "m = n"
proof -
  have "unat (of_nat m :: byte) = unat (of_nat n :: byte)" using assms(3) by simp
  with assms(1,2) show ?thesis by (simp add: unat_of_nat)
qed

lemma utf8_char_append_inj:
  assumes "utf8_char c @ u = utf8_char d @ v"
  shows "c = d \<and> u = v"
proof -
  define m n where "m = (of_char c :: nat)" and "n = (of_char d :: nat)"
  have b: "m < 256" "n < 256" by (simp_all add: m_def n_def of_char_less_256)
  have hd: "hd (utf8_char c) = hd (utf8_char d)"
    using assms by (metis hd_append2 list.distinct(1) utf8_char_head)
  have first: "hd (utf8_char x) = of_nat (if (of_char x :: nat) < 128 then of_char x else 192 + of_char x div 64)" for x
    by (simp add: utf8_char_def Let_def)
  have eq1: "(if m < 128 then m else 192 + m div 64) = (if n < 128 then n else 192 + n div 64)"
    using hd b unfolding first m_def [symmetric] n_def [symmetric]
    by (intro byte_of_nat_eq) auto
  show ?thesis
  proof (cases "m < 128")
    case True
    then have "m = n" using eq1 by (simp split: if_splits)
    then have "c = d" by (simp add: m_def n_def)
    then show ?thesis using assms by simp
  next
    case False
    then have n: "\<not> n < 128" and div: "m div 64 = n div 64"
      using eq1 by (auto split: if_splits)
    have "(of_nat (128 + m mod 64) :: byte) = of_nat (128 + n mod 64)"
      using assms False n by (simp add: utf8_char_head m_def n_def)
    then have "m mod 64 = n mod 64"
      using byte_of_nat_eq [of "128 + m mod 64" "128 + n mod 64"] by simp
    with div have "m = n" by (metis div_mult_mod_eq)
    then have "c = d" by (simp add: m_def n_def)
    then show ?thesis using assms by simp
  qed
qed

lemma utf8_inj: "utf8 s = utf8 t \<Longrightarrow> s = t"
proof (induction s arbitrary: t)
  case Nil
  then show ?case by (cases t) (auto simp: utf8_def utf8_char_def Let_def split: if_splits)
next
  case (Cons c s)
  then obtain d t' where t: "t = d # t'"
    by (cases t) (auto simp: utf8_def utf8_char_def Let_def split: if_splits)
  with Cons.prems have "utf8_char c @ utf8 s = utf8_char d @ utf8 t'" by (simp add: utf8_def)
  then show ?case using utf8_char_append_inj Cons.IH t by blast
qed

section \<open>Evaluation of digests by the simplifier\<close>

text \<open>
  The rules that unfold the functions above at numerals one step at a time; with them
  \<open>simp\<close> computes the digest of a literal text of one block.
\<close>

lemma add32_eval:
  "add32 0 x = x" "add32 x 0 = x" "add32 1 1 = 2"
  "add32 (numeral a) (numeral b) = of_nat ((numeral a + numeral b) mod 4294967296)"
  "add32 1 (numeral b) = of_nat ((1 + numeral b) mod 4294967296)"
  "add32 (numeral b) 1 = of_nat ((1 + numeral b) mod 4294967296)"
proof -
  have wrap: "(of_nat (k mod 4294967296) :: w32) = of_nat k" for k
    by (simp add: word_of_nat_eq_iff take_bit_eq_mod)
  show "add32 0 x = x" "add32 x 0 = x" "add32 1 1 = 2"
    "add32 (numeral a) (numeral b) = of_nat ((numeral a + numeral b) mod 4294967296)"
    "add32 1 (numeral b) = of_nat ((1 + numeral b) mod 4294967296)"
    "add32 (numeral b) 1 = of_nat ((1 + numeral b) mod 4294967296)"
    unfolding wrap by (simp_all add: add32_def add_One_commute)
qed

lemma schedule_eval:
  "schedule (numeral k) win = hd win # schedule (pred_numeral k) (tl win @
     [add32 (add32 (small_sigma1 (win ! 14)) (win ! 9)) (add32 (small_sigma0 (win ! 1)) (win ! 0))])"
  by (simp only: numeral_eq_Suc schedule.simps)

lemma bytes_be_eval:
  "bytes_be (numeral k) n = bytes_be (pred_numeral k) (n div 256) @ [of_nat (n mod 256)]"
  by (simp only: numeral_eq_Suc bytes_be.simps)

lemma hash_blocks_eval:
  "hash_blocks (numeral k) bs s = hash_blocks (pred_numeral k) (drop 64 bs) (compress_block s (take 64 bs))"
  by (simp only: numeral_eq_Suc hash_blocks.simps)

lemma replicate_eval: "replicate (numeral k) x = x # replicate (pred_numeral k) x"
  by (simp only: numeral_eq_Suc replicate_Suc)

lemmas sha256_eval =
  add32_eval schedule_eval bytes_be_eval hash_blocks_eval replicate_eval
  rotr_def big_sigma0_def big_sigma1_def small_sigma0_def small_sigma1_def
  bit_choice_def bit_majority_def round_constants_def initial_words_def
  compress_block_def pad_message_def sha256_def Let_def

lemma sha256_abc:
  "sha256_text ''abc'' = ''ba7816bf8f01cfea414140de5dae2223b00361a396177a9cb410ff61f20015ad''"
  by (simp add: sha256_text_def sha256_eval utf8_def utf8_char_def bytes_hex_def byte_hex_def hex_digit_def)

end
