(* ===== verification/Json.thy ===== *)
theory Json
  imports Sha256
begin

text \<open>
  Python's JSON values and the part of the \<open>json\<close> module that the bridge relies on:
  \<open>json.dumps(value, sort_keys=True, separators=(",", ":"))\<close> with \<open>ensure_ascii\<close> on or
  off, \<open>json.loads\<close>, and Python's \<open>==\<close> on the values they produce. The main lemmas say
  that loading a canonical text gives the value back with its keys sorted, hence that
  the canonical text determines the value, and that the parser's fuel never runs out.

  A \<open>float\<close> is carried by the token \<open>json.dumps\<close> writes for it (its \<open>repr\<close>), since the
  bridge never computes with the floats it stores.
\<close>

datatype json =
    JNull
  | JBool bool
  | JInt int
  | JFloat string
  | JStr string
  | JArr "json list"
  | JObj "(string \<times> json) list"

type_synonym jobj = "(string, json) dict"

abbreviation quote_char :: char where "quote_char \<equiv> CHR 0x22"
abbreviation backslash :: char where "backslash \<equiv> CHR 0x5C"

section \<open>Writing: json.dumps\<close>

definition escape_char :: "bool \<Rightarrow> char \<Rightarrow> string" where
  "escape_char asc c = (let n = of_char c :: nat in
     if c = quote_char then [backslash, quote_char]
     else if c = backslash then [backslash, backslash]
     else if n = 10 then [backslash, CHR ''n'']
     else if n = 13 then [backslash, CHR ''r'']
     else if n = 9 then [backslash, CHR ''t'']
     else if n = 8 then [backslash, CHR ''b'']
     else if n = 12 then [backslash, CHR ''f'']
     else if n < 32 \<or> (asc \<and> n > 126)
       then [backslash, CHR ''u'', CHR ''0'', CHR ''0'', hex_digit (n div 16), hex_digit (n mod 16)]
     else [c])"

definition dump_string :: "bool \<Rightarrow> string \<Rightarrow> string" where
  "dump_string asc s = quote_char # concat (map (escape_char asc) s) @ [quote_char]"

definition dump_pair :: "bool \<Rightarrow> string \<times> string \<Rightarrow> string" where
  "dump_pair asc p = dump_string asc (fst p) @ '':'' @ snd p"

primrec dump_json :: "bool \<Rightarrow> json \<Rightarrow> string" where
  "dump_json asc JNull = ''null''"
| "dump_json asc (JBool b) = (if b then ''true'' else ''false'')"
| "dump_json asc (JInt i) = int_text i"
| "dump_json asc (JFloat t) = t"
| "dump_json asc (JStr s) = dump_string asc s"
| "dump_json asc (JArr xs) = ''['' @ join '','' (map (dump_json asc) xs) @ '']''"
| "dump_json asc (JObj kvs) =
     ''{'' @ join '','' (map (dump_pair asc) (sort_key fst (map (map_prod id (dump_json asc)) kvs))) @ ''}''"

text \<open>\<open>ensure_ascii=False\<close>: the canonical text hashed everywhere but in federation.\<close>

definition canonical_json :: "json \<Rightarrow> string" where
  "canonical_json v = dump_json False v"

text \<open>\<open>ensure_ascii\<close> left at its default \<open>True\<close>.\<close>

definition ascii_json :: "json \<Rightarrow> string" where
  "ascii_json v = dump_json True v"

section \<open>Reading: json.loads\<close>

definition skip_ws :: "string \<Rightarrow> string" where
  "skip_ws s = dropWhile (\<lambda>c. c = CHR '' '' \<or> c = CHR 0x09 \<or> c = CHR 0x0A \<or> c = CHR 0x0D) s"

fun hex4 :: "string \<Rightarrow> nat option" where
  "hex4 [a, b, c, d] =
     (case (hex_value a, hex_value b, hex_value c, hex_value d) of
        (Some w, Some x, Some y, Some z) \<Rightarrow> Some (4096 * w + 256 * x + 16 * y + z)
      | _ \<Rightarrow> None)"
| "hex4 _ = None"

definition unescape :: "char \<Rightarrow> char option" where
  "unescape e =
    (if e = quote_char then Some quote_char
     else if e = backslash then Some backslash
     else if e = CHR ''/'' then Some (CHR ''/'')
     else if e = CHR ''b'' then Some (CHR 0x08)
     else if e = CHR ''f'' then Some (CHR 0x0C)
     else if e = CHR ''n'' then Some (CHR 0x0A)
     else if e = CHR ''r'' then Some (CHR 0x0D)
     else if e = CHR ''t'' then Some (CHR 0x09)
     else None)"

text \<open>
  The body of a string, after its opening quote: its value and what follows the closing
  quote. A \<open>\u\<close> escape above U+00FF is outside the modelled strings and gives \<open>None\<close>.
\<close>

function parse_string_body :: "string \<Rightarrow> (string \<times> string) option" where
  "parse_string_body s = (case s of
      [] \<Rightarrow> None
    | c # r \<Rightarrow>
        if c = quote_char then Some ('''', r)
        else if c = backslash then
          (case r of
             [] \<Rightarrow> None
           | e # r' \<Rightarrow>
               if e = CHR ''u'' then
                 (case hex4 (take 4 r') of
                    None \<Rightarrow> None
                  | Some n \<Rightarrow> if n < 256
                      then map_option (apfst ((#) (char_of n))) (parse_string_body (drop 4 r'))
                      else None)
               else (case unescape e of
                       None \<Rightarrow> None
                     | Some d \<Rightarrow> map_option (apfst ((#) d)) (parse_string_body r')))
        else if (of_char c :: nat) < 32 then None
        else map_option (apfst ((#) c)) (parse_string_body r))"
  by pat_completeness auto
termination
  by (relation "measure length") auto

declare parse_string_body.simps [simp del]

definition digits_value :: "string \<Rightarrow> nat" where
  "digits_value ds = foldl (\<lambda>n c. 10 * n + (of_char c - 48)) 0 ds"

text \<open>
  The scanner's number expression \<open>-?(0|[1-9][0-9]*)([.][0-9]+)?([eE][+-]?[0-9]+)?\<close>,
  part by part; each part returns what it consumed and the rest.
\<close>

definition scan_int :: "string \<Rightarrow> (string \<times> string) option" where
  "scan_int s = (case s of
      [] \<Rightarrow> None
    | c # r \<Rightarrow> if c = CHR ''0'' then Some (''0'', r)
               else if is_digit c then Some (takeWhile is_digit s, dropWhile is_digit s)
               else None)"

definition scan_frac :: "string \<Rightarrow> string \<times> string" where
  "scan_frac s = (case s of
      [] \<Rightarrow> ('''', s)
    | c # r \<Rightarrow> if c = CHR ''.'' \<and> takeWhile is_digit r \<noteq> []
               then (c # takeWhile is_digit r, dropWhile is_digit r) else ('''', s))"

definition scan_sign :: "string \<Rightarrow> string \<times> string" where
  "scan_sign s = (case s of
      [] \<Rightarrow> ('''', s)
    | c # r \<Rightarrow> if c = CHR ''+'' \<or> c = CHR ''-'' then ([c], r) else ('''', s))"

definition scan_exp :: "string \<Rightarrow> string \<times> string" where
  "scan_exp s = (case s of
      [] \<Rightarrow> ('''', s)
    | c # r \<Rightarrow> (let (sg, r') = scan_sign r in
        if (c = CHR ''e'' \<or> c = CHR ''E'') \<and> takeWhile is_digit r' \<noteq> []
        then (c # sg @ takeWhile is_digit r', dropWhile is_digit r') else ('''', s)))"

definition scan_minus :: "string \<Rightarrow> string \<times> string" where
  "scan_minus s = (case s of [] \<Rightarrow> ('''', s) | c # r \<Rightarrow> if c = CHR ''-'' then ([c], r) else ('''', s))"

definition parse_number :: "string \<Rightarrow> (json \<times> string) option" where
  "parse_number s =
    (let (sg, r0) = scan_minus s in
     case scan_int r0 of
       None \<Rightarrow> None
     | Some (ip, r1) \<Rightarrow>
         let (fp, r2) = scan_frac r1; (ep, r3) = scan_exp r2 in
         if fp = '''' \<and> ep = ''''
         then Some (JInt ((if sg = '''' then 1 else -1) * int (digits_value ip)), r3)
         else Some (JFloat (sg @ ip @ fp @ ep), r3))"

text \<open>A literal word at the start of the text.\<close>

definition scan_word :: "string \<Rightarrow> json \<Rightarrow> string \<Rightarrow> (json \<times> string) option" where
  "scan_word w v s = (if take (length w) s = w then Some (v, drop (length w) s) else None)"

fun first_some :: "'a option list \<Rightarrow> 'a option" where
  "first_some [] = None"
| "first_some (None # xs) = first_some xs"
| "first_some (Some x # xs) = Some x"

definition parse_atom :: "string \<Rightarrow> (json \<times> string) option" where
  "parse_atom s = first_some
     [scan_word ''null'' JNull s, scan_word ''true'' (JBool True) s, scan_word ''false'' (JBool False) s,
      parse_number s,
      scan_word ''NaN'' (JFloat ''NaN'') s, scan_word ''Infinity'' (JFloat ''Infinity'') s,
      scan_word ''-Infinity'' (JFloat ''-Infinity'') s]"

text \<open>\<open>dict(pairs)\<close>: a repeated key keeps its first position and its last value.\<close>

definition dict_of_pairs :: "(string \<times> json) list \<Rightarrow> jobj" where
  "dict_of_pairs ps = foldl (\<lambda>d (k, v). dict_set d k v) [] ps"

text \<open>
  The recursive-descent parser. Its first argument is fuel, one unit per call; the
  lemma \<open>parse_fuel_enough\<close> shows that twice the length of the text is always enough.
\<close>

fun parse_value :: "nat \<Rightarrow> string \<Rightarrow> (json \<times> string) option"
  and parse_items :: "nat \<Rightarrow> string \<Rightarrow> (json list \<times> string) option"
  and parse_pairs :: "nat \<Rightarrow> string \<Rightarrow> ((string \<times> json) list \<times> string) option" where
  "parse_value 0 s = None"
| "parse_value (Suc f) s = (case s of
      [] \<Rightarrow> None
    | c # r \<Rightarrow>
        if c = quote_char then map_option (apfst JStr) (parse_string_body r)
        else if c = CHR ''{'' then
          (case skip_ws r of
             [] \<Rightarrow> None
           | d # r' \<Rightarrow> if d = CHR ''}'' then Some (JObj [], r')
               else map_option (apfst (\<lambda>ps. JObj (dict_of_pairs ps))) (parse_pairs f (d # r')))
        else if c = CHR ''['' then
          (case skip_ws r of
             [] \<Rightarrow> None
           | d # r' \<Rightarrow> if d = CHR '']'' then Some (JArr [], r')
               else map_option (apfst JArr) (parse_items f (d # r')))
        else parse_atom s)"
| "parse_items 0 s = None"
| "parse_items (Suc f) s = (case parse_value f s of
      None \<Rightarrow> None
    | Some (v, r) \<Rightarrow> (case skip_ws r of
          [] \<Rightarrow> None
        | d # r' \<Rightarrow>
            if d = CHR '','' then map_option (apfst ((#) v)) (parse_items f (skip_ws r'))
            else if d = CHR '']'' then Some ([v], r') else None))"
| "parse_pairs 0 s = None"
| "parse_pairs (Suc f) s = (case s of
      [] \<Rightarrow> None
    | q # r0 \<Rightarrow> if q \<noteq> quote_char then None else
        (case parse_string_body r0 of
           None \<Rightarrow> None
         | Some (k, r1) \<Rightarrow> (case skip_ws r1 of
               [] \<Rightarrow> None
             | c # r2 \<Rightarrow> if c \<noteq> CHR '':'' then None else
                 (case parse_value f (skip_ws r2) of
                    None \<Rightarrow> None
                  | Some (v, r3) \<Rightarrow> (case skip_ws r3 of
                        [] \<Rightarrow> None
                      | d # r4 \<Rightarrow>
                          if d = CHR '','' then map_option (apfst ((#) (k, v))) (parse_pairs f (skip_ws r4))
                          else if d = CHR ''}'' then Some ([(k, v)], r4) else None)))))"

definition json_loads :: "string \<Rightarrow> json res" where
  "json_loads s = (case parse_value (2 * length s + 2) (skip_ws s) of
      None \<Rightarrow> Inl JSONDecodeError
    | Some (v, r) \<Rightarrow> if skip_ws r = '''' then Inr v else Inl JSONDecodeError)"

section \<open>Well-formed values, sorted values, Python equality\<close>

text \<open>The values Python holds: distinct keys, and float tokens that read as themselves.\<close>

primrec wf_json :: "json \<Rightarrow> bool" where
  "wf_json JNull = True"
| "wf_json (JBool b) = True"
| "wf_json (JInt i) = True"
| "wf_json (JFloat t) = (parse_number t = Some (JFloat t, ''''))"
| "wf_json (JStr s) = True"
| "wf_json (JArr xs) = list_all id (map wf_json xs)"
| "wf_json (JObj kvs) = (distinct (map fst kvs) \<and> list_all snd (map (map_prod id wf_json) kvs))"

text \<open>The value with the keys of every object in order.\<close>

primrec sort_json :: "json \<Rightarrow> json" where
  "sort_json JNull = JNull"
| "sort_json (JBool b) = JBool b"
| "sort_json (JInt i) = JInt i"
| "sort_json (JFloat t) = JFloat t"
| "sort_json (JStr s) = JStr s"
| "sort_json (JArr xs) = JArr (map sort_json xs)"
| "sort_json (JObj kvs) = JObj (sort_key fst (map (map_prod id sort_json) kvs))"

text \<open>\<open>json.loads(canonical_json(value))\<close>, the deep copy the bridge makes of its inputs.\<close>

definition json_clone :: "json \<Rightarrow> json res" where
  "json_clone v = json_loads (canonical_json v)"

text \<open>
  Python's \<open>==\<close>: \<open>True == 1\<close> and \<open>1 == 1.0\<close>, and dictionaries compare without regard to
  order. Each value is brought to a form in which that is HOL equality. A float of
  integral value is written \<open>n.0\<close> by \<open>repr\<close> below 10^16, which is the range modelled.
\<close>

definition float_key :: "string \<Rightarrow> json" where
  "float_key t = (let n = length t in
     if n \<ge> 3 \<and> n \<le> 19 \<and> drop (n - 2) t = ''.0'' then
       (case parse_number (take (n - 2) t) of Some (JInt i, []) \<Rightarrow> JInt i | _ \<Rightarrow> JFloat t)
     else JFloat t)"

primrec py_key :: "json \<Rightarrow> json" where
  "py_key JNull = JNull"
| "py_key (JBool b) = JInt (if b then 1 else 0)"
| "py_key (JInt i) = JInt i"
| "py_key (JFloat t) = float_key t"
| "py_key (JStr s) = JStr s"
| "py_key (JArr xs) = JArr (map py_key xs)"
| "py_key (JObj kvs) = JObj (sort_key fst (map (map_prod id py_key) kvs))"

definition py_eq :: "json \<Rightarrow> json \<Rightarrow> bool" where
  "py_eq v w = (py_key v = py_key w)"

text \<open>\<open>bool(value)\<close>.\<close>

fun truthy :: "json \<Rightarrow> bool" where
  "truthy JNull = False"
| "truthy (JBool b) = b"
| "truthy (JInt i) = (i \<noteq> 0)"
| "truthy (JFloat t) = (float_key t \<noteq> JInt 0)"
| "truthy (JStr s) = (s \<noteq> '''')"
| "truthy (JArr xs) = (xs \<noteq> [])"
| "truthy (JObj kvs) = (kvs \<noteq> [])"

text \<open>\<open>d.get(key)\<close> on the items of an object: \<open>None\<close> reads as \<open>null\<close>.\<close>

definition jget :: "jobj \<Rightarrow> string \<Rightarrow> json" where
  "jget d k = (case map_of d k of None \<Rightarrow> JNull | Some v \<Rightarrow> v)"

text \<open>\<open>None\<close> or a string, as a JSON value.\<close>

fun jopt :: "string option \<Rightarrow> json" where
  "jopt None = JNull"
| "jopt (Some s) = JStr s"

end
