(* ===== verification/Json_Roundtrip.thy ===== *)
theory Json_Roundtrip
  imports Json
begin

text \<open>
  Facts about the JSON model: every part of a canonical text is read back by the part of
  the parser that reads it, more fuel never changes a result and twice the length of the
  text is enough, and so loading a canonical text yields the value with sorted keys.
  \<open>canonical_json_determines\<close> is what the hash-binding properties of the other theories
  rest on: equal canonical texts come from equal values.
\<close>

section \<open>Strings\<close>

lemma char_of_code: "(of_char c :: nat) = n \<Longrightarrow> c = char_of n"
  by (metis char_of_char)

lemma hex4_low_byte:
  assumes "n < 256"
  shows "hex4 [CHR ''0'', CHR ''0'', hex_digit (n div 16), hex_digit (n mod 16)] = Some n"
proof -
  have "n div 16 < 16" using assms by simp
  moreover have "hex_value (CHR ''0'') = Some 0" by code_simp
  ultimately show ?thesis by (simp add: hex_value_digit)
qed

lemma parse_escaped_char:
  "parse_string_body (escape_char asc c @ t) = map_option (apfst ((#) c)) (parse_string_body t)"
proof -
  define n where "n = (of_char c :: nat)"
  have c: "c = char_of n" by (simp add: n_def)
  have n: "n < 256" by (simp add: n_def of_char_less_256)
  have ctrl: "char_of (10 :: nat) = CHR 0x0A" "char_of (13 :: nat) = CHR 0x0D"
    "char_of (9 :: nat) = CHR 0x09" "char_of (8 :: nat) = CHR 0x08" "char_of (12 :: nat) = CHR 0x0C"
    by code_simp+
  consider "c = quote_char" | "c = backslash"
    | "n \<in> {10, 13, 9, 8, 12}"
    | "c \<noteq> quote_char" "c \<noteq> backslash" "n \<notin> {10, 13, 9, 8, 12}" "n < 32 \<or> (asc \<and> n > 126)"
    | "c \<noteq> quote_char" "c \<noteq> backslash" "n \<notin> {10, 13, 9, 8, 12}" "\<not> (n < 32 \<or> (asc \<and> n > 126))"
    by blast
  then show ?thesis
  proof cases
    case 3
    then show ?thesis
      using c ctrl by (auto simp: escape_char_def n_def [symmetric] parse_string_body.simps [of "_ # _"] unescape_def)
  next
    case 4
    then have "escape_char asc c =
        [backslash, CHR ''u'', CHR ''0'', CHR ''0'', hex_digit (n div 16), hex_digit (n mod 16)]"
      by (auto simp: escape_char_def n_def [symmetric] Let_def)
    then show ?thesis
      using n c by (simp add: parse_string_body.simps [of "_ # _"] hex4_low_byte del: hex4.simps)
  next
    case 5
    then have "escape_char asc c = [c]"
      by (auto simp: escape_char_def n_def [symmetric] Let_def)
    with 5 show ?thesis
      by (auto simp: parse_string_body.simps [of "_ # _"] n_def [symmetric])
  qed (simp_all add: escape_char_def parse_string_body.simps [of "_ # _"] unescape_def)
qed

lemma parse_dumped_string:
  "parse_string_body (concat (map (escape_char asc) s) @ quote_char # r) = Some (s, r)"
  by (induction s) (simp_all add: parse_escaped_char, simp add: parse_string_body.simps)

section \<open>Numbers\<close>

text \<open>What can follow a value inside a canonical text: nothing, a comma or a closing bracket.\<close>

definition delimited :: "string \<Rightarrow> bool" where
  "delimited r = (r = '''' \<or> hd r \<in> {CHR '','', CHR '']'', CHR ''}''})"

lemma delimited_Cons [simp]:
  "delimited (CHR '','' # r)" "delimited (CHR '']'' # r)" "delimited (CHR ''}'' # r)" "delimited ''''"
  by (simp_all add: delimited_def)

lemma delimited_not_digit:
  assumes "delimited r" and "r = c # r'"
  shows "\<not> is_digit c" "c \<noteq> CHR ''.''" "c \<noteq> CHR ''e''" "c \<noteq> CHR ''E''" "c \<noteq> CHR ''+''" "c \<noteq> CHR ''-''" "c \<noteq> CHR ''0''"
  using assms by (auto simp: delimited_def is_digit_def)

lemma digits_split:
  assumes "delimited r"
  shows "takeWhile is_digit (s @ r) = takeWhile is_digit s"
    and "dropWhile is_digit (s @ r) = dropWhile is_digit s @ r"
proof -
  have "takeWhile is_digit r = []" "dropWhile is_digit r = r"
    using assms delimited_not_digit(1) by (cases r; fastforce)+
  then show "takeWhile is_digit (s @ r) = takeWhile is_digit s"
    and "dropWhile is_digit (s @ r) = dropWhile is_digit s @ r"
    by (induction s) auto
qed

lemma scan_frac_append:
  assumes "delimited r" and "scan_frac s = (a, b)"
  shows "scan_frac (s @ r) = (a, b @ r)"
proof (cases s)
  case Nil
  then show ?thesis
    using assms delimited_not_digit(2) by (cases r) (auto simp: scan_frac_def)
next
  case (Cons c s')
  then show ?thesis
    using assms by (auto simp: scan_frac_def digits_split split: if_splits)
qed

lemma scan_sign_append:
  assumes "delimited r" and "scan_sign s = (a, b)"
  shows "scan_sign (s @ r) = (a, b @ r)"
  using assms delimited_not_digit(5,6) by (cases s; cases r) (auto simp: scan_sign_def split: if_splits)

lemma scan_exp_append:
  assumes "delimited r" and "scan_exp s = (a, b)"
  shows "scan_exp (s @ r) = (a, b @ r)"
proof (cases s)
  case Nil
  then show ?thesis
    using assms delimited_not_digit(3,4) by (cases r) (auto simp: scan_exp_def)
next
  case (Cons c s')
  obtain sg t where sg: "scan_sign s' = (sg, t)" by (cases "scan_sign s'")
  with assms(1) have "scan_sign (s' @ r) = (sg, t @ r)" by (rule scan_sign_append)
  then show ?thesis
    using assms Cons sg by (auto simp: scan_exp_def digits_split split: if_splits)
qed

lemma scan_minus_append:
  assumes "delimited r" and "scan_minus s = (a, b)"
  shows "scan_minus (s @ r) = (a, b @ r)"
  using assms delimited_not_digit(6) by (cases s; cases r) (auto simp: scan_minus_def split: if_splits)

lemma scan_int_append:
  assumes "delimited r" and "scan_int s = Some (a, b)"
  shows "scan_int (s @ r) = Some (a, b @ r)"
  using assms digits_split [OF assms(1), of s]
  by (cases s) (auto simp: scan_int_def split: if_splits)

lemma parse_number_append:
  assumes r: "delimited r" and p: "parse_number s = Some (v, t)"
  shows "parse_number (s @ r) = Some (v, t @ r)"
proof -
  obtain sg r0 where 0: "scan_minus s = (sg, r0)" by (cases "scan_minus s")
  obtain ip r1 where 1: "scan_int r0 = Some (ip, r1)"
    using p 0 by (auto simp: parse_number_def split: option.splits)
  obtain fp r2 where 2: "scan_frac r1 = (fp, r2)" by (cases "scan_frac r1")
  obtain ep r3 where 3: "scan_exp r2 = (ep, r3)" by (cases "scan_exp r2")
  show ?thesis
    using p scan_minus_append [OF r 0] scan_int_append [OF r 1] scan_frac_append [OF r 2] scan_exp_append [OF r 3]
    by (simp add: parse_number_def 0 1 2 3 split: if_splits) auto
qed

lemma digit_char_table:
  "list_all (\<lambda>d. is_digit (digit_char d) \<and> of_char (digit_char d) = 48 + d) [0..<10]"
  by code_simp

lemma digit_char_facts: "d < 10 \<Longrightarrow> is_digit (digit_char d)" "d < 10 \<Longrightarrow> of_char (digit_char d) = 48 + d"
  using digit_char_table by (auto simp: list_all_iff)

lemma nat_text_digits: "nat_text n \<noteq> '''' \<and> list_all is_digit (nat_text n)"
proof (induction n rule: nat_text.induct)
  case (1 n)
  then show ?case
    by (subst (1 2) nat_text.simps) (auto simp: digit_char_facts)
qed

lemma digits_value_snoc: "digits_value (ds @ [c]) = 10 * digits_value ds + (of_char c - 48)"
  by (simp add: digits_value_def)

lemma digits_value_nat_text: "digits_value (nat_text n) = n"
proof (induction n rule: nat_text.induct)
  case (1 n)
  show ?case
  proof (cases "n < 10")
    case True
    then have "nat_text n = [] @ [digit_char n]" by (subst nat_text.simps) simp
    then show ?thesis using True by (simp only: digits_value_snoc) (simp add: digits_value_def digit_char_facts)
  next
    case False
    then have "nat_text n = nat_text (n div 10) @ [digit_char (n mod 10)]" by (subst nat_text.simps) simp
    then show ?thesis using 1 False by (simp add: digits_value_snoc digit_char_facts)
  qed
qed

lemma nat_text_zero_head: "hd (nat_text n) = CHR ''0'' \<Longrightarrow> nat_text n = ''0''"
proof (induction n rule: nat_text.induct)
  case (1 n)
  show ?case
  proof (cases "n < 10")
    case True
    then have "nat_text n = [digit_char n]" by (subst nat_text.simps) simp
    then show ?thesis using "1.prems" by simp
  next
    case False
    then have e: "nat_text n = nat_text (n div 10) @ [digit_char (n mod 10)]" by (subst nat_text.simps) simp
    then have "hd (nat_text (n div 10)) = CHR ''0''" using "1.prems" nat_text_digits by simp
    then have "digits_value (nat_text (n div 10)) = 0" using 1 False by (simp add: digits_value_def)
    then show ?thesis using False by (simp add: digits_value_nat_text)
  qed
qed

lemma scan_nat_text: "scan_int (nat_text n) = Some (nat_text n, '''')"
proof -
  obtain c r where cr: "nat_text n = c # r" using nat_text_digits by (cases "nat_text n") auto
  have "takeWhile is_digit (nat_text n) = nat_text n" "dropWhile is_digit (nat_text n) = ''''"
    using nat_text_digits [of n] by (simp_all add: takeWhile_eq_all_conv list_all_iff)
  then show ?thesis
    using nat_text_digits [of n] nat_text_zero_head [of n] by (auto simp: scan_int_def cr)
qed

lemma nat_text_head: "nat_text n = c # r \<Longrightarrow> is_digit c"
  using nat_text_digits [of n] by simp

lemma minus_not_digit [simp]: "\<not> is_digit (CHR ''-'')"
  by (simp add: is_digit_def)

lemma parse_int_text: "parse_number (int_text i) = Some (JInt i, '''')"
proof (cases "i < 0")
  case True
  then show ?thesis
    by (simp add: parse_number_def int_text_def scan_minus_def scan_nat_text scan_frac_def scan_exp_def digits_value_nat_text)
next
  case False
  obtain c r where cr: "nat_text (nat i) = c # r" using nat_text_digits by (cases "nat_text (nat i)") auto
  then have "c \<noteq> CHR ''-''" using nat_text_head by fastforce
  then have "scan_minus (nat_text (nat i)) = ('''', nat_text (nat i))" by (simp add: scan_minus_def cr)
  then show ?thesis
    using False by (simp add: parse_number_def int_text_def scan_nat_text scan_frac_def scan_exp_def digits_value_nat_text)
qed

lemma parse_number_head:
  assumes "parse_number s = Some x"
  obtains c r where "s = c # r" and "c = CHR ''-'' \<or> is_digit c"
proof -
  obtain c r where s: "s = c # r"
    using assms by (cases s) (auto simp: parse_number_def scan_minus_def scan_int_def)
  have "c = CHR ''-'' \<or> is_digit c"
    using assms s by (auto simp: parse_number_def scan_minus_def scan_int_def is_digit_def split: if_splits)
  with s that show thesis by blast
qed

section \<open>The parser's fuel\<close>

lemma skip_ws_length: "length (skip_ws s) \<le> length s"
  by (simp add: skip_ws_def length_dropWhile_le)

lemma skip_ws_Cons_length: "skip_ws s = d # r \<Longrightarrow> length r < length s"
  using skip_ws_length [of s] by simp

lemma parse_string_body_length: "parse_string_body s = Some (t, r) \<Longrightarrow> length r < length s"
proof (induction s arbitrary: t r rule: parse_string_body.induct)
  case (1 s)
  show ?case
  proof (cases s)
    case Nil
    then show ?thesis using "1.prems" by (simp add: parse_string_body.simps)
  next
    case (Cons c u)
    show ?thesis
      using "1.prems" "1.IH" [OF Cons] Cons
      by (subst (asm) parse_string_body.simps)
        (fastforce split: if_splits list.splits option.splits)
  qed
qed

lemma scan_int_length: "scan_int s = Some (a, b) \<Longrightarrow> length b < length s"
  by (cases s) (auto simp: scan_int_def less_Suc_eq_le length_dropWhile_le split: if_splits)

lemma scan_minus_length: "scan_minus s = (a, b) \<Longrightarrow> length b \<le> length s"
  by (cases s) (auto simp: scan_minus_def split: if_splits)

lemma scan_frac_length: "scan_frac s = (a, b) \<Longrightarrow> length b \<le> length s"
  by (cases s) (auto simp: scan_frac_def le_SucI length_dropWhile_le split: if_splits)

lemma scan_sign_length: "scan_sign s = (a, b) \<Longrightarrow> length b \<le> length s"
  by (cases s) (auto simp: scan_sign_def split: if_splits)

lemma scan_exp_length: "scan_exp s = (a, b) \<Longrightarrow> length b \<le> length s"
proof (cases s)
  case (Cons c u)
  assume a: "scan_exp s = (a, b)"
  obtain sg t where t: "scan_sign u = (sg, t)" by (cases "scan_sign u")
  have "length (dropWhile is_digit t) \<le> length u"
    using length_dropWhile_le [of is_digit t] scan_sign_length [OF t] by linarith
  then show ?thesis using a Cons t by (auto simp: scan_exp_def split: if_splits)
qed (auto simp: scan_exp_def)

lemma parse_number_length:
  assumes "parse_number s = Some (v, r)"
  shows "length r < length s"
proof -
  obtain sg r0 where 0: "scan_minus s = (sg, r0)" by (cases "scan_minus s")
  obtain ip r1 where 1: "scan_int r0 = Some (ip, r1)"
    using assms 0 by (auto simp: parse_number_def split: option.splits)
  obtain fp r2 where 2: "scan_frac r1 = (fp, r2)" by (cases "scan_frac r1")
  obtain ep r3 where 3: "scan_exp r2 = (ep, r3)" by (cases "scan_exp r2")
  have "r = r3" using assms by (auto simp: parse_number_def 0 1 2 3 split: if_splits)
  then show ?thesis
    using scan_minus_length [OF 0] scan_int_length [OF 1] scan_frac_length [OF 2] scan_exp_length [OF 3] by simp
qed

lemma scan_word_length: "w \<noteq> '''' \<Longrightarrow> scan_word w v s = Some (u, r) \<Longrightarrow> length r < length s"
  by (cases s) (auto simp: scan_word_def split: if_splits)

lemma first_some_mem: "first_some xs = Some x \<Longrightarrow> Some x \<in> set xs"
  by (induction xs rule: first_some.induct) auto

lemma parse_atom_length: "parse_atom s = Some (v, r) \<Longrightarrow> length r < length s"
  unfolding parse_atom_def
  by (drule first_some_mem)
    (auto dest!: sym [of "Some _"] dest: parse_number_length scan_word_length [rotated])

lemma parse_length:
  "parse_value f s = Some (v, r) \<Longrightarrow> length r < length s"
  "parse_items f s = Some (vs, r) \<Longrightarrow> length r < length s"
  "parse_pairs f s = Some (ps, r) \<Longrightarrow> length r < length s"
proof (induction f s and f s and f s arbitrary: v r and vs r and ps r rule: parse_value_parse_items_parse_pairs.induct)
  case (2 f s)
  obtain c u where s: "s = c # u" using "2.prems" by (cases s) auto
  show ?case
  proof (cases "c = CHR ''{'' \<or> c = CHR ''[''")
    case True
    then obtain d u' where d: "skip_ws u = d # u'" using "2.prems" s by (auto split: list.splits)
    then have "length (d # u') \<le> length u" using skip_ws_length [of u] by simp
    then show ?thesis using "2.prems" "2.IH" [OF s] s d True by (fastforce split: if_splits)
  next
    case False
    then show ?thesis
      using "2.prems" s by (auto dest: parse_string_body_length parse_atom_length split: if_splits)
  qed
next
  case (4 f s)
  obtain w u where w: "parse_value f s = Some (w, u)" using "4.prems" by (auto split: option.splits)
  obtain d u' where d: "skip_ws u = d # u'" using "4.prems" w by (auto split: list.splits)
  have l: "length u' < length u" "length u < length s"
    using skip_ws_Cons_length [OF d] "4.IH"(1) [OF w] by auto
  have "length (skip_ws u') \<le> length u'" by (rule skip_ws_length)
  then show ?case using "4.prems" "4.IH"(2) [OF w _ d] w d l by (fastforce split: if_splits)
next
  case (6 f s)
  obtain q u0 where s: "s = q # u0" "q = quote_char" using "6.prems" by (auto split: list.splits if_splits)
  obtain k u1 where k: "parse_string_body u0 = Some (k, u1)" using "6.prems" s by (auto split: option.splits)
  obtain u2 where c: "skip_ws u1 = CHR '':'' # u2" using "6.prems" s k by (auto split: list.splits if_splits)
  obtain w u3 where w: "parse_value f (skip_ws u2) = Some (w, u3)" using "6.prems" s k c by (auto split: option.splits)
  obtain d u4 where d: "skip_ws u3 = d # u4" using "6.prems" s k c w by (auto split: list.splits)
  have l: "length u1 < length u0" "length u2 < length u1" "length u3 < length (skip_ws u2)" "length u4 < length u3"
    using parse_string_body_length [OF k] skip_ws_Cons_length [OF c] skip_ws_Cons_length [OF d]
      "6.IH"(1) [OF s(1) _ k _ c _ w] s(2) by auto
  moreover have "length (skip_ws u2) \<le> length u2" "length (skip_ws u4) \<le> length u4"
    by (rule skip_ws_length)+
  moreover have "d = CHR '','' \<Longrightarrow> parse_pairs f (skip_ws u4) = Some (p, r') \<Longrightarrow> length r' < length (skip_ws u4)" for p r'
    using "6.IH"(2) [OF s(1) _ k _ c _ w _ d] s(2) by simp
  ultimately show ?case using "6.prems" s k c w d by (fastforce split: if_splits)
qed auto

declare parse_value.simps [simp del] parse_items.simps [simp del] parse_pairs.simps [simp del]

text \<open>One more unit of fuel changes nothing once the fuel exceeds twice the text's length.\<close>

lemma parse_fuel_step:
  "(\<forall>s. 2 * length s < f \<longrightarrow> parse_value (Suc f) s = parse_value f s) \<and>
   (\<forall>s. 2 * length s + 1 < f \<longrightarrow> parse_items (Suc f) s = parse_items f s) \<and>
   (\<forall>s. 2 * length s + 1 < f \<longrightarrow> parse_pairs (Suc f) s = parse_pairs f s)"
proof (induction f)
  case 0
  then show ?case by simp
next
  case (Suc f)
  have V: "parse_value (Suc f) s = parse_value f s" if "2 * length s < f" for s
    using Suc that by blast
  have I: "parse_items (Suc f) s = parse_items f s" if "2 * length s + 1 < f" for s
    using Suc that by blast
  have P: "parse_pairs (Suc f) s = parse_pairs f s" if "2 * length s + 1 < f" for s
    using Suc that by blast
  have "parse_value (Suc (Suc f)) s = parse_value (Suc f) s" if "2 * length s < Suc f" for s
  proof (cases s)
    case (Cons c r)
    have "2 * length (d # r') + 1 < f" if "skip_ws r = d # r'" for d r'
      using \<open>2 * length s < Suc f\<close> Cons skip_ws_length [of r] that by simp
    then show ?thesis
      using Cons I P by (simp add: parse_value.simps(2) split: list.split)
  qed (simp add: parse_value.simps)
  moreover have "parse_items (Suc (Suc f)) s = parse_items (Suc f) s" if l: "2 * length s + 1 < Suc f" for s
  proof -
    have v: "parse_value (Suc f) s = parse_value f s" using l by (intro V) simp
    have i: "parse_items (Suc f) (skip_ws r') = parse_items f (skip_ws r')"
      if "parse_value f s = Some (w, r)" "skip_ws r = d # r'" for w r d r'
      using parse_length(1) [OF that(1)] skip_ws_Cons_length [OF that(2)] skip_ws_length [of r'] l
      by (intro I) linarith
    show ?thesis
      unfolding parse_items.simps(2) [of "Suc f" s] parse_items.simps(2) [of f s] v
      using i by (auto split: option.splits list.splits)
  qed
  moreover have "parse_pairs (Suc (Suc f)) s = parse_pairs (Suc f) s" if l: "2 * length s + 1 < Suc f" for s
  proof (cases s)
    case (Cons q r0)
    have v: "parse_value (Suc f) (skip_ws r2) = parse_value f (skip_ws r2)"
      if "parse_string_body r0 = Some (k, r1)" "skip_ws r1 = c # r2" for k r1 c r2
      using parse_string_body_length [OF that(1)] skip_ws_Cons_length [OF that(2)] skip_ws_length [of r2] l Cons
      by (intro V) simp
    have p: "parse_pairs (Suc f) (skip_ws r4) = parse_pairs f (skip_ws r4)"
      if "parse_string_body r0 = Some (k, r1)" "skip_ws r1 = c # r2"
        "parse_value f (skip_ws r2) = Some (w, r3)" "skip_ws r3 = d # r4" for k r1 c r2 w r3 d r4
      using parse_string_body_length [OF that(1)] skip_ws_Cons_length [OF that(2)] skip_ws_length [of r2]
        parse_length(1) [OF that(3)] skip_ws_Cons_length [OF that(4)] skip_ws_length [of r4] l Cons
      by (intro P) simp
    show ?thesis
      unfolding Cons parse_pairs.simps(2) [of "Suc f" "q # r0"] parse_pairs.simps(2) [of f "q # r0"]
      using v p by (auto split: option.splits list.splits)
  qed (simp add: parse_pairs.simps)
  ultimately show ?case by blast
qed

lemma parse_fuel_enough:
  assumes "2 * length s < f"
  shows "parse_value (f + k) s = parse_value f s"
  using assms by (induction k) (auto simp: parse_fuel_step)

text \<open>A result obtained with some fuel is the result with enough fuel.\<close>

lemma parse_fuel_mono_step:
  "(\<forall>s x. parse_value f s = Some x \<longrightarrow> parse_value (Suc f) s = Some x) \<and>
   (\<forall>s x. parse_items f s = Some x \<longrightarrow> parse_items (Suc f) s = Some x) \<and>
   (\<forall>s x. parse_pairs f s = Some x \<longrightarrow> parse_pairs (Suc f) s = Some x)"
proof (induction f)
  case 0
  then show ?case by (simp add: parse_value.simps parse_items.simps parse_pairs.simps)
next
  case (Suc f)
  have V: "parse_value f s = Some x \<Longrightarrow> parse_value (Suc f) s = Some x" for s x using Suc by blast
  have I: "parse_items f s = Some x \<Longrightarrow> parse_items (Suc f) s = Some x" for s x using Suc by blast
  have P: "parse_pairs f s = Some x \<Longrightarrow> parse_pairs (Suc f) s = Some x" for s x using Suc by blast
  have "parse_value (Suc (Suc f)) s = Some x" if "parse_value (Suc f) s = Some x" for s x
    using that unfolding parse_value.simps(2)
    by (auto split: list.splits if_splits dest!: I P)
  moreover have "parse_items (Suc (Suc f)) s = Some x" if "parse_items (Suc f) s = Some x" for s x
    using that unfolding parse_items.simps(2) [of "Suc f" s] parse_items.simps(2) [of f s]
    by (auto split: list.splits if_splits option.splits dest!: I V)
  moreover have "parse_pairs (Suc (Suc f)) s = Some x" if "parse_pairs (Suc f) s = Some x" for s x
    using that unfolding parse_pairs.simps(2) [of "Suc f" s] parse_pairs.simps(2) [of f s]
    by (auto split: list.splits if_splits option.splits dest!: P V)
  ultimately show ?case by blast
qed

lemma parse_fuel_mono:
  "parse_value f s = Some x \<Longrightarrow> f \<le> g \<Longrightarrow> parse_value g s = Some x"
  "parse_items f s = Some y \<Longrightarrow> f \<le> g \<Longrightarrow> parse_items g s = Some y"
  "parse_pairs f s = Some z \<Longrightarrow> f \<le> g \<Longrightarrow> parse_pairs g s = Some z"
  subgoal by (rotate_tac 1, induction g rule: dec_induct) (use parse_fuel_mono_step in blast)+
  subgoal by (rotate_tac 1, induction g rule: dec_induct) (use parse_fuel_mono_step in blast)+
  subgoal by (rotate_tac 1, induction g rule: dec_induct) (use parse_fuel_mono_step in blast)+
  done

section \<open>Sorted keys\<close>

lemma insort_key_map_snd:
  "insort_key fst (map_prod id f p) (map (map_prod id f) kvs) = map (map_prod id f) (insort_key fst p kvs)"
  by (induction kvs) auto

lemma sort_key_map_snd:
  "sort_key fst (map (map_prod id f) kvs) = map (map_prod id f) (sort_key fst kvs)"
  by (induction kvs) (simp_all only: list.map sort_key_simps insort_key_map_snd)

lemma map_fst_map_snd [simp]: "map fst (map (map_prod id f) kvs) = map fst kvs"
  by simp

lemma sort_key_idem: "sort_key f (sort_key f xs) = sort_key f xs"
  by (simp add: sort_key_id_if_sorted)

lemma distinct_sort_keys: "distinct (map fst (sort_key fst kvs)) = distinct (map fst kvs)"
  by (simp add: distinct_map)

lemma map_of_sort_key:
  assumes "distinct (map fst kvs)"
  shows "map_of (sort_key fst kvs) = map_of kvs"
  using assms by (simp add: map_of_inject_set distinct_sort_keys)

lemma dict_of_pairs_distinct:
  assumes "distinct (map fst ps)"
  shows "dict_of_pairs ps = ps"
proof -
  have "distinct (map fst (d @ ps)) \<Longrightarrow> foldl (\<lambda>d (k, v). dict_set d k v) d ps = d @ ps" for d :: jobj
  proof (induction ps arbitrary: d)
    case (Cons p ps)
    obtain k v where p: "p = (k, v)" by (cases p)
    then have "k \<notin> set (map fst d)" using Cons.prems by auto
    then have "dict_set d k v = d @ [(k, v)]" by (rule dict_set_new)
    then show ?case using Cons p by simp
  qed simp
  from this [of "[]"] show ?thesis using assms by (simp add: dict_of_pairs_def)
qed

section \<open>Reading back a canonical text\<close>

lemma skip_ws_Cons:
  "skip_ws (c # r) =
     (if c = CHR '' '' \<or> c = CHR 0x09 \<or> c = CHR 0x0A \<or> c = CHR 0x0D then skip_ws r else c # r)"
  by (simp add: skip_ws_def)

definition starts_value :: "string \<Rightarrow> bool" where
  "starts_value s = (\<exists>c r. s = c # r \<and> skip_ws s = s \<and> c \<noteq> CHR '']'' \<and> c \<noteq> CHR ''}'')"

lemma digit_starts:
  assumes "is_digit c \<or> c = CHR ''-''"
  shows "starts_value (c # r)"
proof -
  have "list_all (\<lambda>d. \<not> is_digit d \<and> d \<noteq> CHR ''-'') ([CHR '' '', CHR 0x09, CHR 0x0A, CHR 0x0D] @ '']}'')"
    by code_simp
  then have "c \<notin> {CHR '' '', CHR 0x09, CHR 0x0A, CHR 0x0D, CHR '']'', CHR ''}''}"
    using assms by auto
  then show ?thesis by (simp add: starts_value_def skip_ws_Cons)
qed

lemma dump_starts_value: "wf_json v \<Longrightarrow> starts_value (dump_json asc v @ r)"
proof (cases v)
  case (JInt i)
  obtain c u where "int_text i = c # u" "c = CHR ''-'' \<or> is_digit c"
    using parse_number_head [OF parse_int_text [of i]] by blast
  then show ?thesis using JInt digit_starts by auto
next
  case (JFloat t)
  assume "wf_json v"
  with JFloat have "parse_number t = Some (JFloat t, '''')" by simp
  then obtain c u where "t = c # u" "c = CHR ''-'' \<or> is_digit c"
    by (rule parse_number_head)
  then show ?thesis using JFloat digit_starts by auto
qed (auto simp: starts_value_def skip_ws_def dump_string_def)

lemma join_Cons_append: "\<exists>u. join sep (x # xs) @ r = x @ u"
  by (cases xs) auto

lemma join_starts_value:
  assumes "wf_json y"
  shows "starts_value (join '','' (map (dump_json asc) (y # ys)) @ r)"
proof -
  obtain u where "join '','' (map (dump_json asc) (y # ys)) @ r = dump_json asc y @ u"
    using join_Cons_append by force
  then show ?thesis using dump_starts_value assms by simp
qed

lemma join_pairs_start:
  assumes "ps \<noteq> []"
  shows "\<exists>u. join '','' (map (dump_pair asc) ps) @ r = quote_char # u"
proof -
  obtain q qs where ps: "ps = q # qs" using assms by (cases ps) auto
  obtain u where "join '','' (map (dump_pair asc) ps) @ r = dump_pair asc q @ u"
    using join_Cons_append [of "'',''" "dump_pair asc q" "map (dump_pair asc) qs" r] ps by auto
  then show ?thesis by (simp add: dump_pair_def dump_string_def)
qed

lemma starts_value_skip: "starts_value s \<Longrightarrow> skip_ws s = s"
  by (auto simp: starts_value_def)

lemma parse_value_number:
  assumes "parse_number s = Some x"
  shows "parse_value (Suc 0) s = Some x"
proof -
  obtain c r where s: "s = c # r" "c = CHR ''-'' \<or> is_digit c" by (rule parse_number_head [OF assms])
  then have "c \<notin> {quote_char, CHR ''{'', CHR ''['', CHR ''n'', CHR ''t'', CHR ''f''}"
    by (auto simp: is_digit_def)
  then show ?thesis using s(1) assms by (simp add: parse_value.simps parse_atom_def scan_word_def)
qed

lemma parse_dumped_items:
  assumes "xs \<noteq> []"
    and "\<And>x. x \<in> set xs \<Longrightarrow> wf_json x"
    and "\<And>x r. x \<in> set xs \<Longrightarrow> delimited r \<Longrightarrow> \<exists>f. parse_value f (dump_json asc x @ r) = Some (sort_json x, r)"
  shows "\<exists>f. parse_items f (join '','' (map (dump_json asc) xs) @ '']'' @ r) = Some (map sort_json xs, r)"
  using assms
proof (induction xs rule: list_nonempty_induct)
  case (single x)
  have "\<exists>f. parse_value f (dump_json asc x @ '']'' @ r) = Some (sort_json x, '']'' @ r)"
    by (rule single(2)) simp_all
  then obtain f where "parse_value f (dump_json asc x @ '']'' @ r) = Some (sort_json x, '']'' @ r)" by blast
  then have "parse_items (Suc f) (dump_json asc x @ '']'' @ r) = Some ([sort_json x], r)"
    by (simp add: parse_items.simps skip_ws_Cons)
  then show ?case by auto
next
  case (cons x xs)
  let ?t = "join '','' (map (dump_json asc) xs) @ '']'' @ r"
  have t: "join '','' (map (dump_json asc) (x # xs)) @ '']'' @ r = dump_json asc x @ '','' @ ?t"
    using cons(1) by (cases xs) auto
  obtain f where f: "parse_value f (dump_json asc x @ '','' @ ?t) = Some (sort_json x, '','' @ ?t)"
    using cons(4) [of x "'','' @ ?t"] by auto
  obtain g where g: "parse_items g ?t = Some (map sort_json xs, r)"
    using cons(2) [OF cons(3) cons(4)] by auto
  obtain y ys where xs: "xs = y # ys" using cons(1) by (cases xs) auto
  have "starts_value ?t"
    using join_starts_value cons(3) xs by simp
  then have "skip_ws ?t = ?t" by (rule starts_value_skip)
  then have "parse_items (Suc (max f g)) (dump_json asc x @ '','' @ ?t) = Some (map sort_json (x # xs), r)"
    using parse_fuel_mono(1) [OF f, of "max f g"] parse_fuel_mono(2) [OF g, of "max f g"]
    by (simp add: parse_items.simps skip_ws_Cons)
  then show ?case unfolding t by blast
qed

lemma parse_dumped_pairs:
  assumes "kvs \<noteq> []"
    and "\<And>k v. (k, v) \<in> set kvs \<Longrightarrow> wf_json v"
    and "\<And>k v r. (k, v) \<in> set kvs \<Longrightarrow> delimited r \<Longrightarrow>
           \<exists>f. parse_value f (dump_json asc v @ r) = Some (sort_json v, r)"
  shows "\<exists>f. parse_pairs f (join '','' (map (dump_pair asc) (map (map_prod id (dump_json asc)) kvs)) @ ''}'' @ r) =
           Some (map (map_prod id sort_json) kvs, r)"
  using assms
proof (induction kvs rule: list_nonempty_induct)
  case (single p)
  obtain k v where p: "p = (k, v)" by (cases p)
  have "\<exists>f. parse_value f (dump_json asc v @ ''}'' @ r) = Some (sort_json v, ''}'' @ r)"
    by (rule single(2) [of k]) (simp_all add: p)
  then obtain f where "parse_value f (dump_json asc v @ ''}'' @ r) = Some (sort_json v, ''}'' @ r)" by blast
  moreover have "skip_ws (dump_json asc v @ CHR ''}'' # r) = dump_json asc v @ CHR ''}'' # r"
    using dump_starts_value single(1) [of k v] p by (auto intro: starts_value_skip)
  ultimately have "parse_pairs (Suc f) (dump_pair asc (k, dump_json asc v) @ ''}'' @ r) = Some ([(k, sort_json v)], r)"
    by (simp add: parse_pairs.simps dump_pair_def dump_string_def parse_dumped_string skip_ws_Cons)
  then show ?case using p by auto
next
  case (cons p kvs)
  obtain k v where p: "p = (k, v)" by (cases p)
  let ?t = "join '','' (map (dump_pair asc) (map (map_prod id (dump_json asc)) kvs)) @ ''}'' @ r"
  have t: "join '','' (map (dump_pair asc) (map (map_prod id (dump_json asc)) (p # kvs))) @ ''}'' @ r
      = dump_pair asc (k, dump_json asc v) @ '','' @ ?t"
    using cons(1) p by (cases kvs) auto
  obtain f where f: "parse_value f (dump_json asc v @ '','' @ ?t) = Some (sort_json v, '','' @ ?t)"
    using cons(4) [of k v "'','' @ ?t"] p by auto
  have "\<exists>g. parse_pairs g ?t = Some (map (map_prod id sort_json) kvs, r)"
  proof (rule cons(2))
    show "wf_json w" if "(l, w) \<in> set kvs" for l w using cons(3) [of l w] that by simp
    show "\<exists>f. parse_value f (dump_json asc w @ u) = Some (sort_json w, u)"
      if "(l, w) \<in> set kvs" "delimited u" for l w u
      by (rule cons(4) [of l w]) (use that in simp_all)
  qed
  then obtain g where g: "parse_pairs g ?t = Some (map (map_prod id sort_json) kvs, r)" by blast
  have "skip_ws ?t = ?t"
    using join_pairs_start [of "map (map_prod id (dump_json asc)) kvs" asc "''}'' @ r"] cons(1)
    by (auto simp: skip_ws_Cons simp del: map_map)
  moreover have "skip_ws (dump_json asc v @ CHR '','' # u) = dump_json asc v @ CHR '','' # u" for u
    using dump_starts_value cons(3) [of k v] p by (auto intro: starts_value_skip)
  ultimately have "parse_pairs (Suc (max f g)) (dump_pair asc (k, dump_json asc v) @ '','' @ ?t)
      = Some (map (map_prod id sort_json) (p # kvs), r)"
    using parse_fuel_mono(1) [OF f, of "max f g"] parse_fuel_mono(3) [OF g, of "max f g"] p
    by (simp add: parse_pairs.simps dump_pair_def dump_string_def parse_dumped_string skip_ws_Cons)
  then show ?case unfolding t by blast
qed

lemma parse_dumped:
  "wf_json v \<Longrightarrow> delimited r \<Longrightarrow> \<exists>f. parse_value f (dump_json asc v @ r) = Some (sort_json v, r)"
proof (induction v arbitrary: r)
  case JNull
  show ?case by (rule exI [of _ "Suc 0"]) (simp add: parse_value.simps parse_atom_def scan_word_def)
next
  case (JBool b)
  show ?case by (rule exI [of _ "Suc 0"]) (simp add: parse_value.simps parse_atom_def scan_word_def)
next
  case (JInt i)
  then have "parse_number (int_text i @ r) = Some (JInt i, r)"
    using parse_number_append [OF _ parse_int_text] by simp
  then show ?case using parse_value_number by auto
next
  case (JFloat t)
  then have "parse_number (t @ r) = Some (JFloat t, r)"
    using parse_number_append [of r t] by fastforce
  then show ?case using parse_value_number by auto
next
  case (JStr s)
  show ?case
    by (rule exI [of _ "Suc 0"]) (simp add: parse_value.simps dump_string_def parse_dumped_string)
next
  case (JArr xs)
  show ?case
  proof (cases "xs = []")
    case True
    show ?thesis by (rule exI [of _ "Suc 0"]) (simp add: parse_value.simps skip_ws_def True)
  next
    case False
    let ?t = "join '','' (map (dump_json asc) xs) @ '']'' @ r"
    have wf: "\<And>x. x \<in> set xs \<Longrightarrow> wf_json x" using JArr.prems by (auto simp: list_all_iff)
    obtain f where f: "parse_items f ?t = Some (map sort_json xs, r)"
      using parse_dumped_items [OF False wf] JArr.IH wf by blast
    obtain y ys where xs: "xs = y # ys" using False by (cases xs) auto
    have "starts_value ?t"
      using join_starts_value wf xs by simp
    then obtain c u where "?t = c # u" "skip_ws ?t = c # u" "c \<noteq> CHR '']''"
      by (auto simp: starts_value_def)
    then have "parse_value (Suc f) (dump_json asc (JArr xs) @ r) = Some (sort_json (JArr xs), r)"
      using f by (simp add: parse_value.simps)
    then show ?thesis by blast
  qed
next
  case (JObj kvs)
  show ?case
  proof (cases "kvs = []")
    case True
    show ?thesis by (rule exI [of _ "Suc 0"]) (simp add: parse_value.simps skip_ws_def True)
  next
    case False
    let ?s = "sort_key fst kvs"
    let ?t = "join '','' (map (dump_pair asc) (map (map_prod id (dump_json asc)) ?s)) @ ''}'' @ r"
    have mem: "(k, v) \<in> set ?s \<Longrightarrow> (k, v) \<in> set kvs" for k v by simp
    have wf: "\<And>k v. (k, v) \<in> set ?s \<Longrightarrow> wf_json v" using JObj.prems by (fastforce simp: list_all_iff)
    have ne: "map (map_prod id (dump_json asc)) ?s \<noteq> []" "?s \<noteq> []"
      using False by (metis Nil_is_map_conv set_empty set_sort)+
    have "\<exists>f. parse_pairs f ?t = Some (map (map_prod id sort_json) ?s, r)"
    proof (rule parse_dumped_pairs [OF ne(2) wf])
      show "\<exists>f. parse_value f (dump_json asc w @ u) = Some (sort_json w, u)"
        if m: "(l, w) \<in> set ?s" and "delimited u" for l w u
        by (rule JObj.IH [OF mem [OF m]]) (use that wf [OF m] in auto)
    qed
    then obtain f where f: "parse_pairs f ?t = Some (map (map_prod id sort_json) ?s, r)" by blast
    have d: "dict_of_pairs (map (map_prod id sort_json) ?s) = map (map_prod id sort_json) ?s"
      using JObj.prems by (intro dict_of_pairs_distinct) (simp add: distinct_sort_keys del: map_map)
    obtain u where u: "?t = quote_char # u"
      using join_pairs_start [of "map (map_prod id (dump_json asc)) ?s"] ne by blast
    then have "parse_value (Suc f) (dump_json asc (JObj kvs) @ r) = Some (sort_json (JObj kvs), r)"
      using f d by (simp add: parse_value.simps skip_ws_Cons sort_key_map_snd del: map_map)
    then show ?thesis by blast
  qed
qed

section \<open>The round trip\<close>

lemma json_loads_dumped:
  assumes "wf_json v"
  shows "json_loads (dump_json asc v) = Inr (sort_json v)"
proof -
  let ?s = "dump_json asc v"
  let ?g = "2 * length ?s + 2"
  obtain f where f: "parse_value f ?s = Some (sort_json v, '''')"
    using parse_dumped [OF assms, of "''''" asc] by auto
  have "parse_value (?g + f) ?s = parse_value ?g ?s" by (rule parse_fuel_enough) simp
  moreover have "parse_value (?g + f) ?s = Some (sort_json v, '''')"
    by (rule parse_fuel_mono(1) [OF f]) simp
  ultimately have "parse_value ?g ?s = Some (sort_json v, '''')" by simp
  moreover have "skip_ws ?s = ?s"
    using dump_starts_value [OF assms, of asc "''''"] by (simp add: starts_value_skip)
  ultimately show ?thesis by (simp add: json_loads_def skip_ws_def)
qed

lemma json_loads_canonical [simp]: "wf_json v \<Longrightarrow> json_loads (canonical_json v) = Inr (sort_json v)"
  by (simp add: canonical_json_def json_loads_dumped)

lemma json_clone_eq [simp]: "wf_json v \<Longrightarrow> json_clone v = Inr (sort_json v)"
  by (simp add: json_clone_def)

lemma canonical_json_determines:
  "wf_json v \<Longrightarrow> wf_json w \<Longrightarrow> canonical_json v = canonical_json w \<Longrightarrow> sort_json v = sort_json w"
  by (metis json_loads_canonical sum.inject(2))

lemma ascii_json_determines:
  "wf_json v \<Longrightarrow> wf_json w \<Longrightarrow> ascii_json v = ascii_json w \<Longrightarrow> sort_json v = sort_json w"
  by (metis ascii_json_def json_loads_dumped sum.inject(2))

lemma map_prod_snd_cong:
  "(\<And>k v. (k, v) \<in> set kvs \<Longrightarrow> f v = g v) \<Longrightarrow> map (map_prod id f) kvs = map (map_prod id g) kvs"
  by (rule map_cong) (auto simp: map_prod_def)

lemma map_map_prod_snd: "map (map_prod id f) (map (map_prod id g) kvs) = map (map_prod id (f \<circ> g)) kvs"
  by (induction kvs) auto

lemma dump_sort_json [simp]: "dump_json asc (sort_json v) = dump_json asc v"
proof (induction v)
  case (JArr xs)
  then show ?case by (simp add: comp_def cong: map_cong)
next
  case (JObj kvs)
  have "map (map_prod id (dump_json asc)) (map (map_prod id sort_json) kvs) = map (map_prod id (dump_json asc)) kvs"
    unfolding map_map_prod_snd by (rule map_prod_snd_cong) (use JObj in \<open>auto intro: snds.intros\<close>)
  then show ?case
    by (simp add: sort_key_map_snd [symmetric] sort_key_idem del: map_map)
qed auto

lemma canonical_sort_json [simp]: "canonical_json (sort_json v) = canonical_json v"
  by (simp add: canonical_json_def)

lemma py_key_sort_json [simp]: "py_key (sort_json v) = py_key v"
proof (induction v)
  case (JArr xs)
  then show ?case by (simp add: comp_def cong: map_cong)
next
  case (JObj kvs)
  have "map (map_prod id py_key) (map (map_prod id sort_json) kvs) = map (map_prod id py_key) kvs"
    unfolding map_map_prod_snd by (rule map_prod_snd_cong) (use JObj in \<open>auto intro: snds.intros\<close>)
  then show ?case
    by (simp add: sort_key_map_snd [symmetric] sort_key_idem del: map_map)
qed auto

lemma sort_json_idem [simp]: "sort_json (sort_json v) = sort_json v"
proof (induction v)
  case (JArr xs)
  then show ?case by (simp add: comp_def cong: map_cong)
next
  case (JObj kvs)
  have "map (map_prod id sort_json) (map (map_prod id sort_json) kvs) = map (map_prod id sort_json) kvs"
    unfolding map_map_prod_snd by (rule map_prod_snd_cong) (use JObj in \<open>auto intro: snds.intros\<close>)
  then show ?case
    by (simp add: sort_key_map_snd [symmetric] sort_key_idem del: map_map)
qed auto

lemma wf_sort_json [simp]: "wf_json v \<Longrightarrow> wf_json (sort_json v)"
proof (induction v)
  case (JObj kvs)
  then show ?case by (fastforce simp: distinct_sort_keys list_all_iff)
qed (auto simp: list_all_iff)

lemma wf_JObj: "wf_json (JObj kvs) \<longleftrightarrow> dict_ok kvs \<and> (\<forall>v \<in> snd ` set kvs. wf_json v)"
  by (auto simp: dict_ok_def list_all_iff)

lemma wf_JArr [simp]: "wf_json (JArr xs) \<longleftrightarrow> (\<forall>x \<in> set xs. wf_json x)"
  by (auto simp: list_all_iff)

declare wf_json.simps(6,7) [simp del]

text \<open>An object written out as a list is checked entry by entry; any other stays folded.\<close>

lemma wf_JObj_Nil [simp]: "wf_json (JObj [])"
  by (simp add: wf_JObj)

lemma wf_JObj_Cons [simp]:
  "wf_json (JObj ((k, v) # r)) \<longleftrightarrow> k \<notin> fst ` set r \<and> wf_json v \<and> wf_json (JObj r)"
  by (auto simp: wf_JObj dict_ok_def)

lemma wf_JObj_dict_ok: "wf_json (JObj d) \<Longrightarrow> dict_ok d"
  by (simp add: wf_JObj)

lemma wf_JObj_value: "wf_json (JObj d) \<Longrightarrow> map_of d k = Some v \<Longrightarrow> wf_json v"
  by (force simp: wf_JObj dest: map_of_SomeD)

lemma wf_jopt [simp]: "wf_json (jopt s)"
  by (cases s) auto

lemma map_of_map_prod_snd: "map_of (map (map_prod id f) kvs) k = map_option f (map_of kvs k)"
  by (induction kvs) auto

text \<open>Reading a key of a loaded object is reading it in the original, sorted.\<close>

lemma map_of_sort_json:
  assumes "dict_ok kvs" and "sort_json (JObj kvs) = JObj d"
  shows "map_of d k = map_option sort_json (map_of kvs k)"
  using assms by (auto simp: map_of_sort_key dict_ok_def map_of_map_prod_snd simp flip: map_map)

lemma dict_ok_sort_json: "dict_ok kvs \<Longrightarrow> sort_json (JObj kvs) = JObj d \<Longrightarrow> dict_ok d"
  by (auto simp: dict_ok_def distinct_sort_keys simp flip: map_map)

text \<open>Two objects whose sorted forms agree have the same sorted fields.\<close>

lemma sorted_field_eq:
  assumes "sort_json (JObj d) = sort_json (JObj d')" and "wf_json (JObj d)" and "wf_json (JObj d')"
  shows "map_option sort_json (map_of d k) = map_option sort_json (map_of d' k)"
  using assms map_of_sort_json wf_JObj_dict_ok by (metis sort_json.simps(7))

lemma jget_sort_json:
  assumes "dict_ok kvs" and "sort_json (JObj kvs) = JObj d"
  shows "jget d k = sort_json (jget kvs k)"
  using map_of_sort_json [OF assms, of k] by (auto simp: jget_def split: option.splits)

lemma wf_jget: "wf_json (JObj kvs) \<Longrightarrow> wf_json (jget kvs k)"
  by (auto simp: jget_def dest: wf_JObj_value split: option.splits)

lemma wf_dict_set:
  "wf_json (JObj d) \<Longrightarrow> wf_json v \<Longrightarrow> wf_json (JObj (dict_set d k v))"
proof -
  assume a: "wf_json (JObj d)" "wf_json v"
  have "snd ` set (dict_set d k v) \<subseteq> insert v (snd ` set d)"
    using set_dict_set by fastforce
  then have "wf_json w" if "w \<in> snd ` set (dict_set d k v)" for w
    using subsetD [OF _ that, of "insert v (snd ` set d)"] a by (auto simp: wf_JObj)
  then show ?thesis using a by (simp add: wf_JObj)
qed

lemma sort_jopt [simp]: "sort_json (jopt a) = jopt a"
  by (cases a) auto

lemma jopt_inj [simp]: "jopt a = jopt b \<longleftrightarrow> a = b"
  by (cases a; cases b) auto

section \<open>Copies of objects\<close>

text \<open>
  \<open>json.loads(canonical_json(dict(d)))\<close>, the copy the bridge makes of an object of JSON values, is the object with its keys sorted: the lemma
  \<open>clone_obj_is_clone\<close> below. The model writes that value directly.
\<close>

definition clone_obj :: "jobj \<Rightarrow> jobj" where
  "clone_obj d = sort_key fst (map (map_prod id sort_json) d)"

lemma clone_obj_sort: "JObj (clone_obj d) = sort_json (JObj d)"
  by (simp add: clone_obj_def)

lemma clone_obj_is_clone: "wf_json (JObj d) \<Longrightarrow> json_clone (JObj d) = Inr (JObj (clone_obj d))"
  by (simp only: json_clone_eq clone_obj_sort)

lemma wf_clone [simp]: "wf_json (JObj d) \<Longrightarrow> wf_json (JObj (clone_obj d))"
  by (simp only: clone_obj_sort wf_sort_json)

lemma map_of_clone: "dict_ok d \<Longrightarrow> map_of (clone_obj d) k = map_option sort_json (map_of d k)"
  by (rule map_of_sort_json) (simp_all add: clone_obj_def)

lemma jget_clone: "dict_ok d \<Longrightarrow> jget (clone_obj d) k = sort_json (jget d k)"
  by (rule jget_sort_json) (simp_all add: clone_obj_def)

lemma clone_obj_idem [simp]: "clone_obj (clone_obj d) = clone_obj d"
proof -
  have "JObj (clone_obj (clone_obj d)) = JObj (clone_obj d)" by (simp only: clone_obj_sort sort_json_idem)
  then show ?thesis by simp
qed

lemma sort_key_clone [simp]: "sort_key fst (map (map_prod id sort_json) (clone_obj d)) = clone_obj d"
  using clone_obj_idem [of d] unfolding clone_obj_def [of "clone_obj d"] .

lemma clone_keys: "set (map fst (clone_obj d)) = set (map fst d)"
  unfolding clone_obj_def set_map set_sort image_image by simp

lemma clone_values: "snd ` set (clone_obj d) = sort_json ` snd ` set d"
  by (force simp: clone_obj_def image_iff)

text \<open>The canonical text does not depend on the order of an object's entries.\<close>

lemma canonical_json_reorder:
  assumes "distinct (map fst xs)" and "distinct (map fst ys)" and "set xs = set ys"
  shows "canonical_json (JObj xs) = canonical_json (JObj ys)"
proof -
  let ?g = "map_prod id (dump_json False)"
  have keys: "distinct (map fst (map ?g zs))" if "distinct (map fst zs)" for zs :: jobj
    using that by (simp add: o_def)
  have "inj_on fst (set (map ?g xs))" using keys [OF assms(1)] by (simp only: distinct_map)
  then have "sort_key fst (map ?g xs) = sort_key fst (map ?g ys)"
    using keys [OF assms(1)] keys [OF assms(2)] assms(3)
    by (intro map_sorted_distinct_set_unique [where f = fst]) (simp_all add: distinct_sort_keys del: map_map)
  then show ?thesis by (simp add: canonical_json_def)
qed

end
