(* ===== verification/Core.thy ===== *)
theory Core
  imports Json_Roundtrip
begin

text \<open>
  \<open>app/core.py\<close>: the three-valued decision, the human-data boundary \<open>evaluate_hdb\<close>, the
  admissibility gate \<open>omega_gate\<close> and \<open>stable_hash\<close>. A human record is a dictionary of
  JSON values or \<open>None\<close>. The lemmas give each function on every branch: when the
  boundary passes, when the gate passes, and that a stable hash binds its value.
\<close>

datatype decision = PASS | BLOCK | HOLD

fun decision_value :: "decision \<Rightarrow> string" where
  "decision_value PASS = ''PASS''"
| "decision_value BLOCK = ''BLOCK''"
| "decision_value HOLD = ''HOLD''"

datatype po_state = PO_READY | PO_EVALUATING | PO_PASS | PO_FAIL

record hdb_result =
  hdb_decision :: decision
  hdb_reason :: string

definition HDBResult :: "decision \<Rightarrow> string \<Rightarrow> hdb_result" where
  "HDBResult d r = \<lparr>hdb_decision = d, hdb_reason = r\<rparr>"

definition BLOCKED_ACTIONS :: "string list" where
  "BLOCKED_ACTIONS = [''COMMIT'', ''EXECUTE'', ''EXPORT'', ''PUBLISH'', ''PROVIDER_EXPOSURE'']"

text \<open>\<open>sha256(json.dumps(obj, ...)).hexdigest()\<close>.\<close>

definition stable_hash :: "json \<Rightarrow> string" where
  "stable_hash obj = sha256_text (canonical_json obj)"

text \<open>
  What \<open>evaluate_hdb\<close> reads from the class object \<open>HDBResult\<close> before it decides anything:
  its module and qualified name, the \<open>frozen\<close> flag and the fields that \<open>dataclass\<close>
  recorded (\<open>None\<close> when the attribute is missing), each field with the text of its type,
  and whether attribute access or initialisation was overridden.
\<close>

record class_view =
  cv_module :: string
  cv_qualname :: string
  cv_frozen :: "bool option"
  cv_fields :: "(string \<times> string) list option"
  cv_plain_getattribute :: bool
  cv_post_init :: bool

definition class_contract_ok :: "string \<Rightarrow> class_view \<Rightarrow> bool" where
  "class_contract_ok this_module c \<longleftrightarrow>
     cv_module c = this_module \<and> cv_qualname c = ''HDBResult'' \<and>
     cv_frozen c = Some True \<and>
     cv_fields c = Some [(''decision'', ''Decision''), (''reason'', ''str'')] \<and>
     cv_plain_getattribute c \<and> \<not> cv_post_init c"

text \<open>The boundary itself, in the order of the source's tests; \<open>is True\<close> is the JSON value \<open>true\<close>.\<close>

definition hdb_boundary :: "jobj option \<Rightarrow> hdb_result" where
  "hdb_boundary human = (case human of
      None \<Rightarrow> HDBResult PASS ''no human data''
    | Some h \<Rightarrow>
        if jget h ''serialize_human'' = JBool True
        then HDBResult BLOCK ''H must not be serialized''
        else if jget h ''third_party'' = JBool True \<and> jget h ''third_party_consent'' \<noteq> JBool True
        then HDBResult BLOCK ''third-party data without consent''
        else if jget h ''sensitivity'' = JStr ''SECRET''
        then HDBResult BLOCK ''SECRET is non-exportable''
        else if jget h ''consent'' \<noteq> JBool True
        then HDBResult HOLD ''human data requires explicit consent''
        else if \<not> truthy (jget h ''purpose'')
        then HDBResult HOLD ''purpose binding required''
        else HDBResult PASS ''authorized representation'')"

definition evaluate_hdb :: "string \<Rightarrow> class_view \<Rightarrow> jobj option \<Rightarrow> hdb_result res" where
  "evaluate_hdb this_module c human =
     (if class_contract_ok this_module c then Inr (hdb_boundary human)
      else Inl (RuntimeError ''HDBResult constitutional contract mismatch''))"

definition omega_gate :: "hdb_result \<Rightarrow> string \<Rightarrow> bool \<Rightarrow> bool \<Rightarrow> bool \<Rightarrow> decision \<times> string" where
  "omega_gate hdb action ontology_ok signature_valid transition_valid =
     (if \<not> ontology_ok then (BLOCK, ''ontology violation'')
      else if hdb_decision hdb = BLOCK then (BLOCK, hdb_reason hdb)
      else if hdb_decision hdb = HOLD then (HOLD, hdb_reason hdb)
      else if \<not> signature_valid then (BLOCK, ''invalid signature'')
      else if signature_valid \<and> \<not> transition_valid then (BLOCK, ''valid_signature != valid_transition'')
      else if action \<in> set BLOCKED_ACTIONS \<and> \<not> transition_valid then (BLOCK, ''critical action denied'')
      else (PASS, ''admissible transition''))"

section \<open>Lemmas\<close>

lemma decision_value_inj: "decision_value d = decision_value e \<longleftrightarrow> d = e"
  by (cases d; cases e) auto

lemma HDBResult_sel [simp]: "hdb_decision (HDBResult d r) = d" "hdb_reason (HDBResult d r) = r"
  by (simp_all add: HDBResult_def)

text \<open>The conditions under which human data may pass.\<close>

definition human_authorized :: "jobj \<Rightarrow> bool" where
  "human_authorized h \<longleftrightarrow>
     jget h ''serialize_human'' \<noteq> JBool True \<and>
     (jget h ''third_party'' = JBool True \<longrightarrow> jget h ''third_party_consent'' = JBool True) \<and>
     jget h ''sensitivity'' \<noteq> JStr ''SECRET'' \<and>
     jget h ''consent'' = JBool True \<and> truthy (jget h ''purpose'')"

lemma hdb_boundary_pass:
  "hdb_decision (hdb_boundary human) = PASS \<longleftrightarrow> (\<forall>h. human = Some h \<longrightarrow> human_authorized h)"
  by (auto simp: hdb_boundary_def human_authorized_def split: option.splits)

lemma omega_gate_pass:
  "fst (omega_gate hdb a o' s t) = PASS \<longleftrightarrow> o' \<and> hdb_decision hdb = PASS \<and> s \<and> t"
  by (cases "hdb_decision hdb") (auto simp: omega_gate_def)

lemma omega_gate_hold:
  "fst (omega_gate hdb a o' s t) = HOLD \<longleftrightarrow> o' \<and> hdb_decision hdb = HOLD"
  by (cases "hdb_decision hdb") (auto simp: omega_gate_def)

lemma stable_hash_hex: "hex_lower_n 64 (stable_hash v)"
  by (simp add: stable_hash_def sha256_text_hex)

lemma length_stable_hash [simp]: "length (stable_hash v) = 64"
  by (simp add: stable_hash_def)

lemma stable_hash_sort [simp]: "stable_hash (sort_json v) = stable_hash v"
  by (simp add: stable_hash_def)

text \<open>The texts hashed by two calls; injectivity on them is the absence of a collision there.\<close>

lemma stable_hash_binds:
  assumes "stable_hash v = stable_hash w" and "wf_json v" and "wf_json w"
    and "inj_on sha256_text {canonical_json v, canonical_json w}"
  shows "sort_json v = sort_json w"
proof -
  have "canonical_json v = canonical_json w"
    using assms(1,4) by (auto simp: stable_hash_def dest: inj_onD)
  then show ?thesis using assms(2,3) by (rule canonical_json_determines [rotated 2])
qed

end
