(* ===== verification/Evidence.thy ===== *)
theory Evidence
  imports Core
begin

text \<open>
  \<open>app/evidence.py\<close>: the Merkle root of a list of digests and the evidence receipt that
  every governed event carries. The lemmas say which texts a root hashes, that a root
  over digests of one length and number binds them, that the odd-leaf rule makes two
  lists share a root, and that a receipt hash binds the event type and the JSON values
  of the inputs and the outputs.
\<close>

section \<open>The Merkle root\<close>

fun pair_hashes :: "string list \<Rightarrow> string list" where
  "pair_hashes (x # y # r) = sha256_text (x @ y) # pair_hashes r"
| "pair_hashes _ = []"

text \<open>One turn of the loop: an odd level repeats its last entry, then neighbours are hashed.\<close>

definition even_level :: "string list \<Rightarrow> string list" where
  "even_level level = (if odd (length level) then level @ [last level] else level)"

definition next_level :: "string list \<Rightarrow> string list" where
  "next_level level = pair_hashes (even_level level)"

lemma length_pair_hashes: "length (pair_hashes xs) = length xs div 2"
  by (induction xs rule: pair_hashes.induct) auto

lemma length_next_level: "length (next_level level) = (length level + 1) div 2"
  by (auto simp: next_level_def even_level_def length_pair_hashes)

function merkle_level :: "string list \<Rightarrow> string" where
  "merkle_level level = (if 1 < length level then merkle_level (next_level level) else hd level)"
  by pat_completeness auto
termination
  by (relation "measure length") (auto simp: length_next_level)

declare merkle_level.simps [simp del]

definition merkle_root :: "string list \<Rightarrow> string" where
  "merkle_root leaves = (if leaves = [] then sha256_text '''' else merkle_level leaves)"

section \<open>Receipts\<close>

definition receipt_core :: "string \<Rightarrow> jobj \<Rightarrow> jobj \<Rightarrow> jobj" where
  "receipt_core event_type inputs outputs =
    (let input_hash = sha256_text (canonical_json (JObj inputs));
         output_hash = sha256_text (canonical_json (JObj outputs))
     in [(''schema'', JStr ''matverse.evidence-receipt.v1''),
         (''event_type'', JStr event_type),
         (''input_hash'', JStr input_hash),
         (''output_hash'', JStr output_hash),
         (''merkle_root'', JStr (merkle_root [input_hash, output_hash]))])"

definition receipt_digest :: "string \<Rightarrow> jobj \<Rightarrow> jobj \<Rightarrow> string" where
  "receipt_digest event_type inputs outputs =
     sha256_text (canonical_json (JObj (receipt_core event_type inputs outputs)))"

definition evidence_receipt :: "string \<Rightarrow> jobj \<Rightarrow> jobj \<Rightarrow> jobj" where
  "evidence_receipt event_type inputs outputs =
     dict_set (receipt_core event_type inputs outputs)
       ''receipt_hash'' (JStr (receipt_digest event_type inputs outputs))"

section \<open>Lemmas\<close>

lemma merkle_level_one [simp]: "merkle_level [x] = x"
  by (simp add: merkle_level.simps)

lemma merkle_level_step: "1 < length xs \<Longrightarrow> merkle_level xs = merkle_level (next_level xs)"
  by (subst merkle_level.simps) simp

lemma merkle_root_two [simp]: "merkle_root [a, b] = sha256_text (a @ b)"
  by (simp add: merkle_root_def merkle_level_step next_level_def even_level_def)

text \<open>The texts that the computation of a root hashes.\<close>

fun pair_texts :: "string list \<Rightarrow> string set" where
  "pair_texts (x # y # r) = insert (x @ y) (pair_texts r)"
| "pair_texts _ = {}"

function merkle_texts :: "string list \<Rightarrow> string set" where
  "merkle_texts level =
     (if 1 < length level then pair_texts (even_level level) \<union> merkle_texts (next_level level) else {})"
  by pat_completeness auto
termination
  by (relation "measure length") (auto simp: length_next_level)

declare merkle_texts.simps [simp del]

lemma pair_hashes_binds:
  assumes "pair_hashes xs = pair_hashes ys" and "length xs = length ys" and "even (length xs)"
    and "\<And>x. x \<in> set xs \<union> set ys \<Longrightarrow> length x = n"
    and "inj_on sha256_text (pair_texts xs \<union> pair_texts ys)"
  shows "xs = ys"
  using assms
proof (induction xs arbitrary: ys rule: pair_hashes.induct)
  case (1 x y r)
  obtain x' y' r' where ys: "ys = x' # y' # r'"
    using "1.prems"(2) by (cases ys; cases "tl ys") auto
  have "sha256_text (x @ y) = sha256_text (x' @ y')"
    using "1.prems"(1) by (simp add: ys)
  then have "x @ y = x' @ y'"
    by (rule inj_onD [OF "1.prems"(5)]) (simp_all add: ys)
  moreover have "length x = n" "length x' = n"
    using "1.prems"(4) [of x] "1.prems"(4) [of x'] by (simp_all add: ys)
  ultimately have "x = x'" "y = y'" by auto
  moreover have "r = r'"
  proof (rule "1.IH")
    show "inj_on sha256_text (pair_texts r \<union> pair_texts r')"
      using "1.prems"(5) by (rule inj_on_subset) (auto simp: ys)
  qed (use "1.prems"(1-4) in \<open>auto simp: ys\<close>)
  ultimately show ?case by (simp add: ys)
qed auto

lemma even_level_inj: "even_level xs = even_level ys \<Longrightarrow> length xs = length ys \<Longrightarrow> xs = ys"
  by (auto simp: even_level_def split: if_splits)

lemma set_even_level: "xs \<noteq> [] \<Longrightarrow> set (even_level xs) = set xs"
  by (auto simp: even_level_def)

lemma pair_hashes_length_64: "x \<in> set (pair_hashes xs) \<Longrightarrow> length x = 64"
  by (induction xs rule: pair_hashes.induct) auto

lemma merkle_level_binds:
  assumes "merkle_level xs = merkle_level ys" and "length xs = length ys" and "xs \<noteq> []"
    and "\<And>x. x \<in> set xs \<union> set ys \<Longrightarrow> length x = n"
    and "inj_on sha256_text (merkle_texts xs \<union> merkle_texts ys)"
  shows "xs = ys"
  using assms
proof (induction xs arbitrary: ys n rule: merkle_level.induct)
  case (1 xs)
  show ?case
  proof (cases "1 < length xs")
    case False
    then obtain x where x: "xs = [x]" using "1.prems"(3) by (cases xs) auto
    then obtain y where "ys = [y]" using "1.prems"(2) by (cases ys) auto
    then show ?thesis using "1.prems"(1) x by simp
  next
    case True
    have texts: "merkle_texts zs = pair_texts (even_level zs) \<union> merkle_texts (next_level zs)"
      if "length zs = length xs" for zs
      using True that by (subst merkle_texts.simps) simp
    have "next_level xs = next_level ys"
    proof (rule "1.IH" [OF True, of _ 64])
      show "merkle_level (next_level xs) = merkle_level (next_level ys)"
        using "1.prems"(1,2) True by (simp add: merkle_level_step)
      show "length (next_level xs) = length (next_level ys)"
        by (simp add: length_next_level "1.prems"(2))
      show "next_level xs \<noteq> []"
        using True length_next_level [of xs] by auto
      show "length x = 64" if "x \<in> set (next_level xs) \<union> set (next_level ys)" for x
        using that pair_hashes_length_64 by (auto simp: next_level_def)
      show "inj_on sha256_text (merkle_texts (next_level xs) \<union> merkle_texts (next_level ys))"
        using "1.prems"(5) by (rule inj_on_subset) (auto simp: texts "1.prems"(2))
    qed
    then have hashes: "pair_hashes (even_level xs) = pair_hashes (even_level ys)"
      by (simp add: next_level_def)
    have "ys \<noteq> []" using "1.prems"(2,3) by auto
    have "even_level xs = even_level ys"
    proof (rule pair_hashes_binds [OF hashes])
      show "length (even_level xs) = length (even_level ys)"
        using "1.prems"(2) by (simp add: even_level_def)
      show "even (length (even_level xs))" by (simp add: even_level_def)
      show "length x = n" if "x \<in> set (even_level xs) \<union> set (even_level ys)" for x
        using that "1.prems"(3,4) \<open>ys \<noteq> []\<close> by (simp add: set_even_level)
      show "inj_on sha256_text (pair_texts (even_level xs) \<union> pair_texts (even_level ys))"
        using "1.prems"(5) by (rule inj_on_subset) (auto simp: texts "1.prems"(2))
    qed
    then show ?thesis using "1.prems"(2) by (rule even_level_inj)
  qed
qed

lemma merkle_root_odd:
  assumes "odd (length xs)" and "1 < length xs"
  shows "merkle_root (xs @ [last xs]) = merkle_root xs"
proof -
  have "next_level (xs @ [last xs]) = next_level xs"
    using assms by (simp add: next_level_def even_level_def)
  then show ?thesis
    using assms by (auto simp: merkle_root_def merkle_level_step)
qed

lemma receipt_hash_field [simp]:
  "map_of (evidence_receipt e i out) ''receipt_hash'' = Some (JStr (receipt_digest e i out))"
  by (simp add: evidence_receipt_def)

lemma receipt_digest_hex: "hex_lower_n 64 (receipt_digest e i out)"
  by (simp add: receipt_digest_def sha256_text_hex)

lemma wf_receipt_core [simp]: "wf_json (JObj (receipt_core e i out))"
  unfolding receipt_core_def Let_def by (simp add: dict_ok_def)

lemma wf_evidence_receipt [simp]: "wf_json (JObj (evidence_receipt e i out))"
  unfolding evidence_receipt_def by (rule wf_dict_set) simp_all

text \<open>The texts hashed for one receipt, but for the two-digest root.\<close>

definition receipt_texts :: "string \<Rightarrow> jobj \<Rightarrow> jobj \<Rightarrow> string set" where
  "receipt_texts e i out =
     {canonical_json (JObj i), canonical_json (JObj out), canonical_json (JObj (receipt_core e i out))}"

lemma receipt_digest_binds:
  assumes "receipt_digest e i out = receipt_digest e' i' out'"
    and "wf_json (JObj i)" and "wf_json (JObj out)" and "wf_json (JObj i')" and "wf_json (JObj out')"
    and inj: "inj_on sha256_text (receipt_texts e i out \<union> receipt_texts e' i' out')"
  shows "e = e' \<and> sort_json (JObj i) = sort_json (JObj i') \<and> sort_json (JObj out) = sort_json (JObj out')"
proof -
  have "canonical_json (JObj (receipt_core e i out)) = canonical_json (JObj (receipt_core e' i' out'))"
    by (rule inj_onD [OF inj]) (use assms(1) in \<open>simp_all add: receipt_digest_def receipt_texts_def\<close>)
  then have eq: "sort_json (JObj (receipt_core e i out)) = sort_json (JObj (receipt_core e' i' out'))"
    by (intro canonical_json_determines) simp_all
  have field: "map_option sort_json (map_of (receipt_core e i out) k) = map_option sort_json (map_of (receipt_core e' i' out') k)" for k
    by (rule sorted_field_eq [OF eq]) simp_all
  have "e = e'" using field [of "''event_type''"] by (simp add: receipt_core_def Let_def)
  moreover have "sha256_text (canonical_json (JObj i)) = sha256_text (canonical_json (JObj i'))"
    using field [of "''input_hash''"] by (simp add: receipt_core_def Let_def)
  moreover have "sha256_text (canonical_json (JObj out)) = sha256_text (canonical_json (JObj out'))"
    using field [of "''output_hash''"] by (simp add: receipt_core_def Let_def)
  ultimately have "e = e'" "canonical_json (JObj i) = canonical_json (JObj i')"
    "canonical_json (JObj out) = canonical_json (JObj out')"
    using inj_onD [OF inj, of "canonical_json (JObj i)" "canonical_json (JObj i')"]
      inj_onD [OF inj, of "canonical_json (JObj out)" "canonical_json (JObj out')"]
    by (simp_all add: receipt_texts_def)
  then show ?thesis using assms(2-5) canonical_json_determines by blast
qed

end
