(* ===== verification/Python_Int.thy ===== *)
theory Python_Int
  imports Sha256
begin

text \<open>
  Python's \<open>int(text, base)\<close> for the two bases the bridge uses, as a partial function: what
  CPython accepts is wider than a run of digits (surrounding white space, a sign, single
  underscores between digits, the prefix \<open>0x\<close> in base 16), and the code relies on it to
  validate timestamps and digests.
\<close>

text \<open>The characters \<open>int\<close> skips around a number.\<close>

definition int_space :: "char \<Rightarrow> bool" where
  "int_space c = (let n = of_char c :: nat in (9 \<le> n \<and> n \<le> 13) \<or> n = 32 \<or> n = 133 \<or> n = 160)"

definition int_strip :: "string \<Rightarrow> string" where
  "int_strip s = rev (dropWhile int_space (rev (dropWhile int_space s)))"

text \<open>A digit value below the base.\<close>

definition base_digit :: "nat \<Rightarrow> char \<Rightarrow> nat option" where
  "base_digit b c =
    (let n = of_char c :: nat;
         v = (if 48 \<le> n \<and> n \<le> 57 then n - 48
              else if 97 \<le> n \<and> n \<le> 122 then n - 87
              else if 65 \<le> n \<and> n \<le> 90 then n - 55 else 36)
     in if v < b then Some v else None)"

text \<open>Digits with single underscores between them: their values.\<close>

fun digit_values :: "nat \<Rightarrow> string \<Rightarrow> nat list option" where
  "digit_values b [] = None"
| "digit_values b [c] = map_option (\<lambda>v. [v]) (base_digit b c)"
| "digit_values b (c # d # r) = (case base_digit b c of
      None \<Rightarrow> None
    | Some v \<Rightarrow> map_option ((#) v) (digit_values b (if d = CHR ''_'' then r else d # r)))"

definition drop_sign :: "string \<Rightarrow> bool \<times> string" where
  "drop_sign s = (case s of
      [] \<Rightarrow> (False, s)
    | c # r \<Rightarrow> if c = CHR ''-'' then (True, r) else if c = CHR ''+'' then (False, r) else (False, s))"

definition drop_0x :: "string \<Rightarrow> string" where
  "drop_0x s = (case s of
      z # x # r \<Rightarrow> if z = CHR ''0'' \<and> (x = CHR ''x'' \<or> x = CHR ''X'')
        then (case r of u # r' \<Rightarrow> if u = CHR ''_'' then r' else r | [] \<Rightarrow> r) else s
    | _ \<Rightarrow> s)"

text \<open>\<open>None\<close> is \<open>ValueError\<close>. A decimal text of more than 4300 digits is refused.\<close>

definition py_int :: "nat \<Rightarrow> string \<Rightarrow> int option" where
  "py_int b s =
    (let (neg, r) = drop_sign (int_strip s)
     in case digit_values b (if b = 16 then drop_0x r else r) of
          None \<Rightarrow> None
        | Some vs \<Rightarrow>
            if b = 10 \<and> length vs > 4300 then None
            else Some ((if neg then -1 else 1) * foldl (\<lambda>n v. int b * n + int v) 0 vs))"

lemma digit_values_all:
  assumes "s \<noteq> ''''" and "list_all (\<lambda>c. base_digit b c \<noteq> None) s" and "CHR ''_'' \<notin> set s"
  shows "digit_values b s = Some (map (\<lambda>c. the (base_digit b c)) s)"
  using assms by (induction b s rule: digit_values.induct) auto

lemma base_digit_hex_lower: "is_hex_lower c \<Longrightarrow> base_digit 16 c \<noteq> None"
  by (auto simp: is_hex_lower_def base_digit_def Let_def)

lemma hex_lower_not_sign:
  "is_hex_lower c \<Longrightarrow> c \<noteq> CHR ''_'' \<and> c \<noteq> CHR ''-'' \<and> c \<noteq> CHR ''+'' \<and> c \<noteq> CHR ''x'' \<and> c \<noteq> CHR ''X'' \<and> \<not> int_space c"
  by (auto simp: is_hex_lower_def int_space_def Let_def)

lemma dropWhile_none: "list_all (\<lambda>c. \<not> P c) s \<Longrightarrow> dropWhile P s = s"
  by (cases s) auto

text \<open>Every run of lower-case hexadecimal digits is a number.\<close>

lemma py_int_hex_lower:
  assumes "list_all is_hex_lower s" and "s \<noteq> ''''"
  shows "py_int 16 s \<noteq> None"
proof -
  have sp: "list_all (\<lambda>c. \<not> int_space c) s" "list_all (\<lambda>c. \<not> int_space c) (rev s)"
    using assms(1) by (auto simp: list_all_iff dest: hex_lower_not_sign)
  have st: "int_strip s = s" by (simp add: int_strip_def dropWhile_none sp)
  have sg: "drop_sign s = (False, s)"
    using assms by (auto simp: drop_sign_def dest: hex_lower_not_sign split: list.splits)
  have px: "drop_0x s = s"
    using assms(1) by (auto simp: drop_0x_def dest: hex_lower_not_sign split: list.splits)
  have "CHR ''_'' \<notin> set s"
    using assms(1) by (auto simp: list_all_iff dest: hex_lower_not_sign)
  moreover have "list_all (\<lambda>c. base_digit 16 c \<noteq> None) s"
    using assms(1) base_digit_hex_lower by (simp add: list_all_iff)
  ultimately have "digit_values 16 s \<noteq> None"
    using assms(2) digit_values_all [of s 16] by simp
  then show ?thesis by (auto simp: py_int_def st sg px)
qed

end
