(* ===== verification/Model_Bridge.thy ===== *)
theory Model_Bridge
  imports Core Python_Int
begin

text \<open>
  \<open>app/model_bridge.py\<close>: what may be handed from one model to another. The frozen
  contract hash, the guard that keeps hidden state and secrets out of a transferable
  document at any depth, the digest of a handoff, and the comparison of two documents
  under invariant rules declared beforehand. The lemmas characterise the guard by the
  keys that occur in the document, show that a digest binds every field of a handoff,
  and give the comparison as the conjunction of its rules.
\<close>

definition PROTOCOL_VERSION :: string where
  "PROTOCOL_VERSION = ''matverse.model-bridge.v1.1''"

definition ALLOWED_ROOT_KEYS :: "string list" where
  "ALLOWED_ROOT_KEYS =
     [''kind'', ''public_summary'', ''decision'', ''claims'', ''safety'', ''state'', ''evidence'', ''metadata'',
      ''ontology_state'', ''policy_state'']"

definition FORBIDDEN_CANONICAL :: "string list" where
  "FORBIDDEN_CANONICAL =
     [''chainofthought'', ''cot'', ''reasoningtrace'', ''hiddenreasoning'', ''hiddenstate'', ''privatememory'',
      ''internalmemory'', ''systemprompt'', ''developerprompt'', ''credentials'', ''apikey'', ''secretkey'',
      ''accesstoken'', ''refreshtoken'', ''password'']"

section \<open>Canonical keys\<close>

definition lower_alnum :: "char \<Rightarrow> bool" where
  "lower_alnum c = (let n = of_char c :: nat in (97 \<le> n \<and> n \<le> 122) \<or> (48 \<le> n \<and> n \<le> 57))"

definition ascii_upper :: "char \<Rightarrow> bool" where
  "ascii_upper c = (let n = of_char c :: nat in 65 \<le> n \<and> n \<le> 90)"

text \<open>\<open>re.sub(r"([a-z0-9])([A-Z])", r"\1_\2", text)\<close>.\<close>

fun camel_split :: "string \<Rightarrow> string" where
  "camel_split (x # y # r) =
     (if lower_alnum x \<and> ascii_upper y then x # CHR ''_'' # y # camel_split r
      else x # camel_split (y # r))"
| "camel_split s = s"

definition canonical_key :: "string \<Rightarrow> string" where
  "canonical_key key = filter lower_alnum (lower (camel_split (strip key)))"

section \<open>The frozen contract\<close>

definition CONTRACT_FIELDS :: "string list" where
  "CONTRACT_FIELDS = [''ontology_hash'', ''policy_hash'', ''task_hash'', ''rubric_hash'', ''memory_policy_hash'']"

text \<open>One turn of the loop over the required fields.\<close>

definition check_contract_field :: "jobj \<Rightarrow> string \<Rightarrow> unit res" where
  "check_contract_field contract key = (case jget contract key of
      JStr value \<Rightarrow>
        if length value \<noteq> 64 then Inl (ValueError (key @ '' must be a 64-character SHA-256 hex digest''))
        else if py_int 16 value = None then Inl (ValueError (key @ '' must be a SHA-256 hex digest''))
        else Inr ()
    | _ \<Rightarrow> Inl (ValueError (key @ '' must be a 64-character SHA-256 hex digest'')))"

text \<open>
  The loop runs over a Python set, whose order differs between runs: it is the argument
  \<open>order\<close>, any arrangement of the required fields.
\<close>

definition contract_hash :: "string list \<Rightarrow> jobj \<Rightarrow> string res" where
  "contract_hash order contract =
    (let missing = sort (filter (\<lambda>k. k \<notin> set (map fst contract)) CONTRACT_FIELDS);
         extra = sort (filter (\<lambda>k. k \<notin> set CONTRACT_FIELDS) (map fst contract))
     in res_bind (raise_if (missing \<noteq> []) (ValueError (''missing frozen contract fields: '' @ join '', '' missing))) (\<lambda>_.
        res_bind (raise_if (extra \<noteq> []) (ValueError (''unexpected frozen contract fields: '' @ join '', '' extra))) (\<lambda>_.
        res_bind (res_map (check_contract_field contract) order) (\<lambda>_.
        Inr (stable_hash (JObj ((''protocol_version'', JStr PROTOCOL_VERSION) # contract)))))))"

section \<open>Transferable state\<close>

fun assert_nested :: "json \<Rightarrow> string \<Rightarrow> unit res"
  and assert_fields :: "jobj \<Rightarrow> string \<Rightarrow> unit res"
  and assert_items :: "json list \<Rightarrow> nat \<Rightarrow> string \<Rightarrow> unit res" where
  "assert_nested (JObj kvs) path = assert_fields kvs path"
| "assert_nested (JArr xs) path = assert_items xs 0 path"
| "assert_nested v path = Inr ()"
| "assert_fields [] path = Inr ()"
| "assert_fields ((key, nested) # r) path =
     res_bind (raise_if (canonical_key key \<in> set FORBIDDEN_CANONICAL)
                (ValueError (''forbidden hidden/private field at '' @ path @ ''.'' @ key))) (\<lambda>_.
     res_bind (assert_nested nested (path @ ''.'' @ key)) (\<lambda>_. assert_fields r path))"
| "assert_items [] index path = Inr ()"
| "assert_items (nested # r) index path =
     res_bind (assert_nested nested (path @ ''['' @ nat_text index @ '']'')) (\<lambda>_.
     assert_items r (index + 1) path)"

definition check_root_keys :: "json \<Rightarrow> unit res" where
  "check_root_keys v = (case v of
      JObj kvs \<Rightarrow>
        (let unexpected = sort (filter (\<lambda>k. k \<notin> set ALLOWED_ROOT_KEYS) (map fst kvs))
         in raise_if (unexpected \<noteq> [])
              (ValueError (''undeclared transferable root fields: '' @ join '', '' unexpected)))
    | _ \<Rightarrow> Inr ())"

definition assert_transferable_state :: "json \<Rightarrow> unit res" where
  "assert_transferable_state v = res_bind (check_root_keys v) (\<lambda>_. assert_nested v ''$'')"

definition handoff_core :: "string \<Rightarrow> int \<Rightarrow> string \<Rightarrow> string \<Rightarrow> string option \<Rightarrow> jobj \<Rightarrow> string \<Rightarrow> jobj" where
  "handoff_core session_id seq_no from_p to_p parent payload frozen =
     [(''protocol_version'', JStr PROTOCOL_VERSION), (''session_id'', JStr session_id),
      (''sequence'', JInt seq_no), (''from_participant'', JStr from_p), (''to_participant'', JStr to_p),
      (''parent_handoff_id'', jopt parent), (''payload'', JObj payload), (''frozen_contract_hash'', JStr frozen)]"

definition build_handoff_digest ::
  "string \<Rightarrow> int \<Rightarrow> string \<Rightarrow> string \<Rightarrow> string option \<Rightarrow> jobj \<Rightarrow> string \<Rightarrow> string res" where
  "build_handoff_digest session_id seq_no from_p to_p parent payload frozen =
     res_bind (assert_transferable_state (JObj payload)) (\<lambda>_.
     Inr (stable_hash (JObj (handoff_core session_id seq_no from_p to_p parent payload frozen))))"

section \<open>Invariants between two documents\<close>

text \<open>\<open>path.split(".")\<close>.\<close>

fun split_dots :: "string \<Rightarrow> string list" where
  "split_dots [] = ['''']"
| "split_dots (c # r) = (if c = CHR ''.'' then '''' # split_dots r
     else (case split_dots r of p # ps \<Rightarrow> (c # p) # ps | [] \<Rightarrow> [[c]]))"

fun resolve_parts :: "string \<Rightarrow> string list \<Rightarrow> json \<Rightarrow> json res" where
  "resolve_parts path [] current = Inr current"
| "resolve_parts path (part # r) current =
     (if part = '''' then Inl (ValueError ''invariant path cannot contain empty segments'')
      else case current of
          JObj kvs \<Rightarrow> (case map_of kvs part of
              None \<Rightarrow> Inl (KeyError path) | Some v \<Rightarrow> resolve_parts path r v)
        | _ \<Rightarrow> Inl (KeyError path))"

definition resolve_path :: "json \<Rightarrow> string \<Rightarrow> json res" where
  "resolve_path document path = resolve_parts path (split_dots path) document"

text \<open>\<open>type(value)\<close>.\<close>

fun py_type :: "json \<Rightarrow> string" where
  "py_type JNull = ''NoneType''"
| "py_type (JBool b) = ''bool''"
| "py_type (JInt i) = ''int''"
| "py_type (JFloat t) = ''float''"
| "py_type (JStr s) = ''str''"
| "py_type (JArr xs) = ''list''"
| "py_type (JObj kvs) = ''dict''"

fun hashable :: "json \<Rightarrow> bool" where
  "hashable (JArr xs) = False"
| "hashable (JObj kvs) = False"
| "hashable v = True"

text \<open>\<open>set(value)\<close> of a value that is not a string, up to \<open>==\<close>; \<open>None\<close> is its \<open>TypeError\<close>.\<close>

fun py_set :: "json \<Rightarrow> json set option" where
  "py_set (JArr xs) = (if list_all hashable xs then Some (py_key ` set xs) else None)"
| "py_set (JObj kvs) = Some (JStr ` fst ` set kvs)"
| "py_set v = None"

fun is_str :: "json \<Rightarrow> bool" where
  "is_str (JStr s) = True"
| "is_str v = False"

definition compare_values :: "json \<Rightarrow> json \<Rightarrow> string \<Rightarrow> bool res" where
  "compare_values left right mode =
    (if mode = ''exact'' then Inr (py_eq left right)
     else if mode = ''type_equal'' then Inr (py_type left = py_type right)
     else if mode = ''set_equal'' then
       (if is_str left \<or> is_str right then Inr False
        else case (py_set left, py_set right) of
            (Some a, Some b) \<Rightarrow> Inr (a = b) | _ \<Rightarrow> Inr False)
     else Inl (ValueError (''unsupported invariant mode: '' @ mode)))"

record invariant_result =
  ir_path :: string
  ir_mode :: string
  ir_passed :: bool
  ir_left :: json
  ir_right :: json

definition rule_get :: "(string \<times> string) list \<Rightarrow> string \<Rightarrow> string \<Rightarrow> string" where
  "rule_get rule key dflt = (case map_of rule key of None \<Rightarrow> dflt | Some v \<Rightarrow> v)"

text \<open>The \<open>try\<close> block of one rule: only \<open>KeyError\<close> is caught.\<close>

definition try_rule :: "json \<Rightarrow> json \<Rightarrow> string \<Rightarrow> string \<Rightarrow> (json \<times> json \<times> bool) res" where
  "try_rule left right path mode =
     res_bind (resolve_path left path) (\<lambda>lv.
     res_bind (resolve_path right path) (\<lambda>rv.
     res_bind (compare_values lv rv mode) (\<lambda>passed. Inr (lv, rv, passed))))"

definition apply_rule :: "json \<Rightarrow> json \<Rightarrow> (string \<times> string) list \<Rightarrow> invariant_result res" where
  "apply_rule left right rule =
    (let path = rule_get rule ''path'' ''''; mode = rule_get rule ''mode'' ''exact'' in
     if mode \<notin> {''exact'', ''set_equal'', ''type_equal''}
     then Inl (ValueError (''unsupported invariant mode: '' @ mode))
     else case try_rule left right path mode of
         Inl (KeyError m) \<Rightarrow>
           Inr \<lparr>ir_path = path, ir_mode = mode, ir_passed = False, ir_left = JNull, ir_right = JNull\<rparr>
       | Inl e \<Rightarrow> Inl e
       | Inr (lv, rv, passed) \<Rightarrow>
           Inr \<lparr>ir_path = path, ir_mode = mode, ir_passed = passed, ir_left = lv, ir_right = rv\<rparr>)"

definition invariant_json :: "invariant_result \<Rightarrow> json" where
  "invariant_json i = JObj [(''path'', JStr (ir_path i)), (''mode'', JStr (ir_mode i)),
     (''passed'', JBool (ir_passed i)), (''left'', ir_left i), (''right'', ir_right i)]"

definition compare_report :: "invariant_result list \<Rightarrow> jobj" where
  "compare_report results =
     [(''protocol_version'', JStr PROTOCOL_VERSION), (''portable'', JBool (list_all ir_passed results)),
      (''passed'', JInt (int (length (filter ir_passed results)))), (''total'', JInt (int (length results))),
      (''results'', JArr (map invariant_json results))]"

definition compare_invariants :: "jobj \<Rightarrow> jobj \<Rightarrow> (string \<times> string) list list \<Rightarrow> jobj res" where
  "compare_invariants left right rules =
     res_bind (assert_transferable_state (JObj left)) (\<lambda>_.
     res_bind (assert_transferable_state (JObj right)) (\<lambda>_.
     res_bind (raise_if (rules = []) (ValueError ''at least one pre-declared invariant rule is required'')) (\<lambda>_.
     res_bind (res_map (apply_rule (JObj left) (JObj right)) rules) (\<lambda>results.
     Inr (compare_report results)))))"

section \<open>Lemmas: the guard\<close>

lemma filter_camel_split: "filter lower_alnum (lower (camel_split s)) = filter lower_alnum (lower s)"
proof (induction s rule: camel_split.induct)
  case (1 x y r)
  have "\<not> lower_alnum (lower_char (CHR ''_''))" by code_simp
  then show ?case using 1 by (simp add: lower_def)
qed auto

lemma is_space_not_alnum: "is_space c \<Longrightarrow> \<not> lower_alnum (lower_char c)"
  by (auto simp: is_space_def lower_alnum_def lower_char_def Let_def)

lemma filter_dropWhile_space:
  "filter lower_alnum (lower (dropWhile is_space s)) = filter lower_alnum (lower s)"
  by (induction s) (auto simp: lower_def is_space_not_alnum)

lemma filter_lower_rev:
  "filter lower_alnum (lower (rev s)) = rev (filter lower_alnum (lower s))"
  by (simp add: lower_def rev_filter rev_map)

text \<open>Stripping and splitting camel case never change a canonical key.\<close>

lemma canonical_key_eq: "canonical_key key = filter lower_alnum (lower key)"
  by (simp add: canonical_key_def filter_camel_split strip_def filter_lower_rev filter_dropWhile_space)

lemma lower_alnum_fixed: "lower_alnum c \<Longrightarrow> lower_char c = c"
  by (auto simp: lower_alnum_def lower_char_def Let_def)

lemma canonical_key_idem: "canonical_key (canonical_key key) = canonical_key key"
proof -
  have "map lower_char (filter lower_alnum xs) = filter lower_alnum xs" for xs
    by (induction xs) (auto simp: lower_alnum_fixed)
  then show ?thesis by (simp add: canonical_key_eq lower_def)
qed

text \<open>The keys that occur in a document at any depth.\<close>

primrec all_keys :: "json \<Rightarrow> string list" where
  "all_keys JNull = []"
| "all_keys (JBool b) = []"
| "all_keys (JInt i) = []"
| "all_keys (JFloat t) = []"
| "all_keys (JStr s) = []"
| "all_keys (JArr xs) = concat (map all_keys xs)"
| "all_keys (JObj kvs) = concat (map (\<lambda>(k, ks). k # ks) (map (map_prod id all_keys) kvs))"

definition hidden_free :: "json \<Rightarrow> bool" where
  "hidden_free v = (\<forall>k \<in> set (all_keys v). canonical_key k \<notin> set FORBIDDEN_CANONICAL)"

lemma hidden_free_simps [simp]:
  "hidden_free (JObj [])"
  "hidden_free (JObj ((k, v) # r)) \<longleftrightarrow>
     canonical_key k \<notin> set FORBIDDEN_CANONICAL \<and> hidden_free v \<and> hidden_free (JObj r)"
  "hidden_free (JArr [])"
  "hidden_free (JArr (v # vs)) \<longleftrightarrow> hidden_free v \<and> hidden_free (JArr vs)"
  "hidden_free JNull" "hidden_free (JBool b)" "hidden_free (JInt i)" "hidden_free (JFloat t)" "hidden_free (JStr s)"
  by (auto simp: hidden_free_def simp del: canonical_key_def)

lemma assert_nested_iff:
  "assert_nested v path = Inr () \<longleftrightarrow> hidden_free v"
  "assert_fields kvs path = Inr () \<longleftrightarrow> hidden_free (JObj kvs)"
  "assert_items xs index path = Inr () \<longleftrightarrow> hidden_free (JArr xs)"
  by (induction v path and kvs path and xs index path rule: assert_nested_assert_fields_assert_items.induct)
    (simp_all add: res_bind_eq_Inr)

definition root_declared :: "json \<Rightarrow> bool" where
  "root_declared v = (case v of JObj kvs \<Rightarrow> fst ` set kvs \<subseteq> set ALLOWED_ROOT_KEYS | _ \<Rightarrow> True)"

lemma sort_eq_Nil [simp]: "sort xs = [] \<longleftrightarrow> xs = []"
  by (metis set_empty set_sort)

lemma check_root_keys_iff: "check_root_keys v = Inr () \<longleftrightarrow> root_declared v"
  by (cases v) (auto simp: check_root_keys_def root_declared_def Let_def filter_empty_conv)

lemma assert_transferable_iff:
  "assert_transferable_state v = Inr () \<longleftrightarrow> root_declared v \<and> hidden_free v"
  by (simp add: assert_transferable_state_def res_bind_eq_Inr check_root_keys_iff assert_nested_iff)

lemma assert_nested_errors:
  "assert_nested v path = Inl e \<Longrightarrow> \<exists>m. e = ValueError m"
  "assert_fields kvs path = Inl e \<Longrightarrow> \<exists>m. e = ValueError m"
  "assert_items xs index path = Inl e \<Longrightarrow> \<exists>m. e = ValueError m"
  by (induction v path and kvs path and xs index path rule: assert_nested_assert_fields_assert_items.induct)
    (auto simp: res_bind_eq_Inl)

section \<open>Lemmas: digests\<close>

lemma wf_handoff_core [simp]:
  assumes "wf_json (JObj payload)"
  shows "wf_json (JObj (handoff_core a n b c d payload f))"
  unfolding handoff_core_def using assms by (simp add: dict_ok_def)

lemma handoff_core_binds:
  assumes "stable_hash (JObj (handoff_core a n b c d p f)) = stable_hash (JObj (handoff_core a' n' b' c' d' p' f'))"
    and "wf_json (JObj p)" and "wf_json (JObj p')"
    and "inj_on sha256_text {canonical_json (JObj (handoff_core a n b c d p f)),
           canonical_json (JObj (handoff_core a' n' b' c' d' p' f'))}"
  shows "(a, n, b, c, d, f) = (a', n', b', c', d', f') \<and> sort_json (JObj p) = sort_json (JObj p')"
proof -
  let ?l = "handoff_core a n b c d p f" and ?r = "handoff_core a' n' b' c' d' p' f'"
  have s: "sort_json (JObj ?l) = sort_json (JObj ?r)"
    using assms by (intro stable_hash_binds) simp_all
  have field: "map_option sort_json (map_of ?l k) = map_option sort_json (map_of ?r k)" for k
    using assms(2,3) by (intro sorted_field_eq [OF s]) simp_all
  show ?thesis
    using field [of "''session_id''"] field [of "''sequence''"] field [of "''from_participant''"]
      field [of "''to_participant''"] field [of "''parent_handoff_id''"] field [of "''payload''"]
      field [of "''frozen_contract_hash''"]
    by (simp add: handoff_core_def del: sort_json.simps(7))
qed

lemma build_handoff_digest_Inr:
  "build_handoff_digest a n b c d p f = Inr h \<longleftrightarrow>
     root_declared (JObj p) \<and> hidden_free (JObj p) \<and> h = stable_hash (JObj (handoff_core a n b c d p f))"
  by (auto simp: build_handoff_digest_def res_bind_eq_Inr assert_transferable_iff)

text \<open>The contract hash succeeds on exactly the contracts of the five digests.\<close>

definition contract_field_ok :: "jobj \<Rightarrow> string \<Rightarrow> bool" where
  "contract_field_ok contract key =
     (\<exists>s. map_of contract key = Some (JStr s) \<and> length s = 64 \<and> py_int 16 s \<noteq> None)"

lemma check_contract_field_iff:
  "check_contract_field contract key = Inr () \<longleftrightarrow> contract_field_ok contract key"
  by (auto simp: check_contract_field_def contract_field_ok_def jget_def split: option.splits json.splits)

lemma res_map_unit_ok: "(\<exists>ys. res_map f xs = Inr ys) \<longleftrightarrow> (\<forall>x \<in> set xs. \<exists>y. f x = Inr y)"
  by (induction xs) (auto simp: res_bind_eq_Inr)

lemma contract_hash_Inr:
  assumes "set order = set CONTRACT_FIELDS"
  shows "contract_hash order contract = Inr h \<longleftrightarrow>
     fst ` set contract = set CONTRACT_FIELDS \<and> (\<forall>k \<in> set CONTRACT_FIELDS. contract_field_ok contract k) \<and>
     h = stable_hash (JObj ((''protocol_version'', JStr PROTOCOL_VERSION) # contract))"
proof -
  have "(\<exists>ys. res_map (check_contract_field contract) order = Inr ys) \<longleftrightarrow>
      (\<forall>k \<in> set CONTRACT_FIELDS. contract_field_ok contract k)"
    by (simp add: res_map_unit_ok assms check_contract_field_iff)
  then show ?thesis
    by (auto simp: contract_hash_def Let_def res_bind_eq_Inr filter_empty_conv)
qed

section \<open>Lemmas: comparison\<close>

text \<open>A rule holds between two documents.\<close>

definition rule_holds :: "json \<Rightarrow> json \<Rightarrow> (string \<times> string) list \<Rightarrow> bool" where
  "rule_holds left right rule =
    (\<exists>lv rv. resolve_path left (rule_get rule ''path'' '''') = Inr lv \<and>
       resolve_path right (rule_get rule ''path'' '''') = Inr rv \<and>
       compare_values lv rv (rule_get rule ''mode'' ''exact'') = Inr True)"

lemma resolve_parts_error:
  "resolve_parts path parts v = Inl e \<Longrightarrow> e = KeyError path \<or> (\<exists>m. e = ValueError m)"
  by (induction path parts v rule: resolve_parts.induct) (auto split: if_splits json.splits option.splits)

lemma apply_rule_passed:
  "apply_rule left right rule = Inr i \<Longrightarrow> ir_passed i \<longleftrightarrow> rule_holds left right rule"
proof -
  assume a: "apply_rule left right rule = Inr i"
  let ?path = "rule_get rule ''path'' ''''" and ?mode = "rule_get rule ''mode'' ''exact''"
  show ?thesis
  proof (cases "try_rule left right ?path ?mode")
    case (Inl e)
    then have "\<not> rule_holds left right rule"
      by (auto simp: rule_holds_def try_rule_def)
    moreover have "\<not> ir_passed i"
      using a Inl by (cases e) (auto simp: apply_rule_def Let_def split: if_splits)
    ultimately show ?thesis by simp
  next
    case (Inr t)
    obtain lv rv p where t: "t = (lv, rv, p)" by (cases t)
    have "ir_passed i = p"
      using a Inr t by (auto simp: apply_rule_def Let_def split: if_splits)
    moreover have "rule_holds left right rule = p"
      using Inr t by (auto simp: rule_holds_def try_rule_def)
    ultimately show ?thesis by simp
  qed
qed

lemma res_map_Inr_all:
  "res_map f xs = Inr ys \<Longrightarrow> (\<And>x y. f x = Inr y \<Longrightarrow> P y \<longleftrightarrow> Q x) \<Longrightarrow> list_all P ys \<longleftrightarrow> list_all Q xs"
  by (induction xs arbitrary: ys) (auto simp: res_bind_eq_Inr)

lemma compare_invariants_portable:
  assumes "compare_invariants left right rules = Inr report"
  shows "map_of report ''portable'' = Some (JBool (list_all (rule_holds (JObj left) (JObj right)) rules))"
proof -
  from assms obtain results where r: "res_map (apply_rule (JObj left) (JObj right)) rules = Inr results"
    and rep: "report = compare_report results"
    by (auto simp: compare_invariants_def)
  have "list_all ir_passed results \<longleftrightarrow> list_all (rule_holds (JObj left) (JObj right)) rules"
    using r apply_rule_passed by (rule res_map_Inr_all)
  then show ?thesis by (simp add: rep compare_report_def)
qed

lemma py_eq_refl [simp]: "py_eq v v"
  by (simp add: py_eq_def)

lemma py_eq_sym: "py_eq v w = py_eq w v"
  by (auto simp: py_eq_def)

lemma compare_values_sym: "compare_values l r mode = compare_values r l mode"
proof -
  have "py_eq l r = py_eq r l" by (rule py_eq_sym)
  moreover have "(py_type l = py_type r) = (py_type r = py_type l)" by (rule eq_commute)
  moreover have "(is_str l \<or> is_str r) = (is_str r \<or> is_str l)" by (rule disj_commute)
  moreover have "(case (py_set l, py_set r) of (Some a, Some b) \<Rightarrow> Inr (a = b) | _ \<Rightarrow> (Inr False :: bool res)) =
      (case (py_set r, py_set l) of (Some a, Some b) \<Rightarrow> Inr (a = b) | _ \<Rightarrow> Inr False)"
    by (cases "py_set l"; cases "py_set r") auto
  ultimately show ?thesis unfolding compare_values_def by presburger
qed

lemma rule_holds_sym: "rule_holds l r rule = rule_holds r l rule"
  by (auto simp: rule_holds_def compare_values_sym)

end
