(* ===== verification/Hash_Chain.thy ===== *)
theory Hash_Chain
  imports Json_Roundtrip
begin

text \<open>
  Append-only hash chains, the structure shared by the ledger, the key registry's event
  log and the physiology journal. A chain is a list of links: the digest of the previous
  link, the digest of this one, and the body. The locale \<open>hash_chain\<close> states what a
  client must provide (the digest of a link is the SHA-256 of a text that determines
  both the previous digest and the body) and proves that the head digest then binds the
  whole history.
\<close>

type_synonym 'b link = "string \<times> string \<times> 'b"

fun linked :: "(string \<Rightarrow> 'b \<Rightarrow> string) \<Rightarrow> string \<Rightarrow> 'b link list \<Rightarrow> bool" where
  "linked h p [] = True"
| "linked h p ((q, x, b) # r) = (q = p \<and> x = h p b \<and> linked h x r)"

definition chain_head :: "string \<Rightarrow> 'b link list \<Rightarrow> string" where
  "chain_head p r = (if r = [] then p else fst (snd (last r)))"

abbreviation bodies :: "'b link list \<Rightarrow> 'b list" where
  "bodies r \<equiv> map (\<lambda>x. snd (snd x)) r"

lemma chain_head_Nil [simp]: "chain_head p [] = p"
  by (simp add: chain_head_def)

lemma chain_head_snoc [simp]: "chain_head p (r @ [(q, x, b)]) = x"
  by (simp add: chain_head_def)

lemma chain_head_Cons [simp]: "chain_head p ((q, x, b) # r) = chain_head x r"
  by (simp add: chain_head_def)

lemma linked_append:
  "linked h p (r @ s) \<longleftrightarrow> linked h p r \<and> linked h (chain_head p r) s"
  by (induction h p r rule: linked.induct) auto

lemma linked_snoc:
  "linked h p (r @ [(q, x, b)]) \<longleftrightarrow>
     linked h p r \<and> q = chain_head p r \<and> x = h (chain_head p r) b"
  by (auto simp: linked_append)

lemma linked_head: "linked h p r \<Longrightarrow> chain_head p r = foldl h p (bodies r)"
  by (induction h p r rule: linked.induct) auto

text \<open>The texts hashed along a history.\<close>

fun chain_texts :: "(string \<Rightarrow> 'b \<Rightarrow> string) \<Rightarrow> (string \<Rightarrow> 'b \<Rightarrow> string) \<Rightarrow> string \<Rightarrow> 'b list \<Rightarrow> string set" where
  "chain_texts t h p [] = {}"
| "chain_texts t h p (b # bs) = insert (t p b) (chain_texts t h (h p b) bs)"

lemma chain_texts_append:
  "chain_texts t h p (bs @ cs) = chain_texts t h p bs \<union> chain_texts t h (foldl h p bs) cs"
  by (induction t h p bs rule: chain_texts.induct) auto

locale hash_chain =
  fixes link_text :: "string \<Rightarrow> 'b \<Rightarrow> string"
    and link_hash :: "string \<Rightarrow> 'b \<Rightarrow> string"
    and body_ok :: "'b \<Rightarrow> bool"
    and genesis :: string
  assumes hash_of_text: "link_hash p b = sha256_text (link_text p b)"
    and text_binds: "p = genesis \<or> hex_lower_n 64 p \<Longrightarrow> p' = genesis \<or> hex_lower_n 64 p' \<Longrightarrow>
      body_ok b \<Longrightarrow> body_ok b' \<Longrightarrow> link_text p b = link_text p' b' \<Longrightarrow> p = p' \<and> b = b'"
    and genesis_no_digest: "\<not> hex_lower_n 64 genesis"
begin

lemma head_form: "foldl link_hash genesis bs = genesis \<or> hex_lower_n 64 (foldl link_hash genesis bs)"
  by (cases bs rule: rev_cases) (simp_all add: hash_of_text sha256_text_hex)

lemma head_snoc_digest: "hex_lower_n 64 (foldl link_hash genesis (bs @ [b]))"
  by (simp add: hash_of_text sha256_text_hex)

text \<open>Two histories with one head are one history, whatever their lengths.\<close>

lemma head_binds_history:
  assumes "foldl link_hash genesis bs = foldl link_hash genesis cs"
    and "list_all body_ok bs" and "list_all body_ok cs"
    and "inj_on sha256_text
      (chain_texts link_text link_hash genesis bs \<union> chain_texts link_text link_hash genesis cs)"
  shows "bs = cs"
  using assms
proof (induction bs arbitrary: cs rule: rev_induct)
  case Nil
  show ?case
  proof (cases cs rule: rev_cases)
    case (snoc ds d)
    then show ?thesis using Nil.prems(1) head_snoc_digest [of ds d] genesis_no_digest by simp
  qed simp
next
  case (snoc b bs)
  show ?case
  proof (cases cs rule: rev_cases)
    case Nil
    then show ?thesis using snoc.prems(1) head_snoc_digest [of bs b] genesis_no_digest by simp
  next
    case cs: (snoc ds d)
    have hashes: "sha256_text (link_text (foldl link_hash genesis bs) b) =
        sha256_text (link_text (foldl link_hash genesis ds) d)"
      using snoc.prems(1) by (simp add: cs flip: hash_of_text)
    have "link_text (foldl link_hash genesis bs) b = link_text (foldl link_hash genesis ds) d"
      using hashes by (rule inj_onD [OF snoc.prems(4)]) (simp_all add: cs chain_texts_append)
    then have eq: "foldl link_hash genesis bs = foldl link_hash genesis ds \<and> b = d"
      using snoc.prems(2,3) head_form by (intro text_binds) (simp_all add: cs)
    have "bs = ds"
    proof (rule snoc.IH)
      show "inj_on sha256_text
          (chain_texts link_text link_hash genesis bs \<union> chain_texts link_text link_hash genesis ds)"
        using snoc.prems(4) by (rule inj_on_subset) (auto simp: cs chain_texts_append)
    qed (use snoc.prems eq in \<open>simp_all add: cs\<close>)
    then show ?thesis using eq cs by simp
  qed
qed

text \<open>Hence so are two well-linked lists of links.\<close>

lemma linked_binds:
  assumes "linked link_hash genesis r" and "linked link_hash genesis s"
    and "chain_head genesis r = chain_head genesis s"
    and "list_all body_ok (bodies r)" and "list_all body_ok (bodies s)"
    and "inj_on sha256_text (chain_texts link_text link_hash genesis (bodies r) \<union>
           chain_texts link_text link_hash genesis (bodies s))"
  shows "r = s"
proof -
  have "bodies r = bodies s"
    using assms by (intro head_binds_history) (simp_all add: linked_head)
  moreover have "r = s" if "bodies r = bodies s" "linked link_hash p r" "linked link_hash p s" for p
    using that
  proof (induction r arbitrary: p s)
    case (Cons x r)
    then show ?case by (cases x; cases s) auto
  qed simp
  ultimately show ?thesis using assms(1,2) by blast
qed

end

end
