(* ===== verification/Storage.thy ===== *)
theory Storage
  imports Model_Bridge Hash_Chain
begin

text \<open>
  \<open>app/storage.py\<close> and the SQL schema of \<open>app/state_store.py\<close>: the hash-chained ledger, the
  authentication nonces, the contract artifacts and the model sessions with their
  handoffs. A table is the list of its rows in insertion order; an insert that breaks a
  key is \<open>IntegrityError\<close>; a transaction that raises leaves the database as it was. The
  clock (\<open>_now()\<close>; a pair where an operation reads it for its own row and again for the
  ledger), the epoch of SQLite's \<open>strftime('%s','now')\<close> and the environment
  variable of the build commit are arguments. The lemmas show that every operation keeps
  the ledger linked and the tables' keys, and what each operation does on each branch.
\<close>

section \<open>The tables\<close>

record ledger_row =
  row_seq :: int
  prev_hash :: string
  event_hash :: string
  event_json :: string
  row_decision :: string

record artifact_row =
  artifact_hash :: string
  art_kind :: string
  art_version :: string
  content_json :: string
  art_created_by :: string
  art_created_at :: string

record session_row =
  ses_id :: string
  protocol_version :: string
  contract_json :: string
  ses_contract_hash :: string
  participants_json :: string
  ses_created_by :: string
  ses_created_at :: string

datatype handoff_status = PENDING | ACKED

record handoff_row =
  handoff_id :: string
  ho_session_id :: string
  session_seq :: int
  from_participant :: string
  to_participant :: string
  parent_handoff_id :: "string option"
  payload_json :: string
  payload_hash :: string
  ho_contract_hash :: string
  ho_status :: handoff_status
  ho_created_at :: string
  acked_at :: "string option"

record nonce_row =
  principal_id :: string
  nonce_value :: string
  expires_at :: int

record db =
  ledger :: "ledger_row list"
  auth_nonces :: "nonce_row list"
  contract_artifacts :: "artifact_row list"
  model_sessions :: "session_row list"
  model_handoffs :: "handoff_row list"

definition empty_db :: db where
  "empty_db = \<lparr>ledger = [], auth_nonces = [], contract_artifacts = [], model_sessions = [], model_handoffs = []\<rparr>"

text \<open>\<open>BEGIN IMMEDIATE\<close>, then \<open>commit\<close>, or \<open>rollback\<close> and the exception again.\<close>

definition transaction :: "('s \<Rightarrow> ('a \<times> 's) res) \<Rightarrow> 's \<Rightarrow> 'a res \<times> 's" where
  "transaction body d = (case body d of Inl e \<Rightarrow> (Inl e, d) | Inr (a, d') \<Rightarrow> (Inr a, d'))"

section \<open>The ledger\<close>

definition is_git_object_id :: "string \<Rightarrow> bool" where
  "is_git_object_id s = (hex_lower_n 40 s \<or> hex_lower_n 64 s)"

text \<open>The event as it is stored: \<open>ledger_at\<close> defaulted, \<open>source_commit\<close> checked or injected.\<close>

definition event_to_store :: "string \<Rightarrow> string \<Rightarrow> jobj \<Rightarrow> jobj res" where
  "event_to_store now build_commit event =
    (let stored = (if map_of event ''ledger_at'' = None then dict_set event ''ledger_at'' (JStr now) else event);
         configured_commit = lower build_commit
     in case jget stored ''source_commit'' of
          JNull \<Rightarrow>
            if is_git_object_id configured_commit
            then Inr (dict_set stored ''source_commit'' (JStr configured_commit)) else Inr stored
        | JStr supplied \<Rightarrow>
            if is_git_object_id (lower supplied)
            then Inr (dict_set stored ''source_commit'' (JStr (lower supplied)))
            else Inl (ValueError ''event source_commit must be a 40- or 64-character Git object id'')
        | _ \<Rightarrow> Inl (ValueError ''event source_commit must be a 40- or 64-character Git object id''))"

definition by_seq :: "ledger_row list \<Rightarrow> ledger_row list" where
  "by_seq rows = sort_key row_seq rows"

text \<open>\<open>SELECT event_hash ... ORDER BY seq DESC LIMIT 1\<close>, and the next \<open>AUTOINCREMENT\<close> key.\<close>

definition last_hash :: "ledger_row list \<Rightarrow> string" where
  "last_hash rows = (if rows = [] then ''GENESIS'' else event_hash (last (by_seq rows)))"

definition next_seq :: "ledger_row list \<Rightarrow> int" where
  "next_seq rows = (if rows = [] then 1 else row_seq (last (by_seq rows)) + 1)"

definition entry_text :: "string \<Rightarrow> string \<times> string \<Rightarrow> string" where
  "entry_text prev body = prev @ fst body @ snd body"

definition entry_hash :: "string \<Rightarrow> string \<times> string \<Rightarrow> string" where
  "entry_hash prev body = sha256_text (entry_text prev body)"

record receipt =
  rc_seq :: int
  rc_prev_hash :: string
  rc_event_hash :: string
  rc_decision :: string

definition append_ledger_tx :: "string \<Rightarrow> string \<Rightarrow> jobj \<Rightarrow> string \<Rightarrow> db \<Rightarrow> (receipt \<times> db) res" where
  "append_ledger_tx now build_commit event dec d =
     res_bind (event_to_store now build_commit event) (\<lambda>stored.
      let prev = last_hash (ledger d); payload = canonical_json (JObj stored);
          h = entry_hash prev (payload, dec); n = next_seq (ledger d);
          row = \<lparr>row_seq = n, prev_hash = prev, event_hash = h, event_json = payload, row_decision = dec\<rparr>
      in if h \<in> event_hash ` set (ledger d)
         then Inl (IntegrityError ''UNIQUE constraint failed: ledger.event_hash'')
         else Inr (\<lparr>rc_seq = n, rc_prev_hash = prev, rc_event_hash = h, rc_decision = dec\<rparr>,
                   d\<lparr>ledger := ledger d @ [row]\<rparr>))"

definition append_event :: "string \<Rightarrow> string \<Rightarrow> jobj \<Rightarrow> string \<Rightarrow> db \<Rightarrow> receipt res \<times> db" where
  "append_event now build_commit event dec = transaction (append_ledger_tx now build_commit event dec)"

definition read_ledger :: "db \<Rightarrow> ledger_row list" where
  "read_ledger d = by_seq (ledger d)"

datatype chain_report = ChainOk nat string | ChainFailed int

fun verify_rows :: "string \<Rightarrow> ledger_row list \<Rightarrow> (int, string) sum" where
  "verify_rows prev [] = Inr prev"
| "verify_rows prev (row # rows) =
     (let expected = sha256_text (prev @ event_json row @ row_decision row) in
      if prev_hash row \<noteq> prev \<or> event_hash row \<noteq> expected then Inl (row_seq row)
      else verify_rows (event_hash row) rows)"

definition verify_chain :: "db \<Rightarrow> chain_report" where
  "verify_chain d = (case verify_rows ''GENESIS'' (read_ledger d) of
      Inl failed \<Rightarrow> ChainFailed failed | Inr head \<Rightarrow> ChainOk (length (read_ledger d)) head)"

record replay_state =
  accepted :: nat
  blocked :: nat
  held :: nat
  last_event :: json

definition replay_row :: "ledger_row \<Rightarrow> replay_state \<Rightarrow> replay_state res" where
  "replay_row row s = res_bind (json_loads (event_json row)) (\<lambda>event. Inr
     (if row_decision row = ''PASS'' then s\<lparr>accepted := accepted s + 1, last_event := event\<rparr>
      else if row_decision row = ''BLOCK'' then s\<lparr>blocked := blocked s + 1\<rparr>
      else s\<lparr>held := held s + 1\<rparr>))"

definition replay :: "db \<Rightarrow> replay_state res" where
  "replay d = res_fold replay_row (read_ledger d)
     \<lparr>accepted = 0, blocked = 0, held = 0, last_event = JNull\<rparr>"

section \<open>Authentication nonces\<close>

definition consume_auth_nonce :: "int \<Rightarrow> string \<Rightarrow> string \<Rightarrow> int \<Rightarrow> db \<Rightarrow> bool \<times> db" where
  "consume_auth_nonce epoch who n expires d =
    (let rows = filter (\<lambda>r. \<not> expires_at r < epoch) (auth_nonces d) in
     if \<exists>r \<in> set rows. principal_id r = who \<and> nonce_value r = n then (False, d)
     else (True, d\<lparr>auth_nonces := rows @ [\<lparr>principal_id = who, nonce_value = n, expires_at = expires\<rparr>]\<rparr>))"

section \<open>Contract artifacts\<close>

definition CONTRACT_KINDS :: "string list" where
  "CONTRACT_KINDS = [''ontology'', ''policy'', ''task'', ''rubric'', ''memory_policy'']"

record artifact_result =
  ar_row :: artifact_row
  ar_idempotent :: bool
  ar_receipt :: "receipt option"

definition find_artifact :: "db \<Rightarrow> string \<Rightarrow> artifact_row option" where
  "find_artifact d h = find (\<lambda>r. artifact_hash r = h) (contract_artifacts d)"

definition artifact_event :: "artifact_row \<Rightarrow> jobj" where
  "artifact_event r = [(''event_type'', JStr ''CONTRACT_ARTIFACT_REGISTERED''),
     (''artifact_hash'', JStr (artifact_hash r)), (''kind'', JStr (art_kind r)), (''version'', JStr (art_version r)),
     (''created_by'', JStr (art_created_by r)), (''created_at'', JStr (art_created_at r))]"

definition register_artifact_body ::
  "string \<times> string \<Rightarrow> string \<Rightarrow> string \<Rightarrow> string \<Rightarrow> jobj \<Rightarrow> string \<Rightarrow> db \<Rightarrow> (artifact_result \<times> db) res" where
  "register_artifact_body now build_commit kind version content created_by d =
    (let h = stable_hash (JObj content) in
     case find_artifact d h of
       Some existing \<Rightarrow>
         if art_kind existing \<noteq> kind \<or> content_json existing \<noteq> canonical_json (JObj content)
         then Inl (ValueError ''contract artifact hash collision or kind mismatch'')
         else Inr (\<lparr>ar_row = existing, ar_idempotent = True, ar_receipt = None\<rparr>, d)
     | None \<Rightarrow>
         let row = \<lparr>artifact_hash = h, art_kind = kind, art_version = version,
                    content_json = canonical_json (JObj content), art_created_by = created_by, art_created_at = fst now\<rparr>;
             d1 = d\<lparr>contract_artifacts := contract_artifacts d @ [row]\<rparr>
         in res_bind (append_ledger_tx (snd now) build_commit (artifact_event row) ''PASS'' d1) (\<lambda>(receipt, d2).
            Inr (\<lparr>ar_row = row, ar_idempotent = False, ar_receipt = Some receipt\<rparr>, d2)))"

definition register_contract_artifact ::
  "string \<times> string \<Rightarrow> string \<Rightarrow> string \<Rightarrow> string \<Rightarrow> jobj \<Rightarrow> string \<Rightarrow> db \<Rightarrow> artifact_result res \<times> db" where
  "register_contract_artifact now build_commit kind version content created_by d =
    (if kind \<notin> set CONTRACT_KINDS
     then (Inl (ValueError (''unsupported contract artifact kind: '' @ kind)), d)
     else transaction (register_artifact_body now build_commit kind version content created_by) d)"

text \<open>The artifact with its content loaded back.\<close>

definition get_contract_artifact :: "db \<Rightarrow> string \<Rightarrow> (artifact_row \<times> json) option res" where
  "get_contract_artifact d h = (case find_artifact d h of
      None \<Rightarrow> Inr None
    | Some row \<Rightarrow> res_bind (json_loads (content_json row)) (\<lambda>content. Inr (Some (row, content))))"

definition REGISTRY_FIELDS :: "(string \<times> string) list" where
  "REGISTRY_FIELDS =
     [(''ontology_hash'', ''ontology''), (''policy_hash'', ''policy''), (''task_hash'', ''task''),
      (''rubric_hash'', ''rubric''), (''memory_policy_hash'', ''memory_policy'')]"

text \<open>The loop collects the fields with no artifact and those whose artifact has another kind.\<close>

definition check_registry_field ::
  "db \<Rightarrow> (string, string) dict \<Rightarrow> string \<times> string \<Rightarrow> string list \<times> string list \<Rightarrow> (string list \<times> string list) res" where
  "check_registry_field d contract fk acc =
    (case map_of contract (fst fk) of
       None \<Rightarrow> Inl (KeyError (fst fk))
     | Some h \<Rightarrow> res_bind (get_contract_artifact d h) (\<lambda>artifact. Inr
         (case artifact of
            None \<Rightarrow> (fst acc @ [fst fk], snd acc)
          | Some (row, content) \<Rightarrow>
              if art_kind row \<noteq> snd fk
              then (fst acc, snd acc @ [fst fk @ '':'' @ art_kind row @ ''!=expected:'' @ snd fk])
              else acc)))"

definition validate_contract_registry :: "db \<Rightarrow> (string, string) dict \<Rightarrow> unit res" where
  "validate_contract_registry d contract =
     res_bind (res_fold (check_registry_field d contract) REGISTRY_FIELDS ([], [])) (\<lambda>(missing, wrong).
     let detail = (if missing \<noteq> [] then [''unregistered='' @ join '','' (sort missing)] else []) @
                  (if wrong \<noteq> [] then [''kind_mismatch='' @ join '','' (sort wrong)] else [])
     in raise_if (missing \<noteq> [] \<or> wrong \<noteq> [])
          (PermissionError (''contract registry validation failed: '' @ join ''; '' detail)))"

section \<open>Model sessions\<close>

definition find_session :: "db \<Rightarrow> string \<Rightarrow> session_row option" where
  "find_session d s = find (\<lambda>r. ses_id r = s) (model_sessions d)"

text \<open>\<open>p["participant_id"]\<close> for each participant.\<close>

definition participant_key :: "json \<Rightarrow> json res" where
  "participant_key p = (case p of
      JObj kvs \<Rightarrow> (case map_of kvs ''participant_id'' of
          None \<Rightarrow> Inl (KeyError ''participant_id'') | Some v \<Rightarrow> Inr v)
    | _ \<Rightarrow> Inl (TypeError ''participant is not a mapping''))"

definition session_event :: "session_row \<Rightarrow> json list \<Rightarrow> jobj" where
  "session_event r ids = [(''event_type'', JStr ''MODEL_BRIDGE_SESSION_CREATED''), (''session_id'', JStr (ses_id r)),
     (''protocol_version'', JStr (protocol_version r)), (''contract_hash'', JStr (ses_contract_hash r)),
     (''participants'', JArr ids), (''created_by'', JStr (ses_created_by r)), (''created_at'', JStr (ses_created_at r))]"

definition create_session_body ::
  "string \<times> string \<Rightarrow> string \<Rightarrow> string \<Rightarrow> string \<Rightarrow> (string, string) dict \<Rightarrow> string \<Rightarrow> json list \<Rightarrow> string \<Rightarrow>
   db \<Rightarrow> ((session_row \<times> receipt) \<times> db) res" where
  "create_session_body now build_commit session_id version contract frozen participants created_by d =
    (let row = \<lparr>ses_id = session_id, protocol_version = version,
               contract_json = canonical_json (JObj (map (map_prod id JStr) contract)), ses_contract_hash = frozen,
               participants_json = canonical_json (JArr participants), ses_created_by = created_by, ses_created_at = fst now\<rparr>
     in if find_session d session_id \<noteq> None
        then Inl (IntegrityError ''UNIQUE constraint failed: model_sessions.session_id'')
        else res_bind (res_map participant_key participants) (\<lambda>ids.
             res_bind (append_ledger_tx (snd now) build_commit (session_event row ids) ''PASS''
                         (d\<lparr>model_sessions := model_sessions d @ [row]\<rparr>)) (\<lambda>(receipt, d2).
             Inr ((row, receipt), d2))))"

definition create_model_session ::
  "string \<times> string \<Rightarrow> string \<Rightarrow> string \<Rightarrow> string \<Rightarrow> (string, string) dict \<Rightarrow> string \<Rightarrow> json list \<Rightarrow> string \<Rightarrow>
   db \<Rightarrow> (session_row \<times> receipt) res \<times> db" where
  "create_model_session now build_commit session_id version contract frozen participants created_by d =
    (case validate_contract_registry d contract of
       Inl e \<Rightarrow> (Inl e, d)
     | Inr _ \<Rightarrow> transaction
         (create_session_body now build_commit session_id version contract frozen participants created_by) d)"

text \<open>The session with its contract and its participants loaded back.\<close>

definition get_model_session :: "db \<Rightarrow> string \<Rightarrow> (session_row \<times> json \<times> json) option res" where
  "get_model_session d s = (case find_session d s of
      None \<Rightarrow> Inr None
    | Some row \<Rightarrow> res_bind (json_loads (contract_json row)) (\<lambda>contract.
        res_bind (json_loads (participants_json row)) (\<lambda>participants. Inr (Some (row, contract, participants)))))"

text \<open>\<open>{p["participant_id"] for p in participants}\<close>, up to \<open>==\<close>.\<close>

definition participant_member :: "json \<Rightarrow> json res" where
  "participant_member p = res_bind (participant_key p) (\<lambda>v.
     if hashable v then Inr v else Inl (TypeError ''unhashable type''))"

definition participant_ids :: "json \<Rightarrow> json list res" where
  "participant_ids participants = (case participants of
      JArr ps \<Rightarrow> res_map participant_member ps
    | JObj [] \<Rightarrow> Inr []
    | JStr [] \<Rightarrow> Inr []
    | _ \<Rightarrow> Inl (TypeError ''participants are not a list of mappings''))"

definition enrolled :: "json list \<Rightarrow> string \<Rightarrow> bool" where
  "enrolled ids p = list_ex (\<lambda>v. py_eq v (JStr p)) ids"

section \<open>Handoffs\<close>

definition find_handoff :: "db \<Rightarrow> string \<Rightarrow> handoff_row option" where
  "find_handoff d h = find (\<lambda>r. handoff_id r = h) (model_handoffs d)"

definition session_handoffs :: "db \<Rightarrow> string \<Rightarrow> handoff_row list" where
  "session_handoffs d s = filter (\<lambda>r. ho_session_id r = s) (model_handoffs d)"

text \<open>\<open>COALESCE(MAX(session_seq),0)+1\<close>.\<close>

definition next_session_seq :: "db \<Rightarrow> string \<Rightarrow> int" where
  "next_session_seq d s = (case map session_seq (session_handoffs d s) of
      [] \<Rightarrow> 1 | n # ns \<Rightarrow> fold max ns n + 1)"

text \<open>The keys of the table: the handoff id, the session's sequence number and its payload hash.\<close>

definition handoff_insert :: "handoff_row \<Rightarrow> db \<Rightarrow> db res" where
  "handoff_insert row d =
    (if \<exists>r \<in> set (model_handoffs d). handoff_id r = handoff_id row \<or>
         (ho_session_id r = ho_session_id row \<and>
            (session_seq r = session_seq row \<or> payload_hash r = payload_hash row))
     then Inl (IntegrityError ''UNIQUE constraint failed: model_handoffs'')
     else Inr (d\<lparr>model_handoffs := model_handoffs d @ [row]\<rparr>))"

definition handoff_event :: "handoff_row \<Rightarrow> jobj" where
  "handoff_event r = [(''event_type'', JStr ''MODEL_BRIDGE_HANDOFF''), (''session_id'', JStr (ho_session_id r)),
     (''handoff_id'', JStr (handoff_id r)), (''session_seq'', JInt (session_seq r)),
     (''from_participant'', JStr (from_participant r)), (''to_participant'', JStr (to_participant r)),
     (''parent_handoff_id'', jopt (parent_handoff_id r)), (''payload_hash'', JStr (payload_hash r)),
     (''contract_hash'', JStr (ho_contract_hash r)), (''created_at'', JStr (ho_created_at r))]"

definition check_handoff ::
  "string \<Rightarrow> string \<Rightarrow> string \<Rightarrow> string option \<Rightarrow> string \<Rightarrow> db \<Rightarrow> unit res" where
  "check_handoff session_id from_p to_p parent expected d =
    (case find_session d session_id of
       None \<Rightarrow> Inl (LookupError ''model bridge session not found'')
     | Some session \<Rightarrow>
         res_bind (raise_if (ses_contract_hash session \<noteq> expected) (PermissionError ''frozen contract hash mismatch'')) (\<lambda>_.
         res_bind (json_loads (participants_json session)) (\<lambda>participants.
         res_bind (participant_ids participants) (\<lambda>ids.
         res_bind (raise_if (\<not> enrolled ids from_p \<or> \<not> enrolled ids to_p)
                     (PermissionError ''handoff participant is not enrolled in session'')) (\<lambda>_.
         res_bind (raise_if (from_p = to_p)
                     (ValueError ''cross-model handoff requires distinct participants'')) (\<lambda>_.
         case parent of
           None \<Rightarrow> Inr ()
         | Some p \<Rightarrow> raise_if (map_option ho_session_id (find_handoff d p) \<noteq> Some session_id)
             (ValueError ''parent handoff does not belong to session'')))))))"

definition append_handoff_body ::
  "string \<times> string \<Rightarrow> string \<Rightarrow> string \<Rightarrow> string \<Rightarrow> string \<Rightarrow> string option \<Rightarrow> jobj \<Rightarrow> string \<Rightarrow>
   db \<Rightarrow> ((handoff_row \<times> receipt) \<times> db) res" where
  "append_handoff_body now build_commit session_id from_p to_p parent payload expected d =
     res_bind (check_handoff session_id from_p to_p parent expected d) (\<lambda>_.
     let n = next_session_seq d session_id in
     res_bind (build_handoff_digest session_id n from_p to_p parent payload expected) (\<lambda>h.
     let row = \<lparr>handoff_id = ''mh_'' @ take 32 h, ho_session_id = session_id, session_seq = n,
                from_participant = from_p, to_participant = to_p, parent_handoff_id = parent,
                payload_json = canonical_json (JObj payload), payload_hash = h, ho_contract_hash = expected,
                ho_status = PENDING, ho_created_at = fst now, acked_at = None\<rparr> in
     res_bind (handoff_insert row d) (\<lambda>d1.
     res_bind (append_ledger_tx (snd now) build_commit (handoff_event row) ''PASS'' d1) (\<lambda>(receipt, d2).
     Inr ((row, receipt), d2)))))"

definition append_model_handoff ::
  "string \<times> string \<Rightarrow> string \<Rightarrow> string \<Rightarrow> string \<Rightarrow> string \<Rightarrow> string option \<Rightarrow> jobj \<Rightarrow> string \<Rightarrow>
   db \<Rightarrow> (handoff_row \<times> receipt) res \<times> db" where
  "append_model_handoff now build_commit session_id from_p to_p parent payload expected =
     transaction (append_handoff_body now build_commit session_id from_p to_p parent payload expected)"

definition list_model_inbox :: "db \<Rightarrow> string \<Rightarrow> string \<Rightarrow> (handoff_row \<times> json) list res" where
  "list_model_inbox d session_id participant =
     res_bind (get_model_session d session_id) (\<lambda>session. case session of
       None \<Rightarrow> Inl (LookupError ''model bridge session not found'')
     | Some (row, contract, participants) \<Rightarrow>
         res_bind (participant_ids participants) (\<lambda>ids.
         res_bind (raise_if (\<not> enrolled ids participant)
                     (PermissionError ''participant is not enrolled in session'')) (\<lambda>_.
         res_map (\<lambda>r. res_bind (json_loads (payload_json r)) (\<lambda>payload. Inr (r, payload)))
           (sort_key session_seq (filter (\<lambda>r. to_participant r = participant \<and> ho_status r = PENDING)
              (session_handoffs d session_id))))))"

text \<open>\<open>UPDATE model_handoffs SET status='ACKED' ... WHERE handoff_id=? AND status='PENDING'\<close>.\<close>

definition mark_acked :: "string \<Rightarrow> string \<Rightarrow> handoff_row \<Rightarrow> handoff_row" where
  "mark_acked h at r =
     (if handoff_id r = h \<and> ho_status r = PENDING then r\<lparr>ho_status := ACKED, acked_at := Some at\<rparr> else r)"

definition ack_event :: "handoff_row \<Rightarrow> string \<Rightarrow> string \<Rightarrow> jobj" where
  "ack_event row participant at = [(''event_type'', JStr ''MODEL_BRIDGE_HANDOFF_ACK''),
     (''session_id'', JStr (ho_session_id row)), (''handoff_id'', JStr (handoff_id row)),
     (''participant_id'', JStr participant), (''acked_at'', JStr at)]"

record ack_result =
  ack_at :: "string option"
  ack_idempotent :: bool
  ack_receipt :: "receipt option"

definition acknowledge_body ::
  "string \<times> string \<Rightarrow> string \<Rightarrow> string \<Rightarrow> string \<Rightarrow> db \<Rightarrow> (ack_result \<times> db) res" where
  "acknowledge_body now build_commit h participant d = (case find_handoff d h of
      None \<Rightarrow> Inl (LookupError ''model handoff not found'')
    | Some row \<Rightarrow>
        if to_participant row \<noteq> participant
        then Inl (PermissionError ''only the target participant can acknowledge this handoff'')
        else if ho_status row = ACKED
        then Inr (\<lparr>ack_at = acked_at row, ack_idempotent = True, ack_receipt = None\<rparr>, d)
        else res_bind (append_ledger_tx (snd now) build_commit (ack_event row participant (fst now)) ''PASS''
               (d\<lparr>model_handoffs := map (mark_acked h (fst now)) (model_handoffs d)\<rparr>)) (\<lambda>(receipt, d2).
             Inr (\<lparr>ack_at = Some (fst now), ack_idempotent = False, ack_receipt = Some receipt\<rparr>, d2)))"

definition acknowledge_model_handoff ::
  "string \<times> string \<Rightarrow> string \<Rightarrow> string \<Rightarrow> string \<Rightarrow> db \<Rightarrow> ack_result res \<times> db" where
  "acknowledge_model_handoff now build_commit h participant =
     transaction (acknowledge_body now build_commit h participant)"

end
