(* ===== verification/Storage_Invariants.thy ===== *)
theory Storage_Invariants
  imports Storage
begin

text \<open>
  The invariants of the database and what each operation of \<open>app/storage.py\<close> does to it:
  the ledger stays linked and verifiable, its head binds the history, artifacts are
  addressed by their content, handoffs are numbered from 1 in every session, and a nonce
  is spent once. The interpretation of \<open>hash_chain\<close> on the ledger is here.
\<close>

section \<open>The ledger as a hash chain\<close>

definition ledger_link :: "ledger_row \<Rightarrow> (string \<times> string) link" where
  "ledger_link r = (prev_hash r, event_hash r, (event_json r, row_decision r))"

text \<open>The bodies whose text is unambiguous: an object's text and a decision without a closing brace.\<close>

definition entry_ok :: "string \<times> string \<Rightarrow> bool" where
  "entry_ok body \<longleftrightarrow> (case fst body of [] \<Rightarrow> False | c # r \<Rightarrow> c = CHR ''{'') \<and>
     last (fst body) = CHR ''}'' \<and> CHR ''}'' \<notin> set (snd body)"

lemma takeWhile_until: "c \<notin> set p \<Longrightarrow> takeWhile (\<lambda>x. x \<noteq> c) (p @ c # r) = p"
  by (induction p) auto

lemma split_unique:
  assumes "p @ c # r = p' @ c # r'" and "c \<notin> set p" and "c \<notin> set p'"
  shows "p = p' \<and> r = r'"
proof -
  have "p = p'" using assms takeWhile_until by metis
  then show ?thesis using assms(1) by simp
qed

lemma hex_lower_no_brace: "hex_lower_n k s \<Longrightarrow> CHR ''{'' \<notin> set s"
  by (auto simp: hex_lower_n_def list_all_iff is_hex_lower_def)

lemma entry_text_binds:
  assumes "entry_text p b = entry_text p' b'" and "entry_ok b" and "entry_ok b'"
    and "CHR ''{'' \<notin> set p" and "CHR ''{'' \<notin> set p'"
  shows "p = p' \<and> b = b'"
proof -
  obtain r where r: "fst b = CHR ''{'' # r"
    using assms(2) by (auto simp: entry_ok_def split: list.splits)
  obtain r' where r': "fst b' = CHR ''{'' # r'"
    using assms(3) by (auto simp: entry_ok_def split: list.splits)
  have "p @ CHR ''{'' # (r @ snd b) = p' @ CHR ''{'' # (r' @ snd b')"
    using assms(1) by (simp add: entry_text_def r r')
  then have p: "p = p'" using assms(4,5) by (blast dest: split_unique)
  obtain s where s: "fst b = s @ [CHR ''}'']"
    using assms(2) r by (metis append_butlast_last_id entry_ok_def list.distinct(1))
  obtain s' where s': "fst b' = s' @ [CHR ''}'']"
    using assms(3) r' by (metis append_butlast_last_id entry_ok_def list.distinct(1))
  have "rev (snd b) @ CHR ''}'' # rev s = rev (snd b') @ CHR ''}'' # rev s'"
  proof -
    have "fst b @ snd b = fst b' @ snd b'" using assms(1) p by (simp add: entry_text_def)
    then have "rev (fst b @ snd b) = rev (fst b' @ snd b')" by simp
    then show ?thesis by (simp add: s s')
  qed
  then have "rev (snd b) = rev (snd b') \<and> rev s = rev s'"
    by (rule split_unique) (use assms(2,3) in \<open>auto simp: entry_ok_def\<close>)
  then have "b = b'" using s s' by (simp add: prod_eq_iff)
  then show ?thesis using p by simp
qed

interpretation ledger_chain: hash_chain entry_text entry_hash entry_ok "''GENESIS''"
proof unfold_locales
  show "entry_hash p b = sha256_text (entry_text p b)" for p b by (rule entry_hash_def)
  show "\<not> hex_lower_n 64 ''GENESIS''" by (simp add: hex_lower_n_def)
  have g: "CHR ''{'' \<notin> set p" if "p = ''GENESIS'' \<or> hex_lower_n 64 p" for p
    using that hex_lower_no_brace by auto
  show "p = p' \<and> b = b'" if "p = ''GENESIS'' \<or> hex_lower_n 64 p" "p' = ''GENESIS'' \<or> hex_lower_n 64 p'"
    "entry_ok b" "entry_ok b'" "entry_text p b = entry_text p' b'" for p p' b b'
    using that g by (intro entry_text_binds) blast+
qed

definition links_of :: "ledger_row list \<Rightarrow> (string \<times> string) link list" where
  "links_of rows = map ledger_link rows"

text \<open>A row follows a head, and what \<open>verify_chain\<close> does with it.\<close>

definition row_ok :: "string \<Rightarrow> ledger_row \<Rightarrow> bool" where
  "row_ok p row \<longleftrightarrow> prev_hash row = p \<and> event_hash row = entry_hash p (event_json row, row_decision row)"

lemma verify_rows_Cons:
  "verify_rows p (row # rows) = (if row_ok p row then verify_rows (event_hash row) rows else Inl (row_seq row))"
  by (simp add: row_ok_def entry_hash_def entry_text_def Let_def)

lemma links_of_simps [simp]:
  "links_of [] = []" "links_of (r @ s) = links_of r @ links_of s"
  "linked entry_hash p (links_of (row # rows)) \<longleftrightarrow> row_ok p row \<and> linked entry_hash (event_hash row) (links_of rows)"
  "chain_head p (links_of (row # rows)) = chain_head (event_hash row) (links_of rows)"
  by (auto simp: links_of_def ledger_link_def row_ok_def)

declare verify_rows.simps(2) [simp del]

lemma verify_rows_iff:
  "verify_rows p rows = Inr h \<longleftrightarrow>
     linked entry_hash p (links_of rows) \<and> h = chain_head p (links_of rows)"
  by (induction rows arbitrary: p) (auto simp: verify_rows_Cons)

text \<open>The row reported is the first that breaks the chain.\<close>

lemma verify_rows_failed:
  "verify_rows p rows = Inl s \<Longrightarrow>
     \<exists>good row bad. rows = good @ row # bad \<and> linked entry_hash p (links_of good) \<and>
        \<not> row_ok (chain_head p (links_of good)) row \<and> s = row_seq row"
proof (induction rows arbitrary: p)
  case (Cons row rows)
  show ?case
  proof (cases "row_ok p row")
    case True
    then obtain good row' bad where "rows = good @ row' # bad"
      "linked entry_hash (event_hash row) (links_of good)"
      "\<not> row_ok (chain_head (event_hash row) (links_of good)) row'" "s = row_seq row'"
      using Cons by (fastforce simp: verify_rows_Cons)
    then show ?thesis using True by (intro exI [of _ "row # good"] exI [of _ row'] exI [of _ bad]) simp
  next
    case False
    then show ?thesis
      using Cons.prems by (intro exI [of _ "[]"]) (auto simp: verify_rows_Cons)
  qed
qed simp

lemma verify_chain_ok:
  "verify_chain d = ChainOk n h \<longleftrightarrow>
     linked entry_hash ''GENESIS'' (links_of (read_ledger d)) \<and>
     n = length (read_ledger d) \<and> h = chain_head ''GENESIS'' (links_of (read_ledger d))"
proof (cases "verify_rows ''GENESIS'' (read_ledger d)")
  case (Inl s)
  then have "\<not> linked entry_hash ''GENESIS'' (links_of (read_ledger d))"
    using verify_rows_iff by (metis Inl_Inr_False)
  then show ?thesis using Inl by (simp add: verify_chain_def)
next
  case (Inr head)
  then show ?thesis using verify_rows_iff [of "''GENESIS''" "read_ledger d" head]
    by (auto simp: verify_chain_def)
qed

section \<open>The ledger invariant\<close>

text \<open>Rows numbered from 1, linked, with distinct digests, each the canonical text of an object.\<close>

definition event_text :: "string \<Rightarrow> bool" where
  "event_text t \<longleftrightarrow> (\<exists>e. wf_json (JObj e) \<and> t = canonical_json (JObj e))"

definition ledger_ok :: "ledger_row list \<Rightarrow> bool" where
  "ledger_ok rows \<longleftrightarrow>
     map row_seq rows = map int [1..<Suc (length rows)] \<and>
     linked entry_hash ''GENESIS'' (links_of rows) \<and>
     distinct (map event_hash rows) \<and>
     (\<forall>r \<in> set rows. event_text (event_json r))"

lemma ledger_ok_Nil [simp]: "ledger_ok []"
  by (simp add: ledger_ok_def)

lemma by_seq_ok: "ledger_ok rows \<Longrightarrow> by_seq rows = rows"
proof -
  assume "ledger_ok rows"
  then have "map row_seq rows = map int [1..<Suc (length rows)]" by (simp only: ledger_ok_def)
  moreover have "sorted (map int [1..<Suc n])" for n
    by (intro sorted_map_mono) (auto simp: mono_on_def simp del: upt_Suc)
  ultimately show ?thesis unfolding by_seq_def by (intro sort_key_id_if_sorted) simp
qed

lemma last_hash_ok: "ledger_ok rows \<Longrightarrow> last_hash rows = chain_head ''GENESIS'' (links_of rows)"
  by (cases rows rule: rev_cases) (simp_all add: last_hash_def by_seq_ok links_of_def ledger_link_def)

lemma next_seq_ok: "ledger_ok rows \<Longrightarrow> next_seq rows = int (length rows) + 1"
proof (cases rows rule: rev_cases)
  case (snoc rs r)
  assume ok: "ledger_ok rows"
  then have "map row_seq rs @ [row_seq r] = map int ([1..<Suc (length rs)] @ [Suc (length rs)])"
    by (simp add: ledger_ok_def snoc)
  then have "row_seq r = int (Suc (length rs))" by simp
  then show ?thesis using by_seq_ok [OF ok] by (simp add: next_seq_def snoc)
qed (simp add: next_seq_def)

lemma wf_event_to_store:
  assumes "event_to_store now bc event = Inr e" and "wf_json (JObj event)"
  shows "wf_json (JObj e)"
proof -
  define st where "st = (if map_of event ''ledger_at'' = None then dict_set event ''ledger_at'' (JStr now) else event)"
  have "wf_json (JObj st)" using assms(2) by (simp add: st_def wf_dict_set)
  then show ?thesis
    using assms(1) unfolding event_to_store_def Let_def st_def [symmetric]
    by (auto split: json.splits if_splits intro: wf_dict_set)
qed

text \<open>What one append does.\<close>

lemma append_ledger_txE:
  assumes "append_ledger_tx now bc event dec d = Inr (rc, d')"
  obtains stored row where
    "event_to_store now bc event = Inr stored"
    and "row = \<lparr>row_seq = next_seq (ledger d), prev_hash = last_hash (ledger d),
        event_hash = entry_hash (last_hash (ledger d)) (canonical_json (JObj stored), dec),
        event_json = canonical_json (JObj stored), row_decision = dec\<rparr>"
    and "event_hash row \<notin> event_hash ` set (ledger d)"
    and "d' = d\<lparr>ledger := ledger d @ [row]\<rparr>"
    and "rc = \<lparr>rc_seq = row_seq row, rc_prev_hash = prev_hash row, rc_event_hash = event_hash row, rc_decision = dec\<rparr>"
  using assms by (auto simp: append_ledger_tx_def Let_def split: if_splits)

lemma append_ledger_ok:
  assumes "append_ledger_tx now bc event dec d = Inr (rc, d')"
    and "ledger_ok (ledger d)" and "wf_json (JObj event)"
  shows "ledger_ok (ledger d')"
  using assms(1)
proof (rule append_ledger_txE)
  fix stored row
  assume st: "event_to_store now bc event = Inr stored"
    and row: "row = \<lparr>row_seq = next_seq (ledger d), prev_hash = last_hash (ledger d),
        event_hash = entry_hash (last_hash (ledger d)) (canonical_json (JObj stored), dec),
        event_json = canonical_json (JObj stored), row_decision = dec\<rparr>"
    and new: "event_hash row \<notin> event_hash ` set (ledger d)" and d': "d' = d\<lparr>ledger := ledger d @ [row]\<rparr>"
  have "wf_json (JObj stored)" using wf_event_to_store [OF st assms(3)] .
  then have "event_text (event_json row)" by (auto simp: event_text_def row)
  moreover have "linked entry_hash ''GENESIS'' (links_of (ledger d @ [row]))"
    using assms(2) last_hash_ok [OF assms(2)]
    by (simp add: linked_append ledger_ok_def row_ok_def row)
  moreover have "map row_seq (ledger d @ [row]) = map int [1..<Suc (length (ledger d @ [row]))]"
    using assms(2) next_seq_ok [OF assms(2)] by (simp add: ledger_ok_def row)
  ultimately show ?thesis using assms(2) new by (simp add: ledger_ok_def d')
qed

lemma append_ledger_other [simp]:
  assumes "append_ledger_tx now bc event dec d = Inr (rc, d')"
  shows "auth_nonces d' = auth_nonces d" "contract_artifacts d' = contract_artifacts d"
    "model_sessions d' = model_sessions d" "model_handoffs d' = model_handoffs d"
  using assms by (auto elim!: append_ledger_txE)

section \<open>The invariant of the whole database\<close>

definition artifact_ok :: "artifact_row \<Rightarrow> bool" where
  "artifact_ok r \<longleftrightarrow> art_kind r \<in> set CONTRACT_KINDS \<and>
     (\<exists>c. wf_json (JObj c) \<and> content_json r = canonical_json (JObj c) \<and> artifact_hash r = stable_hash (JObj c))"

definition session_ok :: "session_row \<Rightarrow> bool" where
  "session_ok r \<longleftrightarrow> (\<exists>c. wf_json c \<and> contract_json r = canonical_json c) \<and>
     (\<exists>ps. wf_json (JArr ps) \<and> participants_json r = canonical_json (JArr ps))"

definition sessions_ok :: "db \<Rightarrow> bool" where
  "sessions_ok d \<longleftrightarrow> distinct (map ses_id (model_sessions d)) \<and> (\<forall>r \<in> set (model_sessions d). session_ok r)"

definition session_members :: "session_row \<Rightarrow> json list res" where
  "session_members row = res_bind (json_loads (participants_json row)) participant_ids"

definition handoff_ok :: "db \<Rightarrow> handoff_row \<Rightarrow> bool" where
  "handoff_ok d r \<longleftrightarrow>
     (\<exists>row ids. find_session d (ho_session_id r) = Some row \<and> ho_contract_hash r = ses_contract_hash row \<and>
        session_members row = Inr ids \<and> enrolled ids (from_participant r) \<and> enrolled ids (to_participant r)) \<and>
     from_participant r \<noteq> to_participant r \<and>
     (\<forall>p. parent_handoff_id r = Some p \<longrightarrow> map_option ho_session_id (find_handoff d p) = Some (ho_session_id r)) \<and>
     (\<exists>p. wf_json (JObj p) \<and> hidden_free (JObj p) \<and> payload_json r = canonical_json (JObj p)) \<and>
     (ho_status r = ACKED \<longleftrightarrow> acked_at r \<noteq> None)"

definition handoffs_ok :: "db \<Rightarrow> bool" where
  "handoffs_ok d \<longleftrightarrow>
     distinct (map handoff_id (model_handoffs d)) \<and>
     (\<forall>s. map session_seq (session_handoffs d s) = map int [1..<Suc (length (session_handoffs d s))]) \<and>
     (\<forall>r \<in> set (model_handoffs d). handoff_ok d r)"

definition nonces_ok :: "db \<Rightarrow> bool" where
  "nonces_ok d \<longleftrightarrow> distinct (map (\<lambda>r. (principal_id r, nonce_value r)) (auth_nonces d))"

definition db_ok :: "db \<Rightarrow> bool" where
  "db_ok d \<longleftrightarrow> ledger_ok (ledger d) \<and> distinct (map artifact_hash (contract_artifacts d)) \<and>
     (\<forall>r \<in> set (contract_artifacts d). artifact_ok r) \<and> sessions_ok d \<and> handoffs_ok d \<and> nonces_ok d"

lemma empty_db_ok: "db_ok empty_db"
  by (simp add: db_ok_def empty_db_def sessions_ok_def handoffs_ok_def nonces_ok_def session_handoffs_def)

lemma transaction_keeps:
  assumes "P d" and "\<And>a d'. body d = Inr (a, d') \<Longrightarrow> P d'"
  shows "P (snd (transaction body d))"
  using assms by (auto simp: transaction_def split: sum.splits)

lemma transaction_Inr:
  "transaction body d = (Inr a, d') \<longleftrightarrow> body d = Inr (a, d')"
  by (auto simp: transaction_def split: sum.splits)

text \<open>A transaction that raises changes nothing.\<close>

lemma transaction_rollback: "fst (transaction body d) = Inl e \<Longrightarrow> snd (transaction body d) = d"
  by (auto simp: transaction_def split: sum.splits)

lemma find_append: "find P (xs @ ys) = (case find P xs of None \<Rightarrow> find P ys | Some x \<Rightarrow> Some x)"
  by (induction xs) auto

text \<open>The tables a ledger append leaves alone keep their parts of the invariant.\<close>

lemma ledger_only:
  assumes "auth_nonces d' = auth_nonces d" "contract_artifacts d' = contract_artifacts d"
    "model_sessions d' = model_sessions d" "model_handoffs d' = model_handoffs d"
  shows "sessions_ok d' = sessions_ok d" "handoffs_ok d' = handoffs_ok d" "nonces_ok d' = nonces_ok d"
    "find_session d' = find_session d" "find_handoff d' = find_handoff d" "find_artifact d' = find_artifact d"
proof -
  show fs: "find_session d' = find_session d" and fh: "find_handoff d' = find_handoff d"
    and "find_artifact d' = find_artifact d" and "sessions_ok d' = sessions_ok d" and "nonces_ok d' = nonces_ok d"
    using assms by (auto simp: find_session_def find_handoff_def find_artifact_def sessions_ok_def nonces_ok_def)
  have "handoff_ok d' = handoff_ok d" by (simp add: handoff_ok_def fun_eq_iff fs fh)
  then show "handoffs_ok d' = handoffs_ok d"
    using assms by (simp add: handoffs_ok_def session_handoffs_def)
qed

lemma append_keeps_db_ok:
  assumes a: "append_ledger_tx now bc event dec d = Inr (rc, d')" and "wf_json (JObj event)" and "db_ok d"
  shows "db_ok d'"
  using assms append_ledger_ok [OF a] ledger_only [OF append_ledger_other [OF a]] append_ledger_other [OF a]
  by (simp add: db_ok_def)

lemma append_event_keeps:
  assumes "db_ok d" and "wf_json (JObj event)"
  shows "db_ok (snd (append_event now bc event dec d))"
  unfolding append_event_def
  by (rule transaction_keeps) (use assms append_keeps_db_ok in blast)+

lemma consume_nonce_keeps:
  assumes "db_ok d"
  shows "db_ok (snd (consume_auth_nonce epoch who n expires d))"
proof -
  define rows where "rows = filter (\<lambda>r. \<not> expires_at r < epoch) (auth_nonces d)"
  have dist: "distinct (map (\<lambda>r. (principal_id r, nonce_value r)) rows)"
    using assms unfolding rows_def db_ok_def nonces_ok_def by (simp add: distinct_map_filter)
  let ?d' = "snd (consume_auth_nonce epoch who n expires d)"
  have "nonces_ok ?d'"
    using assms dist unfolding consume_auth_nonce_def rows_def [symmetric] Let_def
    by (auto simp: nonces_ok_def db_ok_def)
  moreover have "ledger ?d' = ledger d" "contract_artifacts ?d' = contract_artifacts d"
    "model_sessions ?d' = model_sessions d" "model_handoffs ?d' = model_handoffs d"
    by (simp_all add: consume_auth_nonce_def Let_def)
  moreover from this have "sessions_ok ?d' = sessions_ok d" "handoffs_ok ?d' = handoffs_ok d"
    by (simp_all add: sessions_ok_def handoffs_ok_def session_handoffs_def handoff_ok_def find_session_def find_handoff_def)
  ultimately show ?thesis using assms by (simp add: db_ok_def)
qed

lemma find_none_hash: "find_artifact d h = None \<Longrightarrow> h \<notin> artifact_hash ` set (contract_artifacts d)"
  by (auto simp: find_artifact_def find_None_iff)

lemma wf_artifact_event [simp]: "wf_json (JObj (artifact_event r))"
  by (simp add: artifact_event_def)

lemma register_body_keeps:
  assumes "register_artifact_body now bc kind version content creator d = Inr (a, d')"
    and "db_ok d" and "wf_json (JObj content)" and "kind \<in> set CONTRACT_KINDS"
  shows "db_ok d'"
proof (cases "find_artifact d (stable_hash (JObj content))")
  case (Some r)
  then show ?thesis using assms(1,2) by (auto simp: register_artifact_body_def Let_def split: if_splits)
next
  case None
  define row where "row = \<lparr>artifact_hash = stable_hash (JObj content), art_kind = kind, art_version = version,
      content_json = canonical_json (JObj content), art_created_by = creator, art_created_at = fst now\<rparr>"
  define d1 where "d1 = d\<lparr>contract_artifacts := contract_artifacts d @ [row]\<rparr>"
  have eff: "sessions_ok d1 = sessions_ok d" "handoffs_ok d1 = handoffs_ok d" "nonces_ok d1 = nonces_ok d"
    by (simp_all add: d1_def sessions_ok_def nonces_ok_def handoffs_ok_def session_handoffs_def
        handoff_ok_def find_session_def find_handoff_def)
  have "artifact_ok row" using assms(3,4) by (auto simp: artifact_ok_def row_def)
  then have "db_ok d1"
    using assms(2) find_none_hash [OF None] eff by (auto simp: db_ok_def d1_def row_def)
  moreover obtain rc where "append_ledger_tx (snd now) bc (artifact_event row) ''PASS'' d1 = Inr (rc, d')"
    using assms(1) None by (auto simp: register_artifact_body_def Let_def row_def d1_def)
  ultimately show ?thesis using append_keeps_db_ok wf_artifact_event by blast
qed

lemma register_keeps:
  assumes "db_ok d" and "wf_json (JObj content)"
  shows "db_ok (snd (register_contract_artifact now bc kind version content creator d))"
  unfolding register_contract_artifact_def
  using assms by (simp add: transaction_keeps register_body_keeps)

lemma wf_participant_keys:
  assumes "res_map participant_key ps = Inr ids" and "\<forall>p \<in> set ps. wf_json p"
  shows "\<forall>v \<in> set ids. wf_json v"
  using assms
proof (induction ps arbitrary: ids)
  case (Cons p ps)
  then show ?case
    by (auto simp: participant_key_def split: json.splits option.splits dest: wf_JObj_value)
qed simp

lemma find_session_new:
  "find_session d s = None \<Longrightarrow> s \<notin> ses_id ` set (model_sessions d)"
  by (auto simp: find_session_def find_None_iff)

lemma wf_string_dict: "dict_ok c \<Longrightarrow> wf_json (JObj (map (map_prod id JStr) c))"
  by (auto simp: wf_JObj dict_ok_def)

lemma create_session_keeps:
  assumes "db_ok d" and "\<forall>p \<in> set participants. wf_json p" and "dict_ok contract"
  shows "db_ok (snd (create_model_session now bc sid version contract frozen participants creator d))"
proof -
  have "db_ok d'"
    if body: "create_session_body now bc sid version contract frozen participants creator d = Inr (a, d')" for a d'
  proof -
    define row where "row = \<lparr>ses_id = sid, protocol_version = version,
      contract_json = canonical_json (JObj (map (map_prod id JStr) contract)), ses_contract_hash = frozen,
      participants_json = canonical_json (JArr participants), ses_created_by = creator, ses_created_at = fst now\<rparr>"
    define d1 where "d1 = d\<lparr>model_sessions := model_sessions d @ [row]\<rparr>"
    have new: "find_session d sid = None"
      using body by (auto simp: create_session_body_def Let_def split: if_splits)
    obtain ids rc where ids: "res_map participant_key participants = Inr ids"
      and app: "append_ledger_tx (snd now) bc (session_event row ids) ''PASS'' d1 = Inr (rc, d')"
      using body by (auto simp: create_session_body_def Let_def row_def d1_def split: if_splits)
    have wf: "wf_json (JObj (session_event row ids))"
      using wf_participant_keys [OF ids assms(2)] by (simp add: session_event_def)
    have old: "find_session d1 s = Some r" if "find_session d s = Some r" for s r
      using that by (simp add: find_session_def d1_def find_append)
    have "handoff_ok d1 r" if "handoff_ok d r" for r
      using that old by (fastforce simp: handoff_ok_def find_handoff_def d1_def)
    then have "handoffs_ok d1"
      using assms(1) by (simp add: db_ok_def handoffs_ok_def session_handoffs_def d1_def)
    moreover have "session_ok row"
      unfolding session_ok_def row_def using wf_string_dict [OF assms(3)] assms(2) by (metis session_row.select_convs(3,5) wf_JArr)
    then have "sessions_ok d1"
      using assms(1) find_session_new [OF new] by (simp add: db_ok_def sessions_ok_def d1_def) (simp add: row_def)
    ultimately have "db_ok d1" using assms(1) by (simp add: db_ok_def d1_def nonces_ok_def)
    then show ?thesis using append_keeps_db_ok [OF app wf] by blast
  qed
  then have "db_ok (snd (transaction
      (create_session_body now bc sid version contract frozen participants creator) d))"
    using assms(1) by (rule transaction_keeps [rotated])
  then show ?thesis
    using assms(1) by (cases "validate_contract_registry d contract") (simp_all add: create_model_session_def)
qed

section \<open>Handoffs\<close>


lemma fold_max_upt: "fold max (map int [Suc 0 + a..<b]) (int a) = (if Suc a < b then int (b - 1) else int a)"
proof (induction "b - a" arbitrary: a)
  case (Suc k)
  show ?case
  proof (cases "Suc a < b")
    case True
    then have "fold max (map int [Suc 0 + a..<b]) (int a) = fold max (map int [Suc 0 + Suc a..<b]) (int (Suc a))"
      by (simp add: upt_conv_Cons max_def)
    also have "\<dots> = int (b - 1)" using Suc.hyps(1) [of "Suc a"] Suc.hyps(2) True by auto
    finally show ?thesis using True by simp
  qed simp
qed simp

lemma next_session_seq_ok:
  assumes "map session_seq (session_handoffs d s) = map int [1..<Suc (length (session_handoffs d s))]"
  shows "next_session_seq d s = int (length (session_handoffs d s)) + 1"
proof (cases "session_handoffs d s")
  case (Cons r rs)
  then have "map session_seq (session_handoffs d s) = int 1 # map int [Suc 0 + 1..<Suc (length (session_handoffs d s))]"
    using assms by (simp add: upt_conv_Cons del: upt_Suc)
  then have "next_session_seq d s = fold max (map int [Suc 0 + 1..<Suc (length (session_handoffs d s))]) (int 1) + 1"
    by (simp only: next_session_seq_def list.case)
  also have "\<dots> = int (length (session_handoffs d s)) + 1"
    unfolding fold_max_upt by (simp add: Cons)
  finally show ?thesis .
qed (simp add: next_session_seq_def)

lemma check_handoff_Inr:
  "check_handoff sid f t parent expected d = Inr () \<Longrightarrow>
     (\<exists>row ids. find_session d sid = Some row \<and> ses_contract_hash row = expected \<and>
        session_members row = Inr ids \<and> enrolled ids f \<and> enrolled ids t) \<and> f \<noteq> t \<and>
     (\<forall>p. parent = Some p \<longrightarrow> map_option ho_session_id (find_handoff d p) = Some sid)"
  by (auto simp: check_handoff_def session_members_def split: option.splits)

lemma find_handoff_append:
  "find_handoff (d\<lparr>model_handoffs := model_handoffs d @ [r]\<rparr>) h =
     (case find_handoff d h of None \<Rightarrow> if handoff_id r = h then Some r else None | Some x \<Rightarrow> Some x)"
  by (simp add: find_handoff_def find_append split: option.split)

lemma wf_handoff_event [simp]: "wf_json (JObj (handoff_event r))"
  by (simp add: handoff_event_def)

lemma wf_ack_event [simp]: "wf_json (JObj (ack_event r p t))"
  by (simp add: ack_event_def)

text \<open>What one successful handoff does.\<close>

lemma append_handoff_bodyE:
  assumes "append_handoff_body now bc sid f t parent payload expected d = Inr ((row, rc), d')"
  obtains h d1 where "check_handoff sid f t parent expected d = Inr ()"
    and "build_handoff_digest sid (next_session_seq d sid) f t parent payload expected = Inr h"
    and "row = \<lparr>handoff_id = ''mh_'' @ take 32 h, ho_session_id = sid, session_seq = next_session_seq d sid,
                from_participant = f, to_participant = t, parent_handoff_id = parent,
                payload_json = canonical_json (JObj payload), payload_hash = h, ho_contract_hash = expected,
                ho_status = PENDING, ho_created_at = fst now, acked_at = None\<rparr>"
    and "handoff_insert row d = Inr d1"
    and "append_ledger_tx (snd now) bc (handoff_event row) ''PASS'' d1 = Inr (rc, d')"
  using assms by (auto simp: append_handoff_body_def Let_def)

lemma handoff_insertE:
  assumes "handoff_insert row d = Inr d1"
  shows "d1 = d\<lparr>model_handoffs := model_handoffs d @ [row]\<rparr>"
    and "handoff_id row \<notin> handoff_id ` set (model_handoffs d)"
  using assms unfolding handoff_insert_def by (simp_all split: if_split_asm) force

lemma handoff_body_keeps:
  assumes body: "append_handoff_body now bc sid f t parent payload expected d = Inr (a, d')"
    and ok: "db_ok d" and wf: "wf_json (JObj payload)"
  shows "db_ok d'"
proof -
  obtain row rc where a: "a = (row, rc)" by (cases a)
  obtain h d1 where chk: "check_handoff sid f t parent expected d = Inr ()"
    and dig: "build_handoff_digest sid (next_session_seq d sid) f t parent payload expected = Inr h"
    and row: "row = \<lparr>handoff_id = ''mh_'' @ take 32 h, ho_session_id = sid, session_seq = next_session_seq d sid,
                from_participant = f, to_participant = t, parent_handoff_id = parent,
                payload_json = canonical_json (JObj payload), payload_hash = h, ho_contract_hash = expected,
                ho_status = PENDING, ho_created_at = fst now, acked_at = None\<rparr>"
    and ins: "handoff_insert row d = Inr d1"
    and app: "append_ledger_tx (snd now) bc (handoff_event row) ''PASS'' d1 = Inr (rc, d')"
    using body a by (auto elim: append_handoff_bodyE)
  note d1 = handoff_insertE(1) [OF ins] and new = handoff_insertE(2) [OF ins]
  have fs: "find_session d1 = find_session d" by (simp add: find_session_def d1 fun_eq_iff)
  have fh: "find_handoff d1 p = Some r" if "find_handoff d p = Some r" for p r
    using that by (simp add: d1 find_handoff_append)
  have fh2: "map_option ho_session_id (find_handoff d1 p) = Some s"
    if "map_option ho_session_id (find_handoff d p) = Some s" for p s
    using that fh by auto
  have old: "handoff_ok d1 r" if "handoff_ok d r" for r
    using that fh2 unfolding handoff_ok_def fs by blast
  have hid: "hidden_free (JObj payload)" using dig by (simp add: build_handoff_digest_Inr)
  have "handoff_ok d1 row"
    using check_handoff_Inr [OF chk] hid wf fh2 unfolding handoff_ok_def fs row by simp blast
  moreover have "session_handoffs d1 s = session_handoffs d s @ (if s = sid then [row] else [])" for s
    by (auto simp: session_handoffs_def d1 row)
  ultimately have "handoffs_ok d1"
    using ok old new next_session_seq_ok [of d sid]
    by (auto simp: db_ok_def handoffs_ok_def d1 row)
  then have "db_ok d1"
    using ok by (simp add: db_ok_def d1 sessions_ok_def nonces_ok_def)
  then show ?thesis using append_keeps_db_ok [OF app wf_handoff_event] by blast
qed

lemma mark_acked_same [simp]:
  "handoff_id (mark_acked h at r) = handoff_id r" "ho_session_id (mark_acked h at r) = ho_session_id r"
  "session_seq (mark_acked h at r) = session_seq r" "from_participant (mark_acked h at r) = from_participant r"
  "to_participant (mark_acked h at r) = to_participant r" "parent_handoff_id (mark_acked h at r) = parent_handoff_id r"
  "payload_json (mark_acked h at r) = payload_json r" "payload_hash (mark_acked h at r) = payload_hash r"
  "ho_contract_hash (mark_acked h at r) = ho_contract_hash r"
  by (simp_all add: mark_acked_def)

lemma find_map_same: "(\<And>x. P (f x) = P x) \<Longrightarrow> find P (map f xs) = map_option f (find P xs)"
  by (induction xs) auto

lemma ack_handoffs_ok:
  assumes "handoffs_ok d"
  shows "handoffs_ok (d\<lparr>model_handoffs := map (mark_acked h at) (model_handoffs d)\<rparr>)"
proof -
  define d1 where "d1 = d\<lparr>model_handoffs := map (mark_acked h at) (model_handoffs d)\<rparr>"
  have fs: "find_session d1 = find_session d" by (simp add: find_session_def d1_def fun_eq_iff)
  have fh: "find_handoff d1 p = map_option (mark_acked h at) (find_handoff d p)" for p
    by (simp add: find_handoff_def d1_def find_map_same)
  have sh: "session_handoffs d1 s = map (mark_acked h at) (session_handoffs d s)" for s
    by (simp add: session_handoffs_def d1_def filter_map comp_def)
  have "handoff_ok d1 (mark_acked h at r)" if "handoff_ok d r" for r
    using that unfolding handoff_ok_def fs fh
    by (auto simp: option.map_comp comp_def) (simp_all add: mark_acked_def split: if_splits)
  then have "handoffs_ok d1"
    using assms by (simp add: handoffs_ok_def sh comp_def) (simp add: d1_def comp_def)
  then show ?thesis by (simp add: d1_def)
qed

lemma ack_body_keeps:
  assumes body: "acknowledge_body now bc h p d = Inr (a, d')" and ok: "db_ok d"
  shows "db_ok d'"
proof (cases "ledger d' = ledger d \<and> d' = d")
  case False
  define d1 where "d1 = d\<lparr>model_handoffs := map (mark_acked h (fst now)) (model_handoffs d)\<rparr>"
  obtain row rc where "append_ledger_tx (snd now) bc (ack_event row p (fst now)) ''PASS'' d1 = Inr (rc, d')"
    using body False by (auto simp: acknowledge_body_def d1_def split: option.splits if_splits)
  moreover have "db_ok d1"
    using ok ack_handoffs_ok [of d h "fst now"] by (simp add: db_ok_def d1_def sessions_ok_def nonces_ok_def)
  ultimately show ?thesis using append_keeps_db_ok [OF _ wf_ack_event] by blast
qed (use ok in simp)

section \<open>Steps and reachable databases\<close>

text \<open>One call of the module's interface, with the inputs JSON can carry.\<close>

inductive db_step :: "db \<Rightarrow> db \<Rightarrow> bool" where
  event: "wf_json (JObj e) \<Longrightarrow> db_step d (snd (append_event now bc e dec d))"
| nonce: "db_step d (snd (consume_auth_nonce epoch who n expires d))"
| artifact: "wf_json (JObj c) \<Longrightarrow>
    db_step d (snd (register_contract_artifact now bc kind version c creator d))"
| session: "\<forall>p \<in> set ps. wf_json p \<Longrightarrow> dict_ok contract \<Longrightarrow>
    db_step d (snd (create_model_session now bc sid version contract frozen ps creator d))"
| handoff: "wf_json (JObj p) \<Longrightarrow>
    db_step d (snd (append_model_handoff now bc sid f t parent p expected d))"
| ack: "db_step d (snd (acknowledge_model_handoff now bc h who d))"

inductive_cases db_stepE: "db_step d d'"

definition db_reachable :: "db \<Rightarrow> bool" where
  "db_reachable d = db_step\<^sup>*\<^sup>* empty_db d"

lemma step_keeps: "db_step d d' \<Longrightarrow> db_ok d \<Longrightarrow> db_ok d'"
proof (induction rule: db_step.induct)
  case (handoff p d now bc sid f t parent expected)
  show ?case unfolding append_model_handoff_def
    by (rule transaction_keeps [where P = db_ok, OF handoff.prems]) (erule handoff_body_keeps [OF _ handoff.prems handoff.hyps])
next
  case (ack d now bc h who)
  show ?case unfolding acknowledge_model_handoff_def
    by (rule transaction_keeps [where P = db_ok, OF ack.prems]) (erule ack_body_keeps [OF _ ack.prems])
qed (simp_all add: append_event_keeps consume_nonce_keeps register_keeps create_session_keeps)

lemma reachable_ok: "db_reachable d \<Longrightarrow> db_ok d"
  unfolding db_reachable_def by (induction rule: rtranclp_induct) (auto simp: empty_db_ok step_keeps)

end
