(* ===== verification/Storage_Properties.thy ===== *)
theory Storage_Properties
  imports Storage_Invariants
begin

text \<open>
  What the storage layer promises its callers, over the invariants of
  \<open>Storage_Invariants\<close>: the state of every reachable ledger, tamper evidence,
  append-only growth, replay, content addressing, the life of a handoff, and nonces.
\<close>


definition sample_event :: jobj where
  "sample_event = [(''event_type'', JStr ''NOTE''), (''value'', JInt 1)]"

definition sample_db :: db where
  "sample_db = snd (append_event ''2026-01-01'' '''' sample_event ''PASS'' empty_db)"

lemma sample_db_reachable: "db_reachable sample_db"
  unfolding db_reachable_def sample_db_def
  by (rule r_into_rtranclp, rule db_step.event) (simp add: sample_event_def)

lemma sample_db_ledger: "length (ledger sample_db) = 1"
  by (simp add: sample_db_def sample_event_def append_event_def transaction_def append_ledger_tx_def empty_db_def
      event_to_store_def dict_set_def is_git_object_id_def hex_lower_n_def jget_def lower_def Let_def)



lemma object_text_ok:
  assumes "CHR ''}'' \<notin> set dec"
  shows "entry_ok (canonical_json (JObj e), dec)"
  using assms by (simp add: entry_ok_def canonical_json_def)

lemma bodies_links_of: "bodies (links_of rows) = map (\<lambda>r. (event_json r, row_decision r)) rows"
  by (simp add: links_of_def ledger_link_def comp_def)

definition stored_sample :: jobj where
  "stored_sample = sample_event @ [(''ledger_at'', JStr ''2026-01-01'')]"

lemma sample_db_eq: "sample_db = empty_db\<lparr>ledger :=
   [\<lparr>row_seq = 1, prev_hash = ''GENESIS'',
     event_hash = entry_hash ''GENESIS'' (canonical_json (JObj stored_sample), ''PASS''),
     event_json = canonical_json (JObj stored_sample), row_decision = ''PASS''\<rparr>]\<rparr>"
  by (simp add: sample_db_def stored_sample_def sample_event_def append_event_def transaction_def append_ledger_tx_def
      empty_db_def event_to_store_def dict_set_def is_git_object_id_def hex_lower_n_def jget_def lower_def Let_def
      last_hash_def next_seq_def)


section \<open>Growth, replay and content addressing\<close>

lemma append_ledger_grows:
  "append_ledger_tx now bc event dec d = Inr (rc, d') \<Longrightarrow> \<exists>row. ledger d' = ledger d @ [row]"
  by (auto elim!: append_ledger_txE)

definition extends :: "db \<Rightarrow> db \<Rightarrow> bool" where
  "extends d d' \<longleftrightarrow> ledger d' = ledger d \<or> (\<exists>row. ledger d' = ledger d @ [row])"

lemma extends_refl [simp]: "extends d d"
  by (simp add: extends_def)

lemma append_extends:
  "append_ledger_tx now bc event dec d1 = Inr (rc, d') \<Longrightarrow> ledger d1 = ledger d \<Longrightarrow> extends d d'"
  by (auto simp: extends_def dest: append_ledger_grows)

text \<open>The ledger is append-only: one call of any storage operation, successful or not,
  leaves every existing row where it is and adds at most one row at the end.\<close>

theorem ledger_append_only:
  assumes "db_step d d'"
  shows "ledger d' = ledger d \<or> (\<exists>row. ledger d' = ledger d @ [row])"
proof -
  have "extends d d'"
    using assms
  proof (cases rule: db_step.cases)
    case (event e now bc dec)
    show ?thesis unfolding event append_event_def
      by (rule transaction_keeps) (auto dest: append_extends)
  next
    case (nonce epoch who n expires)
    then show ?thesis by (simp add: consume_auth_nonce_def Let_def extends_def)
  next
    case (artifact c now bc kind version creator)
    have "extends d (snd (transaction (register_artifact_body now bc kind version c creator) d))"
      by (rule transaction_keeps)
        (auto simp: register_artifact_body_def Let_def intro: append_extends split: option.splits if_splits)
    then show ?thesis unfolding artifact by (simp add: register_contract_artifact_def)
  next
    case (session ps contract now bc sid version frozen creator)
    have "extends d (snd (transaction (create_session_body now bc sid version contract frozen ps creator) d))"
      by (rule transaction_keeps) (auto simp: create_session_body_def Let_def intro: append_extends split: if_splits)
    then show ?thesis unfolding session
      by (cases "validate_contract_registry d contract") (simp_all add: create_model_session_def)
  next
    case (handoff p now bc sid f t parent expected)
    show ?thesis unfolding handoff append_model_handoff_def
      by (rule transaction_keeps)
        (auto elim!: append_handoff_bodyE dest!: handoff_insertE(1) intro: append_extends)
  next
    case (ack now bc h who)
    show ?thesis unfolding ack acknowledge_model_handoff_def
      by (rule transaction_keeps)
        (auto simp: acknowledge_body_def intro: append_extends split: option.splits if_splits)
  qed
  then show ?thesis by (simp add: extends_def)
qed

theorem ledger_append_only_witness: "\<exists>row. ledger sample_db = [row]"
proof -
  have "db_step empty_db sample_db"
    unfolding sample_db_def by (rule db_step.event) (simp add: sample_event_def)
  from ledger_append_only [OF this] show ?thesis
    using sample_db_ledger by (auto simp: empty_db_def)
qed

lemma decoded_event: "event_text t \<Longrightarrow> \<exists>v. json_loads t = Inr v"
  by (auto simp: event_text_def)

text \<open>The last event that passed, as \<open>replay\<close> reports it.\<close>

definition last_passed :: "ledger_row list \<Rightarrow> json res" where
  "last_passed rows = (case filter (\<lambda>r. row_decision r = ''PASS'') (rev rows) of
      [] \<Rightarrow> Inr JNull | r # _ \<Rightarrow> json_loads (event_json r))"

lemma res_fold_append: "res_fold f (xs @ ys) s = res_bind (res_fold f xs s) (res_fold f ys)"
  by (induction xs arbitrary: s) (auto simp: res_bind_def split: sum.splits)

lemma replay_rows:
  assumes "\<forall>r \<in> set rows. event_text (event_json r)"
  shows "\<exists>s. res_fold replay_row rows \<lparr>accepted = 0, blocked = 0, held = 0, last_event = JNull\<rparr> = Inr s \<and>
    accepted s = length (filter (\<lambda>r. row_decision r = ''PASS'') rows) \<and>
    blocked s = length (filter (\<lambda>r. row_decision r = ''BLOCK'') rows) \<and>
    accepted s + blocked s + held s = length rows \<and> last_passed rows = Inr (last_event s)"
  using assms
proof (induction rows rule: rev_induct)
  case (snoc r rows)
  obtain v where v: "json_loads (event_json r) = Inr v" using snoc.prems decoded_event by auto
  from snoc show ?case
    by (auto simp: res_fold_append replay_row_def v last_passed_def)
qed (simp add: last_passed_def)

text \<open>Replaying any reachable ledger never fails; it counts the rows that passed and those
  blocked, the three counts add up to the rows, and the event it reports is the last one that
  passed, loaded back from its text.\<close>

theorem replay_reachable:
  assumes "db_reachable d"
  shows "\<exists>s. replay d = Inr s \<and>
    accepted s = length (filter (\<lambda>r. row_decision r = ''PASS'') (ledger d)) \<and>
    blocked s = length (filter (\<lambda>r. row_decision r = ''BLOCK'') (ledger d)) \<and>
    accepted s + blocked s + held s = length (ledger d) \<and> last_passed (ledger d) = Inr (last_event s)"
proof -
  have ok: "ledger_ok (ledger d)" using reachable_ok [OF assms] by (simp add: db_ok_def)
  then have "\<forall>r \<in> set (ledger d). event_text (event_json r)" by (simp add: ledger_ok_def)
  from replay_rows [OF this] show ?thesis
    by (simp add: replay_def read_ledger_def by_seq_ok [OF ok])
qed

theorem replay_reachable_witness:
  "\<exists>s. replay sample_db = Inr s \<and> accepted s = 1 \<and> blocked s = 0 \<and> held s = 0"
  using replay_reachable [OF sample_db_reachable] by (auto simp: sample_db_eq)

section \<open>Content addressing\<close>

lemma register_body_stored:
  assumes "register_artifact_body now bc kind version content creator d = Inr (a, d')"
  shows "\<exists>row. find_artifact d' (stable_hash (JObj content)) = Some row \<and> art_kind row = kind \<and>
    content_json row = canonical_json (JObj content)"
proof (cases "find_artifact d (stable_hash (JObj content))")
  case (Some row)
  then show ?thesis using assms by (auto simp: register_artifact_body_def Let_def split: if_splits)
next
  case None
  then show ?thesis
    using assms by (auto simp: register_artifact_body_def Let_def find_artifact_def find_append
        dest!: append_ledger_other(2))
qed

text \<open>Contract artifacts are addressed by content. After a registration that succeeds, from
  any database, the digest of the content finds an artifact of that kind whose content, loaded
  back, is the registered object (with its keys sorted).\<close>

theorem registered_artifact_found:
  assumes "register_contract_artifact now bc kind version content creator d = (Inr a, d')"
    and "wf_json (JObj content)"
  shows "\<exists>row. get_contract_artifact d' (stable_hash (JObj content)) = Inr (Some (row, sort_json (JObj content))) \<and>
    art_kind row = kind"
proof -
  have "register_artifact_body now bc kind version content creator d = Inr (a, d')"
    using assms(1) by (auto simp: register_contract_artifact_def transaction_Inr split: if_splits)
  from register_body_stored [OF this] show ?thesis
    using assms(2) by (auto simp: get_contract_artifact_def simp del: sort_json.simps)
qed

definition sample_registered :: "artifact_result res \<times> db" where
  "sample_registered =
     register_contract_artifact (''2026-01-01'', ''2026-01-02'') '''' ''policy'' ''1'' [(''rule'', JBool True)] ''alice'' empty_db"

lemma sample_registered_ok: "\<exists>a d'. sample_registered = (Inr a, d')"
  by (simp add: sample_registered_def register_contract_artifact_def CONTRACT_KINDS_def transaction_def
      register_artifact_body_def find_artifact_def empty_db_def append_ledger_tx_def artifact_event_def
      event_to_store_def dict_set_def is_git_object_id_def hex_lower_n_def jget_def lower_def Let_def)

theorem registered_artifact_found_witness:
  "\<exists>row. get_contract_artifact (snd sample_registered) (stable_hash (JObj [(''rule'', JBool True)])) =
     Inr (Some (row, JObj [(''rule'', JBool True)])) \<and> art_kind row = ''policy''"
proof -
  obtain a d' where r: "sample_registered = (Inr a, d')" using sample_registered_ok by blast
  have "wf_json (JObj [(''rule'', JBool True)])" by simp
  from registered_artifact_found [OF r [unfolded sample_registered_def] this] show ?thesis
    by (simp add: r)
qed

section \<open>The life of a handoff\<close>

lemma res_map_total:
  "\<forall>x \<in> set xs. \<exists>y. f x = Inr (g x y) \<Longrightarrow> \<exists>ys. res_map f xs = Inr ys"
  by (induction xs) (auto simp: res_bind_eq_Inr)

lemma res_map_mem: "res_map f xs = Inr ys \<Longrightarrow> x \<in> set xs \<Longrightarrow> f x = Inr y \<Longrightarrow> y \<in> set ys"
  by (induction xs arbitrary: ys) (auto simp: res_bind_eq_Inr)

lemma session_loads:
  assumes "db_ok d" and "find_session d s = Some row"
  shows "\<exists>c p. get_model_session d s = Inr (Some (row, c, p)) \<and> json_loads (participants_json row) = Inr p"
proof -
  have "row \<in> set (model_sessions d)"
    using assms(2) by (auto simp: find_session_def find_Some_iff)
  then have "session_ok row" using assms(1) by (simp add: db_ok_def sessions_ok_def)
  then show ?thesis using assms(2) by (auto simp: session_ok_def get_model_session_def)
qed

text \<open>An enrolled participant can always read the inbox of the session.\<close>

lemma inbox_readable:
  assumes ok: "db_ok d" and "find_session d s = Some row" and "session_members row = Inr ids" and "enrolled ids p"
  shows "\<exists>xs. list_model_inbox d s p = Inr xs \<and>
    (\<forall>r v. r \<in> set (session_handoffs d s) \<longrightarrow> to_participant r = p \<longrightarrow> ho_status r = PENDING \<longrightarrow>
       json_loads (payload_json r) = Inr v \<longrightarrow> (r, v) \<in> set xs)"
proof -
  obtain c ps where g: "get_model_session d s = Inr (Some (row, c, ps))" "json_loads (participants_json row) = Inr ps"
    using session_loads [OF ok assms(2)] by blast
  let ?rows = "sort_key session_seq (filter (\<lambda>r. to_participant r = p \<and> ho_status r = PENDING) (session_handoffs d s))"
  let ?f = "\<lambda>r. res_bind (json_loads (payload_json r)) (\<lambda>payload. Inr (r, payload))"
  have "\<exists>v. json_loads (payload_json r) = Inr v" if "r \<in> set ?rows" for r
  proof -
    have "handoff_ok d r" using that ok by (auto simp: db_ok_def handoffs_ok_def session_handoffs_def)
    then show ?thesis unfolding handoff_ok_def by (metis json_loads_canonical)
  qed
  then obtain xs where xs: "res_map ?f ?rows = Inr xs"
    using res_map_total [of ?rows ?f "\<lambda>r v. (r, v)"] by fastforce
  have "list_model_inbox d s p = Inr xs"
    using g xs assms(3,4) by (simp add: list_model_inbox_def session_members_def)
  then show ?thesis using res_map_mem [OF xs] by fastforce
qed

lemma handoff_result:
  assumes ok: "db_ok d" and "wf_json (JObj payload)"
    and app: "append_model_handoff now bc sid f t parent payload expected d = (Inr (row, rc), d')"
  shows "db_ok d' \<and> handoff_ok d' row \<and> session_handoffs d' sid = session_handoffs d sid @ [row] \<and>
    session_seq row = int (length (session_handoffs d sid)) + 1 \<and>
    (from_participant row, to_participant row, parent_handoff_id row, ho_status row) = (f, t, parent, PENDING) \<and>
    payload_json row = canonical_json (JObj payload) \<and>
    payload_hash row = stable_hash (JObj (handoff_core sid (session_seq row) f t parent payload expected)) \<and>
    (\<exists>ses ids. find_session d' sid = Some ses \<and> session_members ses = Inr ids \<and> enrolled ids t)"
proof -
  have body: "append_handoff_body now bc sid f t parent payload expected d = Inr ((row, rc), d')"
    using app by (simp add: append_model_handoff_def transaction_Inr)
  have ok': "db_ok d'" by (rule handoff_body_keeps [OF body assms(1,2)])
  obtain h d1 where row: "row = \<lparr>handoff_id = ''mh_'' @ take 32 h, ho_session_id = sid,
                session_seq = next_session_seq d sid, from_participant = f, to_participant = t,
                parent_handoff_id = parent, payload_json = canonical_json (JObj payload), payload_hash = h,
                ho_contract_hash = expected, ho_status = PENDING, ho_created_at = fst now, acked_at = None\<rparr>"
    and dig: "build_handoff_digest sid (next_session_seq d sid) f t parent payload expected = Inr h"
    and ins: "handoff_insert row d = Inr d1"
    and led: "append_ledger_tx (snd now) bc (handoff_event row) ''PASS'' d1 = Inr (rc, d')"
    using body by (rule append_handoff_bodyE)
  have hs: "model_handoffs d' = model_handoffs d @ [row]"
    using handoff_insertE(1) [OF ins] append_ledger_other(4) [OF led] by simp
  have mine: "handoff_ok d' row" using ok' hs by (simp add: db_ok_def handoffs_ok_def)
  have seqs: "next_session_seq d sid = int (length (session_handoffs d sid)) + 1"
    using ok by (intro next_session_seq_ok) (simp add: db_ok_def handoffs_ok_def del: upt_Suc)
  have h: "h = stable_hash (JObj (handoff_core sid (next_session_seq d sid) f t parent payload expected))"
    using dig by (simp add: build_handoff_digest_Inr)
  have "session_handoffs d' sid = session_handoffs d sid @ [row]"
    by (simp add: session_handoffs_def hs row)
  then show ?thesis using ok' mine seqs h by (simp add: row handoff_ok_def) blast
qed

text \<open>C6: A handoff that \<open>append_model_handoff\<close> accepts joins two different participants enrolled
  in the session, under the session's frozen contract hash and with no hidden field at any depth
  of its payload; it gets the next number of its session, its hash is the digest of all its
  fields, and the receiving participant then finds it in the inbox with the payload sent.\<close>

theorem accepted_handoff_delivered:
  assumes "db_ok d" and "wf_json (JObj payload)"
    and "append_model_handoff now bc sid f t parent payload expected d = (Inr (row, rc), d')"
  shows "handoff_ok d' row \<and> (from_participant row, to_participant row) = (f, t) \<and>
    session_handoffs d' sid = session_handoffs d sid @ [row] \<and>
    session_seq row = int (length (session_handoffs d sid)) + 1 \<and>
    payload_hash row = stable_hash (JObj (handoff_core sid (session_seq row) f t parent payload expected)) \<and>
    (\<exists>inbox. list_model_inbox d' sid t = Inr inbox \<and> (row, sort_json (JObj payload)) \<in> set inbox)"
proof -
  note r = handoff_result [OF assms]
  then obtain ses ids where s: "find_session d' sid = Some ses" "session_members ses = Inr ids" "enrolled ids t"
    by blast
  have "json_loads (payload_json row) = Inr (sort_json (JObj payload))"
    using r assms(2) by (simp del: sort_json.simps)
  moreover have "row \<in> set (session_handoffs d' sid)" using r by simp
  ultimately have "\<exists>inbox. list_model_inbox d' sid t = Inr inbox \<and> (row, sort_json (JObj payload)) \<in> set inbox"
    using inbox_readable [OF _ s] r by (metis Pair_inject)
  then show ?thesis using r by blast
qed

definition sample_session :: session_row where
  "sample_session = \<lparr>ses_id = ''s1'', protocol_version = PROTOCOL_VERSION, contract_json = canonical_json (JObj []),
     ses_contract_hash = ''c1'',
     participants_json = canonical_json (JArr [JObj [(''participant_id'', JStr ''a'')], JObj [(''participant_id'', JStr ''b'')]]),
     ses_created_by = ''root'', ses_created_at = ''2026''\<rparr>"

definition session_db :: db where
  "session_db = empty_db\<lparr>model_sessions := [sample_session]\<rparr>"

lemma session_db_ok: "db_ok session_db"
proof -
  have "session_ok sample_session"
    unfolding session_ok_def sample_session_def
    by (intro conjI exI [of _ "JObj []"]
        exI [of _ "[JObj [(''participant_id'', JStr ''a'')], JObj [(''participant_id'', JStr ''b'')]]"]) simp_all
  then show ?thesis
    using empty_db_ok by (simp add: session_db_def db_ok_def sessions_ok_def nonces_ok_def handoffs_ok_def
        session_handoffs_def empty_db_def)
qed

definition sample_payload :: jobj where
  "sample_payload = [(''kind'', JStr ''note''), (''state'', JObj [(''step'', JInt 2)])]"

definition sample_handoff :: "(handoff_row \<times> receipt) res \<times> db" where
  "sample_handoff = append_model_handoff (''2026'', ''2026.5'') '''' ''s1'' ''a'' ''b'' None sample_payload ''c1'' session_db"

lemma sample_payload_free: "assert_transferable_state (JObj sample_payload) = Inr ()"
  unfolding sample_payload_def by code_simp

lemma sample_members:
  "json_loads (participants_json sample_session) =
    Inr (JArr [JObj [(''participant_id'', JStr ''a'')], JObj [(''participant_id'', JStr ''b'')]])"
  unfolding sample_session_def by simp

lemma sample_handoff_ok: "\<exists>row rc d'. sample_handoff = (Inr (row, rc), d')"
proof -
  have "find_session session_db ''s1'' = Some sample_session"
    by (simp add: find_session_def session_db_def sample_session_def)
  moreover have "ses_contract_hash sample_session = ''c1''" by (simp add: sample_session_def)
  ultimately have "check_handoff ''s1'' ''a'' ''b'' None ''c1'' session_db = Inr ()"
    by (simp add: check_handoff_def sample_members participant_ids_def participant_member_def
        participant_key_def enrolled_def py_eq_def)
  moreover obtain h where "build_handoff_digest ''s1'' 1 ''a'' ''b'' None sample_payload ''c1'' = Inr h"
    using sample_payload_free by (auto simp: build_handoff_digest_def)
  ultimately show ?thesis
    by (simp add: sample_handoff_def append_model_handoff_def transaction_def append_handoff_body_def
        next_session_seq_def session_handoffs_def handoff_insert_def session_db_def empty_db_def
        append_ledger_tx_def handoff_event_def event_to_store_def dict_set_def is_git_object_id_def hex_lower_n_def
        jget_def lower_def Let_def)
qed

theorem accepted_handoff_delivered_witness:
  "\<exists>row rc inbox. fst sample_handoff = Inr (row, rc) \<and> session_seq row = 1 \<and>
     list_model_inbox (snd sample_handoff) ''s1'' ''b'' = Inr inbox \<and>
     (row, sort_json (JObj sample_payload)) \<in> set inbox"
proof -
  obtain row rc d' where s: "sample_handoff = (Inr (row, rc), d')" using sample_handoff_ok by blast
  have "wf_json (JObj sample_payload)" by (simp add: sample_payload_def)
  from accepted_handoff_delivered [OF session_db_ok this s [unfolded sample_handoff_def]]
  show ?thesis by (simp add: s session_handoffs_def session_db_def empty_db_def del: sort_json.simps)
qed

lemma acknowledge_cases:
  assumes "acknowledge_body now bc h who d = Inr (a, d')"
  obtains (again) row where "find_handoff d h = Some row" "to_participant row = who" "ho_status row = ACKED"
      "a = \<lparr>ack_at = acked_at row, ack_idempotent = True, ack_receipt = None\<rparr>" "d' = d"
  | (first) row rc where "find_handoff d h = Some row" "to_participant row = who" "ho_status row = PENDING"
      "append_ledger_tx (snd now) bc (ack_event row who (fst now)) ''PASS''
         (d\<lparr>model_handoffs := map (mark_acked h (fst now)) (model_handoffs d)\<rparr>) = Inr (rc, d')"
      "a = \<lparr>ack_at = Some (fst now), ack_idempotent = False, ack_receipt = Some rc\<rparr>"
  using assms by (auto simp: acknowledge_body_def split: option.splits if_splits) (metis handoff_status.exhaust)

lemma acknowledged_row:
  assumes body: "acknowledge_body now bc h who d = Inr (a, d')" and ok: "db_ok d"
  shows "\<exists>row. find_handoff d' h = Some row \<and> to_participant row = who \<and> ho_status row = ACKED \<and>
    acked_at row = ack_at a \<and> ack_at a \<noteq> None"
  using body
proof (cases rule: acknowledge_cases)
  case (again row)
  have "row \<in> set (model_handoffs d)" using again(1) by (auto simp: find_handoff_def find_Some_iff)
  then have "handoff_ok d row" using ok by (simp add: db_ok_def handoffs_ok_def)
  then show ?thesis using again by (simp add: handoff_ok_def)
next
  case (first row rc)
  have "handoff_id row = h" using first(1) by (auto simp: find_handoff_def find_Some_iff)
  moreover have "find_handoff d' h = Some (mark_acked h (fst now) row)"
    using first(1) append_ledger_other(4) [OF first(4)] by (simp add: find_handoff_def find_map_same)
  ultimately show ?thesis using first by (simp add: mark_acked_def)
qed

lemma same_id_same_row:
  assumes "handoffs_ok d" and "find_handoff d h = Some row" and "r \<in> set (model_handoffs d)" and "handoff_id r = h"
  shows "r = row"
proof -
  have "row \<in> set (model_handoffs d)" "handoff_id row = h"
    using assms(2) by (auto simp: find_handoff_def find_Some_iff)
  then show ?thesis using assms by (auto simp: handoffs_ok_def distinct_map dest: inj_onD)
qed

lemma inbox_pending:
  assumes "list_model_inbox d s p = Inr xs" and "(r, v) \<in> set xs"
  shows "r \<in> set (model_handoffs d) \<and> ho_status r = PENDING \<and> to_participant r = p"
proof -
  have mem: "res_map (\<lambda>r. res_bind (g r) (\<lambda>y. Inr (r, y))) rows = Inr ys \<Longrightarrow> (r, v) \<in> set ys \<Longrightarrow> r \<in> set rows"
    for g rows ys
    by (induction rows arbitrary: ys) auto
  show ?thesis using assms
    by (auto simp: list_model_inbox_def session_handoffs_def split: option.splits dest!: mem)
qed

text \<open>An acknowledgement that succeeds was made by the handoff's target; afterwards the handoff
  is acknowledged and in nobody's inbox, and any further acknowledgement by the target returns the
  first one's time, says so, and changes nothing.\<close>

theorem acknowledged_once:
  assumes "db_ok d" and "acknowledge_model_handoff now bc h who d = (Inr a, d')"
  shows "(\<exists>row. find_handoff d h = Some row \<and> to_participant row = who) \<and>
    (\<exists>row. find_handoff d' h = Some row \<and> ho_status row = ACKED \<and> acked_at row = ack_at a) \<and>
    (\<forall>s p xs r v. list_model_inbox d' s p = Inr xs \<longrightarrow> (r, v) \<in> set xs \<longrightarrow> handoff_id r \<noteq> h) \<and>
    acknowledge_model_handoff now' bc' h who d' =
      (Inr \<lparr>ack_at = ack_at a, ack_idempotent = True, ack_receipt = None\<rparr>, d')"
proof -
  have body: "acknowledge_body now bc h who d = Inr (a, d')"
    using assms(2) by (simp add: acknowledge_model_handoff_def transaction_Inr)
  have ok': "db_ok d'" by (rule ack_body_keeps [OF body assms(1)])
  obtain row where row: "find_handoff d' h = Some row" "to_participant row = who" "ho_status row = ACKED"
    "acked_at row = ack_at a"
    using acknowledged_row [OF body assms(1)] by blast
  have "handoff_id r \<noteq> h" if "list_model_inbox d' s p = Inr xs" "(r, v) \<in> set xs" for s p xs r v
    using inbox_pending [OF that] same_id_same_row [of d' h row r] row ok' by (auto simp: db_ok_def)
  moreover have "acknowledge_model_handoff now' bc' h who d' =
      (Inr \<lparr>ack_at = ack_at a, ack_idempotent = True, ack_receipt = None\<rparr>, d')"
    using row by (simp add: acknowledge_model_handoff_def transaction_def acknowledge_body_def)
  moreover have "\<exists>row. find_handoff d h = Some row \<and> to_participant row = who"
    using body by (cases rule: acknowledge_cases) blast+
  ultimately show ?thesis using row by blast
qed

definition handoff_db :: db where
  "handoff_db = session_db\<lparr>model_handoffs :=
     [\<lparr>handoff_id = ''mh_1'', ho_session_id = ''s1'', session_seq = 1, from_participant = ''a'',
       to_participant = ''b'', parent_handoff_id = None, payload_json = canonical_json (JObj sample_payload),
       payload_hash = ''h'', ho_contract_hash = ''c1'', ho_status = PENDING, ho_created_at = ''2026'', acked_at = None\<rparr>]\<rparr>"

lemma handoff_db_ok: "db_ok handoff_db"
proof -
  have fs: "find_session handoff_db ''s1'' = Some sample_session"
    by (simp add: find_session_def session_db_def handoff_db_def sample_session_def)
  have "session_members sample_session = Inr [JStr ''a'', JStr ''b'']"
    by (simp add: session_members_def sample_members participant_ids_def participant_member_def participant_key_def)
  moreover have "hidden_free (JObj sample_payload)"
    using sample_payload_free by (simp add: assert_transferable_iff)
  moreover have "wf_json (JObj sample_payload)" by (simp add: sample_payload_def)
  ultimately have "handoff_ok handoff_db (hd (model_handoffs handoff_db))"
    unfolding handoff_ok_def
    by (simp add: handoff_db_def fs [unfolded handoff_db_def] enrolled_def py_eq_def sample_session_def) blast
  then show ?thesis
    using session_db_ok by (simp add: db_ok_def handoffs_ok_def sessions_ok_def nonces_ok_def session_handoffs_def)
      (simp add: handoff_db_def session_db_def empty_db_def)
qed

theorem acknowledged_once_witness:
  "\<exists>a d'. acknowledge_model_handoff (''2027'', ''2027.5'') '''' ''mh_1'' ''b'' handoff_db = (Inr a, d') \<and> ack_at a = Some ''2027'' \<and>
     acknowledge_model_handoff (''2028'', ''2028.5'') '''' ''mh_1'' ''b'' d' =
       (Inr \<lparr>ack_at = Some ''2027'', ack_idempotent = True, ack_receipt = None\<rparr>, d')"
proof -
  obtain a d' where r: "acknowledge_model_handoff (''2027'', ''2027.5'') '''' ''mh_1'' ''b'' handoff_db = (Inr a, d')"
    and at: "ack_at a = Some ''2027''"
    by (simp add: acknowledge_model_handoff_def transaction_def acknowledge_body_def find_handoff_def handoff_db_def
        session_db_def empty_db_def append_ledger_tx_def ack_event_def event_to_store_def dict_set_def
        is_git_object_id_def hex_lower_n_def jget_def lower_def Let_def)
  show ?thesis
    using acknowledged_once [OF handoff_db_ok r, of "(''2028'', ''2028.5'')" "''''"] r at by auto
qed

section \<open>Nonces\<close>

type_synonym nonce_call = "int \<times> string \<times> string \<times> int"

fun spend_all :: "nonce_call list \<Rightarrow> db \<Rightarrow> db" where
  "spend_all [] d = d"
| "spend_all ((epoch, who, n, e) # calls) d = spend_all calls (snd (consume_auth_nonce epoch who n e d))"

definition holds_nonce :: "string \<Rightarrow> string \<Rightarrow> int \<Rightarrow> db \<Rightarrow> bool" where
  "holds_nonce who n e d \<longleftrightarrow> (\<exists>r \<in> set (auth_nonces d). principal_id r = who \<and> nonce_value r = n \<and> e \<le> expires_at r)"

lemma holds_nonce_kept:
  "holds_nonce who n e d \<Longrightarrow> epoch \<le> e \<Longrightarrow> holds_nonce who n e (snd (consume_auth_nonce epoch who' n' e' d))"
  by (fastforce simp: holds_nonce_def consume_auth_nonce_def Let_def)

lemma holds_nonce_spend_all:
  "holds_nonce who n e d \<Longrightarrow> \<forall>c \<in> set calls. fst c \<le> e \<Longrightarrow> holds_nonce who n e (spend_all calls d)"
  by (induction calls d rule: spend_all.induct) (auto simp: holds_nonce_kept)

lemma holds_nonce_refused:
  "holds_nonce who n e d \<Longrightarrow> epoch \<le> e \<Longrightarrow> consume_auth_nonce epoch who n e' d = (False, d)"
  by (fastforce simp: holds_nonce_def consume_auth_nonce_def Let_def)

text \<open>C3: A nonce is spent once: after a successful use, and after any other uses of nonces, the
  same principal's same nonce is refused and nothing changes, for as long as its expiry has not
  passed.\<close>

theorem nonce_spent_once:
  assumes "fst (consume_auth_nonce epoch who n e d)"
    and "\<forall>c \<in> set calls. fst c \<le> e" and "epoch' \<le> e"
  shows "consume_auth_nonce epoch' who n e' (spend_all calls (snd (consume_auth_nonce epoch who n e d))) =
    (False, spend_all calls (snd (consume_auth_nonce epoch who n e d)))"
proof -
  have "holds_nonce who n e (snd (consume_auth_nonce epoch who n e d))"
    using assms(1) by (auto simp: consume_auth_nonce_def holds_nonce_def Let_def split: if_splits)
  then show ?thesis
    using assms(2,3) by (intro holds_nonce_refused holds_nonce_spend_all)
qed

theorem nonce_spent_once_witness:
  "\<not> fst (consume_auth_nonce 120 ''alice'' ''n1'' 500
      (spend_all [(105, ''bob'', ''n1'', 405)] (snd (consume_auth_nonce 100 ''alice'' ''n1'' 400 empty_db))))"
  using nonce_spent_once [of 100 "''alice''" "''n1''" 400 empty_db "[(105, ''bob'', ''n1'', 405)]" 120 500]
  by (simp add: consume_auth_nonce_def empty_db_def)

section \<open>The JSON columns\<close>

definition loads_object :: "string \<Rightarrow> bool" where
  "loads_object t \<longleftrightarrow> (\<exists>d. json_loads t = Inr (JObj d))"

definition loads_array :: "string \<Rightarrow> bool" where
  "loads_array t \<longleftrightarrow> (\<exists>xs. json_loads t = Inr (JArr xs))"

lemma loads_canonical [simp]:
  "wf_json (JObj d) \<Longrightarrow> loads_object (canonical_json (JObj d))"
  "wf_json (JArr xs) \<Longrightarrow> loads_array (canonical_json (JArr xs))"
  by (simp_all add: loads_object_def loads_array_def)

text \<open>C34: The JSON columns are typed. In every reachable database the events of the ledger, the contents of the
  contract artifacts and the payloads of the handoffs load to objects, and the participants of the sessions to
  arrays: no reader of these tables fails on what a writer stored.\<close>

theorem columns_typed:
  assumes "db_reachable d"
  shows "list_all (\<lambda>r. loads_object (event_json r)) (ledger d) \<and>
    list_all (\<lambda>r. loads_object (content_json r)) (contract_artifacts d) \<and>
    list_all (\<lambda>r. loads_array (participants_json r)) (model_sessions d) \<and>
    list_all (\<lambda>r. loads_object (payload_json r)) (model_handoffs d)"
proof -
  note ok = reachable_ok [OF assms]
  have "list_all (\<lambda>r. loads_object (event_json r)) (ledger d)"
    using ok by (fastforce simp: db_ok_def ledger_ok_def event_text_def list_all_iff)
  moreover have "list_all (\<lambda>r. loads_object (content_json r)) (contract_artifacts d)"
    using ok loads_canonical(1) unfolding db_ok_def artifact_ok_def list_all_iff by metis
  moreover have "list_all (\<lambda>r. loads_array (participants_json r)) (model_sessions d)"
    using ok loads_canonical(2) unfolding db_ok_def sessions_ok_def session_ok_def list_all_iff by metis
  moreover have "list_all (\<lambda>r. loads_object (payload_json r)) (model_handoffs d)"
    using ok loads_canonical(1) unfolding db_ok_def handoffs_ok_def handoff_ok_def list_all_iff by metis
  ultimately show ?thesis by blast
qed

theorem columns_typed_witness: "list_all (\<lambda>r. loads_object (event_json r)) (ledger sample_db) \<and> ledger sample_db \<noteq> []"
  using columns_typed [OF sample_db_reachable] sample_db_ledger by auto

end
