(* ===== verification/Auth.thy ===== *)
theory Auth
  imports Storage_Properties
begin

text \<open>
  \<open>app/auth.py\<close> with the nonce client of \<open>app/institutional_state_client.py\<close>: signed HTTP
  requests, their time window, the nonce that makes each usable once, and capabilities.
  The principal registry is the text of an environment variable. Two clocks are read, in
  this order: \<open>time.time()\<close> for the window (\<open>now\<close>) and SQLite's clock for the deletion of
  expired nonces (\<open>epoch\<close>). A remote state service is an argument, the answer it gives.
\<close>

definition AUTH_WINDOW_SECONDS :: int where
  "AUTH_WINDOW_SECONDS = 300"

text \<open>\<open>HTTPException\<close>, or any other exception.\<close>

datatype auth_exc = HTTPException nat string | Raised exc

type_synonym 'a auth = "auth_exc + 'a"

definition auth_bind :: "'a auth \<Rightarrow> ('a \<Rightarrow> 'b auth) \<Rightarrow> 'b auth" where
  "auth_bind m f = (case m of Inl e \<Rightarrow> Inl e | Inr x \<Rightarrow> f x)"

definition refuse_if :: "bool \<Rightarrow> nat \<Rightarrow> string \<Rightarrow> unit auth" where
  "refuse_if bad code detail = (if bad then Inl (HTTPException code detail) else Inr ())"

definition lift :: "'a res \<Rightarrow> 'a auth" where
  "lift m = (case m of Inl e \<Rightarrow> Inl (Raised e) | Inr x \<Rightarrow> Inr x)"

record request =
  rq_method :: string
  rq_path :: string
  rq_body :: "byte list"
  h_principal :: string
  h_timestamp :: string
  h_nonce :: string
  h_content_sha256 :: string
  h_signature :: string

record principal_rec =
  pr_id :: string
  capabilities :: "string list"

definition allows :: "principal_rec \<Rightarrow> string \<Rightarrow> bool" where
  "allows p capability = (''*'' \<in> set (capabilities p) \<or> capability \<in> set (capabilities p))"

definition registry :: "string \<Rightarrow> jobj res" where
  "registry raw =
    (if raw = '''' then Inr []
     else case json_loads raw of
         Inl _ \<Rightarrow> Inl (RuntimeError ''MATVERSE_PRINCIPALS_JSON must be valid JSON'')
       | Inr (JObj parsed) \<Rightarrow> Inr parsed
       | Inr _ \<Rightarrow> Inl (RuntimeError ''MATVERSE_PRINCIPALS_JSON must be an object''))"

definition signing_payload :: "string \<Rightarrow> string \<Rightarrow> string \<Rightarrow> string \<Rightarrow> string \<Rightarrow> string" where
  "signing_payload meth path timestamp n content_sha256 =
     join [CHR 0x0A] [upper meth, path, timestamp, n, content_sha256]"

definition sign_request :: "string \<Rightarrow> string \<Rightarrow> string \<Rightarrow> string \<Rightarrow> string \<Rightarrow> string \<Rightarrow> string" where
  "sign_request secret meth path timestamp n content_sha256 =
     hmac_text secret (signing_payload meth path timestamp n content_sha256)"

text \<open>
  The nonce client: \<open>None\<close> is the local store, \<open>Some post\<close> a remote service whose answer
  to the posted document is \<open>post\<close>.
\<close>

definition nonce_request :: "string \<Rightarrow> string \<Rightarrow> int \<Rightarrow> jobj" where
  "nonce_request who n expires = [(''principal_id'', JStr who), (''nonce'', JStr n), (''expires_at'', JInt expires)]"

definition consume_nonce_client ::
  "(jobj \<Rightarrow> json res) option \<Rightarrow> int \<Rightarrow> string \<Rightarrow> string \<Rightarrow> int \<Rightarrow> db \<Rightarrow> bool res \<times> db" where
  "consume_nonce_client remote epoch who n expires d = (case remote of
      None \<Rightarrow> (let (ok, d') = consume_auth_nonce epoch who n expires d in (Inr ok, d'))
    | Some post \<Rightarrow>
        (res_bind (post (nonce_request who n expires)) (\<lambda>result. case result of
            JObj r \<Rightarrow> (case jget r ''consumed'' of
                JBool b \<Rightarrow> Inr b
              | _ \<Rightarrow> Inl (RuntimeError ''nonce response is missing consumed boolean''))
          | _ \<Rightarrow> Inl (RuntimeError ''nonce response is missing consumed boolean'')), d))"

text \<open>The registry entry of a principal: its secret and its whole record.\<close>

definition find_principal :: "jobj \<Rightarrow> string \<Rightarrow> (string \<times> jobj) auth" where
  "find_principal reg who = (case jget reg who of
      JObj rec \<Rightarrow> (case jget rec ''secret'' of
          JStr secret \<Rightarrow> Inr (secret, rec) | _ \<Rightarrow> Inl (HTTPException 401 ''unknown principal''))
    | _ \<Rightarrow> Inl (HTTPException 401 ''unknown principal''))"

fun json_string :: "json \<Rightarrow> string option" where
  "json_string (JStr s) = Some s"
| "json_string v = None"

definition principal_capabilities :: "jobj \<Rightarrow> string list auth" where
  "principal_capabilities rec = (case map_of rec ''capabilities'' of
      None \<Rightarrow> Inr []
    | Some (JArr items) \<Rightarrow>
        if list_all (\<lambda>v. json_string v \<noteq> None) items then Inr (map (the \<circ> json_string) items)
        else Inl (HTTPException 401 ''principal capability registry invalid'')
    | Some v \<Rightarrow> Inl (HTTPException 401 ''principal capability registry invalid''))"

text \<open>Everything that is checked before the nonce is spent: the secret's record and the time stamp.\<close>

definition verify_request :: "string \<Rightarrow> int \<Rightarrow> request \<Rightarrow> (jobj \<times> int) auth" where
  "verify_request principals_json now r =
     auth_bind (refuse_if (\<not> (h_principal r \<noteq> '''' \<and> h_timestamp r \<noteq> '''' \<and> h_nonce r \<noteq> '''' \<and>
                   h_content_sha256 r \<noteq> '''' \<and> h_signature r \<noteq> ''''))
                 401 ''missing MatVerse authentication headers'') (\<lambda>_.
     auth_bind (lift (registry principals_json)) (\<lambda>reg.
     auth_bind (find_principal reg (h_principal r)) (\<lambda>(secret, rec).
     auth_bind (case py_int 10 (h_timestamp r) of
         None \<Rightarrow> Inl (HTTPException 401 ''invalid authentication timestamp'') | Some ts \<Rightarrow> Inr ts) (\<lambda>ts.
     auth_bind (refuse_if (\<bar>now - ts\<bar> > AUTH_WINDOW_SECONDS)
                 401 ''authentication timestamp outside allowed window'') (\<lambda>_.
     auth_bind (refuse_if (length (h_nonce r) < 16 \<or> length (h_nonce r) > 128)
                 401 ''invalid authentication nonce'') (\<lambda>_.
     auth_bind (lift (compare_digest (bytes_hex (sha256 (rq_body r))) (h_content_sha256 r))) (\<lambda>same_body.
     auth_bind (refuse_if (\<not> same_body) 401 ''content hash mismatch'') (\<lambda>_.
     auth_bind (lift (compare_digest
                 (sign_request secret (rq_method r) (rq_path r) (h_timestamp r) (h_nonce r) (h_content_sha256 r))
                 (h_signature r))) (\<lambda>same_signature.
     auth_bind (refuse_if (\<not> same_signature) 401 ''invalid request signature'') (\<lambda>_.
     Inr (rec, ts)))))))))))"

definition authenticate ::
  "string \<Rightarrow> (jobj \<Rightarrow> json res) option \<Rightarrow> int \<Rightarrow> int \<Rightarrow> request \<Rightarrow> db \<Rightarrow> principal_rec auth \<times> db" where
  "authenticate principals_json remote now epoch r d =
    (case verify_request principals_json now r of
       Inl e \<Rightarrow> (Inl e, d)
     | Inr (rec, ts) \<Rightarrow>
         (let (spent, d') = consume_nonce_client remote epoch (h_principal r) (h_nonce r) (ts + AUTH_WINDOW_SECONDS) d in
          (auth_bind (lift spent) (\<lambda>ok.
           auth_bind (refuse_if (\<not> ok) 409 ''authentication nonce replayed'') (\<lambda>_.
           auth_bind (principal_capabilities rec) (\<lambda>caps.
           Inr \<lparr>pr_id = h_principal r, capabilities = caps\<rparr>))), d')))"

definition require_capability ::
  "string \<Rightarrow> string \<Rightarrow> (jobj \<Rightarrow> json res) option \<Rightarrow> int \<Rightarrow> int \<Rightarrow> request \<Rightarrow> db \<Rightarrow> principal_rec auth \<times> db" where
  "require_capability capability principals_json remote now epoch r d =
    (let (result, d') = authenticate principals_json remote now epoch r d in
     (auth_bind result (\<lambda>p.
      auth_bind (refuse_if (\<not> allows p capability) 403 (''principal lacks capability: '' @ capability)) (\<lambda>_.
      Inr p)), d'))"

section \<open>Lemmas\<close>

lemma auth_bind_simps [simp]: "auth_bind (Inl e) f = Inl e" "auth_bind (Inr x) f = f x"
  by (simp_all add: auth_bind_def)

lemma auth_bind_InrE [elim!]:
  assumes "auth_bind m f = Inr y"
  obtains x where "m = Inr x" and "f x = Inr y"
  using assms by (cases m) auto

lemma refuse_if_Inr [simp]: "refuse_if bad c s = Inr u \<longleftrightarrow> \<not> bad"
  by (simp add: refuse_if_def)

lemma refuse_if_simps [simp]: "refuse_if False c s = Inr ()" "refuse_if True c s = Inl (HTTPException c s)"
  by (simp_all add: refuse_if_def)

lemma lift_Inr [simp]: "lift m = Inr x \<longleftrightarrow> m = Inr x"
  by (auto simp: lift_def split: sum.splits)

lemma compare_digest_Inr: "compare_digest a b = Inr e \<Longrightarrow> e \<longleftrightarrow> a = b"
  by (auto simp: compare_digest_def split: if_splits)

text \<open>What a verified request guarantees.\<close>

definition properly_signed :: "jobj \<Rightarrow> int \<Rightarrow> request \<Rightarrow> jobj \<Rightarrow> int \<Rightarrow> bool" where
  "properly_signed reg now r rec ts \<longleftrightarrow>
     (\<exists>secret. jget reg (h_principal r) = JObj rec \<and> jget rec ''secret'' = JStr secret \<and>
        h_signature r = sign_request secret (rq_method r) (rq_path r) (h_timestamp r) (h_nonce r) (h_content_sha256 r)) \<and>
     py_int 10 (h_timestamp r) = Some ts \<and> \<bar>now - ts\<bar> \<le> 300 \<and>
     16 \<le> length (h_nonce r) \<and> length (h_nonce r) \<le> 128 \<and>
     h_content_sha256 r = bytes_hex (sha256 (rq_body r))"

lemma find_principal_Inr:
  "find_principal reg who = Inr (secret, rec) \<longleftrightarrow> jget reg who = JObj rec \<and> jget rec ''secret'' = JStr secret"
  by (auto simp: find_principal_def split: json.splits)

lemma verify_request_Inr:
  assumes "verify_request pj now r = Inr (rec, ts)"
  shows "\<exists>reg. registry pj = Inr reg \<and> properly_signed reg now r rec ts"
  using assms
  by (auto simp: verify_request_def properly_signed_def find_principal_Inr AUTH_WINDOW_SECONDS_def not_less
      dest!: compare_digest_Inr split: option.splits)

lemma authenticate_Inr:
  assumes "authenticate pj remote now epoch r d = (Inr p, d')"
  obtains rec ts where "verify_request pj now r = Inr (rec, ts)"
    and "consume_nonce_client remote epoch (h_principal r) (h_nonce r) (ts + 300) d = (Inr True, d')"
    and "principal_capabilities rec = Inr (capabilities p)" and "pr_id p = h_principal r"
  using assms
  by (auto simp: authenticate_def AUTH_WINDOW_SECONDS_def split: sum.splits prod.splits)

lemma consume_local [simp]:
  "consume_nonce_client None epoch who n e d = (Inr (fst (consume_auth_nonce epoch who n e d)), snd (consume_auth_nonce epoch who n e d))"
  by (simp add: consume_nonce_client_def split: prod.splits)

section \<open>Properties\<close>

text \<open>C4: A principal is authenticated only for a request signed with the registered secret over
  its method, path, time stamp, nonce and body digest, whose body has that digest, whose time
  stamp is within 300 seconds of the clock, and whose nonce has 16 to 128 characters; the
  principal gets the capabilities of its registry record, and its nonce is spent.\<close>

theorem authenticated_request_signed:
  assumes "authenticate principals_json None now epoch r d = (Inr p, d')"
  shows "\<exists>reg rec ts. registry principals_json = Inr reg \<and> properly_signed reg now r rec ts \<and>
    pr_id p = h_principal r \<and> principal_capabilities rec = Inr (capabilities p) \<and>
    holds_nonce (h_principal r) (h_nonce r) (ts + 300) d'"
proof -
  obtain rec ts where v: "verify_request principals_json now r = Inr (rec, ts)"
    and c: "consume_nonce_client None epoch (h_principal r) (h_nonce r) (ts + 300) d = (Inr True, d')"
    and p: "principal_capabilities rec = Inr (capabilities p)" "pr_id p = h_principal r"
    using assms by (rule authenticate_Inr)
  have "holds_nonce (h_principal r) (h_nonce r) (ts + 300) d'"
    using c by (auto simp: consume_auth_nonce_def holds_nonce_def Let_def split: if_splits)
  then show ?thesis using verify_request_Inr [OF v] p by blast
qed

definition sample_registry :: string where
  "sample_registry = canonical_json (JObj [(''alice'',
     JObj [(''capabilities'', JArr [JStr ''ledger.read'']), (''secret'', JStr ''k'')])])"

definition sample_request :: request where
  "sample_request = \<lparr>rq_method = ''POST'', rq_path = ''/v1/x'', rq_body = [1, 2], h_principal = ''alice'',
     h_timestamp = ''1000'', h_nonce = ''0123456789abcdef'', h_content_sha256 = bytes_hex (sha256 [1, 2]),
     h_signature = sign_request ''k'' ''POST'' ''/v1/x'' ''1000'' ''0123456789abcdef'' (bytes_hex (sha256 [1, 2]))\<rparr>"

lemma sample_registry_loads: "registry sample_registry = Inr [(''alice'',
     JObj [(''capabilities'', JArr [JStr ''ledger.read'']), (''secret'', JStr ''k'')])]"
proof -
  have "sample_registry \<noteq> ''''" by (simp add: sample_registry_def canonical_json_def)
  then show ?thesis unfolding registry_def by (simp add: sample_registry_def)
qed

lemma sample_digest_ascii [simp]: "is_ascii (bytes_hex bs)"
  by (rule hex_lower_ascii [of "2 * length bs"]) (simp add: hex_lower_n_def bytes_hex_lower)

lemma sign_request_ascii [simp]: "is_ascii (sign_request s m p t n c)" "sign_request s m p t n c \<noteq> ''''"
proof -
  show "is_ascii (sign_request s m p t n c)" by (simp add: sign_request_def)
  have "length (sign_request s m p t n c) = 64" by (simp add: sign_request_def)
  then show "sign_request s m p t n c \<noteq> ''''" by auto
qed

lemma bytes_hex_sha256_nonempty [simp]: "bytes_hex (sha256 bs) \<noteq> ''''"
proof -
  have "length (bytes_hex (sha256 bs)) = 64" by simp
  then show ?thesis by (metis list.size(3) zero_neq_numeral)
qed

lemma sample_timestamp: "py_int 10 ''1000'' = Some 1000"
  by code_simp

lemma sample_verified:
  assumes "\<bar>now - 1000\<bar> \<le> 300"
  shows "verify_request sample_registry now sample_request =
    Inr ([(''capabilities'', JArr [JStr ''ledger.read'']), (''secret'', JStr ''k'')], 1000)"
  using assms
  by (simp add: verify_request_def sample_request_def sample_registry_loads find_principal_def jget_def
      sample_timestamp AUTH_WINDOW_SECONDS_def compare_digest_def lift_def)

lemma sample_authenticated:
  assumes "\<bar>now - 1000\<bar> \<le> 300" and "fst (consume_auth_nonce epoch ''alice'' ''0123456789abcdef'' 1300 d)"
  shows "authenticate sample_registry None now epoch sample_request d =
    (Inr \<lparr>pr_id = ''alice'', capabilities = [''ledger.read'']\<rparr>,
     snd (consume_auth_nonce epoch ''alice'' ''0123456789abcdef'' 1300 d))"
  using assms(2)
  by (simp add: authenticate_def sample_verified [OF assms(1)] AUTH_WINDOW_SECONDS_def principal_capabilities_def lift_def)
    (simp add: sample_request_def)

theorem authenticated_request_signed_witness:
  "\<exists>reg rec ts. registry sample_registry = Inr reg \<and> properly_signed reg 1100 sample_request rec ts"
proof -
  have "fst (consume_auth_nonce 1100 ''alice'' ''0123456789abcdef'' 1300 empty_db)"
    by (simp add: consume_auth_nonce_def empty_db_def)
  from authenticated_request_signed [OF sample_authenticated [of 1100, OF _ this]] show ?thesis by auto
qed

text \<open>An authenticated request cannot be replayed. After it, and after any other nonces spent
  up to that time, a request that reuses its principal, nonce and time stamp is refused at every
  later time, by the time window or by the nonce, when both clocks read the same second.\<close>

theorem no_replay:
  assumes "authenticate principals_json None now epoch r d = (Inr p, d')"
    and "h_principal r' = h_principal r" and "h_nonce r' = h_nonce r" and "h_timestamp r' = h_timestamp r"
    and "\<forall>c \<in> set calls. fst c \<le> now'"
  shows "\<exists>e. fst (authenticate principals_json' None now' now' r' (spend_all calls d')) = Inl e"
proof (rule ccontr)
  assume "\<not> ?thesis"
  then obtain q d2 where again: "authenticate principals_json' None now' now' r' (spend_all calls d') = (Inr q, d2)"
    by (metis obj_sumE prod.exhaust_sel)
  obtain rec ts where v: "verify_request principals_json now r = Inr (rec, ts)"
    and c: "consume_nonce_client None epoch (h_principal r) (h_nonce r) (ts + 300) d = (Inr True, d')"
    using assms(1) by (rule authenticate_Inr)
  obtain rec' ts' where v': "verify_request principals_json' now' r' = Inr (rec', ts')"
    and c': "consume_nonce_client None now' (h_principal r') (h_nonce r') (ts' + 300) (spend_all calls d') = (Inr True, d2)"
    using again by (rule authenticate_Inr)
  have ts: "ts' = ts" and now': "now' \<le> ts + 300"
    using verify_request_Inr [OF v] verify_request_Inr [OF v'] assms(4) by (auto simp: properly_signed_def)
  have "holds_nonce (h_principal r) (h_nonce r) (ts + 300) d'"
    using c by (auto simp: consume_auth_nonce_def holds_nonce_def Let_def split: if_splits)
  then have "holds_nonce (h_principal r) (h_nonce r) (ts + 300) (spend_all calls d')"
    using assms(5) now' by (intro holds_nonce_spend_all) auto
  from holds_nonce_refused [OF this now'] show False
    using c' by (simp add: assms(2,3) ts)
qed

theorem no_replay_witness:
  "\<exists>e. fst (authenticate sample_registry None 1200 1200 sample_request
     (snd (consume_auth_nonce 1100 ''alice'' ''0123456789abcdef'' 1300 empty_db))) = Inl e"
proof -
  have "fst (consume_auth_nonce 1100 ''alice'' ''0123456789abcdef'' 1300 empty_db)"
    by (simp add: consume_auth_nonce_def empty_db_def)
  from no_replay [OF sample_authenticated [of 1100, OF _ this], of sample_request "[]" 1200] show ?thesis by simp
qed

text \<open>
  Without that reading of the clocks the claim fails at the last second: when the window is
  checked at second 1300 and SQLite's clock has moved on to 1301, the nonce that expires at
  1300 is deleted as expired, and the same request is accepted a second time.
\<close>

lemma replay_at_the_last_second:
  "\<exists>d1 p1 p2 d2.
     authenticate sample_registry None 1000 1000 sample_request empty_db = (Inr p1, d1) \<and>
     authenticate sample_registry None 1300 1301 sample_request d1 = (Inr p2, d2)"
proof -
  let ?d1 = "snd (consume_auth_nonce 1000 ''alice'' ''0123456789abcdef'' 1300 empty_db)"
  have 1: "fst (consume_auth_nonce 1000 ''alice'' ''0123456789abcdef'' 1300 empty_db)"
    by (simp add: consume_auth_nonce_def empty_db_def)
  have 2: "fst (consume_auth_nonce 1301 ''alice'' ''0123456789abcdef'' 1300 ?d1)"
    by (simp add: consume_auth_nonce_def empty_db_def)
  show ?thesis using sample_authenticated [OF _ 1, of 1000] sample_authenticated [OF _ 2, of 1300] by auto
qed

text \<open>A guarded endpoint runs only for a principal that holds its capability or the wildcard.\<close>

theorem capability_required:
  "fst (require_capability capability principals_json remote now epoch r d) = Inr p \<longleftrightarrow>
     fst (authenticate principals_json remote now epoch r d) = Inr p \<and>
     (''*'' \<in> set (capabilities p) \<or> capability \<in> set (capabilities p))"
  by (auto simp: require_capability_def allows_def split: prod.splits)

text \<open>Authentication takes steps of the database.\<close>

lemma consume_client_steps: "db_step\<^sup>*\<^sup>* d (snd (consume_nonce_client remote epoch who n expires d))"
proof (cases remote)
  case None
  then have "snd (consume_nonce_client remote epoch who n expires d) = snd (consume_auth_nonce epoch who n expires d)"
    by (simp add: consume_nonce_client_def split: prod.split)
  then show ?thesis using db_step.nonce [of d epoch who n expires] by auto
qed (simp add: consume_nonce_client_def)

lemma authenticate_steps: "db_step\<^sup>*\<^sup>* d (snd (authenticate js remote now epoch rq d))"
proof (cases "verify_request js now rq")
  case (Inr rt)
  obtain rec ts where rt: "rt = (rec, ts)" by (cases rt)
  show ?thesis
    using consume_client_steps [of d remote epoch "h_principal rq" "h_nonce rq" "ts + AUTH_WINDOW_SECONDS"] Inr rt
    by (simp add: authenticate_def case_prod_beta Let_def)
qed (simp add: authenticate_def)

end
