(* ===== verification/Organism.thy ===== *)
theory Organism
  imports Evidence
begin

text \<open>
  \<open>app/organism_loop.py\<close>: the governed organism. It evaluates proposals through inherited
  constraints and the gate of \<open>Core\<close>, records each evaluation in its lineage, turns a
  rejection into a constraint when an authority other than the generator signs a grant for
  it, and exports its state under a MAC from which it can be restored. The fields of the
  object, its cached state root included, are the record \<open>organism\<close>; a method that may
  raise returns a result and the new object. What the guard bindings read from the running
  interpreter (source texts, code objects, class objects, \<open>str()\<close> of values that are not
  strings) is the record \<open>guard_env\<close>.
\<close>

definition SCHEMA_VERSION :: string where "SCHEMA_VERSION = ''matverse.organism-loop.v1''"
definition BINDING_VERSION :: string where "BINDING_VERSION = ''matverse.constitutional-binding.v1''"
definition AUTH_CAPABILITY :: string where "AUTH_CAPABILITY = ''organism.constraint.authorize''"

section \<open>Guard bindings\<close>

record guard_binding =
  guard_id :: string
  function_name :: string
  function_fingerprint :: string
  semantics :: string

text \<open>A constant of a code object.\<close>

datatype code_const =
    CCode "byte list" "code_const list" "string list" "string list" "string list" "string list"
  | CJson json
  | CBytes "byte list"
  | CTuple "code_const list"
  | COther string

primrec normalize_code_const :: "code_const \<Rightarrow> json" where
  "normalize_code_const (CCode code consts names varnames freevars cellvars) = JObj
     [(''co_code'', JStr (bytes_hex code)), (''co_consts'', JArr (map normalize_code_const consts)),
      (''co_names'', JArr (map JStr names)), (''co_varnames'', JArr (map JStr varnames)),
      (''co_freevars'', JArr (map JStr freevars)), (''co_cellvars'', JArr (map JStr cellvars))]"
| "normalize_code_const (CJson v) = v"
| "normalize_code_const (CBytes b) = JObj [(''bytes_hex'', JStr (bytes_hex b))]"
| "normalize_code_const (CTuple xs) = JArr (map normalize_code_const xs)"
| "normalize_code_const (COther t) = JObj [(''type'', JStr t)]"

text \<open>A function as \<open>inspect\<close> and attribute access see it.\<close>

record fn_view =
  fn_module :: string
  fn_qualname :: string
  fn_source :: "string option"
  fn_code :: "code_const option"

record guard_env =
  ge_core_name :: string
  ge_core_source :: "string option"
  ge_evaluate_hdb :: fn_view
  ge_omega_gate :: fn_view
  ge_stable_hash :: fn_view
  ge_hdb_class :: class_view
  ge_str :: "json \<Rightarrow> string"

definition function_fingerprint_of :: "fn_view \<Rightarrow> string res" where
  "function_fingerprint_of f =
     res_bind (case fn_source f of
         Some source \<Rightarrow> Inr source
       | None \<Rightarrow> (case fn_code f of
             None \<Rightarrow> Inl (ValueError ''cannot fingerprint function'')
           | Some code \<Rightarrow> Inr (canonical_json (normalize_code_const code)))) (\<lambda>source.
     Inr (stable_hash (JObj [(''module'', JStr (fn_module f)), (''qualname'', JStr (fn_qualname f)),
                             (''source'', JStr source)])))"

definition core_artifact_fingerprint :: "guard_env \<Rightarrow> string res" where
  "core_artifact_fingerprint env = (case ge_core_source env of
      Some source \<Rightarrow> Inr (stable_hash (JObj [(''module'', JStr (ge_core_name env)), (''source'', JStr source)]))
    | None \<Rightarrow>
        res_bind (function_fingerprint_of (ge_evaluate_hdb env)) (\<lambda>eh.
        res_bind (function_fingerprint_of (ge_omega_gate env)) (\<lambda>og.
        res_bind (function_fingerprint_of (ge_stable_hash env)) (\<lambda>sh.
        Inr (stable_hash (JObj [(''module'', JStr (ge_core_name env)),
          (''decision_values'', JArr (map (JStr \<circ> decision_value) [PASS, BLOCK, HOLD])),
          (''blocked_actions'', JArr (map JStr (sort BLOCKED_ACTIONS))),
          (''evaluate_hdb'', JStr eh), (''omega_gate'', JStr og), (''stable_hash'', JStr sh)]))))))"

definition canonical_guard_bindings :: "guard_env \<Rightarrow> guard_binding list res" where
  "canonical_guard_bindings env =
     res_bind (core_artifact_fingerprint env) (\<lambda>core_fp.
     res_bind (function_fingerprint_of (ge_evaluate_hdb env)) (\<lambda>eh.
     res_bind (function_fingerprint_of (ge_omega_gate env)) (\<lambda>og.
     Inr [\<lparr>guard_id = ''HDB_BOUNDARY'', function_name = ''app.core.evaluate_hdb'',
            function_fingerprint = stable_hash (JObj [(''core_artifact'', JStr core_fp), (''function'', JStr eh)]),
            semantics = ''human-data boundary is evaluated before admissibility''\<rparr>,
          \<lparr>guard_id = ''OMEGA_ADMISSIBILITY'', function_name = ''app.core.omega_gate'',
            function_fingerprint = stable_hash (JObj [(''core_artifact'', JStr core_fp), (''function'', JStr og)]),
            semantics = ''ontology, HDB, signature, and transition checks gate critical actions''\<rparr>])))"

definition binding_json :: "guard_binding \<Rightarrow> json" where
  "binding_json b = JObj [(''guard_id'', JStr (guard_id b)), (''function_name'', JStr (function_name b)),
     (''function_fingerprint'', JStr (function_fingerprint b)), (''semantics'', JStr (semantics b))]"

definition gate_fingerprint_of :: "guard_env \<Rightarrow> guard_binding list option \<Rightarrow> string res" where
  "gate_fingerprint_of env bindings =
     res_bind (case bindings of None \<Rightarrow> canonical_guard_bindings env | Some bs \<Rightarrow> Inr bs) (\<lambda>chosen.
     res_bind (raise_if (chosen = []) (ValueError ''at least one production guard binding is required'')) (\<lambda>_.
     res_bind (raise_if (\<not> distinct (map guard_id chosen)) (ValueError ''duplicate guard_id'')) (\<lambda>_.
     Inr (stable_hash (JObj [(''binding_version'', JStr BINDING_VERSION), (''guards'', JArr (map binding_json chosen))])))))"

definition is_hex_any :: "char \<Rightarrow> bool" where
  "is_hex_any c = (let n = of_char c :: nat in (48 \<le> n \<and> n \<le> 57) \<or> (97 \<le> n \<and> n \<le> 102) \<or> (65 \<le> n \<and> n \<le> 70))"

definition constitutional_contract_hash_of :: "guard_env \<Rightarrow> string \<Rightarrow> guard_binding list option \<Rightarrow> string res" where
  "constitutional_contract_hash_of env frozen bindings =
     res_bind (raise_if (\<not> (length frozen = 64 \<and> list_all is_hex_any frozen))
                (ValueError ''frozen_contract_hash must be exactly 64 hexadecimal characters'')) (\<lambda>_.
     res_bind (gate_fingerprint_of env bindings) (\<lambda>fp.
     Inr (stable_hash (JObj [(''schema'', JStr BINDING_VERSION), (''frozen_contract_hash'', JStr (lower frozen)),
                             (''gate_fingerprint'', JStr fp)]))))"

section \<open>The data of the loop\<close>

record constraint_candidate =
  candidate_id :: string
  source_event_id :: string
  source_receipt_hash :: string
  generator_id :: string
  match_json :: string
  reason :: string

record authorization_grant =
  gr_principal_id :: string
  gr_capability :: string
  gr_candidate_id :: string
  gr_signature :: string

record inherited_constraint =
  constraint_id :: string
  ic_candidate_id :: string
  ic_source_event_id :: string
  ic_source_receipt_hash :: string
  ic_generator_id :: string
  authorizer_id :: string
  authorization_capability :: string
  authorization_signature :: string
  ic_match_json :: string
  ic_reason :: string
  authority_receipt :: string

record loop_result =
  lr_event_id :: string
  lr_decision :: decision
  lr_reason :: string
  matched_constraint_id :: "string option"
  lr_state_root :: string
  lr_evidence :: jobj

definition constraint_obj :: "inherited_constraint \<Rightarrow> jobj" where
  "constraint_obj c =
     [(''constraint_id'', JStr (constraint_id c)), (''candidate_id'', JStr (ic_candidate_id c)),
      (''source_event_id'', JStr (ic_source_event_id c)), (''source_receipt_hash'', JStr (ic_source_receipt_hash c)),
      (''generator_id'', JStr (ic_generator_id c)), (''authorizer_id'', JStr (authorizer_id c)),
      (''authorization_capability'', JStr (authorization_capability c)),
      (''authorization_signature'', JStr (authorization_signature c)), (''match_json'', JStr (ic_match_json c)),
      (''reason'', JStr (ic_reason c)), (''authority_receipt'', JStr (authority_receipt c))]"

definition constraint_json :: "inherited_constraint \<Rightarrow> json" where
  "constraint_json c = JObj (constraint_obj c)"

definition CONSTRAINT_FIELDS :: "string list" where
  "CONSTRAINT_FIELDS = [''constraint_id'', ''candidate_id'', ''source_event_id'', ''source_receipt_hash'', ''generator_id'',
     ''authorizer_id'', ''authorization_capability'', ''authorization_signature'', ''match_json'', ''reason'',
     ''authority_receipt'']"

text \<open>\<open>InheritedConstraint(**item)\<close>: the eleven annotated string fields and no others.\<close>

definition str_field :: "jobj \<Rightarrow> string \<Rightarrow> string" where
  "str_field d k = (case jget d k of JStr s \<Rightarrow> s | _ \<Rightarrow> '''')"

definition constraint_of_json :: "json \<Rightarrow> inherited_constraint res" where
  "constraint_of_json v = (case v of
      JObj d \<Rightarrow>
        if set (map fst d) = set CONSTRAINT_FIELDS \<and> list_all (\<lambda>p. (case snd p of JStr s \<Rightarrow> True | _ \<Rightarrow> False)) d
        then Inr \<lparr>constraint_id = str_field d ''constraint_id'', ic_candidate_id = str_field d ''candidate_id'',
          ic_source_event_id = str_field d ''source_event_id'',
          ic_source_receipt_hash = str_field d ''source_receipt_hash'',
          ic_generator_id = str_field d ''generator_id'', authorizer_id = str_field d ''authorizer_id'',
          authorization_capability = str_field d ''authorization_capability'',
          authorization_signature = str_field d ''authorization_signature'',
          ic_match_json = str_field d ''match_json'', ic_reason = str_field d ''reason'',
          authority_receipt = str_field d ''authority_receipt''\<rparr>
        else Inl (TypeError ''InheritedConstraint fields'')
    | _ \<Rightarrow> Inl (TypeError ''argument after ** must be a mapping''))"

section \<open>The organism\<close>

record organism =
  organism_id :: string
  runtime_id :: string
  frozen_contract_hash :: string
  state_secret :: string
  authority_secrets :: "(string, string) dict"
  gate_fingerprint :: string
  constitutional_contract_hash :: string
  constraints :: "(string, inherited_constraint) dict"
  lineage :: "jobj list"
  state_generation :: int
  cached_state_root :: "string option"
  cached_state_generation :: int

definition mark_state_mutated :: "organism \<Rightarrow> organism" where
  "mark_state_mutated o1 = o1\<lparr>state_generation := state_generation o1 + 1, cached_state_root := None\<rparr>"

definition sorted_constraints :: "organism \<Rightarrow> inherited_constraint list" where
  "sorted_constraints o1 = map (\<lambda>k. the (map_of (constraints o1) k)) (sort (map fst (constraints o1)))"

definition lineage_clone :: "organism \<Rightarrow> json list" where
  "lineage_clone o1 = map (\<lambda>d. JObj (clone_obj d)) (lineage o1)"

definition state_payload :: "organism \<Rightarrow> jobj" where
  "state_payload o1 = [(''schema'', JStr SCHEMA_VERSION), (''organism_id'', JStr (organism_id o1)),
     (''constitutional_contract_hash'', JStr (constitutional_contract_hash o1)),
     (''gate_fingerprint'', JStr (gate_fingerprint o1)),
     (''constraints'', JArr (map constraint_json (sorted_constraints o1))),
     (''lineage'', JArr (lineage_clone o1))]"

text \<open>\<open>state_root()\<close>: the cached value, or a new one that is then cached.\<close>

definition state_root :: "organism \<Rightarrow> string \<times> organism" where
  "state_root o1 =
    (let o2 = (if cached_state_root o1 = None \<or> cached_state_generation o1 \<noteq> state_generation o1
               then o1\<lparr>cached_state_root := Some (stable_hash (JObj (state_payload o1))),
                       cached_state_generation := state_generation o1\<rparr>
               else o1)
     in (case cached_state_root o2 of Some r \<Rightarrow> r | None \<Rightarrow> '''', o2))"

definition state_mac :: "organism \<Rightarrow> jobj \<Rightarrow> string" where
  "state_mac o1 payload = hmac_text (state_secret o1) (canonical_json (JObj payload))"

definition export_state :: "organism \<Rightarrow> jobj \<times> organism" where
  "export_state o1 =
    (let payload = state_payload o1; (root, o2) = state_root o1
     in (payload @ [(''state_root'', JStr root), (''state_mac'', JStr (state_mac o1 payload))], o2))"

definition is_evaluation :: "jobj \<Rightarrow> bool" where
  "is_evaluation item = (jget item ''type'' = JStr ''EVALUATION'')"

definition evaluations :: "organism \<Rightarrow> string \<Rightarrow> jobj list" where
  "evaluations o1 event_id =
     filter (\<lambda>item. is_evaluation item \<and> jget item ''event_id'' = JStr event_id) (lineage o1)"

definition evaluation :: "organism \<Rightarrow> string \<Rightarrow> jobj res" where
  "evaluation o1 event_id = (case evaluations o1 event_id of
      [d] \<Rightarrow> Inr (clone_obj d)
    | _ \<Rightarrow> Inl (ValueError ''source event must identify exactly one prior evaluation''))"

definition jfield :: "jobj \<Rightarrow> string \<Rightarrow> json res" where
  "jfield d k = (case map_of d k of None \<Rightarrow> Inl (KeyError k) | Some v \<Rightarrow> Inr v)"

definition py_str :: "guard_env \<Rightarrow> json \<Rightarrow> string" where
  "py_str env v = (case v of JStr s \<Rightarrow> s | _ \<Rightarrow> ge_str env v)"

text \<open>\<open>{key: proposal[key] for key in causal_keys if key in proposal}\<close>.\<close>

definition causal_match :: "jobj \<Rightarrow> string list \<Rightarrow> jobj" where
  "causal_match proposal keys =
     dict_of_pairs (map (\<lambda>k. (k, the (map_of proposal k))) (filter (\<lambda>k. map_of proposal k \<noteq> None) keys))"

definition candidate_core :: "string \<Rightarrow> string \<Rightarrow> string \<Rightarrow> string \<Rightarrow> string \<Rightarrow> jobj" where
  "candidate_core event_id receipt_hash generator match why =
     [(''schema'', JStr SCHEMA_VERSION), (''source_event_id'', JStr event_id),
      (''source_receipt_hash'', JStr receipt_hash), (''generator_id'', JStr generator),
      (''match_json'', JStr match), (''reason'', JStr why)]"

definition observe_rejection ::
  "guard_env \<Rightarrow> string \<Rightarrow> string \<Rightarrow> string list \<Rightarrow> organism \<Rightarrow> constraint_candidate res" where
  "observe_rejection env event_id generator causal_keys o1 =
     res_bind (raise_if (event_id = '''' \<or> generator = '''') (ValueError ''event_id and generator_id are required'')) (\<lambda>_.
     res_bind (evaluation o1 event_id) (\<lambda>source.
     res_bind (jfield source ''decision'') (\<lambda>dec.
     res_bind (raise_if (dec \<noteq> JStr ''BLOCK'') (ValueError ''source event is not a verified BLOCK rejection'')) (\<lambda>_.
     res_bind (raise_if (jget source ''matched_constraint_id'' \<noteq> JNull)
                (ValueError ''an inherited BLOCK cannot recursively seed another constraint'')) (\<lambda>_.
     res_bind (jfield source ''proposal'') (\<lambda>proposal.
     res_bind (case proposal of JObj p \<Rightarrow> Inr (causal_match p causal_keys) | _ \<Rightarrow> Inl (TypeError ''proposal'')) (\<lambda>match.
     res_bind (raise_if (match = []) (ValueError ''causal attribution produced an empty match'')) (\<lambda>_.
     res_bind (jfield source ''reason'') (\<lambda>why.
     res_bind (jfield source ''receipt_hash'') (\<lambda>rh.
     let mj = canonical_json (JObj match); r = py_str env why; h = py_str env rh in
     Inr \<lparr>candidate_id = stable_hash (JObj (candidate_core event_id h generator mj r)), source_event_id = event_id,
          source_receipt_hash = h, generator_id = generator, match_json = mj, reason = r\<rparr>))))))))))"

definition grant_payload :: "string \<Rightarrow> string \<Rightarrow> string \<Rightarrow> string" where
  "grant_payload who capability candidate = join [CHR 0x0A] [who, capability, candidate]"

definition sign_authorization_grant :: "string \<Rightarrow> string \<Rightarrow> string \<Rightarrow> string \<Rightarrow> authorization_grant res" where
  "sign_authorization_grant secret who candidate capability =
     res_bind (raise_if (secret = '''' \<or> who = '''' \<or> candidate = '''')
                (ValueError ''secret, principal_id, and candidate_id are required'')) (\<lambda>_.
     Inr \<lparr>gr_principal_id = who, gr_capability = capability, gr_candidate_id = candidate,
          gr_signature = hmac_text secret (grant_payload who capability candidate)\<rparr>)"

definition verify_grant :: "organism \<Rightarrow> authorization_grant \<Rightarrow> string \<Rightarrow> unit res" where
  "verify_grant o1 grant candidate =
     res_bind (raise_if (gr_capability grant \<noteq> AUTH_CAPABILITY \<or> gr_candidate_id grant \<noteq> candidate)
                (PermissionError ''authorization grant does not cover this candidate'')) (\<lambda>_.
     case map_of (authority_secrets o1) (gr_principal_id grant) of
       None \<Rightarrow> Inl (PermissionError ''unknown authorization principal'')
     | Some secret \<Rightarrow>
         res_bind (compare_digest (hmac_text secret (grant_payload (gr_principal_id grant) (gr_capability grant) candidate))
                     (gr_signature grant)) (\<lambda>ok.
         raise_if (\<not> ok) (PermissionError ''invalid authorization grant signature'')))"

text \<open>The object whose receipt and digest name a constraint.\<close>

definition constraint_core ::
  "organism \<Rightarrow> string \<Rightarrow> string \<Rightarrow> string \<Rightarrow> string \<Rightarrow> string \<Rightarrow> string \<Rightarrow> string \<Rightarrow> string \<Rightarrow> string \<Rightarrow> jobj" where
  "constraint_core o1 candidate event_id receipt_hash generator authorizer capability signature match why =
     [(''candidate_id'', JStr candidate), (''source_event_id'', JStr event_id),
      (''source_receipt_hash'', JStr receipt_hash), (''generator_id'', JStr generator),
      (''authorizer_id'', JStr authorizer), (''authorization_capability'', JStr capability),
      (''authorization_signature'', JStr signature), (''match_json'', JStr match), (''reason'', JStr why),
      (''constitutional_contract_hash'', JStr (constitutional_contract_hash o1))]"

definition core_of :: "organism \<Rightarrow> inherited_constraint \<Rightarrow> jobj" where
  "core_of o1 c = constraint_core o1 (ic_candidate_id c) (ic_source_event_id c) (ic_source_receipt_hash c)
     (ic_generator_id c) (authorizer_id c) (authorization_capability c) (authorization_signature c)
     (ic_match_json c) (ic_reason c)"

definition authority_receipt_of :: "jobj \<Rightarrow> string" where
  "authority_receipt_of core =
     str_field (evidence_receipt ''CONSTRAINT_AUTHORIZATION'' core [(''decision'', JStr ''PROMOTE'')]) ''receipt_hash''"

definition constraint_id_of :: "jobj \<Rightarrow> string" where
  "constraint_id_of core =
     stable_hash (JObj (core @ [(''authority_receipt'', JStr (authority_receipt_of core))]))"

definition grant_of :: "inherited_constraint \<Rightarrow> authorization_grant" where
  "grant_of c = \<lparr>gr_principal_id = authorizer_id c, gr_capability = authorization_capability c,
     gr_candidate_id = ic_candidate_id c, gr_signature = authorization_signature c\<rparr>"

definition validate_constraint :: "organism \<Rightarrow> inherited_constraint \<Rightarrow> unit res" where
  "validate_constraint o1 c =
     res_bind (verify_grant o1 (grant_of c) (ic_candidate_id c)) (\<lambda>_.
     res_bind (raise_if (authority_receipt c \<noteq> authority_receipt_of (core_of o1 c))
                (ValueError ''constraint authority receipt mismatch'')) (\<lambda>_.
     res_bind (raise_if (constraint_id c \<noteq> constraint_id_of (core_of o1 c)) (ValueError ''constraint id mismatch'')) (\<lambda>_.
     raise_if (authorizer_id c = ic_generator_id c)
       (ValueError ''constraint violates generator/authorizer separation''))))"

definition promoted_entry :: "constraint_candidate \<Rightarrow> inherited_constraint \<Rightarrow> jobj" where
  "promoted_entry candidate c = [(''type'', JStr ''CONSTRAINT_PROMOTED''),
     (''source_event_id'', JStr (source_event_id candidate)),
     (''source_receipt_hash'', JStr (source_receipt_hash candidate)),
     (''constraint_id'', JStr (constraint_id c)), (''authorizer_id'', JStr (authorizer_id c))]"

definition promoted_constraint :: "organism \<Rightarrow> constraint_candidate \<Rightarrow> authorization_grant \<Rightarrow> inherited_constraint" where
  "promoted_constraint o1 candidate grant =
    (let core = constraint_core o1 (candidate_id candidate) (source_event_id candidate) (source_receipt_hash candidate)
           (generator_id candidate) (gr_principal_id grant) (gr_capability grant) (gr_signature grant)
           (match_json candidate) (reason candidate)
     in \<lparr>constraint_id = constraint_id_of core, ic_candidate_id = candidate_id candidate,
         ic_source_event_id = source_event_id candidate, ic_source_receipt_hash = source_receipt_hash candidate,
         ic_generator_id = generator_id candidate, authorizer_id = gr_principal_id grant,
         authorization_capability = gr_capability grant, authorization_signature = gr_signature grant,
         ic_match_json = match_json candidate, ic_reason = reason candidate,
         authority_receipt = authority_receipt_of core\<rparr>)"

definition authorize_constraint ::
  "constraint_candidate \<Rightarrow> authorization_grant \<Rightarrow> organism \<Rightarrow> (inherited_constraint \<times> organism) res" where
  "authorize_constraint candidate grant o1 =
     res_bind (verify_grant o1 grant (candidate_id candidate)) (\<lambda>_.
     res_bind (raise_if (gr_principal_id grant = generator_id candidate)
                (PermissionError ''generator cannot authorize its own inherited constraint'')) (\<lambda>_.
     res_bind (evaluation o1 (source_event_id candidate)) (\<lambda>source.
     res_bind (jfield source ''decision'') (\<lambda>dec.
     res_bind (if dec \<noteq> JStr ''BLOCK'' then Inr True
               else res_bind (jfield source ''receipt_hash'') (\<lambda>rh. Inr (rh \<noteq> JStr (source_receipt_hash candidate)))) (\<lambda>bad.
     res_bind (raise_if bad (ValueError ''candidate is not bound to a verified local rejection'')) (\<lambda>_.
     let c = promoted_constraint o1 candidate grant in
     Inr (c, mark_state_mutated
       (o1\<lparr>constraints := dict_set (constraints o1) (constraint_id c) c,
          lineage := lineage o1 @ [promoted_entry candidate c]\<rparr>))))))))"

section \<open>Evaluation\<close>

text \<open>\<open>bool(match) and all(key in proposal and proposal[key] == value ...)\<close>.\<close>

definition constraint_matches :: "string \<Rightarrow> jobj \<Rightarrow> bool res" where
  "constraint_matches mj proposal =
     res_bind (json_loads mj) (\<lambda>match. case match of
         JObj m \<Rightarrow> Inr (m \<noteq> [] \<and>
           list_all (\<lambda>(k, v). case map_of proposal k of None \<Rightarrow> False | Some w \<Rightarrow> py_eq w v) m)
       | v \<Rightarrow> if truthy v then Inl (AttributeError ''items'') else Inr False)"

fun first_match :: "inherited_constraint list \<Rightarrow> jobj \<Rightarrow> inherited_constraint option res" where
  "first_match [] proposal = Inr None"
| "first_match (c # cs) proposal =
     res_bind (constraint_matches (ic_match_json c) proposal) (\<lambda>m.
     if m then Inr (Some c) else first_match cs proposal)"

record gate_flags =
  ontology_ok :: bool
  signature_valid :: bool
  transition_valid :: bool

text \<open>The decision, its reason and the constraint behind it.\<close>

definition decide ::
  "guard_env \<Rightarrow> jobj \<Rightarrow> jobj option \<Rightarrow> gate_flags \<Rightarrow> inherited_constraint option \<Rightarrow>
   (decision \<times> string \<times> string option) res" where
  "decide env proposal human flags matched = (case matched of
      Some c \<Rightarrow> Inr (BLOCK, ''inherited constraint: '' @ ic_reason c, Some (constraint_id c))
    | None \<Rightarrow>
        res_bind (evaluate_hdb (ge_core_name env) (ge_hdb_class env) human) (\<lambda>hdb.
        let action = (case map_of proposal ''action'' of None \<Rightarrow> '''' | Some v \<Rightarrow> py_str env v);
            (d, why) = omega_gate hdb action (ontology_ok flags) (signature_valid flags) (transition_valid flags)
        in Inr (d, why, None)))"

definition gate_inputs :: "jobj option \<Rightarrow> gate_flags \<Rightarrow> json" where
  "gate_inputs human flags = JObj [(''human'', case human of None \<Rightarrow> JNull | Some h \<Rightarrow> JObj h),
     (''ontology_ok'', JBool (ontology_ok flags)), (''signature_valid'', JBool (signature_valid flags)),
     (''transition_valid'', JBool (transition_valid flags))]"

definition event_core ::
  "organism \<Rightarrow> string \<Rightarrow> jobj \<Rightarrow> json \<Rightarrow> decision \<Rightarrow> string \<Rightarrow> string option \<Rightarrow> string \<Rightarrow> jobj" where
  "event_core o1 event_id proposal inputs dec why matched_id before =
     [(''event_id'', JStr event_id), (''runtime_id'', JStr (runtime_id o1)), (''proposal'', JObj proposal),
      (''gate_inputs'', inputs), (''decision'', JStr (decision_value dec)), (''reason'', JStr why),
      (''matched_constraint_id'', jopt matched_id), (''state_root_before'', JStr before),
      (''constitutional_contract_hash'', JStr (constitutional_contract_hash o1))]"

definition evaluation_entry ::
  "organism \<Rightarrow> string \<Rightarrow> jobj \<Rightarrow> json \<Rightarrow> decision \<Rightarrow> string \<Rightarrow> string option \<Rightarrow> string \<Rightarrow> jobj" where
  "evaluation_entry o1 event_id proposal inputs dec why matched_id receipt_hash =
     [(''type'', JStr ''EVALUATION''), (''event_id'', JStr event_id), (''runtime_id'', JStr (runtime_id o1)),
      (''proposal'', JObj proposal), (''gate_inputs'', inputs), (''decision'', JStr (decision_value dec)),
      (''reason'', JStr why), (''matched_constraint_id'', jopt matched_id), (''receipt_hash'', JStr receipt_hash)]"

definition evaluate ::
  "guard_env \<Rightarrow> string \<Rightarrow> jobj \<Rightarrow> jobj option \<Rightarrow> gate_flags \<Rightarrow> organism \<Rightarrow> (loop_result \<times> organism) res" where
  "evaluate env event_id proposal human flags o1 =
     res_bind (raise_if (event_id = '''') (ValueError ''event_id is required'')) (\<lambda>_.
     res_bind (raise_if (evaluations o1 event_id \<noteq> []) (ValueError ''event_id must be unique'')) (\<lambda>_.
     let proposal_copy = clone_obj proposal; human_copy = map_option clone_obj human in
     res_bind (first_match (sorted_constraints o1) proposal_copy) (\<lambda>matched.
     res_bind (decide env proposal_copy human_copy flags matched) (\<lambda>(dec, why, matched_id).
     let (before, o2) = state_root o1;
         inputs = gate_inputs human_copy flags;
         receipt = evidence_receipt ''ORGANISM_EVALUATION''
           (event_core o2 event_id proposal_copy inputs dec why matched_id before)
           [(''decision'', JStr (decision_value dec)), (''reason'', JStr why)];
         entry = evaluation_entry o2 event_id proposal_copy inputs dec why matched_id (str_field receipt ''receipt_hash'');
         (root, o3) = state_root (mark_state_mutated (o2\<lparr>lineage := lineage o2 @ [entry]\<rparr>))
     in Inr (\<lparr>lr_event_id = event_id, lr_decision = dec, lr_reason = why, matched_constraint_id = matched_id,
              lr_state_root = root, lr_evidence = receipt\<rparr>, o3)))))"

section \<open>Construction and restoration\<close>

definition valid_secrets :: "(string, string) dict \<Rightarrow> bool" where
  "valid_secrets s = (s \<noteq> [] \<and> list_all (\<lambda>(k, v). k \<noteq> '''' \<and> v \<noteq> '''') s)"

text \<open>One turn of the loop over the lineage: the event ids seen so far.\<close>

definition unhashable :: "json \<Rightarrow> bool" where
  "unhashable v = (case v of JArr xs \<Rightarrow> True | JObj d \<Rightarrow> True | _ \<Rightarrow> False)"

definition check_lineage_item :: "jobj \<Rightarrow> string list \<Rightarrow> string list res" where
  "check_lineage_item item seen =
    (if \<not> is_evaluation item then Inr seen
     else case jget item ''event_id'' of
         JStr event_id \<Rightarrow>
           if event_id = '''' then Inl (ValueError ''invalid evaluation event id in lineage'')
           else if event_id \<in> set seen then Inl (ValueError ''duplicate evaluation event id in lineage'')
           else if unhashable (jget item ''decision'') then Inl (TypeError ''unhashable type'')
           else if jget item ''decision'' \<notin> JStr ` decision_value ` {PASS, BLOCK, HOLD}
           then Inl (ValueError ''invalid evaluation decision in lineage'')
           else if \<not> (case jget item ''proposal'' of JObj p \<Rightarrow> True | _ \<Rightarrow> False)
           then Inl (ValueError ''evaluation proposal missing from lineage'')
           else if \<not> (case jget item ''receipt_hash'' of JStr s \<Rightarrow> True | _ \<Rightarrow> False)
           then Inl (ValueError ''evaluation receipt hash missing from lineage'')
           else Inr (event_id # seen)
       | _ \<Rightarrow> Inl (ValueError ''invalid evaluation event id in lineage''))"

definition as_item :: "json \<Rightarrow> jobj res" where
  "as_item v = (case v of JObj d \<Rightarrow> Inr d | _ \<Rightarrow> Inl (AttributeError ''get''))"

definition check_lineage_value :: "json \<Rightarrow> string list \<Rightarrow> string list res" where
  "check_lineage_value v seen = res_bind (as_item v) (\<lambda>item. check_lineage_item item seen)"

definition validate_lineage :: "json list \<Rightarrow> jobj list res" where
  "validate_lineage items =
     res_bind (res_fold check_lineage_value items []) (\<lambda>_. res_map as_item items)"

definition restore_constraint :: "json \<Rightarrow> organism \<Rightarrow> organism res" where
  "restore_constraint item o1 =
     res_bind (constraint_of_json item) (\<lambda>c.
     res_bind (validate_constraint o1 c) (\<lambda>_.
     Inr (o1\<lparr>constraints := dict_set (constraints o1) (constraint_id c) c\<rparr>)))"

definition json_list :: "jobj \<Rightarrow> string \<Rightarrow> string \<Rightarrow> json list res" where
  "json_list d k message = (case map_of d k of
      None \<Rightarrow> Inr []
    | Some (JArr xs) \<Rightarrow> Inr xs
    | Some v \<Rightarrow> Inl (ValueError message))"

definition dict_remove :: "jobj \<Rightarrow> string \<Rightarrow> jobj" where
  "dict_remove d k = filter (\<lambda>p. fst p \<noteq> k) d"

definition restore :: "jobj \<Rightarrow> organism \<Rightarrow> organism res" where
  "restore state o1 =
    (let cloned = clone_obj state; supplied_mac = jget cloned ''state_mac'';
         raw1 = dict_remove cloned ''state_mac''; supplied_root = jget raw1 ''state_root'';
         raw = dict_remove raw1 ''state_root''
     in res_bind (case supplied_mac of
            JStr m \<Rightarrow> compare_digest (state_mac o1 raw) m | _ \<Rightarrow> Inr False) (\<lambda>authentic.
        res_bind (raise_if (\<not> authentic) (ValueError ''state authentication failed'')) (\<lambda>_.
        res_bind (raise_if (jget raw ''schema'' \<noteq> JStr SCHEMA_VERSION)
                   (ValueError ''unsupported organism state schema'')) (\<lambda>_.
        res_bind (raise_if (jget raw ''organism_id'' \<noteq> JStr (organism_id o1))
                   (ValueError ''organism identity mismatch'')) (\<lambda>_.
        res_bind (raise_if (jget raw ''constitutional_contract_hash'' \<noteq> JStr (constitutional_contract_hash o1))
                   (ValueError ''constitutional contract mismatch'')) (\<lambda>_.
        res_bind (json_list raw ''constraints'' ''constraints must be a list'') (\<lambda>cs.
        res_bind (res_fold restore_constraint cs o1) (\<lambda>o2.
        res_bind (json_list raw ''lineage'' ''lineage must be a list'') (\<lambda>items.
        res_bind (validate_lineage items) (\<lambda>ds.
        let (root, o3) = state_root (o2\<lparr>lineage := ds\<rparr>) in
        res_bind (raise_if (supplied_root \<noteq> JStr root) (ValueError ''state root mismatch'')) (\<lambda>_.
        Inr o3)))))))))))"

definition new_organism ::
  "guard_env \<Rightarrow> string \<Rightarrow> string \<Rightarrow> string \<Rightarrow> string \<Rightarrow> (string, string) dict \<Rightarrow> jobj option \<Rightarrow> organism res" where
  "new_organism env oid frozen rid secret secrets state =
     res_bind (raise_if (oid = '''' \<or> rid = '''' \<or> secret = '''')
                (ValueError ''organism_id, runtime_id, and state_secret are required'')) (\<lambda>_.
     res_bind (raise_if (\<not> valid_secrets secrets)
                (ValueError ''authority_secrets must contain non-empty principal secrets'')) (\<lambda>_.
     res_bind (gate_fingerprint_of env None) (\<lambda>fp.
     res_bind (constitutional_contract_hash_of env frozen None) (\<lambda>cch.
     let o1 = \<lparr>organism_id = oid, runtime_id = rid, frozen_contract_hash = frozen, state_secret = secret,
               authority_secrets = secrets, gate_fingerprint = fp, constitutional_contract_hash = cch,
               constraints = [], lineage = [], state_generation = 0, cached_state_root = None,
               cached_state_generation = -1\<rparr>
     in case state of None \<Rightarrow> Inr o1 | Some s \<Rightarrow> restore s o1))))"

end
