(* ===== verification/Organism_Properties.thy ===== *)
theory Organism_Properties
  imports Organism
begin

text \<open>
  The invariants of a governed organism and what its operations promise: the cached state
  root is always the digest of the present state, every inherited constraint carries a
  valid grant of a principal other than its generator, event ids are unique, an inherited
  constraint blocks for ever, and an exported state restores to the same state.
\<close>

section \<open>Cached roots\<close>

definition cache_ok :: "organism \<Rightarrow> bool" where
  "cache_ok o1 \<longleftrightarrow> cached_state_generation o1 \<le> state_generation o1 \<and>
     (\<forall>r. cached_state_root o1 = Some r \<longrightarrow> cached_state_generation o1 = state_generation o1 \<longrightarrow>
        r = stable_hash (JObj (state_payload o1)))"

text \<open>The parts of an organism other than its cache.\<close>

definition same_state :: "organism \<Rightarrow> organism \<Rightarrow> bool" where
  "same_state o1 o2 \<longleftrightarrow> (\<exists>r g. o2 = o1\<lparr>cached_state_root := r, cached_state_generation := g\<rparr>)"

lemma state_payload_cache [simp]:
  "state_payload (o1\<lparr>cached_state_root := r, cached_state_generation := g\<rparr>) = state_payload o1"
  "state_payload (o1\<lparr>cached_state_root := r\<rparr>) = state_payload o1"
  "state_payload (o1\<lparr>state_generation := n\<rparr>) = state_payload o1"
  by (simp_all add: state_payload_def sorted_constraints_def lineage_clone_def)

lemma same_stateD:
  assumes "same_state o1 o2"
  shows "constraints o2 = constraints o1" "lineage o2 = lineage o1" "organism_id o2 = organism_id o1"
    "runtime_id o2 = runtime_id o1" "state_secret o2 = state_secret o1" "authority_secrets o2 = authority_secrets o1"
    "constitutional_contract_hash o2 = constitutional_contract_hash o1" "gate_fingerprint o2 = gate_fingerprint o1"
    "state_payload o2 = state_payload o1" "state_generation o2 = state_generation o1"
  using assms by (auto simp: same_state_def)

text \<open>Whatever is cached, \<open>state_root\<close> is the digest of the present state.\<close>

lemma state_root_value:
  assumes "cache_ok o1"
  shows "fst (state_root o1) = stable_hash (JObj (state_payload o1))"
    and "cache_ok (snd (state_root o1))" and "same_state o1 (snd (state_root o1))"
proof -
  show "fst (state_root o1) = stable_hash (JObj (state_payload o1))"
    using assms by (auto simp: state_root_def cache_ok_def Let_def)
  show "cache_ok (snd (state_root o1))"
    using assms by (auto simp: state_root_def cache_ok_def Let_def)
  show "same_state o1 (snd (state_root o1))"
    by (auto simp: state_root_def same_state_def Let_def)
      (metis organism.surjective organism.update_convs(11,12) old.unit.exhaust)
qed

lemma mark_cache_ok: "cached_state_generation o1 \<le> state_generation o1 \<Longrightarrow> cache_ok (mark_state_mutated o1)"
  by (simp add: cache_ok_def mark_state_mutated_def)

section \<open>The invariant\<close>

definition constraints_ok :: "organism \<Rightarrow> bool" where
  "constraints_ok o1 \<longleftrightarrow> dict_ok (constraints o1) \<and>
     (\<forall>(k, c) \<in> set (constraints o1). k = constraint_id c \<and> validate_constraint o1 c = Inr ())"

text \<open>An entry of type \<open>EVALUATION\<close> has the fields that restoration checks.\<close>

definition entry_form :: "jobj \<Rightarrow> bool" where
  "entry_form item \<longleftrightarrow> (is_evaluation item \<longrightarrow>
     (\<exists>e d p h. e \<noteq> '''' \<and> jget item ''event_id'' = JStr e \<and> jget item ''decision'' = JStr (decision_value d) \<and>
        jget item ''proposal'' = JObj p \<and> jget item ''receipt_hash'' = JStr h))"

definition lineage_ok :: "organism \<Rightarrow> bool" where
  "lineage_ok o1 \<longleftrightarrow> (\<forall>item \<in> set (lineage o1). wf_json (JObj item) \<and> entry_form item) \<and>
     (\<forall>e. length (evaluations o1 e) \<le> 1)"

definition organism_ok :: "organism \<Rightarrow> bool" where
  "organism_ok o1 \<longleftrightarrow> cache_ok o1 \<and> constraints_ok o1 \<and> lineage_ok o1"

text \<open>Validation reads only the secrets and the contract hash.\<close>

lemma validate_constraint_same:
  assumes "authority_secrets o2 = authority_secrets o1"
    and "constitutional_contract_hash o2 = constitutional_contract_hash o1"
  shows "validate_constraint o2 c = validate_constraint o1 c" "verify_grant o2 g x = verify_grant o1 g x"
  using assms by (simp_all add: validate_constraint_def verify_grant_def core_of_def constraint_core_def)

lemma evaluations_append:
  "evaluations (o1\<lparr>lineage := lineage o1 @ [item]\<rparr>) e =
     evaluations o1 e @ (if is_evaluation item \<and> jget item ''event_id'' = JStr e then [item] else [])"
  by (simp add: evaluations_def)

lemma evaluations_mark [simp]: "evaluations (mark_state_mutated o1) e = evaluations o1 e"
  by (simp add: evaluations_def mark_state_mutated_def)

lemma evaluations_cache [simp]: "same_state o1 o2 \<Longrightarrow> evaluations o2 e = evaluations o1 e"
  by (simp add: evaluations_def same_stateD)

lemma same_state_constraints_ok: "same_state o1 o2 \<Longrightarrow> constraints_ok o2 = constraints_ok o1"
  using validate_constraint_same [of o2 o1] by (simp add: constraints_ok_def same_stateD)

lemma same_state_lineage_ok: "same_state o1 o2 \<Longrightarrow> lineage_ok o2 = lineage_ok o1"
  by (simp add: lineage_ok_def same_stateD)

lemma constraints_ok_lineage [simp]:
  "constraints_ok (o1\<lparr>lineage := l\<rparr>) = constraints_ok o1"
  "constraints_ok (mark_state_mutated o1) = constraints_ok o1"
  using validate_constraint_same [of "o1\<lparr>lineage := l\<rparr>" o1] validate_constraint_same [of "mark_state_mutated o1" o1]
  by (simp_all add: constraints_ok_def mark_state_mutated_def)

lemma lineage_ok_mark [simp]: "lineage_ok (mark_state_mutated o1) = lineage_ok o1"
  by (simp add: lineage_ok_def) (simp add: mark_state_mutated_def)

lemma state_root_keeps: "organism_ok o1 \<Longrightarrow> organism_ok (snd (state_root o1))"
  using state_root_value [of o1] same_state_constraints_ok same_state_lineage_ok by (simp add: organism_ok_def)

section \<open>Evaluation\<close>

text \<open>The steps of a successful evaluation.\<close>

lemma evaluateE:
  assumes "evaluate env e proposal human flags o1 = Inr (r, o')"
  obtains matched dec why mid entry before o2 where
    "e \<noteq> ''''" and "evaluations o1 e = []"
    and "first_match (sorted_constraints o1) (clone_obj proposal) = Inr matched"
    and "decide env (clone_obj proposal) (map_option clone_obj human) flags matched = Inr (dec, why, mid)"
    and "state_root o1 = (before, o2)"
    and "entry = evaluation_entry o2 e (clone_obj proposal) (gate_inputs (map_option clone_obj human) flags) dec why mid
        (receipt_digest ''ORGANISM_EVALUATION''
          (event_core o2 e (clone_obj proposal) (gate_inputs (map_option clone_obj human) flags) dec why mid before)
          [(''decision'', JStr (decision_value dec)), (''reason'', JStr why)])"
    and "o' = snd (state_root (mark_state_mutated (o2\<lparr>lineage := lineage o2 @ [entry]\<rparr>)))"
    and "lr_decision r = dec" and "lr_reason r = why" and "matched_constraint_id r = mid"
    and "lr_state_root r = fst (state_root (mark_state_mutated (o2\<lparr>lineage := lineage o2 @ [entry]\<rparr>)))"
  using assms
  by (auto simp: evaluate_def Let_def str_field_def jget_def split: prod.splits)

lemma wf_gate_inputs:
  "(\<And>h. human = Some h \<Longrightarrow> wf_json (JObj h)) \<Longrightarrow> wf_json (gate_inputs human flags)"
  by (cases human) (auto simp: gate_inputs_def)

lemma evaluate_keeps:
  assumes ev: "evaluate env e proposal human flags o1 = Inr (r, o')" and ok: "organism_ok o1"
    and wf: "wf_json (JObj proposal)" "\<And>h. human = Some h \<Longrightarrow> wf_json (JObj h)"
  shows "organism_ok o'"
  using ev
proof (rule evaluateE)
  fix matched dec why mid entry before o2
  assume e: "e \<noteq> ''''" and new: "evaluations o1 e = []" and root: "state_root o1 = (before, o2)"
    and entry: "entry = evaluation_entry o2 e (clone_obj proposal) (gate_inputs (map_option clone_obj human) flags) dec why mid
        (receipt_digest ''ORGANISM_EVALUATION''
          (event_core o2 e (clone_obj proposal) (gate_inputs (map_option clone_obj human) flags) dec why mid before)
          [(''decision'', JStr (decision_value dec)), (''reason'', JStr why)])"
    and o': "o' = snd (state_root (mark_state_mutated (o2\<lparr>lineage := lineage o2 @ [entry]\<rparr>)))"
  have ok2: "organism_ok o2" and same: "same_state o1 o2"
    using state_root_keeps [OF ok] state_root_value(3) [of o1] ok root by (auto simp: organism_ok_def)
  have wfi: "wf_json (gate_inputs (map_option clone_obj human) flags)"
    by (rule wf_gate_inputs) (use wf(2) in auto)
  have "wf_json (JObj entry)" unfolding entry evaluation_entry_def using wf(1) wfi by simp
  moreover have "entry_form entry"
    unfolding entry evaluation_entry_def using e by (auto simp: entry_form_def jget_def)
  moreover have "length (evaluations (o2\<lparr>lineage := lineage o2 @ [entry]\<rparr>) x) \<le> 1" for x
    using ok2 new same by (auto simp: evaluations_append organism_ok_def lineage_ok_def entry evaluation_entry_def jget_def)
  ultimately have "lineage_ok (o2\<lparr>lineage := lineage o2 @ [entry]\<rparr>)"
    using ok2 by (auto simp: lineage_ok_def organism_ok_def)
  moreover have "cache_ok (mark_state_mutated (o2\<lparr>lineage := lineage o2 @ [entry]\<rparr>))"
    using ok2 by (intro mark_cache_ok) (simp add: organism_ok_def cache_ok_def)
  ultimately have "organism_ok (mark_state_mutated (o2\<lparr>lineage := lineage o2 @ [entry]\<rparr>))"
    using ok2 by (simp add: organism_ok_def)
  then show "organism_ok o'" unfolding o' by (rule state_root_keeps)
qed

section \<open>Authorization\<close>

lemma authorize_constraintE:
  assumes "authorize_constraint cand grant o1 = Inr (c, o')"
  obtains "verify_grant o1 grant (candidate_id cand) = Inr ()" and "gr_principal_id grant \<noteq> generator_id cand"
    and "c = promoted_constraint o1 cand grant"
    and "o' = mark_state_mutated (o1\<lparr>constraints := dict_set (constraints o1) (constraint_id c) c,
          lineage := lineage o1 @ [promoted_entry cand c]\<rparr>)"
    and "\<exists>source. evaluation o1 (source_event_id cand) = Inr source \<and> map_of source ''decision'' = Some (JStr ''BLOCK'') \<and>
        map_of source ''receipt_hash'' = Some (JStr (source_receipt_hash cand))"
  using assms
  by (auto simp: authorize_constraint_def jfield_def Let_def split: if_splits option.splits)

lemma verify_grant_Inr:
  "verify_grant o1 g cand = Inr () \<longleftrightarrow> gr_capability g = AUTH_CAPABILITY \<and> gr_candidate_id g = cand \<and>
     (\<exists>secret. map_of (authority_secrets o1) (gr_principal_id g) = Some secret \<and>
        gr_signature g = hmac_text secret (grant_payload (gr_principal_id g) AUTH_CAPABILITY cand))"
  by (auto simp: verify_grant_def res_bind_eq_Inr compare_digest_def split: option.splits)

lemma promoted_valid:
  assumes "verify_grant o1 grant (candidate_id cand) = Inr ()" and "gr_principal_id grant \<noteq> generator_id cand"
  shows "validate_constraint o1 (promoted_constraint o1 cand grant) = Inr ()"
proof -
  have "gr_candidate_id grant = candidate_id cand" using assms(1) by (simp add: verify_grant_Inr)
  then have "grant_of (promoted_constraint o1 cand grant) = grant"
    by (simp add: grant_of_def promoted_constraint_def Let_def)
  moreover have "core_of o1 (promoted_constraint o1 cand grant) = constraint_core o1 (candidate_id cand)
      (source_event_id cand) (source_receipt_hash cand) (generator_id cand) (gr_principal_id grant)
      (gr_capability grant) (gr_signature grant) (match_json cand) (reason cand)"
    by (simp add: core_of_def promoted_constraint_def Let_def)
  ultimately show ?thesis
    using assms by (simp add: validate_constraint_def) (simp add: promoted_constraint_def Let_def)
qed

lemma set_dict_set_subset: "p \<in> set (dict_set d k v) \<Longrightarrow> p = (k, v) \<or> p \<in> set d"
  using set_dict_set by fastforce

lemma authorize_keeps:
  assumes auth: "authorize_constraint cand grant o1 = Inr (c, o')" and ok: "organism_ok o1"
  shows "organism_ok o'"
  using auth
proof (rule authorize_constraintE)
  assume g: "verify_grant o1 grant (candidate_id cand) = Inr ()" "gr_principal_id grant \<noteq> generator_id cand"
    and c: "c = promoted_constraint o1 cand grant"
    and o': "o' = mark_state_mutated (o1\<lparr>constraints := dict_set (constraints o1) (constraint_id c) c,
          lineage := lineage o1 @ [promoted_entry cand c]\<rparr>)"
  define o2 where "o2 = o1\<lparr>constraints := dict_set (constraints o1) (constraint_id c) c\<rparr>"
  have vs: "validate_constraint o2 x = validate_constraint o1 x" for x
    by (rule validate_constraint_same) (simp_all add: o2_def)
  have "validate_constraint o1 c = Inr ()" unfolding c by (rule promoted_valid [OF g])
  then have "constraints_ok o2"
    using ok unfolding organism_ok_def constraints_ok_def vs
    by (auto simp: o2_def dest: set_dict_set_subset)
  moreover have "wf_json (JObj (promoted_entry cand c))" by (simp add: promoted_entry_def)
  moreover have "entry_form (promoted_entry cand c)"
    by (simp add: promoted_entry_def entry_form_def is_evaluation_def jget_def)
  moreover have "evaluations (o2\<lparr>lineage := lineage o1 @ [promoted_entry cand c]\<rparr>) e = evaluations o1 e" for e
    by (simp add: evaluations_def promoted_entry_def is_evaluation_def jget_def)
  ultimately have "constraints_ok (o2\<lparr>lineage := lineage o1 @ [promoted_entry cand c]\<rparr>)"
    "lineage_ok (o2\<lparr>lineage := lineage o1 @ [promoted_entry cand c]\<rparr>)"
    using ok by (auto simp: organism_ok_def lineage_ok_def)
  moreover have "o' = mark_state_mutated (o2\<lparr>lineage := lineage o1 @ [promoted_entry cand c]\<rparr>)"
    by (simp add: o' o2_def)
  moreover have "cache_ok o'"
    unfolding o' using ok by (intro mark_cache_ok) (simp add: organism_ok_def cache_ok_def)
  ultimately show "organism_ok o'" by (simp add: organism_ok_def)
qed

section \<open>Steps and reachable organisms\<close>

text \<open>A call of the interface that succeeds; those that raise leave the object as it is.\<close>

inductive organism_step :: "guard_env \<Rightarrow> organism \<Rightarrow> organism \<Rightarrow> bool" for env where
  evaluated: "evaluate env e proposal human flags o1 = Inr (r, o') \<Longrightarrow> wf_json (JObj proposal) \<Longrightarrow>
    (\<And>h. human = Some h \<Longrightarrow> wf_json (JObj h)) \<Longrightarrow> organism_step env o1 o'"
| authorized: "authorize_constraint cand grant o1 = Inr (c, o') \<Longrightarrow> organism_step env o1 o'"
| exported: "organism_step env o1 (snd (export_state o1))"

lemma exported_is_root: "snd (export_state o1) = snd (state_root o1)"
  by (simp add: export_state_def Let_def split: prod.splits)

lemma step_keeps_ok: "organism_step env o1 o' \<Longrightarrow> organism_ok o1 \<Longrightarrow> organism_ok o'"
  by (induction rule: organism_step.induct)
    (auto simp: exported_is_root intro: evaluate_keeps authorize_keeps state_root_keeps)

lemma steps_keep_ok: "(organism_step env)\<^sup>*\<^sup>* o1 o' \<Longrightarrow> organism_ok o1 \<Longrightarrow> organism_ok o'"
  by (induction rule: rtranclp_induct) (auto intro: step_keeps_ok)

lemma new_organism_fresh:
  assumes "new_organism env oid frozen rid secret secrets None = Inr o1"
  shows "organism_ok o1 \<and> constraints o1 = [] \<and> lineage o1 = [] \<and> cached_state_root o1 = None \<and>
    organism_id o1 = oid \<and> state_secret o1 = secret \<and> authority_secrets o1 = secrets \<and>
    gate_fingerprint_of env None = Inr (gate_fingerprint o1) \<and>
    constitutional_contract_hash_of env frozen None = Inr (constitutional_contract_hash o1)"
  using assms
  by (auto simp: new_organism_def organism_ok_def cache_ok_def constraints_ok_def lineage_ok_def evaluations_def)

text \<open>The identity of an organism never changes.\<close>

definition same_identity :: "organism \<Rightarrow> organism \<Rightarrow> bool" where
  "same_identity o1 o2 \<longleftrightarrow> organism_id o2 = organism_id o1 \<and> state_secret o2 = state_secret o1 \<and>
     authority_secrets o2 = authority_secrets o1 \<and> gate_fingerprint o2 = gate_fingerprint o1 \<and>
     constitutional_contract_hash o2 = constitutional_contract_hash o1"

lemma state_root_same: "same_state o1 (snd (state_root o1))"
  by (auto simp: state_root_def same_state_def Let_def)
    (metis organism.surjective organism.update_convs(11,12) old.unit.exhaust)

lemma evaluate_effect:
  assumes "evaluate env e proposal human flags o1 = Inr (r, o')"
  shows "constraints o' = constraints o1" and "same_identity o1 o'" and "\<exists>entry. lineage o' = lineage o1 @ [entry]"
proof -
  obtain before o2 entry where root: "state_root o1 = (before, o2)"
    and o': "o' = snd (state_root (mark_state_mutated (o2\<lparr>lineage := lineage o2 @ [entry]\<rparr>)))"
    using assms by (rule evaluateE) blast
  have 1: "same_state o1 o2" using state_root_same [of o1] root by simp
  have 2: "same_state (mark_state_mutated (o2\<lparr>lineage := lineage o2 @ [entry]\<rparr>)) o'"
    unfolding o' by (rule state_root_same)
  show "constraints o' = constraints o1" "same_identity o1 o'" "\<exists>entry. lineage o' = lineage o1 @ [entry]"
    using same_stateD [OF 1] same_stateD [OF 2] by (simp_all add: mark_state_mutated_def same_identity_def)
qed

section \<open>Inherited constraints block for ever\<close>

definition holds_constraint :: "inherited_constraint \<Rightarrow> organism \<Rightarrow> bool" where
  "holds_constraint c o1 \<longleftrightarrow> map_of (constraints o1) (constraint_id c) = Some c"

text \<open>A step in which no new constraint takes the digest of another one.\<close>

definition no_clash :: "organism \<Rightarrow> organism \<Rightarrow> bool" where
  "no_clash o1 o' \<longleftrightarrow> (\<forall>k c c'. map_of (constraints o1) k = Some c \<longrightarrow> map_of (constraints o') k = Some c' \<longrightarrow> c' = c)"

definition clean_step :: "guard_env \<Rightarrow> organism \<Rightarrow> organism \<Rightarrow> bool" where
  "clean_step env o1 o' \<longleftrightarrow> organism_step env o1 o' \<and> no_clash o1 o'"

lemma step_constraints_grow:
  "organism_step env o1 o' \<Longrightarrow> map_of (constraints o1) k = Some c \<Longrightarrow> \<exists>c'. map_of (constraints o') k = Some c'"
proof (induction rule: organism_step.induct)
  case (authorized cand grant o1 c2 o')
  then show ?case by (auto elim!: authorize_constraintE simp: mark_state_mutated_def)
qed (auto simp: evaluate_effect(1) exported_is_root same_stateD(1) [OF state_root_same])

lemma clean_step_holds: "clean_step env o1 o' \<Longrightarrow> holds_constraint c o1 \<Longrightarrow> holds_constraint c o'"
  using step_constraints_grow unfolding clean_step_def no_clash_def holds_constraint_def by metis

lemma clean_steps_hold: "(clean_step env)\<^sup>*\<^sup>* o1 o' \<Longrightarrow> holds_constraint c o1 \<Longrightarrow> holds_constraint c o'"
  by (induction rule: rtranclp_induct) (auto intro: clean_step_holds)

lemma sorted_constraints_mem: "holds_constraint c o1 \<Longrightarrow> c \<in> set (sorted_constraints o1)"
proof -
  assume "holds_constraint c o1"
  then have m: "map_of (constraints o1) (constraint_id c) = Some c" by (simp add: holds_constraint_def)
  then have "constraint_id c \<in> set (sort (map fst (constraints o1)))"
    by (metis domI dom_map_of_conv_image_fst set_map set_sort)
  then have "the (map_of (constraints o1) (constraint_id c)) \<in> set (sorted_constraints o1)"
    unfolding sorted_constraints_def set_map by (rule imageI)
  then show ?thesis by (simp add: m)
qed

lemma first_match_found:
  assumes "c \<in> set cs" and "constraint_matches (ic_match_json c) p = Inr True" and "first_match cs p = Inr m"
  shows "\<exists>c'. m = Some c' \<and> c' \<in> set cs \<and> constraint_matches (ic_match_json c') p = Inr True"
  using assms
proof (induction cs)
  case (Cons d ds)
  from Cons.prems(3) obtain b where b: "constraint_matches (ic_match_json d) p = Inr b"
    and rest: "(if b then Inr (Some d) else first_match ds p) = Inr m" by auto
  show ?case
  proof (cases b)
    case True
    then show ?thesis using b rest by auto
  next
    case False
    then have "c \<in> set ds" using Cons.prems(1,2) b by auto
    then show ?thesis using Cons.IH Cons.prems(2) rest False by auto
  qed
qed simp


section \<open>Export and restoration\<close>

lemma filter_sort_key: "filter P (sort_key f xs) = sort_key f (filter P xs)"
  by (rule filter_sort)

lemma dict_remove_clone: "dict_remove (clone_obj d) k = clone_obj (dict_remove d k)"
proof -
  have "filter (\<lambda>p. fst p \<noteq> k) (map (map_prod id sort_json) d) = map (map_prod id sort_json) (filter (\<lambda>p. fst p \<noteq> k) d)"
    by (induction d) auto
  then show ?thesis by (simp add: dict_remove_def clone_obj_def filter_sort)
qed

lemma map_of_dict_remove: "map_of (dict_remove d k) j = (if j = k then None else map_of d j)"
  by (induction d) (auto simp: dict_remove_def)

lemma state_mac_clone [simp]: "state_mac o1 (clone_obj d) = state_mac o1 d"
  by (simp only: state_mac_def clone_obj_sort canonical_sort_json)

lemma wf_constraint_json [simp]: "wf_json (constraint_json c)"
  by (simp add: constraint_json_def constraint_obj_def)

lemma constraint_json_loads: "constraint_of_json (sort_json (constraint_json c)) = Inr c"
proof -
  have "dict_ok (constraint_obj c)"
    by (rule wf_JObj_dict_ok) (simp add: constraint_obj_def)
  then have g: "jget (clone_obj (constraint_obj c)) k = sort_json (jget (constraint_obj c) k)" for k by (rule jget_clone)
  have keys: "set (map fst (clone_obj (constraint_obj c))) = set CONSTRAINT_FIELDS"
    by (simp only: clone_keys) (simp add: constraint_obj_def CONSTRAINT_FIELDS_def)
  have "\<forall>v \<in> snd ` set (clone_obj (constraint_obj c)). case v of JStr s \<Rightarrow> True | _ \<Rightarrow> False"
    unfolding clone_values by (simp add: constraint_obj_def)
  then have strs: "list_all (\<lambda>p. case snd p of JStr s \<Rightarrow> True | _ \<Rightarrow> False) (clone_obj (constraint_obj c))"
    by (simp add: list_all_iff)
  have f: "str_field (clone_obj (constraint_obj c)) k = str_field (constraint_obj c) k" for k
    unfolding str_field_def g by (cases "jget (constraint_obj c) k") auto
  have "sort_json (constraint_json c) = JObj (clone_obj (constraint_obj c))"
    by (simp only: constraint_json_def clone_obj_sort)
  then show ?thesis
    by (simp only: constraint_of_json_def keys strs f json.case simp_thms if_True)
      (simp add: str_field_def constraint_obj_def jget_def)
qed

lemma sorted_constraints_valid:
  assumes "constraints_ok o1" and "c \<in> set (sorted_constraints o1)"
  shows "validate_constraint o1 c = Inr ()" and "map_of (constraints o1) (constraint_id c) = Some c"
proof -
  from assms(2) obtain k where k: "k \<in> fst ` set (constraints o1)" "c = the (map_of (constraints o1) k)"
    by (auto simp: sorted_constraints_def)
  then obtain c' where c': "map_of (constraints o1) k = Some c'" by (metis domD dom_map_of_conv_image_fst)
  then have "(k, c') \<in> set (constraints o1)" by (rule map_of_SomeD)
  then have "k = constraint_id c' \<and> validate_constraint o1 c' = Inr ()"
    using assms(1) by (auto simp: constraints_ok_def)
  then show "validate_constraint o1 c = Inr ()" "map_of (constraints o1) (constraint_id c) = Some c"
    using k(2) c' by simp_all
qed

lemma sorted_ids:
  assumes "constraints_ok o1"
  shows "map constraint_id (sorted_constraints o1) = sort (map fst (constraints o1))"
proof -
  have "constraint_id (the (map_of (constraints o1) k)) = k" if "k \<in> set (sort (map fst (constraints o1)))" for k
  proof -
    have "map_of (constraints o1) k \<noteq> None" using that by (simp add: map_of_eq_None_iff)
    then obtain c' where c': "map_of (constraints o1) k = Some c'" by blast
    then have "(k, c') \<in> set (constraints o1)" by (rule map_of_SomeD)
    then have "k = constraint_id c'" using assms by (auto simp: constraints_ok_def)
    then show ?thesis using c' by simp
  qed
  then show ?thesis unfolding sorted_constraints_def list.map_comp by (intro map_idI) simp
qed

text \<open>Restoring the constraints one by one rebuilds the dictionary in the order of the ids.\<close>

lemma restore_constraints:
  assumes "\<forall>c \<in> set cs. validate_constraint o1 c = Inr ()"
    and "distinct (map constraint_id cs @ map fst (constraints o1))"
  shows "res_fold restore_constraint (map (\<lambda>c. sort_json (constraint_json c)) cs) o1 =
    Inr (o1\<lparr>constraints := constraints o1 @ map (\<lambda>c. (constraint_id c, c)) cs\<rparr>)"
  using assms
proof (induction cs arbitrary: o1)
  case (Cons c cs)
  define o2 where "o2 = o1\<lparr>constraints := constraints o1 @ [(constraint_id c, c)]\<rparr>"
  have "restore_constraint (sort_json (constraint_json c)) o1 = Inr o2"
    using Cons.prems by (simp add: restore_constraint_def constraint_json_loads dict_set_new o2_def)
  moreover have "res_fold restore_constraint (map (\<lambda>c. sort_json (constraint_json c)) cs) o2 =
      Inr (o2\<lparr>constraints := constraints o2 @ map (\<lambda>c. (constraint_id c, c)) cs\<rparr>)"
  proof (rule Cons.IH)
    show "\<forall>c \<in> set cs. validate_constraint o2 c = Inr ()"
      using Cons.prems(1) validate_constraint_same(1) [of o2 o1] by (simp add: o2_def)
    show "distinct (map constraint_id cs @ map fst (constraints o2))"
      using Cons.prems(2) by (auto simp: o2_def)
  qed
  ultimately show ?case by (simp add: o2_def)
qed simp

lemma is_evaluation_clone:
  assumes "wf_json (JObj d)"
  shows "is_evaluation (clone_obj d) = is_evaluation d"
proof -
  have "sort_json v = JStr s \<longleftrightarrow> v = JStr s" for v s by (cases v) auto
  then show ?thesis using assms by (simp add: is_evaluation_def jget_clone wf_JObj_dict_ok)
qed

lemma check_lineage_clone:
  assumes "\<forall>item \<in> set items. wf_json (JObj item) \<and> entry_form item"
    and "\<And>e. length (filter (\<lambda>item. is_evaluation item \<and> jget item ''event_id'' = JStr e) items) \<le> 1"
    and "\<And>e. e \<in> set seen \<Longrightarrow> filter (\<lambda>item. is_evaluation item \<and> jget item ''event_id'' = JStr e) items = []"
  shows "\<exists>s. res_fold check_lineage_value (map (\<lambda>d. JObj (clone_obj d)) items) seen = Inr s"
  using assms
proof (induction items arbitrary: seen)
  case (Cons item items)
  have wf: "wf_json (JObj item)" "entry_form item" using Cons.prems(1) by simp_all
  note g = jget_clone [OF wf_JObj_dict_ok [OF wf(1)]]
  have rest: "length (filter (\<lambda>item. is_evaluation item \<and> jget item ''event_id'' = JStr e) items) \<le> 1" for e
    using Cons.prems(2) [of e] by (auto split: if_splits)
  show ?case
  proof (cases "is_evaluation item")
    case False
    have "\<exists>s. res_fold check_lineage_value (map (\<lambda>d. JObj (clone_obj d)) items) seen = Inr s"
      using Cons.prems rest False by (intro Cons.IH) auto
    moreover have "check_lineage_value (JObj (clone_obj item)) seen = Inr seen"
      using False by (simp add: check_lineage_value_def as_item_def check_lineage_item_def is_evaluation_clone wf)
    ultimately show ?thesis by simp
  next
    case True
    then obtain e d p h where f: "e \<noteq> ''''" "jget item ''event_id'' = JStr e"
      "jget item ''decision'' = JStr (decision_value d)" "jget item ''proposal'' = JObj p" "jget item ''receipt_hash'' = JStr h"
      using wf(2) unfolding entry_form_def by blast
    have "e \<notin> set seen" using Cons.prems(3) [of e] True f(2) by auto
    moreover have "decision_value d \<in> decision_value ` {PASS, BLOCK, HOLD}" by (cases d) simp_all
    ultimately have "check_lineage_item (clone_obj item) seen = Inr (e # seen)"
      using True f by (simp add: check_lineage_item_def is_evaluation_clone wf g unhashable_def)
    moreover have "\<exists>s. res_fold check_lineage_value (map (\<lambda>d. JObj (clone_obj d)) items) (e # seen) = Inr s"
    proof (rule Cons.IH)
      show "filter (\<lambda>item. is_evaluation item \<and> jget item ''event_id'' = JStr x) items = []" if "x \<in> set (e # seen)" for x
        using that Cons.prems(2) [of x] Cons.prems(3) [of x] True f(2) by (auto split: if_splits)
    qed (use Cons.prems(1) rest in auto)
    ultimately show ?thesis by (simp add: check_lineage_value_def [of "JObj (clone_obj item)"] as_item_def)
  qed
qed simp

lemma as_items: "res_map as_item (map (\<lambda>d. JObj (clone_obj d)) items) = Inr (map clone_obj items)"
  by (induction items) (simp_all add: as_item_def)

text \<open>What an exported state holds once \<open>_restore\<close> has cloned it and taken the two digests out.\<close>

lemma exported_parts:
  fixes o1 :: organism
  defines "root \<equiv> fst (state_root o1)" and "payload \<equiv> state_payload o1"
  defines "cloned \<equiv> clone_obj (fst (export_state o1))"
  shows "jget cloned ''state_mac'' = JStr (state_mac o1 payload)"
    and "jget (dict_remove cloned ''state_mac'') ''state_root'' = JStr root"
    and "dict_remove (dict_remove cloned ''state_mac'') ''state_root'' = clone_obj payload"
    and "dict_ok payload"
proof -
  have ex: "fst (export_state o1) = payload @ [(''state_root'', JStr root), (''state_mac'', JStr (state_mac o1 payload))]"
    by (simp add: export_state_def root_def payload_def Let_def split: prod.splits)
  show dp: "dict_ok payload" by (simp add: payload_def state_payload_def dict_ok_def)
  have de: "dict_ok (fst (export_state o1))"
    unfolding ex by (simp add: payload_def state_payload_def dict_ok_def)
  show "jget cloned ''state_mac'' = JStr (state_mac o1 payload)"
    unfolding cloned_def jget_clone [OF de] unfolding ex by (simp add: payload_def state_payload_def jget_def)
  have rm: "dict_remove cloned k = clone_obj (dict_remove (fst (export_state o1)) k)" for k
    by (simp add: cloned_def dict_remove_clone)
  have "dict_ok (dict_remove (fst (export_state o1)) ''state_mac'')"
    unfolding ex by (simp add: payload_def state_payload_def dict_ok_def dict_remove_def)
  then show "jget (dict_remove cloned ''state_mac'') ''state_root'' = JStr root"
    unfolding rm by (simp add: jget_clone) (simp add: ex payload_def state_payload_def jget_def dict_remove_def)
  show "dict_remove (dict_remove cloned ''state_mac'') ''state_root'' = clone_obj payload"
    unfolding rm dict_remove_clone unfolding ex by (simp add: payload_def state_payload_def dict_remove_def)
qed

text \<open>The exported state, read back into an organism of the same identity with nothing in it.\<close>

lemma restore_exported:
  assumes ok: "organism_ok o1" and id: "same_identity fresh o1"
    and empty: "constraints fresh = []" "cached_state_root fresh = None"
  shows "\<exists>o2. restore (fst (export_state o1)) fresh = Inr o2 \<and> state_payload o2 = state_payload o1 \<and>
    sorted_constraints o2 = sorted_constraints o1 \<and> lineage o2 = map clone_obj (lineage o1) \<and>
    fst (state_root o2) = fst (state_root o1)"
proof -
  let ?cs = "sorted_constraints o1" and ?p = "state_payload o1"
  have cok: "constraints_ok o1" and lok: "lineage_ok o1" and kok: "cache_ok o1"
    using ok by (simp_all add: organism_ok_def)
  note parts = exported_parts [of o1]
  have g: "jget (clone_obj ?p) k = sort_json (jget ?p k)" for k by (rule jget_clone) (rule parts(4))
  have mo: "map_of (clone_obj ?p) k = map_option sort_json (map_of ?p k)" for k by (rule map_of_clone) (rule parts(4))
  have mac: "state_mac fresh (clone_obj ?p) = state_mac o1 ?p"
    unfolding state_mac_clone using id by (simp add: state_mac_def same_identity_def)
  define o2 where "o2 = fresh\<lparr>constraints := map (\<lambda>c. (constraint_id c, c)) ?cs, lineage := map clone_obj (lineage o1)\<rparr>"
  have cons: "res_fold restore_constraint (map (\<lambda>c. sort_json (constraint_json c)) ?cs) fresh =
      Inr (fresh\<lparr>constraints := map (\<lambda>c. (constraint_id c, c)) ?cs\<rparr>)"
  proof -
    have "distinct (map constraint_id ?cs @ map fst (constraints fresh))"
      using cok empty by (simp add: sorted_ids constraints_ok_def dict_ok_def)
    moreover have "\<forall>c \<in> set ?cs. validate_constraint fresh c = Inr ()"
      using sorted_constraints_valid(1) [OF cok] validate_constraint_same(1) [of fresh o1] id
      by (simp add: same_identity_def)
    ultimately show ?thesis using restore_constraints [of ?cs fresh] empty by simp
  qed
  have lin: "validate_lineage (map (\<lambda>d. JObj (clone_obj d)) (lineage o1)) = Inr (map clone_obj (lineage o1))"
    using check_lineage_clone [of "lineage o1" "[]"] lok as_items
    by (auto simp: validate_lineage_def lineage_ok_def evaluations_def)
  have cs1: "json_list (clone_obj ?p) ''constraints'' m = Inr (map (\<lambda>c. sort_json (constraint_json c)) ?cs)" for m
    unfolding json_list_def mo by (simp add: state_payload_def comp_def)
  have ls1: "json_list (clone_obj ?p) ''lineage'' m = Inr (map (\<lambda>d. JObj (clone_obj d)) (lineage o1))" for m
  proof -
    have "sort_json (JObj (clone_obj d)) = JObj (clone_obj d)" for d
      by (simp only: clone_obj_sort [symmetric] clone_obj_idem)
    then show ?thesis
      unfolding json_list_def mo by (simp add: state_payload_def comp_def lineage_clone_def del: sort_json.simps(7))
  qed
  have sorted: "sorted_constraints o2 = ?cs"
  proof -
    have d: "distinct (map constraint_id ?cs)" using cok by (simp add: sorted_ids constraints_ok_def dict_ok_def)
    have k: "map fst (constraints o2) = map constraint_id ?cs" by (simp add: o2_def comp_def)
    have s: "sort (map constraint_id ?cs) = map constraint_id ?cs"
      by (simp add: sorted_ids [OF cok] sort_key_idem)
    have m: "map_of (constraints o2) (constraint_id c) = Some c" if "c \<in> set ?cs" for c
      using that d by (intro map_of_is_SomeI) (simp_all add: o2_def comp_def)
    show ?thesis unfolding sorted_constraints_def [of o2] k s using m by (simp add: map_idI)
  qed
  have payload: "state_payload o2 = ?p"
  proof -
    have "lineage_clone o2 = lineage_clone o1"
      by (simp add: lineage_clone_def o2_def comp_def)
    then show ?thesis using sorted id by (simp add: state_payload_def same_identity_def) (simp add: o2_def)
  qed
  have root: "fst (state_root o2) = stable_hash (JObj ?p)"
    by (simp add: state_root_def payload) (simp add: o2_def empty)
  have root1: "fst (state_root o1) = stable_hash (JObj ?p)" by (rule state_root_value(1) [OF kok])
  have same: "same_state o2 (snd (state_root o2))" by (rule state_root_same)
  have upd: "fresh\<lparr>constraints := map (\<lambda>c. (constraint_id c, c)) ?cs, lineage := map clone_obj (lineage o1)\<rparr> = o2"
    by (simp add: o2_def)
  have schema: "jget (clone_obj ?p) ''schema'' = JStr SCHEMA_VERSION"
    "jget (clone_obj ?p) ''organism_id'' = JStr (organism_id fresh)"
    "jget (clone_obj ?p) ''constitutional_contract_hash'' = JStr (constitutional_contract_hash fresh)"
    using id by (simp_all add: g) (simp_all add: state_payload_def jget_def same_identity_def)
  have mac_ok: "compare_digest (state_mac fresh ?p) (state_mac o1 ?p) = Inr True"
    unfolding mac [unfolded state_mac_clone] by (simp add: compare_digest_def) (simp add: state_mac_def)
  have "restore (fst (export_state o1)) fresh = Inr (snd (state_root o2))"
    using root root1
    by (cases "state_root o2") (simp add: restore_def Let_def parts(1,2,3) mac_ok schema cs1 cons ls1 lin upd)
  moreover have "sorted_constraints (snd (state_root o2)) = ?cs"
    using sorted same_stateD(1) [OF same] by (simp add: sorted_constraints_def)
  moreover have "lineage (snd (state_root o2)) = map clone_obj (lineage o1)"
    using same_stateD(2) [OF same] by (simp add: o2_def)
  moreover have "state_payload (snd (state_root o2)) = ?p"
    using same_stateD(9) [OF same] payload by simp
  moreover have "fst (state_root (snd (state_root o2))) = fst (state_root o1)"
    using root root1 by (auto simp: state_root_def Let_def split: if_splits)
  ultimately show ?thesis by blast
qed

lemma step_same_identity: "organism_step env o1 o' \<Longrightarrow> same_identity o1 o'"
proof (induction rule: organism_step.induct)
  case (authorized cand grant o1 c o')
  then show ?case by (auto elim!: authorize_constraintE simp: same_identity_def mark_state_mutated_def)
next
  case (exported o1)
  show ?case using same_stateD [OF state_root_same, of o1] by (simp add: exported_is_root same_identity_def)
qed (auto dest: evaluate_effect(2))

lemma steps_same_identity: "(organism_step env)\<^sup>*\<^sup>* o1 o' \<Longrightarrow> same_identity o1 o'"
  by (induction rule: rtranclp_induct) (auto simp: same_identity_def dest: step_same_identity)

definition organism_run :: "guard_env \<Rightarrow> string \<Rightarrow> string \<Rightarrow> string \<Rightarrow> string \<Rightarrow> (string, string) dict \<Rightarrow> organism \<Rightarrow> bool" where
  "organism_run env oid frozen rid secret secrets o1 \<longleftrightarrow>
     (\<exists>o0. new_organism env oid frozen rid secret secrets None = Inr o0 \<and> (organism_step env)\<^sup>*\<^sup>* o0 o1)"

lemma organism_run_ok: "organism_run env oid frozen rid secret secrets o1 \<Longrightarrow> organism_ok o1"
  using new_organism_fresh steps_keep_ok unfolding organism_run_def by blast


text \<open>C7: An exported state can be restored. Whatever state an organism has reached, a new organism
  made from its export with the same identity, secrets and guards (and any runtime id) accepts it,
  and has the same constraints, the same lineage (each entry with its keys sorted) and the same
  state root.\<close>

theorem export_restores:
  assumes run: "organism_run env oid frozen rid secret secrets o1" and "rid' \<noteq> ''''"
  shows "\<exists>o2. new_organism env oid frozen rid' secret secrets (Some (fst (export_state o1))) = Inr o2 \<and>
    sorted_constraints o2 = sorted_constraints o1 \<and> lineage o2 = map clone_obj (lineage o1) \<and>
    state_payload o2 = state_payload o1 \<and> fst (state_root o2) = fst (state_root o1)"
proof -
  obtain o0 where o0: "new_organism env oid frozen rid secret secrets None = Inr o0"
    and steps: "(organism_step env)\<^sup>*\<^sup>* o0 o1"
    using run by (auto simp: organism_run_def)
  define fresh where "fresh = o0\<lparr>runtime_id := rid'\<rparr>"
  have new: "new_organism env oid frozen rid' secret secrets state = (case state of None \<Rightarrow> Inr fresh | Some s \<Rightarrow> restore s fresh)"
    for state
    using o0 assms(2) by (auto simp: new_organism_def fresh_def split: option.splits)
  have "same_identity fresh o1"
    using steps_same_identity [OF steps] by (simp add: same_identity_def fresh_def)
  moreover have "constraints fresh = []" "cached_state_root fresh = None"
    using new_organism_fresh [OF o0] by (simp_all add: fresh_def)
  ultimately obtain o2 where "restore (fst (export_state o1)) fresh = Inr o2" "state_payload o2 = state_payload o1"
    "sorted_constraints o2 = sorted_constraints o1" "lineage o2 = map clone_obj (lineage o1)"
    "fst (state_root o2) = fst (state_root o1)"
    using restore_exported [OF organism_run_ok [OF run]] by blast
  then show ?thesis using new [of "Some (fst (export_state o1))"] by auto
qed

section \<open>The decision of an evaluation\<close>

lemma first_match_None:
  "first_match cs p = Inr None \<longleftrightarrow> (\<forall>c \<in> set cs. constraint_matches (ic_match_json c) p = Inr False)"
proof (induction cs)
  case (Cons c cs)
  show ?case
  proof (cases "constraint_matches (ic_match_json c) p")
    case (Inr b)
    then show ?thesis using Cons.IH by (cases b) auto
  qed auto
qed simp

lemma decide_none:
  assumes "decide env p human flags None = Inr (dec, why, mid)"
  shows "dec = PASS \<longleftrightarrow> ontology_ok flags \<and> signature_valid flags \<and> transition_valid flags \<and>
    (\<forall>h. human = Some h \<longrightarrow> human_authorized h)"
proof -
  obtain action where g: "omega_gate (hdb_boundary human) action (ontology_ok flags) (signature_valid flags)
      (transition_valid flags) = (dec, why)"
    using assms by (auto simp: decide_def evaluate_hdb_def Let_def split: prod.splits if_splits)
  then have "dec = fst (omega_gate (hdb_boundary human) action (ontology_ok flags) (signature_valid flags) (transition_valid flags))"
    by simp
  then show ?thesis by (auto simp: omega_gate_pass hdb_boundary_pass)
qed

text \<open>An evaluation passes exactly when no inherited constraint matches the proposal, the ontology,
  signature and transition checks hold, and the human data (if any) is authorized: not serialized, no
  third party without consent, not secret, with consent and a purpose. It is recorded once, at the end
  of the lineage, under an event id that was not there before, and changes no constraint.\<close>

theorem evaluation_decision:
  assumes "evaluate env e proposal human flags o1 = Inr (r, o')"
  shows "(lr_decision r = PASS \<longleftrightarrow>
      (\<forall>c \<in> set (sorted_constraints o1). constraint_matches (ic_match_json c) (clone_obj proposal) = Inr False) \<and>
      ontology_ok flags \<and> signature_valid flags \<and> transition_valid flags \<and>
      (\<forall>h. human = Some h \<longrightarrow> human_authorized (clone_obj h))) \<and>
    evaluations o1 e = [] \<and> constraints o' = constraints o1 \<and>
    (\<exists>entry. lineage o' = lineage o1 @ [entry] \<and> jget entry ''event_id'' = JStr e \<and>
       jget entry ''decision'' = JStr (decision_value (lr_decision r)) \<and> jget entry ''proposal'' = JObj (clone_obj proposal))"
proof -
  obtain matched dec why mid entry before o2 where new: "evaluations o1 e = []"
    and m: "first_match (sorted_constraints o1) (clone_obj proposal) = Inr matched"
    and d: "decide env (clone_obj proposal) (map_option clone_obj human) flags matched = Inr (dec, why, mid)"
    and root: "state_root o1 = (before, o2)"
    and entry: "entry = evaluation_entry o2 e (clone_obj proposal) (gate_inputs (map_option clone_obj human) flags) dec why mid
        (receipt_digest ''ORGANISM_EVALUATION''
          (event_core o2 e (clone_obj proposal) (gate_inputs (map_option clone_obj human) flags) dec why mid before)
          [(''decision'', JStr (decision_value dec)), (''reason'', JStr why)])"
    and o': "o' = snd (state_root (mark_state_mutated (o2\<lparr>lineage := lineage o2 @ [entry]\<rparr>)))"
    and r: "lr_decision r = dec"
    using assms by (rule evaluateE)
  have none: "matched = None \<longleftrightarrow>
      (\<forall>c \<in> set (sorted_constraints o1). constraint_matches (ic_match_json c) (clone_obj proposal) = Inr False)"
    using m first_match_None [of "sorted_constraints o1" "clone_obj proposal"] by auto
  have pass: "lr_decision r = PASS \<longleftrightarrow> matched = None \<and> ontology_ok flags \<and> signature_valid flags \<and>
      transition_valid flags \<and> (\<forall>h. human = Some h \<longrightarrow> human_authorized (clone_obj h))"
  proof (cases matched)
    case None
    then show ?thesis using decide_none [OF d [unfolded None]] r by auto
  next
    case (Some c)
    then show ?thesis using d r by (auto simp: decide_def)
  qed
  have "same_state o1 o2" using state_root_same [of o1] root by simp
  then have "lineage o' = lineage o1 @ [entry]"
    using same_stateD(2) [OF state_root_same] unfolding o' by (simp add: same_stateD mark_state_mutated_def)
  then show ?thesis
    using pass none new evaluate_effect(1) [OF assms] r by (auto simp: entry evaluation_entry_def jget_def)
qed

section \<open>Witnesses\<close>

definition sample_env :: guard_env where
  "sample_env = \<lparr>ge_core_name = ''app.core'', ge_core_source = Some ''source'',
     ge_evaluate_hdb = \<lparr>fn_module = ''app.core'', fn_qualname = ''evaluate_hdb'', fn_source = Some ''f'', fn_code = None\<rparr>,
     ge_omega_gate = \<lparr>fn_module = ''app.core'', fn_qualname = ''omega_gate'', fn_source = Some ''g'', fn_code = None\<rparr>,
     ge_stable_hash = \<lparr>fn_module = ''app.core'', fn_qualname = ''stable_hash'', fn_source = Some ''h'', fn_code = None\<rparr>,
     ge_hdb_class = \<lparr>cv_module = ''app.core'', cv_qualname = ''HDBResult'', cv_frozen = Some True,
       cv_fields = Some [(''decision'', ''Decision''), (''reason'', ''str'')], cv_plain_getattribute = True,
       cv_post_init = False\<rparr>,
     ge_str = (\<lambda>v. canonical_json v)\<rparr>"

definition sample_new :: "organism res" where
  "sample_new = new_organism sample_env ''org'' (replicate 64 (CHR ''a'')) ''run'' ''secret'' [(''auth'', ''key'')] None"

definition all_flags :: gate_flags where
  "all_flags = \<lparr>ontology_ok = True, signature_valid = True, transition_valid = True\<rparr>"

definition sample_proposal :: jobj where
  "sample_proposal = [(''action'', JStr ''PUBLISH'')]"

lemma sample_new_ok: "\<exists>o0. sample_new = Inr o0"
  by (simp add: sample_new_def new_organism_def valid_secrets_def gate_fingerprint_of_def canonical_guard_bindings_def
      core_artifact_fingerprint_def function_fingerprint_of_def constitutional_contract_hash_of_def sample_env_def
      list_all_iff is_hex_any_def)

lemma sample_evaluation:
  assumes "evaluations o1 ''e1'' = []" and "first_match (sorted_constraints o1) sample_proposal = Inr m"
  shows "\<exists>r o'. evaluate sample_env ''e1'' sample_proposal None all_flags o1 = Inr (r, o')"
proof -
  have "clone_obj sample_proposal = sample_proposal" by (simp add: sample_proposal_def clone_obj_def)
  moreover have "\<exists>d w i. decide sample_env sample_proposal None all_flags m = Inr (d, w, i)"
    by (cases m) (simp_all add: decide_def evaluate_hdb_def class_contract_ok_def sample_env_def split: prod.split)
  ultimately show ?thesis
    using assms by (auto simp: evaluate_def Let_def split: prod.splits)
qed

theorem evaluation_decision_witness:
  "\<exists>o0 r o'. sample_new = Inr o0 \<and> evaluate sample_env ''e1'' sample_proposal None all_flags o0 = Inr (r, o') \<and>
     lr_decision r = PASS"
proof -
  obtain o0 where o0: "sample_new = Inr o0" using sample_new_ok by blast
  then have e: "constraints o0 = []" "lineage o0 = []" using new_organism_fresh by (auto simp: sample_new_def)
  then have "evaluations o0 ''e1'' = []" "first_match (sorted_constraints o0) sample_proposal = Inr None"
    by (simp_all add: evaluations_def sorted_constraints_def)
  then obtain r o' where ev: "evaluate sample_env ''e1'' sample_proposal None all_flags o0 = Inr (r, o')"
    using sample_evaluation by blast
  from evaluation_decision [OF ev] show ?thesis
    using o0 ev by (auto simp: e sorted_constraints_def all_flags_def)
qed

lemma sample_run:
  "\<exists>o1. organism_run sample_env ''org'' (replicate 64 (CHR ''a'')) ''run'' ''secret'' [(''auth'', ''key'')] o1 \<and>
     length (lineage o1) = 1"
proof -
  obtain o0 where o0: "sample_new = Inr o0" using sample_new_ok by blast
  then have e: "constraints o0 = []" "lineage o0 = []" using new_organism_fresh by (auto simp: sample_new_def)
  then have "evaluations o0 ''e1'' = []" "first_match (sorted_constraints o0) sample_proposal = Inr None"
    by (simp_all add: evaluations_def sorted_constraints_def)
  then obtain r o' where ev: "evaluate sample_env ''e1'' sample_proposal None all_flags o0 = Inr (r, o')"
    using sample_evaluation by blast
  have "organism_step sample_env o0 o'"
    by (rule organism_step.evaluated [OF ev]) (simp_all add: sample_proposal_def)
  then have "organism_run sample_env ''org'' (replicate 64 (CHR ''a'')) ''run'' ''secret'' [(''auth'', ''key'')] o'"
    using o0 unfolding organism_run_def sample_new_def by blast
  moreover have "length (lineage o') = 1" using evaluate_effect(3) [OF ev] e by auto
  ultimately show ?thesis by blast
qed


theorem export_restores_witness:
  "\<exists>o1 o2. length (lineage o1) = 1 \<and>
     new_organism sample_env ''org'' (replicate 64 (CHR ''a'')) ''other'' ''secret'' [(''auth'', ''key'')]
       (Some (fst (export_state o1))) = Inr o2 \<and> fst (state_root o2) = fst (state_root o1)"
proof -
  obtain o1 where "organism_run sample_env ''org'' (replicate 64 (CHR ''a'')) ''run'' ''secret'' [(''auth'', ''key'')] o1"
    "length (lineage o1) = 1" using sample_run by blast
  then show ?thesis using export_restores [of sample_env _ _ _ _ _ o1 "''other''"] by blast
qed

definition sample_constraint :: inherited_constraint where
  "sample_constraint = \<lparr>constraint_id = ''c1'', ic_candidate_id = ''k'', ic_source_event_id = ''e0'',
     ic_source_receipt_hash = ''h'', ic_generator_id = ''gen'', authorizer_id = ''auth'',
     authorization_capability = AUTH_CAPABILITY, authorization_signature = ''s'',
     ic_match_json = canonical_json (JObj sample_proposal), ic_reason = ''unsafe'', authority_receipt = ''r''\<rparr>"


section \<open>What a grant does not cover\<close>

text \<open>
  A grant is a signature over the candidate's id, and \<open>authorize_constraint\<close> never computes
  that id again. So a grant for one candidate promotes any other content under the same id:
  another match (malformed JSON included), another reason, another generator.
\<close>

lemma grant_covers_any_content:
  assumes "authorize_constraint cand grant o1 = Inr (c, o')" and "gen \<noteq> gr_principal_id grant"
  shows "\<exists>c' o''. authorize_constraint (cand\<lparr>match_json := m, reason := w, generator_id := gen\<rparr>) grant o1 = Inr (c', o'') \<and>
    ic_match_json c' = m \<and> ic_reason c' = w"
  using assms
  by (auto simp: authorize_constraint_def Let_def promoted_constraint_def split: if_splits)

end
