(* ===== verification/Effects.thy ===== *)
theory Effects
  imports Prelude
begin

text \<open>
  Methods of mutable objects. A method that may raise after it has changed the object
  returns its result (or exception) together with the object as it is then: unlike a
  database transaction, a Python object keeps the changes made before a \<open>raise\<close>.
\<close>

named_theorems eff_simps \<open>evaluation of methods\<close>

type_synonym ('s, 'a) eff = "'s \<Rightarrow> 'a res \<times> 's"

definition eff_return :: "'a \<Rightarrow> ('s, 'a) eff" where
  "eff_return x s = (Inr x, s)"

definition eff_raise :: "exc \<Rightarrow> ('s, 'a) eff" where
  "eff_raise e s = (Inl e, s)"

definition eff_bind :: "('s, 'a) eff \<Rightarrow> ('a \<Rightarrow> ('s, 'b) eff) \<Rightarrow> ('s, 'b) eff" where
  "eff_bind m f s = (case m s of (Inl e, s') \<Rightarrow> (Inl e, s') | (Inr x, s') \<Rightarrow> f x s')"

definition eff_get :: "('s \<Rightarrow> 'a) \<Rightarrow> ('s, 'a) eff" where
  "eff_get f s = (Inr (f s), s)"

definition eff_modify :: "('s \<Rightarrow> 's) \<Rightarrow> ('s, unit) eff" where
  "eff_modify f s = (Inr (), f s)"

definition eff_lift :: "'a res \<Rightarrow> ('s, 'a) eff" where
  "eff_lift r s = (r, s)"

definition eff_when :: "bool \<Rightarrow> ('s, unit) eff \<Rightarrow> ('s, unit) eff" where
  "eff_when b m = (if b then m else eff_return ())"

text \<open>A \<open>for\<close> loop that collects what each turn returns.\<close>

fun eff_map :: "('a \<Rightarrow> ('s, 'b) eff) \<Rightarrow> 'a list \<Rightarrow> ('s, 'b list) eff" where
  "eff_map f [] = eff_return []"
| "eff_map f (x # xs) = eff_bind (f x) (\<lambda>y. eff_bind (eff_map f xs) (\<lambda>ys. eff_return (y # ys)))"

text \<open>A call of a method of a part of the object.\<close>

definition eff_part :: "('s \<Rightarrow> 'p) \<Rightarrow> ('p \<Rightarrow> 's \<Rightarrow> 's) \<Rightarrow> ('p, 'a) eff \<Rightarrow> ('s, 'a) eff" where
  "eff_part sel upd m s = (let (r, p) = m (sel s) in (r, upd p s))"

lemma eff_simps_basic [simp, eff_simps]:
  "eff_return x s = (Inr x, s)"
  "eff_raise e s = (Inl e, s)"
  "eff_get f s = (Inr (f s), s)"
  "eff_modify g s = (Inr (), g s)"
  "eff_lift r s = (r, s)"
  by (simp_all add: eff_return_def eff_raise_def eff_get_def eff_modify_def eff_lift_def)

lemma eff_bind_Inr [simp, eff_simps]: "m s = (Inr x, s') \<Longrightarrow> eff_bind m f s = f x s'"
  by (simp add: eff_bind_def)

lemma eff_bind_Inl [simp, eff_simps]: "m s = (Inl e, s') \<Longrightarrow> eff_bind m f s = (Inl e, s')"
  by (simp add: eff_bind_def)

lemma eff_bind_eq_Inr:
  "eff_bind m f s = (Inr y, s'') \<longleftrightarrow> (\<exists>x s'. m s = (Inr x, s') \<and> f x s' = (Inr y, s''))"
  by (auto simp: eff_bind_def split: prod.splits sum.splits)

lemma eff_bind_InrE [elim!]:
  assumes "eff_bind m f s = (Inr y, s'')"
  obtains x s' where "m s = (Inr x, s')" and "f x s' = (Inr y, s'')"
  using assms by (auto simp: eff_bind_eq_Inr)

text \<open>An invariant kept by both parts, whether or not they raise.\<close>

definition eff_keeps :: "('s \<Rightarrow> bool) \<Rightarrow> ('s, 'a) eff \<Rightarrow> bool" where
  "eff_keeps P m \<longleftrightarrow> (\<forall>s. P s \<longrightarrow> P (snd (m s)))"

named_theorems keeps_intros \<open>invariants of composed methods\<close>

lemma keeps_bind [keeps_intros]:
  "eff_keeps P m \<Longrightarrow> (\<And>x. eff_keeps P (f x)) \<Longrightarrow> eff_keeps P (eff_bind m f)"
  unfolding eff_keeps_def eff_bind_def by (auto split: prod.splits sum.splits)

lemma keeps_basic [keeps_intros]:
  "eff_keeps P (eff_return x)" "eff_keeps P (eff_raise e)" "eff_keeps P (eff_get f)" "eff_keeps P (eff_lift r)"
  by (simp_all add: eff_keeps_def)

lemma keeps_modify: "(\<And>s. P s \<Longrightarrow> P (f s)) \<Longrightarrow> eff_keeps P (eff_modify f)"
  by (simp add: eff_keeps_def)

lemma keeps_when [keeps_intros]: "eff_keeps P m \<Longrightarrow> eff_keeps P (eff_when b m)"
  by (simp add: eff_when_def keeps_basic)

lemma keeps_if [keeps_intros]: "eff_keeps P m \<Longrightarrow> eff_keeps P n \<Longrightarrow> eff_keeps P (if b then m else n)"
  by simp

lemma keeps_map [keeps_intros]: "(\<And>x. x \<in> set xs \<Longrightarrow> eff_keeps P (f x)) \<Longrightarrow> eff_keeps P (eff_map f xs)"
  by (induction xs) (auto intro!: keeps_bind keeps_basic)

lemma eff_keepsD: "eff_keeps P m \<Longrightarrow> P s \<Longrightarrow> m s = (r, s') \<Longrightarrow> P s'"
  by (auto simp: eff_keeps_def)

end
