(* ===== verification/Journal.thy ===== *)
theory Journal
  imports Evidence Effects
begin

text \<open>
  The durable event journal of \<open>app/physiology.py\<close> (class \<open>DurableEventJournal\<close>): an
  append-only table of events with idempotent ids, durable consumer offsets and a table of
  runtime state. The tables are lists in insertion order; \<open>time.time_ns()\<close> is an argument.
\<close>

definition SCHEMA_VERSION :: string where "SCHEMA_VERSION = ''matverse.physiology.v1''"

record event_row =
  ev_seq :: int
  ev_id :: string
  ev_topic :: string
  ev_type :: string
  ev_payload_json :: string
  ev_created_ns :: int
  ev_causation_id :: "string option"
  ev_correlation_id :: "string option"
  ev_receipt_hash :: string

record journal_event =
  je_row :: event_row
  je_payload :: json

record journal =
  events :: "event_row list"
  consumer_offsets :: "(string, int \<times> int) dict"
  runtime_state :: "(string, string \<times> int) dict"

definition empty_journal :: journal where
  "empty_journal = \<lparr>events = [], consumer_offsets = [], runtime_state = []\<rparr>"

definition validate_label :: "string \<Rightarrow> string \<Rightarrow> string res" where
  "validate_label v name =
     (if blank v then Inl (ValueError (name @ '' must be a non-empty string'')) else Inr (strip v))"

definition journal_core ::
  "string \<Rightarrow> string \<Rightarrow> string \<Rightarrow> jobj \<Rightarrow> int \<Rightarrow> string option \<Rightarrow> string option \<Rightarrow> jobj" where
  "journal_core eid topic etype payload created causation correlation =
     [(''schema'', JStr SCHEMA_VERSION), (''event_id'', JStr eid), (''topic'', JStr topic),
      (''event_type'', JStr etype), (''payload'', JObj payload), (''created_ns'', JInt created),
      (''causation_id'', jopt causation), (''correlation_id'', jopt correlation)]"

definition max_seq :: "journal \<Rightarrow> int" where
  "max_seq j = fold max (map ev_seq (events j)) 0"

definition find_event :: "journal \<Rightarrow> string \<Rightarrow> event_row option" where
  "find_event j eid = find (\<lambda>r. ev_id r = eid) (events j)"

definition row_to_event :: "event_row \<Rightarrow> journal_event res" where
  "row_to_event r = res_bind (json_loads (ev_payload_json r)) (\<lambda>p. Inr \<lparr>je_row = r, je_payload = p\<rparr>)"

text \<open>The row an id already has, if its content is the one given; the time of creation is not compared.\<close>

definition same_event ::
  "event_row \<Rightarrow> string \<Rightarrow> string \<Rightarrow> jobj \<Rightarrow> string option \<Rightarrow> string option \<Rightarrow> bool res" where
  "same_event row topic etype payload causation correlation =
     res_bind (json_loads (ev_payload_json row)) (\<lambda>existing. Inr
       (ev_topic row = topic \<and> ev_type row = etype \<and> py_eq existing (JObj payload) \<and>
        ev_causation_id row = causation \<and> ev_correlation_id row = correlation))"

text \<open>The transaction: an insert that breaks a key is rolled back, and the row of that id compared.\<close>

definition insert_event :: "event_row \<Rightarrow> jobj \<Rightarrow> (journal, journal_event) eff" where
  "insert_event row payload j =
     (if ev_id row \<notin> ev_id ` set (events j) \<and> ev_receipt_hash row \<notin> ev_receipt_hash ` set (events j)
      then (row_to_event row, j\<lparr>events := events j @ [row]\<rparr>)
      else (case find_event j (ev_id row) of
          None \<Rightarrow> (Inl (IntegrityError ''UNIQUE constraint failed: events.receipt_hash''), j)
        | Some old \<Rightarrow>
            (res_bind (same_event old (ev_topic row) (ev_type row) payload (ev_causation_id row) (ev_correlation_id row))
              (\<lambda>same. if same then row_to_event old
                       else Inl (ValueError ''event_id collision with different event content'')), j)))"

definition append ::
  "int \<Rightarrow> string \<Rightarrow> string \<Rightarrow> string \<Rightarrow> jobj \<Rightarrow> string option \<Rightarrow> string option \<Rightarrow> (journal, journal_event) eff" where
  "append created eid0 topic0 etype0 payload0 causation correlation =
     eff_bind (eff_lift (validate_label eid0 ''event_id'')) (\<lambda>eid.
     eff_bind (eff_lift (validate_label topic0 ''topic'')) (\<lambda>topic.
     eff_bind (eff_lift (validate_label etype0 ''event_type'')) (\<lambda>etype.
     eff_bind (eff_lift (raise_if (created < 0) (ValueError ''created_ns must be non-negative''))) (\<lambda>_.
     eff_bind (eff_get max_seq) (\<lambda>m.
     let payload = clone_obj payload0 in
     insert_event
       \<lparr>ev_seq = m + 1, ev_id = eid, ev_topic = topic, ev_type = etype,
        ev_payload_json = canonical_json (JObj payload), ev_created_ns = created,
        ev_causation_id = causation, ev_correlation_id = correlation,
        ev_receipt_hash = receipt_digest ''PHYSIOLOGY_EVENT''
          (journal_core eid topic etype payload created causation correlation) [(''accepted'', JBool True)]\<rparr>
       payload)))))"

definition read :: "journal \<Rightarrow> int \<Rightarrow> int \<Rightarrow> string option \<Rightarrow> journal_event list res" where
  "read j after limit topic =
     res_bind (raise_if (after < 0) (ValueError ''after_seq must be >= 0'')) (\<lambda>_.
     res_bind (raise_if (limit < 1 \<or> limit > 10000) (ValueError ''limit must be between 1 and 10000'')) (\<lambda>_.
     res_map row_to_event (take (nat limit) (sort_key ev_seq
       (filter (\<lambda>r. ev_seq r > after \<and> (topic = None \<or> topic = Some (ev_topic r))) (events j))))))"

definition consumer_offset :: "journal \<Rightarrow> string \<Rightarrow> int res" where
  "consumer_offset j cid0 =
     res_bind (validate_label cid0 ''consumer_id'') (\<lambda>cid.
     Inr (case map_of (consumer_offsets j) cid of None \<Rightarrow> 0 | Some (last_seq, t) \<Rightarrow> last_seq))"

definition consume :: "journal \<Rightarrow> string \<Rightarrow> int \<Rightarrow> string option \<Rightarrow> journal_event list res" where
  "consume j cid limit topic = res_bind (consumer_offset j cid) (\<lambda>after. read j after limit topic)"

definition ack :: "int \<Rightarrow> string \<Rightarrow> int \<Rightarrow> (journal, unit) eff" where
  "ack now cid0 s =
     eff_bind (eff_lift (validate_label cid0 ''consumer_id'')) (\<lambda>cid.
     eff_bind (eff_lift (raise_if (s < 0) (ValueError ''seq must be >= 0''))) (\<lambda>_.
     eff_bind (eff_get max_seq) (\<lambda>m.
     eff_bind (eff_lift (raise_if (s > m) (ValueError ''cannot ack a sequence that does not exist''))) (\<lambda>_.
     eff_bind (eff_get (\<lambda>j. consumer_offset j cid)) (\<lambda>cur.
     eff_bind (eff_lift cur) (\<lambda>current.
     eff_bind (eff_lift (raise_if (s < current) (ValueError ''consumer offsets are monotonic''))) (\<lambda>_.
     eff_modify (\<lambda>j. j\<lparr>consumer_offsets := dict_set (consumer_offsets j) cid (s, now)\<rparr>))))))))"

definition set_state :: "int \<Rightarrow> string \<Rightarrow> json \<Rightarrow> (journal, unit) eff" where
  "set_state now key0 v =
     eff_bind (eff_lift (validate_label key0 ''key'')) (\<lambda>key.
     eff_modify (\<lambda>j. j\<lparr>runtime_state := dict_set (runtime_state j) key (canonical_json v, now)\<rparr>))"

definition get_state :: "journal \<Rightarrow> string \<Rightarrow> json \<Rightarrow> json res" where
  "get_state j key0 dflt =
     res_bind (validate_label key0 ''key'') (\<lambda>key.
     case map_of (runtime_state j) key of None \<Rightarrow> Inr dflt | Some (v, t) \<Rightarrow> json_loads v)"

end
