(* ===== verification/Journal_Properties.thy ===== *)
theory Journal_Properties
  imports Journal
begin

text \<open>
  The laws of the journal: its invariant, append-only growth, idempotent ids, consumers that
  acknowledge what they read see every event in order, and the contract of a key-value
  store (locale \<open>state_store\<close>) that the journal's runtime state provides and that the
  physiology rests on when it is restarted.
\<close>

section \<open>The contract of a state store\<close>

locale state_store =
  fixes put :: "string \<Rightarrow> json \<Rightarrow> 's \<Rightarrow> 's"
    and get :: "'s \<Rightarrow> string \<Rightarrow> json \<Rightarrow> json res"
  assumes get_put: "\<not> blank k \<Longrightarrow> wf_json v \<Longrightarrow> get (put k v s) k d = Inr (sort_json v)"
    and get_put_other: "strip k \<noteq> strip k' \<Longrightarrow> get (put k v s) k' d = get s k' d"
begin

lemma last_write_wins: "\<not> blank k \<Longrightarrow> wf_json w \<Longrightarrow> get (put k w (put k v s)) k d = Inr (sort_json w)"
  by (rule get_put)

text \<open>What was put under a key survives writes under other keys.\<close>

lemma put_survives:
  assumes "\<not> blank k" and "wf_json v" and "\<forall>(k', w) \<in> set ws. strip k' \<noteq> strip k"
  shows "get (fold (\<lambda>(k', w). put k' w) ws (put k v s)) k d = Inr (sort_json v)"
proof -
  have "get (fold (\<lambda>(k', w). put k' w) ws s) k d = get s k d"
    if "\<forall>(k', w) \<in> set ws. strip k' \<noteq> strip k" for ws s
    using that by (induction ws arbitrary: s) (auto simp: get_put_other)
  then show ?thesis using assms by (simp add: get_put)
qed

end

definition put_state :: "int \<Rightarrow> string \<Rightarrow> json \<Rightarrow> journal \<Rightarrow> journal" where
  "put_state now k v j = snd (set_state now k v j)"

interpretation journal_store: state_store "put_state now" get_state
proof unfold_locales
  show "get_state (put_state now k v s) k d = Inr (sort_json v)" if "\<not> blank k" "wf_json v" for k v s d
    using that by (simp add: put_state_def set_state_def get_state_def validate_label_def eff_bind_def)
  show "get_state (put_state now k v s) k' d = get_state s k' d" if "strip k \<noteq> strip k'" for k k' v s d
    using that by (auto simp: put_state_def set_state_def get_state_def validate_label_def eff_bind_def res_bind_def
        split: sum.splits)
qed

section \<open>The invariant\<close>

definition event_ok :: "event_row \<Rightarrow> bool" where
  "event_ok r \<longleftrightarrow> (\<exists>p. wf_json (JObj p) \<and> ev_payload_json r = canonical_json (JObj p))"

definition journal_ok :: "journal \<Rightarrow> bool" where
  "journal_ok j \<longleftrightarrow> map ev_seq (events j) = map int [1..<Suc (length (events j))] \<and>
     distinct (map ev_id (events j)) \<and> distinct (map ev_receipt_hash (events j)) \<and>
     (\<forall>r \<in> set (events j). event_ok r) \<and>
     (\<forall>c s t. map_of (consumer_offsets j) c = Some (s, t) \<longrightarrow> 0 \<le> s \<and> s \<le> int (length (events j)))"

lemma empty_journal_ok: "journal_ok empty_journal"
  by (simp add: journal_ok_def empty_journal_def)

lemma fold_max_snoc: "fold max (xs @ [x :: int]) a = max x (fold max xs a)"
  by simp

lemma fold_max_seqs: "fold max (map int [1..<Suc n]) 0 = int n"
proof (induction n)
  case (Suc n)
  have "map int [1..<Suc (Suc n)] = map int [1..<Suc n] @ [int (Suc n)]" by simp
  then show ?case by (simp only: fold_max_snoc Suc.IH)
qed simp

lemma max_seq_ok: "journal_ok j \<Longrightarrow> max_seq j = int (length (events j))"
  using fold_max_seqs [of "length (events j)"] by (simp add: max_seq_def journal_ok_def del: upt_Suc)

lemma row_loads: "event_ok r \<Longrightarrow> \<exists>p. row_to_event r = Inr \<lparr>je_row = r, je_payload = p\<rparr>"
  by (auto simp: event_ok_def row_to_event_def)

lemma find_event_Some: "find_event j eid = Some r \<Longrightarrow> r \<in> set (events j) \<and> ev_id r = eid"
  by (auto simp: find_event_def find_Some_iff)

text \<open>What one append does when it does not raise before the transaction.\<close>

lemma appendE:
  assumes "append created eid topic etype payload ca co j = (r, j')"
  obtains (bad) e where "r = Inl e" "j' = j"
  | (ins) row where "row = \<lparr>ev_seq = max_seq j + 1, ev_id = strip eid, ev_topic = strip topic, ev_type = strip etype,
        ev_payload_json = canonical_json (JObj (clone_obj payload)), ev_created_ns = created,
        ev_causation_id = ca, ev_correlation_id = co, ev_receipt_hash = receipt_digest ''PHYSIOLOGY_EVENT''
          (journal_core (strip eid) (strip topic) (strip etype) (clone_obj payload) created ca co)
          [(''accepted'', JBool True)]\<rparr>"
      "\<not> blank eid" "\<not> blank topic" "\<not> blank etype" "0 \<le> created"
      "insert_event row (clone_obj payload) j = (r, j')"
proof (cases "blank eid \<or> blank topic \<or> blank etype \<or> created < 0")
  case True
  then show ?thesis using assms bad
    by (auto simp: append_def validate_label_def eff_bind_def raise_if_def split: if_splits)
next
  case False
  then show ?thesis using assms ins
    by (auto simp: append_def validate_label_def eff_bind_def raise_if_def Let_def)
qed

lemma insert_event_cases:
  assumes "insert_event row payload j = (r, j')"
  obtains (new) "ev_id row \<notin> ev_id ` set (events j)" "ev_receipt_hash row \<notin> ev_receipt_hash ` set (events j)"
      "j' = j\<lparr>events := events j @ [row]\<rparr>" "r = row_to_event row"
  | (old) old where "find_event j (ev_id row) = Some old" "j' = j"
      "r = res_bind (same_event old (ev_topic row) (ev_type row) payload (ev_causation_id row) (ev_correlation_id row))
              (\<lambda>same. if same then row_to_event old
                       else Inl (ValueError ''event_id collision with different event content''))"
  | (clash) "find_event j (ev_id row) = None" "j' = j"
      "r = Inl (IntegrityError ''UNIQUE constraint failed: events.receipt_hash'')"
proof (cases "ev_id row \<notin> ev_id ` set (events j) \<and> ev_receipt_hash row \<notin> ev_receipt_hash ` set (events j)")
  case True
  then show ?thesis using assms new by (simp add: insert_event_def)
next
  case False
  note eq = assms [unfolded insert_event_def if_not_P [OF False]]
  show ?thesis
  proof (cases "find_event j (ev_id row)")
    case None
    then show ?thesis using eq by (intro clash) simp_all
  next
    case (Some row')
    then show ?thesis using eq by (intro old [OF Some]) simp_all
  qed
qed

lemma row_to_event_row: "row_to_event row = Inr e \<Longrightarrow> je_row e = row"
  by (auto simp: row_to_event_def)

lemma append_events:
  assumes "append created eid topic etype payload ca co j = (r, j')"
  shows "j' = j \<or> (\<exists>row. j' = j\<lparr>events := events j @ [row]\<rparr>)"
  using assms by (cases rule: appendE) (auto elim!: insert_event_cases)

lemma append_keeps:
  assumes a: "append created eid topic etype payload ca co j = (r, j')" and ok: "journal_ok j"
    and wf: "wf_json (JObj payload)"
  shows "journal_ok j'"
  using a
proof (cases rule: appendE)
  case (ins row)
  from ins(6) show ?thesis
  proof (cases rule: insert_event_cases)
    case new
    have "event_ok row"
      unfolding event_ok_def ins(1) by (intro exI [of _ "clone_obj payload"]) (simp add: wf)
    moreover have "map ev_seq (events j @ [row]) = map int [1..<Suc (length (events j @ [row]))]"
      using ok max_seq_ok [OF ok] by (simp add: journal_ok_def ins(1))
    moreover have "0 \<le> s \<and> s \<le> int (length (events j @ [row]))"
      if "map_of (consumer_offsets j) c = Some (s, t)" for c s t
    proof -
      have "0 \<le> s \<and> s \<le> int (length (events j))" using ok that unfolding journal_ok_def by blast
      then show ?thesis by simp
    qed
    ultimately show ?thesis
      using ok new unfolding journal_ok_def by (simp del: upt_Suc)
  qed (use ok in auto)
qed (use ok in simp)

text \<open>A successful append leaves a row of that id, with the content given, in the journal.\<close>

definition holds_event ::
  "journal \<Rightarrow> journal_event \<Rightarrow> string \<Rightarrow> string \<Rightarrow> string \<Rightarrow> jobj \<Rightarrow> string option \<Rightarrow> string option \<Rightarrow> bool" where
  "holds_event j e eid topic etype payload ca co \<longleftrightarrow>
     je_row e \<in> set (events j) \<and> row_to_event (je_row e) = Inr e \<and> ev_id (je_row e) = strip eid \<and>
     same_event (je_row e) (strip topic) (strip etype) (clone_obj payload) ca co = Inr True"

lemma append_Inr:
  assumes a: "append created eid topic etype payload ca co j = (Inr e, j')" and wf: "wf_json (JObj payload)"
  shows "holds_event j' e eid topic etype payload ca co"
  using a
proof (cases rule: appendE)
  case (ins row)
  have loads: "json_loads (ev_payload_json row) = Inr (JObj (clone_obj payload))"
    using wf by (simp add: ins(1))
  from ins(6) show ?thesis
  proof (cases rule: insert_event_cases)
    case new
    then have e: "row_to_event row = Inr e" by simp
    then have row: "je_row e = row" by (rule row_to_event_row)
    have "same_event row (strip topic) (strip etype) (clone_obj payload) ca co = Inr True"
      unfolding same_event_def loads by (simp add: ins(1) py_eq_def)
    then show ?thesis using new e row by (simp add: holds_event_def) (simp add: ins(1))
  next
    case (old r)
    from old(3) [symmetric] have e: "row_to_event r = Inr e"
      "same_event r (strip topic) (strip etype) (clone_obj payload) ca co = Inr True"
      by (auto simp: ins(1) split: if_splits)
    then show ?thesis using find_event_Some [OF old(1)] old(2) row_to_event_row [OF e(1)]
      by (simp add: holds_event_def ins(1))
  qed simp
qed simp

lemma find_event_unique:
  assumes "journal_ok j" and "r \<in> set (events j)"
  shows "find_event j (ev_id r) = Some r"
proof -
  have "find (\<lambda>x. ev_id x = ev_id r) xs = Some r" if "distinct (map ev_id xs)" "r \<in> set xs" for xs
    using that by (induction xs) auto
  then show ?thesis using assms by (simp add: find_event_def journal_ok_def)
qed

lemma append_again:
  assumes ok: "journal_ok j" and h: "holds_event j e eid topic etype payload ca co"
    and lab: "\<not> blank eid" "\<not> blank topic" "\<not> blank etype" "0 \<le> created"
  shows "append created eid topic etype payload ca co j = (Inr e, j)"
proof -
  have "find_event j (strip eid) = Some (je_row e)"
    using find_event_unique [OF ok, of "je_row e"] h by (simp add: holds_event_def)
  moreover have "strip eid \<in> ev_id ` set (events j)" using h by (force simp: holds_event_def)
  ultimately show ?thesis
    using lab h by (simp add: append_def validate_label_def eff_bind_def raise_if_def Let_def insert_event_def holds_event_def)
qed

section \<open>Growth and idempotence\<close>

text \<open>Journals that a program can reach from an empty one by the writing methods.\<close>

inductive journal_step :: "journal \<Rightarrow> journal \<Rightarrow> bool" where
  appended: "wf_json (JObj payload) \<Longrightarrow> append created eid topic etype payload ca co j = (r, j') \<Longrightarrow> journal_step j j'"
| acked: "ack now cid s j = (r, j') \<Longrightarrow> journal_step j j'"
| stored: "set_state now key v j = (r, j') \<Longrightarrow> journal_step j j'"

inductive_cases journal_stepE: "journal_step j j'"

lemma eff_lift_raise_if [simp]: "eff_lift (raise_if b e) s = (if b then Inl e else Inr (), s)"
  by (simp add: raise_if_def)

lemma ackE:
  assumes "ack now cid s j = (r, j')"
  obtains (bad) "j' = j" "\<And>u. r \<noteq> Inr u"
  | (ok) current where "r = Inr ()" "\<not> blank cid" "consumer_offset j cid = Inr current" "0 \<le> s" "current \<le> s" "s \<le> max_seq j"
      "j' = j\<lparr>consumer_offsets := dict_set (consumer_offsets j) (strip cid) (s, now)\<rparr>"
proof (cases "blank cid")
  case True
  then show ?thesis using assms bad by (auto simp: ack_def validate_label_def eff_bind_def)
next
  case False
  have off: "consumer_offset j (strip cid) = consumer_offset j cid"
    using False by (simp add: consumer_offset_def validate_label_def strip_idem)
  obtain current where c: "consumer_offset j cid = Inr current"
    using False by (simp add: consumer_offset_def validate_label_def)
  have "(r, j') = (if s < 0 then (Inl (ValueError ''seq must be >= 0''), j)
      else if s > max_seq j then (Inl (ValueError ''cannot ack a sequence that does not exist''), j)
      else if s < current then (Inl (ValueError ''consumer offsets are monotonic''), j)
      else (Inr (), j\<lparr>consumer_offsets := dict_set (consumer_offsets j) (strip cid) (s, now)\<rparr>))"
    by (cases "s < 0"; cases "max_seq j < s"; cases "s < current")
      (use assms False in \<open>simp_all add: ack_def validate_label_def eff_bind_def off c\<close>)
  then show ?thesis using bad ok [OF _ False c] by (auto split: if_splits)
qed

lemma set_state_effect:
  "set_state now key v j = (r, j') \<Longrightarrow>
     events j' = events j \<and> consumer_offsets j' = consumer_offsets j"
  by (auto simp: set_state_def eff_bind_def validate_label_def split: if_splits)

lemma journal_step_keeps: "journal_step j j' \<Longrightarrow> journal_ok j \<Longrightarrow> journal_ok j'"
proof (induction rule: journal_step.induct)
  case (appended payload created eid topic etype ca co j r j')
  then show ?case by (blast intro: append_keeps)
next
  case (acked now cid s j r j')
  from acked(1) show ?case
  proof (cases rule: ackE)
    case (ok current)
    then have "0 \<le> s \<and> s \<le> int (length (events j))" using max_seq_ok [OF acked(2)] by simp
    moreover have "0 \<le> s' \<and> s' \<le> int (length (events j))"
      if "map_of (consumer_offsets j) c = Some (s', t)" for c s' t
      using acked(2) that unfolding journal_ok_def by blast
    ultimately show ?thesis using acked(2) unfolding journal_ok_def ok by (simp del: upt_Suc)
  qed (use acked in simp)
next
  case (stored now key v j r j')
  then show ?case using set_state_effect [OF stored(1)] by (simp add: journal_ok_def)
qed

definition journal_reachable :: "journal \<Rightarrow> bool" where
  "journal_reachable j = journal_step\<^sup>*\<^sup>* empty_journal j"

lemma journal_reachable_ok: "journal_reachable j \<Longrightarrow> journal_ok j"
  unfolding journal_reachable_def
  by (induction rule: rtranclp_induct) (auto simp: empty_journal_ok journal_step_keeps)

lemma journal_step_events: "journal_step j j' \<Longrightarrow> \<exists>new. events j' = events j @ new"
proof (induction rule: journal_step.induct)
  case (appended payload created eid topic etype ca co j r j')
  then show ?case using append_events [OF appended(2)] by auto
next
  case (acked now cid s j r j')
  then show ?case by (cases rule: ackE) auto
next
  case (stored now key v j r j')
  then show ?case using set_state_effect by auto
qed

lemma journal_steps_events: "journal_step\<^sup>*\<^sup>* j j' \<Longrightarrow> \<exists>new. events j' = events j @ new"
  by (induction rule: rtranclp_induct) (auto dest: journal_step_events)

text \<open>C16: Appends are idempotent. Once \<open>append\<close> has returned an event, a repetition with the same
  id, topic, type, payload and causes, at any time and after any further writes, returns the same
  event with the sequence number, time and receipt it got first, and changes nothing.\<close>

theorem append_idempotent:
  assumes "journal_ok j" and "wf_json (JObj payload)"
    and "append created eid topic etype payload ca co j = (Inr e, j1)"
    and "journal_step\<^sup>*\<^sup>* j1 j2" and "0 \<le> created'"
  shows "append created' eid topic etype payload ca co j2 = (Inr e, j2)"
proof -
  have j1: "journal_ok j1" using append_keeps [OF assms(3,1,2)] .
  have h: "holds_event j1 e eid topic etype payload ca co" by (rule append_Inr [OF assms(3,2)])
  have lab: "\<not> blank eid" "\<not> blank topic" "\<not> blank etype"
    using assms(3) by (auto elim!: appendE)
  have j2: "journal_ok j2"
    using assms(4) j1 by (induction rule: rtranclp_induct) (auto simp: journal_step_keeps)
  have "holds_event j2 e eid topic etype payload ca co"
    using h journal_steps_events [OF assms(4)] by (auto simp: holds_event_def)
  then show ?thesis by (rule append_again [OF j2 _ lab assms(5)])
qed

definition note_payload :: jobj where "note_payload = [(''b'', JInt 2), (''a'', JBool True)]"

definition note_journal :: "journal_event res \<times> journal" where
  "note_journal = append 5 '' n1 '' ''notes'' ''NOTE'' note_payload None None empty_journal"

lemma note_appended: "\<exists>e j1. note_journal = (Inr e, j1) \<and> ev_seq (je_row e) = 1 \<and> length (events j1) = 1"
proof -
  have "json_loads (canonical_json (JObj (clone_obj note_payload))) = Inr (JObj (clone_obj note_payload))"
    by (simp add: note_payload_def)
  moreover have "\<not> blank '' n1 ''" "\<not> blank ''notes''" "\<not> blank ''NOTE''" by code_simp+
  ultimately show ?thesis
    by (simp add: note_journal_def append_def validate_label_def eff_bind_def raise_if_def Let_def insert_event_def
        empty_journal_def max_seq_def row_to_event_def)
qed

theorem append_idempotent_witness:
  "\<exists>e j1. note_journal = (Inr e, j1) \<and> append 9 '' n1 '' ''notes'' ''NOTE'' note_payload None None j1 = (Inr e, j1)"
proof -
  obtain e j1 where n: "note_journal = (Inr e, j1)" using note_appended by blast
  have "wf_json (JObj note_payload)" by (simp add: note_payload_def)
  then have "append 9 '' n1 '' ''notes'' ''NOTE'' note_payload None None j1 = (Inr e, j1)"
    by (rule append_idempotent [OF empty_journal_ok _ n [unfolded note_journal_def] rtranclp.rtrancl_refl]) simp
  then show ?thesis using n by blast
qed

section \<open>Consumers\<close>

lemma filter_seqs:
  assumes "map ev_seq es = map int [Suc a..<Suc b]" and "a \<le> k"
  shows "filter (\<lambda>r. int k < ev_seq r) es = drop (k - a) es"
  using assms
proof (induction es arbitrary: a)
  case (Cons e es)
  then have "a < b" by (metis Suc_leI list.distinct(1) list.simps(8,9) not_less_eq upt_conv_Nil upt_eq_Nil_conv)
  then have "map int [Suc a..<Suc b] = int (Suc a) # map int [Suc (Suc a)..<Suc b]" by (simp add: upt_conv_Cons)
  then have e: "ev_seq e = int (Suc a)" and es: "map ev_seq es = map int [Suc (Suc a)..<Suc b]"
    using Cons.prems(1) by auto
  show ?case
  proof (cases "a = k")
    case True
    have "int k < ev_seq r" if "r \<in> set es" for r
    proof -
      have "ev_seq r \<in> set (map int [Suc (Suc a)..<Suc b])" using that es by (metis imageI set_map)
      then show ?thesis using True by auto
    qed
    then show ?thesis using True e by simp
  next
    case False
    then have "filter (\<lambda>r. int k < ev_seq r) es = drop (k - Suc a) es"
      using es Cons.prems(2) by (intro Cons.IH) auto
    then show ?thesis using False e Cons.prems(2) by (simp add: Suc_diff_le [symmetric] drop_Cons')
  qed
qed simp

lemma sorted_seqs: "map ev_seq es = map int [a..<b] \<Longrightarrow> sorted (map ev_seq (drop k es))"
  by (simp add: drop_map [symmetric] sorted_map_mono mono_onI)

lemma read_ok:
  assumes "journal_ok j" and "0 < limit" and "limit \<le> 10000"
  shows "read j (int k) (int limit) None = res_map row_to_event (take limit (drop k (events j)))"
proof -
  have seqs: "map ev_seq (events j) = map int [Suc 0..<Suc (length (events j))]"
    using assms(1) by (simp add: journal_ok_def del: upt_Suc)
  have "filter (\<lambda>r. int k < ev_seq r) (events j) = drop k (events j)"
    using filter_seqs [OF seqs, of k] by simp
  moreover have "sort_key ev_seq (drop k (events j)) = drop k (events j)"
    using sorted_seqs [OF seqs] by (rule sort_key_id_if_sorted)
  ultimately show ?thesis using assms(2,3) by (simp add: read_def)
qed

lemma read_rows:
  assumes "\<forall>r \<in> set rs. event_ok r"
  shows "\<exists>es. res_map row_to_event rs = Inr es \<and> map je_row es = rs"
  using assms by (induction rs) (auto dest!: row_loads)

text \<open>A consumer that reads batches and acknowledges the last event of each.\<close>

fun drain :: "nat \<Rightarrow> string \<Rightarrow> nat \<Rightarrow> journal \<Rightarrow> journal_event list res \<times> journal" where
  "drain 0 cid limit j = (Inr [], j)"
| "drain (Suc n) cid limit j = (case consume j cid (int limit) None of
      Inl e \<Rightarrow> (Inl e, j)
    | Inr [] \<Rightarrow> (Inr [], j)
    | Inr es \<Rightarrow> (case ack 0 cid (ev_seq (je_row (last es))) j of
          (Inl e, j') \<Rightarrow> (Inl e, j')
        | (Inr u, j') \<Rightarrow> (case drain n cid limit j' of
              (Inl e, j'') \<Rightarrow> (Inl e, j'')
            | (Inr rest, j'') \<Rightarrow> (Inr (es @ rest), j''))))"

lemma seq_of_nth:
  assumes "journal_ok j" and "i < length (events j)"
  shows "ev_seq (events j ! i) = int i + 1"
proof -
  have "map ev_seq (events j) ! i = map int [1..<Suc (length (events j))] ! i"
    using assms(1) by (simp add: journal_ok_def del: upt_Suc)
  then show ?thesis using assms(2) by (simp del: upt_Suc)
qed

lemma drain_reads:
  assumes "journal_ok j" and "0 < limit" and "limit \<le> 10000" and "\<not> blank cid"
    and "consumer_offset j cid = Inr (int k)" and "k \<le> length (events j)"
  shows "\<exists>es j'. drain n cid limit j = (Inr es, j') \<and> map je_row es = take (n * limit) (drop k (events j)) \<and>
    events j' = events j \<and> consumer_offset j' cid = Inr (int (min (k + n * limit) (length (events j))))"
  using assms
proof (induction n arbitrary: j k)
  case (Suc n)
  let ?rows = "take limit (drop k (events j))"
  have "\<forall>r \<in> set ?rows. event_ok r"
    using Suc.prems(1) by (auto simp: journal_ok_def dest!: in_set_takeD in_set_dropD)
  then obtain es where es: "res_map row_to_event ?rows = Inr es" "map je_row es = ?rows"
    using read_rows by blast
  have con: "consume j cid (int limit) None = Inr es"
    using read_ok [OF Suc.prems(1-3)] es(1) Suc.prems(5) by (simp add: consume_def)
  show ?case
  proof (cases "k = length (events j)")
    case True
    then have "es = []" using es(2) by simp
    then show ?thesis using con Suc.prems(5) True by simp
  next
    case False
    then have lt: "k < length (events j)" using Suc.prems(6) by simp
    define m where "m = min (k + limit) (length (events j))"
    have len: "length es = m - k" "k < m" "m \<le> length (events j)"
      using es(2) lt Suc.prems(2) by (auto simp: m_def dest: arg_cong [of _ _ length])
    then have ne: "es \<noteq> []" by auto
    have "je_row (last es) = last ?rows" using es(2) ne by (metis last_map)
    also have "\<dots> = events j ! (m - 1)"
    proof -
      have "?rows \<noteq> []" using es(2) ne by (metis list.map_disc_iff)
      then have "last ?rows = ?rows ! (length ?rows - 1)" by (rule last_conv_nth)
      moreover have "length ?rows = m - k" by (auto simp: m_def min_def)
      moreover have "?rows ! (m - k - 1) = events j ! (k + (m - k - 1))"
        using len lt Suc.prems(2) by (subst nth_take) (auto simp: m_def)
      moreover have "k + (m - k - 1) = m - 1" using len(2) by simp
      ultimately show ?thesis by simp
    qed
    finally have seq: "ev_seq (je_row (last es)) = int m"
      using seq_of_nth [OF Suc.prems(1), of "m - 1"] len by simp
    define j1 where "j1 = j\<lparr>consumer_offsets := dict_set (consumer_offsets j) (strip cid) (int m, 0)\<rparr>"
    have off: "consumer_offset j (strip cid) = Inr (int k)"
      using Suc.prems(4,5) by (simp add: consumer_offset_def validate_label_def strip_idem)
    have a: "ack 0 cid (int m) j = (Inr (), j1)"
      using Suc.prems(4) len max_seq_ok [OF Suc.prems(1)]
      by (simp add: ack_def validate_label_def eff_bind_def off j1_def)
    have "journal_ok j1" by (rule journal_step_keeps [OF journal_step.acked [OF a] Suc.prems(1)])
    moreover have "consumer_offset j1 cid = Inr (int m)"
      using Suc.prems(4) by (simp add: consumer_offset_def validate_label_def j1_def)
    moreover have "events j1 = events j" by (simp add: j1_def)
    ultimately obtain rest j' where r: "drain n cid limit j1 = (Inr rest, j')"
      "map je_row rest = take (n * limit) (drop m (events j))" "events j' = events j"
      "consumer_offset j' cid = Inr (int (min (m + n * limit) (length (events j))))"
      using Suc.IH [of j1 m] Suc.prems(2-4) len by auto
    have "drain (Suc n) cid limit j = (Inr (es @ rest), j')"
      using con ne seq a r(1) by (cases es) simp_all
    moreover have "map je_row (es @ rest) = take (Suc n * limit) (drop k (events j))"
    proof (cases "k + limit \<le> length (events j)")
      case True
      then show ?thesis using es(2) r(2) by (simp add: m_def take_add add.commute min_def)
    next
      case False
      then show ?thesis using es(2) r(2) by (simp add: m_def min_def)
    qed
    moreover have "min (m + n * limit) (length (events j)) = min (k + Suc n * limit) (length (events j))"
      by (simp add: m_def min_def)
    ultimately show ?thesis using r(3,4) by metis
  qed
qed simp

text \<open>C17: A consumer that reads batches and acknowledges the last event of each batch sees every event
  after its offset exactly once and in the order of the journal: in n rounds of at most \<open>limit\<close>
  events it reads the next n * limit events, and its offset ends behind the last one it read.\<close>

theorem consumer_sees_every_event:
  assumes "journal_ok j" and "0 < limit" and "limit \<le> 10000" and "\<not> blank cid"
    and "consumer_offset j cid = Inr (int k)" and "k \<le> length (events j)"
  shows "\<exists>es j'. drain n cid limit j = (Inr es, j') \<and> map je_row es = take (n * limit) (drop k (events j)) \<and>
    events j' = events j \<and> consumer_offset j' cid = Inr (int (min (k + n * limit) (length (events j))))"
  using assms by (rule drain_reads)

theorem consumer_sees_every_event_witness:
  "\<exists>e j1 es j2. note_journal = (Inr e, j1) \<and> drain 3 ''c'' 2 j1 = (Inr es, j2) \<and> map je_row es = events j1 \<and>
     consumer_offset j2 ''c'' = Inr 1"
proof -
  obtain e j1 where n: "note_journal = (Inr e, j1)" and len: "length (events j1) = 1" using note_appended by blast
  have "wf_json (JObj note_payload)" by (simp add: note_payload_def)
  then have ok: "journal_ok j1" using append_keeps [OF n [unfolded note_journal_def] empty_journal_ok] by blast
  have "consumer_offsets j1 = []"
    using append_events [OF n [unfolded note_journal_def]] by (auto simp: empty_journal_def)
  moreover have b: "\<not> blank ''c''" by code_simp
  ultimately have "consumer_offset j1 ''c'' = Inr (int 0)"
    by (simp add: consumer_offset_def validate_label_def)
  from consumer_sees_every_event [OF ok _ _ b this, of 2 3] show ?thesis
    using n len by auto
qed

text \<open>Offsets of consumers only grow, are at most the last sequence number, and no write moves or
  alters an event.\<close>

theorem journal_monotone:
  assumes "journal_ok j" and "journal_step j j'"
  shows "(\<exists>new. events j' = events j @ new) \<and>
    (\<forall>cid k. consumer_offset j cid = Inr k \<longrightarrow>
       (\<exists>k'. consumer_offset j' cid = Inr k' \<and> k \<le> k' \<and> k' \<le> max_seq j'))"
proof -
  have ok': "journal_ok j'" using journal_step_keeps [OF assms(2,1)] .
  have bound: "k' \<le> max_seq j'" if "consumer_offset j' cid = Inr k'" for cid k'
    using that ok' max_seq_ok [OF ok']
    by (fastforce simp: consumer_offset_def validate_label_def journal_ok_def split: option.splits if_splits)
  have "\<exists>k'. consumer_offset j' cid = Inr k' \<and> k \<le> k'" if "consumer_offset j cid = Inr k" for cid k
    using assms(2)
  proof (cases rule: journal_step.cases)
    case (appended payload created eid topic etype ca co r)
    then show ?thesis using that append_events [OF appended(2)] by (auto simp: consumer_offset_def)
  next
    case (acked now c s r)
    from acked show ?thesis
    proof (cases rule: ackE)
      case (ok current)
      show ?thesis
      proof (cases "strip cid = strip c")
        case True
        then have "current = k" using that ok(3) by (auto simp: consumer_offset_def validate_label_def split: if_splits)
        then show ?thesis using that True ok(5,7) by (auto simp: consumer_offset_def validate_label_def split: if_splits)
      next
        case False
        then show ?thesis using that ok(7) by (auto simp: consumer_offset_def validate_label_def split: if_splits)
      qed
    qed (use that in auto)
  next
    case (stored now key v r)
    then show ?thesis using that set_state_effect [OF stored] by (auto simp: consumer_offset_def)
  qed
  then show ?thesis using bound journal_step_events [OF assms(2)] by blast
qed

theorem journal_monotone_witness: "\<exists>new. events (snd note_journal) = events empty_journal @ new"
proof -
  have "journal_step empty_journal (snd note_journal)"
    by (rule journal_step.appended [where payload = note_payload])
      (simp add: note_payload_def, simp add: note_journal_def prod_eq_iff)
  from journal_monotone [OF empty_journal_ok this] show ?thesis by blast
qed

end
