(* ===== verification/Physiology.thy ===== *)
theory Physiology
  imports Complex_Main Python_Int Journal_Properties Organism_Properties
begin

text \<open>
  \<open>app/physiology.py\<close>, classes \<open>HomeostaticPolicy\<close>, \<open>HomeostaticController\<close> and
  \<open>PhysiologyEngine\<close>: one cycle senses the host, assesses its health, plans a recovery,
  lets the organism decide on a proposal unless safe mode holds it, executes what passed,
  and commits what happened to the journal. Readings of the host (telemetry, SQLite's
  integrity check, the clock), the executor and the division of floating-point numbers are
  inputs of a cycle. Thresholds and quotients are the rational values of doubles.
\<close>

datatype health_state = NORMAL | DEGRADED | CRITICAL | RECOVERING | SAFE_MODE

fun health_value :: "health_state \<Rightarrow> string" where
  "health_value NORMAL = ''NORMAL''"
| "health_value DEGRADED = ''DEGRADED''"
| "health_value CRITICAL = ''CRITICAL''"
| "health_value RECOVERING = ''RECOVERING''"
| "health_value SAFE_MODE = ''SAFE_MODE''"

datatype recovery_action = NONE | THROTTLE | ENTER_SAFE_MODE | EXIT_SAFE_MODE

fun action_value :: "recovery_action \<Rightarrow> string" where
  "action_value NONE = ''NONE''"
| "action_value THROTTLE = ''THROTTLE''"
| "action_value ENTER_SAFE_MODE = ''ENTER_SAFE_MODE''"
| "action_value EXIT_SAFE_MODE = ''EXIT_SAFE_MODE''"

record telemetry_sample =
  monotonic_ns :: int
  process_time_ns :: int
  disk_total_bytes :: int
  disk_used_bytes :: int
  disk_free_bytes :: int
  rss_bytes :: "int option"
  load_1m :: "string option"
  instruments :: "(string, string) dict"

text \<open>\<open>float_div a b\<close> is the double Python's \<open>a / b\<close> gives.\<close>

definition disk_free_ratio :: "(int \<Rightarrow> int \<Rightarrow> rat) \<Rightarrow> telemetry_sample \<Rightarrow> rat" where
  "disk_free_ratio float_div s =
     (if disk_total_bytes s \<le> 0 then 0 else float_div (disk_free_bytes s) (disk_total_bytes s))"

record homeostatic_policy =
  min_disk_free_ratio :: rat
  max_rss_bytes :: "int option"
  degraded_disk_free_ratio :: rat
  normal_streak_to_exit :: int

definition check_policy :: "homeostatic_policy \<Rightarrow> homeostatic_policy res" where
  "check_policy p =
     res_bind (raise_if (\<not> (0 \<le> min_disk_free_ratio p \<and> min_disk_free_ratio p < degraded_disk_free_ratio p \<and>
                             degraded_disk_free_ratio p \<le> 1))
                (ValueError ''disk thresholds must satisfy 0 <= critical < degraded <= 1'')) (\<lambda>_.
     res_bind (raise_if (case max_rss_bytes p of None \<Rightarrow> False | Some m \<Rightarrow> m \<le> 0)
                (ValueError ''max_rss_bytes must be positive when configured'')) (\<lambda>_.
     res_bind (raise_if (normal_streak_to_exit p < 1)
                (ValueError ''normal_streak_to_exit_safe_mode must be >= 1'')) (\<lambda>_. Inr p)))"

record health_assessment =
  as_state :: health_state
  as_reasons :: "string list"

definition assess :: "(int \<Rightarrow> int \<Rightarrow> rat) \<Rightarrow> homeostatic_policy \<Rightarrow> telemetry_sample \<Rightarrow> bool \<Rightarrow> health_assessment" where
  "assess float_div policy s journal_integrity =
    (let ratio = disk_free_ratio float_div s;
         rss_high = (case (max_rss_bytes policy, rss_bytes s) of (Some m, Some r) \<Rightarrow> r > m | _ \<Rightarrow> False);
         critical = (if \<not> journal_integrity then [''journal_integrity_failure''] else []) @
           (if ratio < min_disk_free_ratio policy then [''disk_free_below_critical''] else []) @
           (if rss_high then [''rss_above_configured_limit''] else []);
         degraded = (if \<not> ratio < min_disk_free_ratio policy \<and> ratio < degraded_disk_free_ratio policy
                     then [''disk_free_below_degraded''] else [])
     in if critical \<noteq> [] then \<lparr>as_state = CRITICAL, as_reasons = critical\<rparr>
        else if degraded \<noteq> [] then \<lparr>as_state = DEGRADED, as_reasons = degraded\<rparr>
        else \<lparr>as_state = NORMAL, as_reasons = []\<rparr>)"

section \<open>Runtime state and recovery\<close>

record runtime =
  cycle_seq :: int
  safe_mode :: bool
  normal_streak :: int
  throttled :: bool

definition runtime_json :: "runtime \<Rightarrow> json" where
  "runtime_json r = JObj [(''cycle_seq'', JInt (cycle_seq r)), (''safe_mode'', JBool (safe_mode r)),
     (''normal_streak'', JInt (normal_streak r)), (''throttled'', JBool (throttled r))]"

definition initial_runtime :: runtime where
  "initial_runtime = \<lparr>cycle_seq = 0, safe_mode = False, normal_streak = 0, throttled = False\<rparr>"

text \<open>\<open>int(value)\<close>; the integral part of a float comes from the function \<open>trunc\<close>.\<close>

definition json_int :: "(string \<Rightarrow> int res) \<Rightarrow> json \<Rightarrow> int res" where
  "json_int trunc v = (case v of
      JInt i \<Rightarrow> Inr i
    | JBool b \<Rightarrow> Inr (if b then 1 else 0)
    | JFloat t \<Rightarrow> trunc t
    | JStr s \<Rightarrow> (case py_int 10 s of None \<Rightarrow> Inl (ValueError ''invalid literal for int()'') | Some i \<Rightarrow> Inr i)
    | _ \<Rightarrow> Inl (TypeError ''int() argument''))"

definition get_default :: "jobj \<Rightarrow> string \<Rightarrow> json \<Rightarrow> json" where
  "get_default d k v = (case map_of d k of None \<Rightarrow> v | Some w \<Rightarrow> w)"

definition validate_runtime_state :: "(string \<Rightarrow> int res) \<Rightarrow> json \<Rightarrow> runtime res" where
  "validate_runtime_state trunc v = (case v of
      JObj d \<Rightarrow>
        res_bind (json_int trunc (get_default d ''cycle_seq'' (JInt 0))) (\<lambda>c.
        res_bind (json_int trunc (get_default d ''normal_streak'' (JInt 0))) (\<lambda>n.
        res_bind (raise_if (c < 0 \<or> n < 0) (ValueError ''invalid physiology counters'')) (\<lambda>_.
        Inr \<lparr>cycle_seq = c, safe_mode = truthy (get_default d ''safe_mode'' (JBool False)), normal_streak = n,
             throttled = truthy (get_default d ''throttled'' (JBool False))\<rparr>)))
    | _ \<Rightarrow> Inl (ValueError ''invalid physiology runtime state''))"

definition plan_recovery :: "homeostatic_policy \<Rightarrow> health_state \<Rightarrow> runtime \<Rightarrow> recovery_action \<times> runtime" where
  "plan_recovery policy health r =
    (if health = CRITICAL then (ENTER_SAFE_MODE, r\<lparr>safe_mode := True, throttled := True, normal_streak := 0\<rparr>)
     else if health = DEGRADED then (THROTTLE, r\<lparr>throttled := True, normal_streak := 0\<rparr>)
     else let r1 = r\<lparr>normal_streak := normal_streak r + 1\<rparr> in
       if safe_mode r1 then
         (if normal_streak r1 \<ge> normal_streak_to_exit policy
          then (EXIT_SAFE_MODE, r1\<lparr>safe_mode := False, throttled := False\<rparr>)
          else (NONE, r1))
       else (NONE, r1\<lparr>throttled := False\<rparr>))"

section \<open>The engine\<close>

record engine =
  e_organism :: organism
  e_journal :: journal
  e_policy :: homeostatic_policy
  e_runtime :: runtime

definition state_key :: "organism \<Rightarrow> string" where
  "state_key o1 = ''physiology:'' @ organism_id o1"

definition new_engine ::
  "(string \<Rightarrow> int res) \<Rightarrow> organism \<Rightarrow> journal \<Rightarrow> homeostatic_policy \<Rightarrow> engine res" where
  "new_engine trunc o1 j policy =
     res_bind (get_state j (state_key o1) (runtime_json initial_runtime)) (\<lambda>persisted.
     res_bind (validate_runtime_state trunc persisted) (\<lambda>r.
     Inr \<lparr>e_organism = o1, e_journal = j, e_policy = policy, e_runtime = r\<rparr>))"

text \<open>What an executor does with a proposal: a result, an exception, or a value of another type.\<close>

datatype exec_outcome = Executed string jobj | Failed string string | NotAResult

text \<open>
  The readings of one cycle. The clock is read at each write to the journal: at an event
  under its type, at the two writes of the runtime state under \<open>state1\<close> and \<open>state2\<close>.
\<close>

record cycle_env =
  ce_guards :: guard_env
  ce_clock :: "string \<Rightarrow> int"
  ce_sample :: telemetry_sample
  ce_journal_ok :: bool
  ce_float_div :: "int \<Rightarrow> int \<Rightarrow> rat"
  ce_executor :: "(jobj \<Rightarrow> exec_outcome) option"

record cycle_input =
  ci_proposal :: "jobj option"
  ci_human :: "jobj option"
  ci_flags :: gate_flags

record cycle_result =
  cr_cycle_id :: string
  cr_cycle_seq :: int
  cr_health :: health_state
  cr_recovery_action :: recovery_action
  cr_decision :: "decision option"
  cr_executed :: bool
  cr_state_root :: string
  cr_receipt_hash :: string

definition on_organism :: "(organism, 'a) eff \<Rightarrow> (engine, 'a) eff" where
  "on_organism m = eff_part e_organism (\<lambda>o1 e. e\<lparr>e_organism := o1\<rparr>) m"

definition on_journal :: "(journal, 'a) eff \<Rightarrow> (engine, 'a) eff" where
  "on_journal m = eff_part e_journal (\<lambda>j e. e\<lparr>e_journal := j\<rparr>) m"

definition root_eff :: "(organism, string) eff" where
  "root_eff o1 = (let (r, o2) = state_root o1 in (Inr r, o2))"

definition evaluate_eff :: "guard_env \<Rightarrow> string \<Rightarrow> jobj \<Rightarrow> jobj option \<Rightarrow> gate_flags \<Rightarrow> (organism, loop_result) eff" where
  "evaluate_eff env eid p h f o1 = (case evaluate env eid p h f o1 of Inl e \<Rightarrow> (Inl e, o1) | Inr (r, o2) \<Rightarrow> (Inr r, o2))"

definition record_event ::
  "cycle_env \<Rightarrow> string \<Rightarrow> string \<Rightarrow> string \<Rightarrow> jobj \<Rightarrow> string option \<Rightarrow> (engine, string) eff" where
  "record_event env cid suffix etype payload causation =
     eff_bind (on_journal (append (ce_clock env etype) (cid @ suffix) ''physiology'' etype payload causation (Some cid)))
       (\<lambda>e. eff_return (ev_id (je_row e)))"

definition persist_runtime_state :: "int \<Rightarrow> (engine, unit) eff" where
  "persist_runtime_state now =
     eff_bind (eff_get (\<lambda>e. (state_key (e_organism e), runtime_json (e_runtime e)))) (\<lambda>(k, v).
     on_journal (set_state now k v))"

definition telemetry_json :: "telemetry_sample \<Rightarrow> json" where
  "telemetry_json s = JObj [(''monotonic_ns'', JInt (monotonic_ns s)), (''process_time_ns'', JInt (process_time_ns s)),
     (''disk_total_bytes'', JInt (disk_total_bytes s)), (''disk_used_bytes'', JInt (disk_used_bytes s)),
     (''disk_free_bytes'', JInt (disk_free_bytes s)),
     (''rss_bytes'', case rss_bytes s of None \<Rightarrow> JNull | Some r \<Rightarrow> JInt r),
     (''load_1m'', case load_1m s of None \<Rightarrow> JNull | Some t \<Rightarrow> JFloat t),
     (''instruments'', JObj (map (map_prod id JStr) (instruments s)))]"

definition cycle_id_of :: "string \<Rightarrow> int \<Rightarrow> string \<Rightarrow> string" where
  "cycle_id_of oid n rt = stable_hash (JObj [(''schema'', JStr Journal.SCHEMA_VERSION), (''organism_id'', JStr oid),
     (''cycle_seq'', JInt n), (''previous_state_root'', JStr rt)])"

section \<open>One cycle\<close>

text \<open>Sense, analyze, plan: the recovery action, the assessment and the id of the plan event.\<close>

definition sense_and_plan ::
  "cycle_env \<Rightarrow> string \<Rightarrow> int \<Rightarrow> (engine, health_assessment \<times> recovery_action \<times> string) eff" where
  "sense_and_plan env cid n =
     eff_bind (record_event env cid '':tick'' ''TICK'' [(''cycle_id'', JStr cid), (''cycle_seq'', JInt n)] None) (\<lambda>tick_event.
     eff_bind (eff_get e_policy) (\<lambda>policy.
     let assessment = assess (ce_float_div env) policy (ce_sample env) (ce_journal_ok env) in
     eff_bind (eff_get (\<lambda>e. fst (plan_recovery policy (as_state assessment) (e_runtime e)))) (\<lambda>action.
     eff_bind (eff_modify (\<lambda>e. e\<lparr>e_runtime := snd (plan_recovery policy (as_state assessment) (e_runtime e))\<rparr>)) (\<lambda>_.
     eff_bind (persist_runtime_state (ce_clock env ''state1'')) (\<lambda>_.
     eff_bind (record_event env cid '':observation'' ''OBSERVATION''
        [(''cycle_id'', JStr cid), (''telemetry'', telemetry_json (ce_sample env)),
         (''journal_integrity'', JBool (ce_journal_ok env)), (''health'', JStr (health_value (as_state assessment))),
         (''reasons'', JArr (map JStr (as_reasons assessment)))] (Some tick_event)) (\<lambda>observation.
     eff_bind (eff_get e_runtime) (\<lambda>r.
     eff_bind (record_event env cid '':plan'' ''RECOVERY_PLAN''
        [(''cycle_id'', JStr cid), (''action'', JStr (action_value action)), (''safe_mode'', JBool (safe_mode r)),
         (''throttled'', JBool (throttled r))] (Some observation)) (\<lambda>plan.
     eff_return (assessment, action, plan)))))))))"

text \<open>Authorize: the decision and the id of its event.\<close>

definition SAFE_MODE_REASON :: string where
  "SAFE_MODE_REASON = ''physiology safe mode blocks external execution''"

definition decide_proposal ::
  "cycle_env \<Rightarrow> string \<Rightarrow> string \<Rightarrow> jobj \<Rightarrow> cycle_input \<Rightarrow> (engine, decision \<times> string) eff" where
  "decide_proposal env cid plan proposal inp =
     eff_bind (eff_get (\<lambda>e. safe_mode (e_runtime e))) (\<lambda>safe.
     if safe then
       (let receipt = evidence_receipt ''PHYSIOLOGY_SAFE_MODE_DECISION''
              [(''cycle_id'', JStr cid), (''proposal'', JObj proposal)]
              [(''decision'', JStr ''HOLD''), (''reason'', JStr SAFE_MODE_REASON)]
        in eff_bind (record_event env cid '':decision'' ''DECISION''
             [(''decision'', JStr ''HOLD''), (''reason'', JStr SAFE_MODE_REASON), (''receipt'', JObj receipt)] (Some plan))
             (\<lambda>ev. eff_return (HOLD, ev)))
     else
       eff_bind (on_organism (evaluate_eff (ce_guards env) (cid @ '':organism-evaluation'') proposal (ci_human inp) (ci_flags inp)))
         (\<lambda>result.
       eff_bind (record_event env cid '':decision'' ''DECISION''
             [(''decision'', JStr (decision_value (lr_decision result))), (''reason'', JStr (lr_reason result)),
              (''organism_receipt'', JObj (lr_evidence result))] (Some plan)) (\<lambda>ev.
       eff_return (lr_decision result, ev))))"

text \<open>Execute and observe the effect: whether it was executed and the id of the execution event.\<close>

definition execute_proposal ::
  "cycle_env \<Rightarrow> string \<Rightarrow> string \<Rightarrow> jobj \<Rightarrow> (engine, bool \<times> string) eff" where
  "execute_proposal env cid decision_event proposal = (case ce_executor env of
      None \<Rightarrow> eff_raise (RuntimeError ''PASS decision requires an explicit executor'')
    | Some executor \<Rightarrow>
        eff_bind (eff_lift (case executor proposal of
            NotAResult \<Rightarrow> Inl (TypeError ''executor must return ExecutionResult'')
          | Failed kind message \<Rightarrow> Inr (False, [(''status'', JStr ''ERROR''), (''error_type'', JStr kind),
                                              (''error_message'', JStr message)])
          | Executed status effect \<Rightarrow> Inr (True, [(''status'', JStr status), (''effect'', JObj (clone_obj effect))])))
          (\<lambda>(executed, effect_payload).
        eff_bind (record_event env cid '':execution'' ''EXECUTION''
            [(''attempted'', JBool True), (''executed'', JBool executed)] (Some decision_event)) (\<lambda>execution.
        eff_bind (record_event env cid '':effect'' ''EFFECT'' effect_payload (Some execution)) (\<lambda>_.
        eff_return (executed, execution)))))"

definition handle_proposal ::
  "cycle_env \<Rightarrow> string \<Rightarrow> string \<Rightarrow> cycle_input \<Rightarrow> (engine, decision option \<times> bool \<times> string option) eff" where
  "handle_proposal env cid plan inp = (case ci_proposal inp of
      None \<Rightarrow> eff_return (None, False, None)
    | Some p \<Rightarrow>
        let proposal = clone_obj p in
        eff_bind (decide_proposal env cid plan proposal inp) (\<lambda>(dec, decision_event).
        if dec = PASS then
          eff_bind (execute_proposal env cid decision_event proposal) (\<lambda>(executed, execution).
          eff_return (Some dec, executed, Some execution))
        else eff_return (Some dec, False, None)))"

definition cycle_core ::
  "string \<Rightarrow> int \<Rightarrow> health_state \<Rightarrow> recovery_action \<Rightarrow> runtime \<Rightarrow> decision option \<Rightarrow> bool \<Rightarrow> string option \<Rightarrow> string \<Rightarrow> jobj" where
  "cycle_core cid n health action r dec executed execution rt =
     [(''schema'', JStr Journal.SCHEMA_VERSION), (''cycle_id'', JStr cid), (''cycle_seq'', JInt n),
      (''health'', JStr (health_value health)), (''recovery_action'', JStr (action_value action)),
      (''safe_mode'', JBool (safe_mode r)), (''throttled'', JBool (throttled r)),
      (''decision'', jopt (map_option decision_value dec)), (''executed'', JBool executed),
      (''execution_event_id'', jopt execution), (''state_root'', JStr rt)]"

definition close_cycle ::
  "cycle_env \<Rightarrow> string \<Rightarrow> int \<Rightarrow> health_assessment \<Rightarrow> recovery_action \<Rightarrow> string \<Rightarrow> decision option \<Rightarrow> bool \<Rightarrow> string option \<Rightarrow>
   (engine, cycle_result) eff" where
  "close_cycle env cid n assessment action plan dec executed execution =
     eff_bind (on_organism root_eff) (\<lambda>rt.
     eff_bind (eff_get e_runtime) (\<lambda>r.
     let core = cycle_core cid n (as_state assessment) action r dec executed execution rt;
         receipt = evidence_receipt ''PHYSIOLOGY_CYCLE'' core [(''closed'', JBool True)] in
     eff_bind (record_event env cid '':memory'' ''MEMORY_COMMIT'' (core @ [(''cycle_receipt'', JObj receipt)])
        (Some (case execution of None \<Rightarrow> plan | Some x \<Rightarrow> x))) (\<lambda>_.
     eff_bind (persist_runtime_state (ce_clock env ''state2'')) (\<lambda>_.
     eff_bind (on_organism root_eff) (\<lambda>root2.
     eff_return \<lparr>cr_cycle_id = cid, cr_cycle_seq = n, cr_health = as_state assessment, cr_recovery_action = action,
       cr_decision = dec, cr_executed = executed, cr_state_root = root2,
       cr_receipt_hash = receipt_digest ''PHYSIOLOGY_CYCLE'' core [(''closed'', JBool True)]\<rparr>)))))"

definition tick :: "cycle_env \<Rightarrow> cycle_input \<Rightarrow> (engine, cycle_result) eff" where
  "tick env inp =
     eff_bind (eff_modify (\<lambda>e. e\<lparr>e_runtime := (e_runtime e)\<lparr>cycle_seq := cycle_seq (e_runtime e) + 1\<rparr>\<rparr>)) (\<lambda>_.
     eff_bind (eff_get (\<lambda>e. cycle_seq (e_runtime e))) (\<lambda>n.
     eff_bind (on_organism root_eff) (\<lambda>rt.
     eff_bind (eff_get (\<lambda>e. cycle_id_of (organism_id (e_organism e)) n rt)) (\<lambda>cid.
     eff_bind (sense_and_plan env cid n) (\<lambda>(assessment, action, plan).
     eff_bind (handle_proposal env cid plan inp) (\<lambda>(dec, executed, execution).
     close_cycle env cid n assessment action plan dec executed execution))))))"

end
