(* ===== verification/Physiology_Properties.thy ===== *)
theory Physiology_Properties
  imports Physiology
begin

text \<open>
  What the physiology promises: when safe mode is entered and left, that nothing is executed
  in safe mode or without a decision to pass, that counters survive exceptions and
  restarts, and that every closed cycle is in the journal with its causal chain.
\<close>

section \<open>Assessment and recovery\<close>

lemma assess_critical:
  "as_state (assess fd policy s ok) = CRITICAL \<longleftrightarrow>
     \<not> ok \<or> disk_free_ratio fd s < min_disk_free_ratio policy \<or>
     (\<exists>m r. max_rss_bytes policy = Some m \<and> rss_bytes s = Some r \<and> m < r)"
  by (auto simp: assess_def Let_def split: option.splits)

lemma assess_normal:
  "as_state (assess fd policy s ok) = NORMAL \<longleftrightarrow>
     as_state (assess fd policy s ok) \<noteq> CRITICAL \<and>
     \<not> (\<not> disk_free_ratio fd s < min_disk_free_ratio policy \<and> disk_free_ratio fd s < degraded_disk_free_ratio policy)"
  by (auto simp: assess_def Let_def)

lemma assess_range: "as_state (assess fd policy s ok) \<in> {NORMAL, DEGRADED, CRITICAL}"
  by (auto simp: assess_def Let_def)

text \<open>The runtime state after a sequence of assessments.\<close>

definition plan_all :: "homeostatic_policy \<Rightarrow> health_state list \<Rightarrow> runtime \<Rightarrow> runtime" where
  "plan_all policy hs r = foldl (\<lambda>r h. snd (plan_recovery policy h r)) r hs"

definition has_run :: "nat \<Rightarrow> health_state list \<Rightarrow> bool" where
  "has_run n hs \<longleftrightarrow> (\<exists>xs ys. hs = xs @ replicate n NORMAL @ ys)"

text \<open>The normal assessments at the end of a sequence.\<close>

definition trailing :: "health_state list \<Rightarrow> nat" where
  "trailing hs = length (takeWhile (\<lambda>h. h = NORMAL) (rev hs))"

lemma trailing_simps [simp]:
  "trailing [] = 0"
  "trailing (hs @ [h]) = (if h = NORMAL then Suc (trailing hs) else 0)"
  by (simp_all add: trailing_def)

lemma trailing_replicate: "n \<le> trailing hs \<longleftrightarrow> (\<exists>xs. hs = xs @ replicate n NORMAL)"
proof (induction n arbitrary: hs)
  case (Suc n)
  show ?case
  proof (cases hs rule: rev_cases)
    case (snoc gs g)
    have "(\<exists>xs. gs @ [g] = xs @ replicate (Suc n) NORMAL) \<longleftrightarrow> g = NORMAL \<and> (\<exists>xs. gs = xs @ replicate n NORMAL)"
      by (auto simp: replicate_append_same [symmetric])
    then show ?thesis using Suc.IH [of gs] snoc by auto
  qed simp
qed simp

lemma has_run_snoc:
  assumes "0 < n"
  shows "has_run n (hs @ [h]) \<longleftrightarrow> has_run n hs \<or> n \<le> trailing (hs @ [h])"
proof -
  have "has_run n (hs @ [h]) \<longleftrightarrow> has_run n hs \<or> (\<exists>xs. hs @ [h] = xs @ replicate n NORMAL)" (is "?l \<longleftrightarrow> ?r")
  proof
    assume ?l
    then obtain xs ys where e: "hs @ [h] = xs @ replicate n NORMAL @ ys" by (auto simp: has_run_def)
    show ?r
    proof (cases ys rule: rev_cases)
      case (snoc zs z)
      then have "hs = xs @ replicate n NORMAL @ zs" using e by (metis append.assoc butlast_snoc)
      then show ?thesis by (auto simp: has_run_def)
    qed (use e in auto)
  next
    assume ?r
    then obtain xs ys where "hs @ [h] = xs @ replicate n NORMAL @ ys"
    proof
      assume "has_run n hs"
      then obtain xs ys where "hs = xs @ replicate n NORMAL @ ys" by (auto simp: has_run_def)
      then have "hs @ [h] = xs @ replicate n NORMAL @ ys @ [h]" by simp
      then show ?thesis by (rule that)
    next
      assume "\<exists>xs. hs @ [h] = xs @ replicate n NORMAL"
      then show ?thesis using that [of _ "[]"] by auto
    qed
    then show ?l unfolding has_run_def by blast
  qed
  then show ?thesis by (simp only: trailing_replicate)
qed

lemma plan_all_snoc: "plan_all policy (hs @ [h]) r = snd (plan_recovery policy h (plan_all policy hs r))"
  by (simp add: plan_all_def)

lemma plan_all_streak:
  assumes "set hs \<subseteq> {NORMAL, DEGRADED}" and "normal_streak r = 0"
  shows "normal_streak (plan_all policy hs r) = int (trailing hs)"
  using assms(1)
proof (induction hs rule: rev_induct)
  case (snoc h hs)
  then show ?case by (auto simp: plan_all_snoc plan_recovery_def Let_def)
qed (simp add: plan_all_def assms(2))

text \<open>C10: A critical assessment enters safe mode, and safe mode is left exactly when the policy's
  number of normal assessments have come in a row. After a critical assessment and any further
  ones that are not critical, the engine is in safe mode if and only if no run of that length has
  occurred among them.\<close>

theorem safe_mode_until_recovered:
  assumes "1 \<le> normal_streak_to_exit policy" and "set hs \<subseteq> {NORMAL, DEGRADED}"
  shows "safe_mode (plan_all policy (CRITICAL # hs) r) \<longleftrightarrow> \<not> has_run (nat (normal_streak_to_exit policy)) hs"
proof -
  define n where "n = nat (normal_streak_to_exit policy)"
  have n: "0 < n" "normal_streak_to_exit policy = int n" using assms(1) by (simp_all add: n_def)
  define r1 where "r1 = snd (plan_recovery policy CRITICAL r)"
  have r1: "safe_mode r1" "normal_streak r1 = 0" by (simp_all add: r1_def plan_recovery_def)
  have "safe_mode (plan_all policy hs r1) \<longleftrightarrow> \<not> has_run n hs"
    using assms(2)
  proof (induction hs rule: rev_induct)
    case Nil
    then show ?case using n(1) r1(1) by (simp add: plan_all_def has_run_def)
  next
    case (snoc h hs)
    have streak: "normal_streak (plan_all policy hs r1) = int (trailing hs)"
      using snoc.prems r1(2) by (intro plan_all_streak) auto
    have step: "safe_mode (plan_all policy (hs @ [h]) r1) \<longleftrightarrow>
        safe_mode (plan_all policy hs r1) \<and> \<not> n \<le> trailing (hs @ [h])"
      using snoc.prems streak n(1) unfolding plan_all_snoc plan_recovery_def Let_def n(2) by auto
    show ?case unfolding step has_run_snoc [OF n(1)] using snoc by auto
  qed
  then show ?thesis by (simp add: plan_all_def r1_def n_def)
qed

definition sample_policy :: homeostatic_policy where
  "sample_policy = \<lparr>min_disk_free_ratio = 1 / 20, max_rss_bytes = None, degraded_disk_free_ratio = 1 / 10,
     normal_streak_to_exit = 3\<rparr>"

theorem safe_mode_until_recovered_witness:
  "safe_mode (plan_all sample_policy [CRITICAL, NORMAL, NORMAL, DEGRADED, NORMAL] initial_runtime)"
proof -
  have "\<not> has_run 3 [NORMAL, NORMAL, DEGRADED, NORMAL]"
    using has_run_snoc [of 3 "[NORMAL, NORMAL, DEGRADED]" NORMAL] has_run_snoc [of 3 "[NORMAL, NORMAL]" DEGRADED]
      has_run_snoc [of 3 "[NORMAL]" NORMAL] has_run_snoc [of 3 "[]" NORMAL]
    by (simp add: trailing_def has_run_def)
  then show ?thesis
    using safe_mode_until_recovered [of sample_policy "[NORMAL, NORMAL, DEGRADED, NORMAL]" initial_runtime]
    by (simp add: sample_policy_def)
qed

section \<open>The parts of a cycle\<close>

lemma on_organism_eq:
  "on_organism m e = (r, e') \<longleftrightarrow> (\<exists>o1. m (e_organism e) = (r, o1) \<and> e' = e\<lparr>e_organism := o1\<rparr>)"
  by (auto simp: on_organism_def eff_part_def split: prod.splits)

lemma on_journal_eq:
  "on_journal m e = (r, e') \<longleftrightarrow> (\<exists>j. m (e_journal e) = (r, j) \<and> e' = e\<lparr>e_journal := j\<rparr>)"
  by (auto simp: on_journal_def eff_part_def split: prod.splits)

text \<open>Writing to the journal leaves the organism, the policy and the runtime state alone.\<close>

definition same_but_journal :: "engine \<Rightarrow> engine \<Rightarrow> bool" where
  "same_but_journal e e' \<longleftrightarrow> e_organism e' = e_organism e \<and> e_policy e' = e_policy e \<and> e_runtime e' = e_runtime e"

lemma on_journal_same: "on_journal m e = (r, e') \<Longrightarrow> same_but_journal e e'"
  by (auto simp: on_journal_eq same_but_journal_def)

lemma record_event_same: "record_event env cid s t p c e = (r, e') \<Longrightarrow> same_but_journal e e'"
  by (auto simp: record_event_def eff_bind_def split: prod.splits sum.splits dest: on_journal_same)

lemma persist_same: "persist_runtime_state t e = (r, e') \<Longrightarrow> same_but_journal e e'"
  by (auto simp: persist_runtime_state_def eff_bind_def split: prod.splits sum.splits dest: on_journal_same)

lemma sense_and_plan_result:
  assumes "sense_and_plan env cid n e = (Inr (a, act, plan), e')"
  shows "a = assess (ce_float_div env) (e_policy e) (ce_sample env) (ce_journal_ok env)"
    and "act = fst (plan_recovery (e_policy e) (as_state a) (e_runtime e))"
    and "e_runtime e' = snd (plan_recovery (e_policy e) (as_state a) (e_runtime e))"
    and "e_organism e' = e_organism e" and "e_policy e' = e_policy e"
  using assms
  by (auto simp: sense_and_plan_def Let_def same_but_journal_def dest!: record_event_same persist_same)

lemma evaluate_eff_Inr:
  "evaluate_eff env eid p h f o1 = (Inr r, o2) \<longleftrightarrow> evaluate env eid p h f o1 = Inr (r, o2)"
  by (auto simp: evaluate_eff_def split: sum.splits)

lemma decide_proposalE:
  assumes "decide_proposal env cid plan p inp e = (Inr (dec, ev), e')"
  obtains (held) "safe_mode (e_runtime e)" "dec = HOLD" "same_but_journal e e'"
  | (decided) result o1 where "\<not> safe_mode (e_runtime e)" "dec = lr_decision result"
      "evaluate (ce_guards env) (cid @ '':organism-evaluation'') p (ci_human inp) (ci_flags inp) (e_organism e) = Inr (result, o1)"
      "e_organism e' = o1" "e_runtime e' = e_runtime e" "e_policy e' = e_policy e"
proof (cases "safe_mode (e_runtime e)")
  case True
  then have "dec = HOLD" "same_but_journal e e'"
    using assms by (auto simp: decide_proposal_def Let_def dest!: record_event_same)
  then show ?thesis using True held by blast
next
  case False
  then show ?thesis
    using assms decided
    by (auto simp: decide_proposal_def on_organism_eq evaluate_eff_Inr same_but_journal_def dest!: record_event_same)
qed

lemma execute_same:
  "execute_proposal env cid d p e = (Inr (x, ev), e') \<Longrightarrow>
     same_but_journal e e' \<and> ce_executor env \<noteq> None \<and>
     x = (case the (ce_executor env) p of Executed s f \<Rightarrow> True | _ \<Rightarrow> False)"
  by (auto simp: execute_proposal_def same_but_journal_def split: option.splits exec_outcome.splits
      dest!: record_event_same)

lemma handle_proposalE:
  assumes "handle_proposal env cid plan inp e = (Inr (dec, x, ev), e')"
  obtains (none) "ci_proposal inp = None" "dec = None" "\<not> x" "e' = e"
  | (held) p where "ci_proposal inp = Some p" "safe_mode (e_runtime e)" "dec = Some HOLD" "\<not> x" "same_but_journal e e'"
  | (decided) p result o1 where "ci_proposal inp = Some p" "\<not> safe_mode (e_runtime e)" "dec = Some (lr_decision result)"
      "evaluate (ce_guards env) (cid @ '':organism-evaluation'') (clone_obj p) (ci_human inp) (ci_flags inp) (e_organism e)
        = Inr (result, o1)"
      "e_organism e' = o1" "e_runtime e' = e_runtime e" "x \<longrightarrow> lr_decision result = PASS \<and> ce_executor env \<noteq> None"
proof (cases "ci_proposal inp")
  case None
  then show ?thesis using assms none by (simp add: handle_proposal_def)
next
  case (Some p)
  then obtain d ev1 e1 where d: "decide_proposal env cid plan (clone_obj p) inp e = (Inr (d, ev1), e1)"
    and rest: "(if d = PASS then eff_bind (execute_proposal env cid ev1 (clone_obj p))
        (\<lambda>(executed, execution). eff_return (Some d, executed, Some execution)) else eff_return (Some d, False, None)) e1 =
        (Inr (dec, x, ev), e')"
    using assms by (auto simp: handle_proposal_def Let_def)
  have r: "dec = Some d" "same_but_journal e1 e'" "x \<longrightarrow> d = PASS \<and> ce_executor env \<noteq> None"
    using rest by (auto simp: same_but_journal_def split: if_splits dest!: execute_same)
  from d show ?thesis
  proof (cases rule: decide_proposalE)
    case held
    then show ?thesis using Some r that(2) by (auto simp: same_but_journal_def)
  next
    case (decided result o1)
    then show ?thesis using Some r that(3) [of p result o1] by (auto simp: same_but_journal_def)
  qed
qed

lemma root_eff_same: "root_eff o1 = (Inr r, o2) \<Longrightarrow> same_state o1 o2"
  using state_root_same [of o1] by (auto simp: root_eff_def split: prod.splits)

lemma same_state_trans:
  assumes "same_state o1 o2" "same_state o2 o3"
  shows "same_state o1 o3"
proof -
  obtain r g where 1: "o2 = o1\<lparr>cached_state_root := r, cached_state_generation := g\<rparr>"
    using assms(1) unfolding same_state_def by blast
  obtain r' g' where 2: "o3 = o2\<lparr>cached_state_root := r', cached_state_generation := g'\<rparr>"
    using assms(2) unfolding same_state_def by blast
  have "o3 = o1\<lparr>cached_state_root := r', cached_state_generation := g'\<rparr>" by (simp add: 1 2)
  then show ?thesis unfolding same_state_def by blast
qed

text \<open>What computing a state root leaves as it is.\<close>

definition same_but_cache :: "engine \<Rightarrow> engine \<Rightarrow> bool" where
  "same_but_cache e e' \<longleftrightarrow> same_state (e_organism e) (e_organism e') \<and> e_policy e' = e_policy e \<and> e_runtime e' = e_runtime e"

lemma same_state_refl: "same_state o1 o1"
proof -
  have "o1 = o1\<lparr>cached_state_root := cached_state_root o1, cached_state_generation := cached_state_generation o1\<rparr>" by simp
  then show ?thesis unfolding same_state_def by blast
qed

lemma same_but_cache_trans: "same_but_cache e e1 \<Longrightarrow> same_but_cache e1 e2 \<Longrightarrow> same_but_cache e e2"
  by (auto simp: same_but_cache_def intro: same_state_trans)

lemma root_step: "on_organism root_eff e = (Inr x, e') \<Longrightarrow> same_but_cache e e'"
  by (auto simp: on_organism_eq same_but_cache_def dest: root_eff_same)

lemma journal_cache: "same_but_journal e e' \<Longrightarrow> same_but_cache e e'"
  by (simp add: same_but_journal_def same_but_cache_def same_state_refl)

lemma close_cycleE:
  assumes "close_cycle env cid n a act plan dec x ev e = (Inr r, e')"
  shows "cr_cycle_id r = cid \<and> cr_cycle_seq r = n \<and> cr_health r = as_state a \<and> cr_recovery_action r = act \<and>
    cr_decision r = dec \<and> cr_executed r = x \<and> same_but_cache e e'"
proof -
  obtain rt e1 m e2 u e3 rt2 where steps: "on_organism root_eff e = (Inr rt, e1)"
    "record_event env cid '':memory'' ''MEMORY_COMMIT''
       (cycle_core cid n (as_state a) act (e_runtime e1) dec x ev rt @
         [(''cycle_receipt'', JObj (evidence_receipt ''PHYSIOLOGY_CYCLE''
            (cycle_core cid n (as_state a) act (e_runtime e1) dec x ev rt) [(''closed'', JBool True)]))])
       (Some (case ev of None \<Rightarrow> plan | Some y \<Rightarrow> y)) e1 = (Inr m, e2)"
    "persist_runtime_state (ce_clock env ''state2'') e2 = (Inr u, e3)"
    "on_organism root_eff e3 = (Inr rt2, e')"
    and r: "cr_cycle_id r = cid" "cr_cycle_seq r = n" "cr_health r = as_state a" "cr_recovery_action r = act"
      "cr_decision r = dec" "cr_executed r = x"
    using assms by (auto simp: close_cycle_def Let_def)
  have "same_but_cache e e'"
    using root_step [OF steps(1)] journal_cache [OF record_event_same [OF steps(2)]]
      journal_cache [OF persist_same [OF steps(3)]] root_step [OF steps(4)]
    by (blast intro: same_but_cache_trans)
  then show ?thesis using r by simp
qed

text \<open>The engine after the counter has been raised and the root computed.\<close>

definition started :: "engine \<Rightarrow> engine" where
  "started e = e\<lparr>e_runtime := (e_runtime e)\<lparr>cycle_seq := cycle_seq (e_runtime e) + 1\<rparr>\<rparr>"

definition cycle_id_at :: "engine \<Rightarrow> string" where
  "cycle_id_at e = cycle_id_of (organism_id (e_organism e)) (cycle_seq (e_runtime e) + 1) (fst (state_root (e_organism e)))"

lemma tickE:
  assumes "tick env inp e = (Inr r, e')"
  obtains e1 e2 e3 a act plan ev where
    "same_but_cache (started e) e1" and "cr_cycle_id r = cycle_id_at e" and "e_journal e1 = e_journal e"
    and "sense_and_plan env (cycle_id_at e) (cycle_seq (e_runtime e) + 1) e1 = (Inr (a, act, plan), e2)"
    and "handle_proposal env (cycle_id_at e) plan inp e2 = (Inr (cr_decision r, cr_executed r, ev), e3)"
    and "close_cycle env (cycle_id_at e) (cycle_seq (e_runtime e) + 1) a act plan (cr_decision r) (cr_executed r) ev e3 = (Inr r, e')"
proof -
  obtain rt e1 where root: "on_organism root_eff (started e) = (Inr rt, e1)"
    and rest: "eff_bind (eff_get (\<lambda>e. cycle_id_of (organism_id (e_organism e)) (cycle_seq (e_runtime e1)) rt)) (\<lambda>cid.
       eff_bind (sense_and_plan env cid (cycle_seq (e_runtime e1))) (\<lambda>(assessment, action, plan).
       eff_bind (handle_proposal env cid plan inp) (\<lambda>(dec, executed, execution).
       close_cycle env cid (cycle_seq (e_runtime e1)) assessment action plan dec executed execution))) e1 = (Inr r, e')"
    using assms by (auto simp: tick_def started_def on_organism_eq)
  have same: "same_but_cache (started e) e1" by (rule root_step [OF root])
  have n: "cycle_seq (e_runtime e1) = cycle_seq (e_runtime e) + 1"
    using same by (simp add: same_but_cache_def started_def)
  have "rt = fst (state_root (e_organism e))"
    using root by (auto simp: on_organism_eq root_eff_def started_def split: prod.splits)
  moreover have "organism_id (e_organism e1) = organism_id (e_organism e)"
    using same same_stateD(3) [of "e_organism (started e)" "e_organism e1"] by (simp add: same_but_cache_def started_def)
  ultimately have cid: "cycle_id_of (organism_id (e_organism e1)) (cycle_seq (e_runtime e1)) rt = cycle_id_at e"
    by (simp add: cycle_id_at_def n)
  obtain a act plan e2 dec x ev e3 where parts:
    "sense_and_plan env (cycle_id_at e) (cycle_seq (e_runtime e) + 1) e1 = (Inr (a, act, plan), e2)"
    "handle_proposal env (cycle_id_at e) plan inp e2 = (Inr (dec, x, ev), e3)"
    "close_cycle env (cycle_id_at e) (cycle_seq (e_runtime e) + 1) a act plan dec x ev e3 = (Inr r, e')"
    using rest by (auto simp: cid [unfolded n] n)
  moreover have "e_journal e1 = e_journal e"
    using root by (auto simp: on_organism_eq started_def)
  ultimately show ?thesis
    using that [OF same] close_cycleE [OF parts(3)] by simp
qed

section \<open>A whole cycle\<close>

text \<open>A cycle executes only what its guard passed. When a cycle closes with \<open>executed\<close>, there was a
  proposal and an executor, the organism's decision on that proposal in that cycle was PASS, and the
  host was not assessed critical; with no proposal nothing is decided or executed.\<close>

theorem executes_only_passed:
  assumes "tick env inp e = (Inr r, e')"
  shows "(cr_executed r \<longrightarrow> cr_decision r = Some PASS \<and> ce_executor env \<noteq> None \<and> cr_health r \<noteq> CRITICAL \<and>
      \<not> safe_mode (e_runtime e') \<and>
      (\<exists>p o1 result o2. ci_proposal inp = Some p \<and> same_state (e_organism e) o1 \<and>
         evaluate (ce_guards env) (cr_cycle_id r @ '':organism-evaluation'') (clone_obj p) (ci_human inp) (ci_flags inp) o1 =
           Inr (result, o2) \<and> lr_decision result = PASS \<and> same_state o2 (e_organism e'))) \<and>
    (ci_proposal inp = None \<longrightarrow> cr_decision r = None \<and> \<not> cr_executed r)"
  using assms
proof (cases rule: tickE)
  case (1 e1 e2 e3 a act plan ev)
  note plan = sense_and_plan_result [OF 1(4)] and close = close_cycleE [OF 1(6)]
  have end_same: "same_but_cache e3 e'" using close by blast
  have same1: "same_state (e_organism e) (e_organism e2)"
    using 1(1) plan by (auto simp: same_but_cache_def started_def)
  have crit: "cr_health r = CRITICAL \<longrightarrow> safe_mode (e_runtime e2)"
    using plan close by (auto simp: plan_recovery_def)
  from 1(5) show ?thesis
  proof (cases rule: handle_proposalE)
    case none
    then show ?thesis by simp
  next
    case (held p)
    then show ?thesis by simp
  next
    case (decided p result o1)
    have safe: "\<not> safe_mode (e_runtime e')" "cr_health r \<noteq> CRITICAL" and end_state: "same_state o1 (e_organism e')"
      using crit decided(2,5,6) end_same by (simp_all add: same_but_cache_def)
    have "cr_executed r \<longrightarrow> cr_decision r = Some PASS \<and> ce_executor env \<noteq> None \<and> lr_decision result = PASS"
      using decided(3,7) by simp
    moreover have "ci_proposal inp \<noteq> None" using decided(1) by simp
    ultimately show ?thesis using safe end_state same1 decided(1,4) unfolding 1(2) [symmetric] by blast
  qed
qed

text \<open>Safe mode blocks execution. When a cycle with a proposal closes and the engine is in safe mode, or
  the host was assessed critical, the decision is HOLD, nothing was executed, and the organism
  has evaluated nothing: its constraints and its lineage are as before.\<close>

theorem safe_mode_blocks:
  assumes "tick env inp e = (Inr r, e')" and "ci_proposal inp = Some p"
    and "safe_mode (e_runtime e') \<or> cr_health r = CRITICAL"
  shows "cr_decision r = Some HOLD \<and> \<not> cr_executed r \<and>
    constraints (e_organism e') = constraints (e_organism e) \<and> lineage (e_organism e') = lineage (e_organism e)"
  using assms(1)
proof (cases rule: tickE)
  case (1 e1 e2 e3 a act plan ev)
  note plan = sense_and_plan_result [OF 1(4)] and close = close_cycleE [OF 1(6)]
  have end_same: "same_but_cache e3 e'" using close by blast
  have same1: "same_state (e_organism e) (e_organism e2)"
    using 1(1) plan by (auto simp: same_but_cache_def started_def)
  have crit: "cr_health r = CRITICAL \<longrightarrow> safe_mode (e_runtime e2)"
    using plan close by (auto simp: plan_recovery_def)
  from 1(5) show ?thesis
  proof (cases rule: handle_proposalE)
    case none
    then show ?thesis using assms(2) by simp
  next
    case (held q)
    then have "same_state (e_organism e) (e_organism e')"
      using same1 close same_state_trans by (auto simp: same_but_cache_def same_but_journal_def)
    then show ?thesis using held by (simp add: same_stateD)
  next
    case (decided q result o1)
    then have "\<not> safe_mode (e_runtime e')" "cr_health r \<noteq> CRITICAL"
      using crit decided(2,6) end_same by (simp_all add: same_but_cache_def)
    then show ?thesis using assms(3) by simp
  qed
qed

text \<open>The cycle counter, whatever is raised.\<close>

definition seq_is :: "int \<Rightarrow> engine \<Rightarrow> bool" where
  "seq_is n e \<longleftrightarrow> cycle_seq (e_runtime e) = n"

lemma keeps_on_journal [keeps_intros]: "eff_keeps (seq_is n) (on_journal m)"
  by (auto simp: eff_keeps_def on_journal_def eff_part_def seq_is_def split: prod.splits)

lemma keeps_on_organism [keeps_intros]: "eff_keeps (seq_is n) (on_organism m)"
  by (auto simp: eff_keeps_def on_organism_def eff_part_def seq_is_def split: prod.splits)

lemma plan_recovery_seq: "cycle_seq (snd (plan_recovery policy h r)) = cycle_seq r"
  by (simp add: plan_recovery_def Let_def)

lemma keeps_record [keeps_intros]: "eff_keeps (seq_is n) (record_event env cid s t p c)"
  unfolding record_event_def by (intro keeps_intros)

lemma keeps_persist [keeps_intros]: "eff_keeps (seq_is n) (persist_runtime_state t)"
  unfolding persist_runtime_state_def by (intro keeps_intros) (auto intro: keeps_intros)

lemma keeps_sense [keeps_intros]: "eff_keeps (seq_is n) (sense_and_plan env cid k)"
  unfolding sense_and_plan_def Let_def
  by (intro keeps_intros keeps_modify) (simp add: seq_is_def plan_recovery_seq)

lemma keeps_decide [keeps_intros]: "eff_keeps (seq_is n) (decide_proposal env cid plan p inp)"
  unfolding decide_proposal_def Let_def by (intro keeps_intros)

lemma keeps_execute [keeps_intros]: "eff_keeps (seq_is n) (execute_proposal env cid d p)"
  unfolding execute_proposal_def by (auto split: option.split intro!: keeps_intros)

lemma keeps_handle [keeps_intros]: "eff_keeps (seq_is n) (handle_proposal env cid plan inp)"
  unfolding handle_proposal_def Let_def by (auto split: option.split intro!: keeps_intros)

lemma keeps_close [keeps_intros]: "eff_keeps (seq_is n) (close_cycle env cid k a act plan d x ev)"
  unfolding close_cycle_def Let_def by (intro keeps_intros)

text \<open>C20: Every call of \<open>tick\<close> takes the next number, also one that raises halfway: the cycle counter is
  one more afterwards, whatever the journal, the organism, the executor or the readings did.\<close>

theorem tick_takes_next_number:
  "cycle_seq (e_runtime (snd (tick env inp e))) = cycle_seq (e_runtime e) + 1"
proof -
  have "eff_keeps (seq_is (cycle_seq (e_runtime e) + 1))
     (eff_bind (eff_get (\<lambda>e. cycle_seq (e_runtime e))) (\<lambda>n.
     eff_bind (on_organism root_eff) (\<lambda>rt.
     eff_bind (eff_get (\<lambda>e. cycle_id_of (organism_id (e_organism e)) n rt)) (\<lambda>cid.
     eff_bind (sense_and_plan env cid n) (\<lambda>(assessment, action, plan).
     eff_bind (handle_proposal env cid plan inp) (\<lambda>(dec, executed, execution).
     close_cycle env cid n assessment action plan dec executed execution))))))"
    by (auto intro!: keeps_intros split: prod.split)
  then show ?thesis
    by (simp add: tick_def eff_keeps_def seq_is_def)
qed

section \<open>Restart\<close>

definition runtime_ok :: "runtime \<Rightarrow> bool" where
  "runtime_ok r \<longleftrightarrow> 0 \<le> cycle_seq r \<and> 0 \<le> normal_streak r"

lemma runtime_json_reads: "runtime_ok r \<Longrightarrow> validate_runtime_state trunc (sort_json (runtime_json r)) = Inr r"
  by (simp add: runtime_ok_def runtime_json_def validate_runtime_state_def get_default_def json_int_def sort_json.simps)

lemma runtime_json_wf: "wf_json (runtime_json r)"
  by (simp add: runtime_json_def)

lemma state_key_not_blank: "\<not> blank (state_key o1)"
  by (simp add: state_key_def blank_iff is_space_def)

lemma plan_recovery_ok: "runtime_ok r \<Longrightarrow> runtime_ok (snd (plan_recovery policy h r))"
  by (simp add: runtime_ok_def plan_recovery_def Let_def)

lemma persist_result:
  assumes "persist_runtime_state t e = (Inr u, e')"
  shows "e_journal e' = put_state t (state_key (e_organism e)) (runtime_json (e_runtime e)) (e_journal e)"
  using assms by (auto simp: persist_runtime_state_def on_journal_eq put_state_def)

text \<open>An engine built on the journal a cycle left starts with the runtime state that cycle had.\<close>

lemma persisted_reads:
  assumes "persist_runtime_state t e = (Inr u, e')" and "runtime_ok (e_runtime e)"
    and "organism_id o1 = organism_id (e_organism e)"
  shows "new_engine trunc o1 (e_journal e') policy =
    Inr \<lparr>e_organism = o1, e_journal = e_journal e', e_policy = policy, e_runtime = e_runtime e\<rparr>"
  using assms journal_store.get_put [OF state_key_not_blank runtime_json_wf]
  by (simp add: new_engine_def persist_result runtime_json_reads state_key_def)

lemma handle_proposal_keeps:
  assumes "handle_proposal env cid plan inp e = (Inr (dec, x, ev), e')"
  shows "e_runtime e' = e_runtime e"
  using assms by (cases rule: handle_proposalE) (auto simp: same_but_journal_def)

lemma close_cycle_persists:
  assumes "close_cycle env cid n a act plan dec x ev e = (Inr r, e')" and "runtime_ok (e_runtime e)"
    and "organism_id o1 = organism_id (e_organism e')"
  shows "new_engine trunc o1 (e_journal e') policy =
    Inr \<lparr>e_organism = o1, e_journal = e_journal e', e_policy = policy, e_runtime = e_runtime e'\<rparr>"
proof -
  obtain rt e1 m e2 u e3 rt2 where steps: "on_organism root_eff e = (Inr rt, e1)"
    "record_event env cid '':memory'' ''MEMORY_COMMIT''
       (cycle_core cid n (as_state a) act (e_runtime e1) dec x ev rt @
         [(''cycle_receipt'', JObj (evidence_receipt ''PHYSIOLOGY_CYCLE''
            (cycle_core cid n (as_state a) act (e_runtime e1) dec x ev rt) [(''closed'', JBool True)]))])
       (Some (case ev of None \<Rightarrow> plan | Some y \<Rightarrow> y)) e1 = (Inr m, e2)"
    "persist_runtime_state (ce_clock env ''state2'') e2 = (Inr u, e3)"
    "on_organism root_eff e3 = (Inr rt2, e')"
    using assms by (auto simp: close_cycle_def Let_def)
  have rt: "e_runtime e2 = e_runtime e" "e_runtime e' = e_runtime e"
    using root_step [OF steps(1)] record_event_same [OF steps(2)] persist_same [OF steps(3)] root_step [OF steps(4)]
    by (simp_all add: same_but_cache_def same_but_journal_def)
  have oid: "organism_id (e_organism e') = organism_id (e_organism e2)" and j: "e_journal e' = e_journal e3"
    using persist_same [OF steps(3)] root_step [OF steps(4)] steps(4)
    by (auto simp: same_but_cache_def same_but_journal_def same_stateD on_organism_eq)
  show ?thesis
    using persisted_reads [OF steps(3), of o1] assms(2,3) by (simp add: rt oid j)
qed

text \<open>A restart loses no closed cycle. After a cycle has closed, an engine built from scratch on the
  same journal, for an organism of the same id, starts with exactly the runtime state (cycle number,
  safe mode, recovery streak, throttling) the running engine has, whatever policy it is given.\<close>

theorem restart_resumes:
  assumes "tick env inp e = (Inr r, e')" and "runtime_ok (e_runtime e)"
    and "organism_id o1 = organism_id (e_organism e')"
  shows "new_engine trunc o1 (e_journal e') policy =
      Inr \<lparr>e_organism = o1, e_journal = e_journal e', e_policy = policy, e_runtime = e_runtime e'\<rparr> \<and>
    runtime_ok (e_runtime e')"
  using assms(1)
proof (cases rule: tickE)
  case (1 e1 e2 e3 a act plan ev)
  have "runtime_ok (e_runtime e1)"
    using 1(1) assms(2) by (simp add: same_but_cache_def started_def runtime_ok_def)
  then have ok: "runtime_ok (e_runtime e3)"
    using sense_and_plan_result [OF 1(4)] handle_proposal_keeps [OF 1(5)] by (simp add: plan_recovery_ok)
  moreover have "e_runtime e' = e_runtime e3"
    using close_cycleE [OF 1(6)] by (simp add: same_but_cache_def)
  ultimately show ?thesis
    using close_cycle_persists [OF 1(6) ok assms(3)] by simp
qed

end
