(* ===== verification/Effect_Feedback.thy ===== *)
theory Effect_Feedback
  imports Physiology_Properties
begin

text \<open>
  \<open>app/physiology_effect_feedback.py\<close>: the closed loop around the physiology engine. The
  outcome of an executed proposal and a fresh measurement of the host become a feedback
  state, authenticated and stored in the journal, which gates the proposals of later
  cycles: while recovery is required, only a proposal that names the cycle it recovers
  reaches the engine. The record \<open>closed_loop\<close> holds the fields of the object; the outcome
  an executor leaves in \<open>_captured_result\<close> and \<open>_captured_error\<close> lives for one tick and is
  a value of that tick.
\<close>

definition FEEDBACK_SCHEMA :: string where
  "FEEDBACK_SCHEMA = ''matverse.physiology-effect-feedback.v1''"

section \<open>The policy\<close>

record effect_feedback_policy =
  success_statuses :: "string list"
  failures_before_recovery_gate :: int

definition default_feedback_policy :: effect_feedback_policy where
  "default_feedback_policy = \<lparr>success_statuses = [''OK'', ''PASS'', ''SUCCESS''], failures_before_recovery_gate = 1\<rparr>"

definition check_feedback_policy :: "effect_feedback_policy \<Rightarrow> effect_feedback_policy res" where
  "check_feedback_policy p =
     (let normalized = map (\<lambda>s. upper (strip s)) (filter (\<lambda>s. \<not> blank s) (success_statuses p)) in
      res_bind (raise_if (normalized = []) (ValueError ''success_statuses must contain at least one non-empty status'')) (\<lambda>_.
      res_bind (raise_if (\<not> distinct normalized) (ValueError ''success_statuses must be unique case-insensitively'')) (\<lambda>_.
      res_bind (raise_if (failures_before_recovery_gate p < 1) (ValueError ''failures_before_recovery_gate must be >= 1'')) (\<lambda>_.
      Inr p))))"

definition accepts :: "effect_feedback_policy \<Rightarrow> string option \<Rightarrow> bool" where
  "accepts p status = (case status of
      None \<Rightarrow> False
    | Some s \<Rightarrow> \<not> blank s \<and> upper (strip s) \<in> set (map (\<lambda>t. upper (strip t)) (success_statuses p)))"

section \<open>The feedback state\<close>

record feedback_state =
  failure_streak :: int
  recovery_required :: bool
  recovery_for :: "string option"
  last_effect_status :: "string option"
  last_post_effect_health :: "health_state option"
  last_feedback_receipt_hash :: "string option"

definition empty_feedback :: feedback_state where
  "empty_feedback = \<lparr>failure_streak = 0, recovery_required = False, recovery_for = None, last_effect_status = None,
     last_post_effect_health = None, last_feedback_receipt_hash = None\<rparr>"

definition feedback_obj :: "feedback_state \<Rightarrow> jobj" where
  "feedback_obj st =
     [(''schema'', JStr FEEDBACK_SCHEMA), (''failure_streak'', JInt (failure_streak st)),
      (''recovery_required'', JBool (recovery_required st)), (''recovery_for_cycle_id'', jopt (recovery_for st)),
      (''last_effect_status'', jopt (last_effect_status st)),
      (''last_post_effect_health'', jopt (map_option health_value (last_post_effect_health st))),
      (''last_feedback_receipt_hash'', jopt (last_feedback_receipt_hash st))]"

text \<open>\<open>HealthState(str(raw)).value\<close>: the text of a value that is not a string is no state's name.\<close>

definition health_of_json :: "json \<Rightarrow> health_state res" where
  "health_of_json v = (case find (\<lambda>h. v = JStr (health_value h)) [NORMAL, DEGRADED, CRITICAL, RECOVERING, SAFE_MODE] of
      None \<Rightarrow> Inl (ValueError ''invalid last_post_effect_health'')
    | Some h \<Rightarrow> Inr h)"

definition optional_text :: "json \<Rightarrow> (string \<Rightarrow> bool) \<Rightarrow> string \<Rightarrow> string option res" where
  "optional_text v good message = (case v of
      JNull \<Rightarrow> Inr None
    | JStr s \<Rightarrow> if good s then Inr (Some s) else Inl (ValueError message)
    | _ \<Rightarrow> Inl (ValueError message))"

definition validate_feedback :: "(string \<Rightarrow> int res) \<Rightarrow> json \<Rightarrow> feedback_state res" where
  "validate_feedback trunc v = (case v of
      JObj d \<Rightarrow>
        res_bind (raise_if (get_default d ''schema'' (JStr FEEDBACK_SCHEMA) \<noteq> JStr FEEDBACK_SCHEMA)
                   (ValueError ''unsupported effect feedback schema'')) (\<lambda>_.
        res_bind (json_int trunc (get_default d ''failure_streak'' (JInt 0))) (\<lambda>streak.
        res_bind (raise_if (streak < 0) (ValueError ''failure_streak must be >= 0'')) (\<lambda>_.
        let required = truthy (get_default d ''recovery_required'' (JBool False)) in
        res_bind (optional_text (jget d ''recovery_for_cycle_id'') (\<lambda>s. s \<noteq> '''')
                   ''recovery_for_cycle_id must be a non-empty string or null'') (\<lambda>origin.
        res_bind (raise_if (required \<noteq> (origin \<noteq> None))
                   (ValueError ''recovery_required and recovery_for_cycle_id are inconsistent'')) (\<lambda>_.
        res_bind (optional_text (jget d ''last_effect_status'') (\<lambda>s. True)
                   ''last_effect_status must be a string or null'') (\<lambda>status.
        res_bind (if jget d ''last_post_effect_health'' = JNull then Inr None
                  else res_bind (health_of_json (jget d ''last_post_effect_health'')) (\<lambda>h. Inr (Some h))) (\<lambda>health.
        res_bind (optional_text (jget d ''last_feedback_receipt_hash'') (hex_lower_n 64)
                   ''last_feedback_receipt_hash must be a SHA-256 hex string or null'') (\<lambda>receipt.
        Inr \<lparr>failure_streak = streak, recovery_required = required, recovery_for = origin, last_effect_status = status,
             last_post_effect_health = health, last_feedback_receipt_hash = receipt\<rparr>))))))))
    | _ \<Rightarrow> Inl (ValueError ''invalid effect feedback state''))"

section \<open>The loop and its stored state\<close>

record closed_loop =
  cl_engine :: engine
  cl_policy :: effect_feedback_policy
  cl_secret :: string
  cl_state :: feedback_state

definition feedback_mac :: "string \<Rightarrow> jobj \<Rightarrow> string" where
  "feedback_mac secret payload = hmac_text secret (canonical_json (JObj payload))"

definition feedback_key :: "organism \<Rightarrow> string" where
  "feedback_key o1 = ''physiology-effect-feedback:'' @ organism_id o1"

definition load_feedback :: "(string \<Rightarrow> int res) \<Rightarrow> string \<Rightarrow> json \<Rightarrow> feedback_state res" where
  "load_feedback trunc secret stored = (case stored of
      JObj d \<Rightarrow>
        if set (map fst d) \<noteq> {''payload'', ''state_mac''} then Inl (ValueError ''invalid persisted effect feedback envelope'')
        else (case (jget d ''payload'', jget d ''state_mac'') of
            (JObj payload, JStr supplied) \<Rightarrow>
              res_bind (compare_digest (feedback_mac secret payload) supplied) (\<lambda>same.
              res_bind (raise_if (\<not> same) (ValueError ''effect feedback state authentication failed'')) (\<lambda>_.
              validate_feedback trunc (JObj payload)))
          | _ \<Rightarrow> Inl (ValueError ''invalid persisted effect feedback envelope''))
    | _ \<Rightarrow> Inl (ValueError ''invalid persisted effect feedback envelope''))"

text \<open>The state a new loop starts with, from the journal it is given.\<close>

definition initial_feedback :: "(string \<Rightarrow> int res) \<Rightarrow> string \<Rightarrow> organism \<Rightarrow> journal \<Rightarrow> feedback_state res" where
  "initial_feedback trunc secret o1 j =
     res_bind (get_state j (feedback_key o1) JNull) (\<lambda>stored.
     if stored = JNull then Inr empty_feedback else load_feedback trunc secret stored)"

definition new_closed_loop ::
  "(string \<Rightarrow> int res) \<Rightarrow> string \<Rightarrow> organism \<Rightarrow> journal \<Rightarrow> homeostatic_policy \<Rightarrow> effect_feedback_policy \<Rightarrow> closed_loop res" where
  "new_closed_loop trunc secret o1 j hpolicy fpolicy =
     res_bind (raise_if (secret = '''') (ValueError ''feedback_state_secret must be a non-empty string'')) (\<lambda>_.
     res_bind (initial_feedback trunc secret o1 j) (\<lambda>st.
     res_bind (new_engine trunc o1 j hpolicy) (\<lambda>e.
     Inr \<lparr>cl_engine = e, cl_policy = fpolicy, cl_secret = secret, cl_state = st\<rparr>)))"

definition on_engine :: "(engine, 'a) eff \<Rightarrow> (closed_loop, 'a) eff" where
  "on_engine m = eff_part cl_engine (\<lambda>e l. l\<lparr>cl_engine := e\<rparr>) m"

definition loop_journal :: "(journal, 'a) eff \<Rightarrow> (closed_loop, 'a) eff" where
  "loop_journal m = on_engine (on_journal m)"

definition feedback_envelope :: "string \<Rightarrow> feedback_state \<Rightarrow> json" where
  "feedback_envelope secret st =
     (let payload = clone_obj (feedback_obj st) in
      JObj [(''payload'', JObj payload), (''state_mac'', JStr (feedback_mac secret payload))])"

definition persist_feedback :: "int \<Rightarrow> (closed_loop, unit) eff" where
  "persist_feedback now =
     eff_bind (eff_get (\<lambda>l. (feedback_key (e_organism (cl_engine l)), feedback_envelope (cl_secret l) (cl_state l))))
       (\<lambda>(k, v). loop_journal (set_state now k v))"

section \<open>Executing and measuring\<close>

text \<open>
  The executor the engine is given: a value that is no \<open>ExecutionResult\<close> raises inside it,
  so that the engine sees an exception.
\<close>

definition execute_and_capture :: "(jobj \<Rightarrow> exec_outcome) \<Rightarrow> jobj \<Rightarrow> exec_outcome" where
  "execute_and_capture executor proposal = (case executor proposal of
      NotAResult \<Rightarrow> Failed ''TypeError'' ''executor must return ExecutionResult''
    | outcome \<Rightarrow> outcome)"

text \<open>
  The readings of a tick: those of its cycle, and the measurement after the effect, which
  may raise an exception of a class with a message. The clock of the cycle is read under
  \<open>EFFECT_FEEDBACK\<close>, \<open>EFFECT_RECOVERY_GATE\<close> and \<open>feedback\<close> at the writes of the loop.
\<close>

record feedback_env =
  fb_cycle :: cycle_env
  fb_sample :: "(string \<times> string) + telemetry_sample"
  fb_journal_ok :: "(string \<times> string) + bool"

definition wrapped_env :: "feedback_env \<Rightarrow> cycle_env" where
  "wrapped_env env = (fb_cycle env)\<lparr>ce_executor := map_option execute_and_capture (ce_executor (fb_cycle env))\<rparr>"

text \<open>What the executor of a cycle that passed has left behind: it was called once, with the engine's copy.\<close>

definition captured :: "feedback_env \<Rightarrow> jobj option \<Rightarrow> exec_outcome option" where
  "captured env proposal = (case (ce_executor (wrapped_env env), proposal) of
      (Some executor, Some p) \<Rightarrow> Some (executor (clone_obj p))
    | _ \<Rightarrow> None)"

definition effect_status_of :: "exec_outcome option \<Rightarrow> string" where
  "effect_status_of outcome = (case outcome of
      Some (Executed status effect) \<Rightarrow> status
    | Some _ \<Rightarrow> ''ERROR''
    | None \<Rightarrow> ''UNKNOWN'')"

definition error_json :: "(string \<times> string) option \<Rightarrow> json" where
  "error_json e = (case e of None \<Rightarrow> JNull
    | Some (kind, message) \<Rightarrow> JObj [(''error_type'', JStr kind), (''error_message'', JStr message)])"

definition executor_error :: "exec_outcome option \<Rightarrow> (string \<times> string) option" where
  "executor_error outcome = (case outcome of Some (Failed kind message) \<Rightarrow> Some (kind, message) | _ \<Rightarrow> None)"

definition measure_effect ::
  "feedback_env \<Rightarrow> homeostatic_policy \<Rightarrow> telemetry_sample option \<times> health_assessment option \<times> (string \<times> string) option" where
  "measure_effect env policy = (case fb_sample env of
      Inl err \<Rightarrow> (None, None, Some err)
    | Inr s \<Rightarrow> (case fb_journal_ok env of
        Inl err \<Rightarrow> (Some s, None, Some err)
      | Inr ok \<Rightarrow> (Some s, Some (assess (ce_float_div (fb_cycle env)) policy s ok), None)))"

definition effect_success ::
  "effect_feedback_policy \<Rightarrow> string \<Rightarrow> health_assessment option \<Rightarrow> (string \<times> string) option \<Rightarrow> bool" where
  "effect_success p status assessment error \<longleftrightarrow> accepts p (Some status) \<and>
     (case assessment of None \<Rightarrow> False | Some a \<Rightarrow> as_state a = NORMAL) \<and> error = None"

text \<open>The update of streak and recovery gate.\<close>

definition update_feedback :: "effect_feedback_policy \<Rightarrow> bool \<Rightarrow> string \<Rightarrow> feedback_state \<Rightarrow> feedback_state" where
  "update_feedback p success cid st =
    (if success then st\<lparr>failure_streak := 0, recovery_required := False, recovery_for := None\<rparr>
     else let st1 = st\<lparr>failure_streak := failure_streak st + 1\<rparr> in
       if failure_streak st1 \<ge> failures_before_recovery_gate p
       then st1\<lparr>recovery_for := (case recovery_for st1 of None \<Rightarrow> Some cid | Some c \<Rightarrow> Some c), recovery_required := True\<rparr>
       else st1)"

definition feedback_inputs ::
  "cycle_result \<Rightarrow> bool \<Rightarrow> string \<Rightarrow> exec_outcome option \<Rightarrow>
   telemetry_sample option \<times> health_assessment option \<times> (string \<times> string) option \<Rightarrow> jobj" where
  "feedback_inputs cycle recovery status outcome m = (case m of (sample, assessment, error) \<Rightarrow>
     [(''schema'', JStr FEEDBACK_SCHEMA), (''cycle_id'', JStr (cr_cycle_id cycle)),
      (''cycle_receipt_hash'', JStr (cr_receipt_hash cycle)), (''was_recovery_attempt'', JBool recovery),
      (''effect_status'', JStr status), (''executor_error'', error_json (executor_error outcome)),
      (''measurement_error'', error_json error),
      (''post_effect_telemetry'', case sample of None \<Rightarrow> JNull | Some s \<Rightarrow> telemetry_json s),
      (''post_effect_health'', jopt (map_option (\<lambda>a. health_value (as_state a)) assessment)),
      (''post_effect_reasons'', JArr (case assessment of None \<Rightarrow> [] | Some a \<Rightarrow> map JStr (as_reasons a)))])"

definition feedback_outputs :: "bool \<Rightarrow> feedback_state \<Rightarrow> jobj" where
  "feedback_outputs success st =
     [(''effect_success'', JBool success), (''failure_streak'', JInt (failure_streak st)),
      (''recovery_required'', JBool (recovery_required st)), (''recovery_for_cycle_id'', jopt (recovery_for st))]"

definition record_effect_feedback ::
  "feedback_env \<Rightarrow> cycle_result \<Rightarrow> exec_outcome option \<Rightarrow> bool \<Rightarrow> (closed_loop, health_state option \<times> string \<times> string) eff" where
  "record_effect_feedback env cycle outcome recovery =
     (let status = effect_status_of outcome; clock = ce_clock (fb_cycle env) in
      eff_bind (eff_get (\<lambda>l. measure_effect env (e_policy (cl_engine l)))) (\<lambda>m.
      let assessment = fst (snd m); health = map_option as_state assessment in
      eff_bind (eff_get (\<lambda>l. effect_success (cl_policy l) status assessment (snd (snd m)))) (\<lambda>success.
      eff_bind (eff_modify (\<lambda>l. l\<lparr>cl_state := (update_feedback (cl_policy l) success (cr_cycle_id cycle) (cl_state l))
        \<lparr>last_effect_status := Some status, last_post_effect_health := health\<rparr>\<rparr>)) (\<lambda>_.
      eff_bind (eff_get (\<lambda>l. feedback_outputs success (cl_state l))) (\<lambda>outputs.
      let inputs = feedback_inputs cycle recovery status outcome m;
          digest = receipt_digest ''PHYSIOLOGY_EFFECT_FEEDBACK'' inputs outputs in
      eff_bind (eff_modify (\<lambda>l. l\<lparr>cl_state := (cl_state l)\<lparr>last_feedback_receipt_hash := Some digest\<rparr>\<rparr>)) (\<lambda>_.
      eff_bind (persist_feedback (clock ''feedback'')) (\<lambda>_.
      eff_bind (loop_journal (append (clock ''EFFECT_FEEDBACK'') (cr_cycle_id cycle @ '':effect-feedback'') ''physiology''
         ''EFFECT_FEEDBACK''
         [(''inputs'', JObj (clone_obj inputs)), (''outputs'', JObj (clone_obj outputs)),
          (''receipt'', JObj (evidence_receipt ''PHYSIOLOGY_EFFECT_FEEDBACK'' inputs outputs))]
         (Some (cr_cycle_id cycle @ '':effect'')) (Some (cr_cycle_id cycle)))) (\<lambda>_.
      eff_return (health, status, digest)))))))))"

section \<open>The tick\<close>

record closed_cycle =
  cc_cycle :: cycle_result
  cc_effective_decision :: "decision option"
  cc_post_effect_health :: "health_state option"
  cc_effect_status :: "string option"
  cc_recovery_required :: bool
  cc_recovery_for :: "string option"
  cc_feedback_receipt_hash :: "string option"
  cc_state_root :: string

definition closed_loop_root :: "cycle_result \<Rightarrow> feedback_state \<Rightarrow> string" where
  "closed_loop_root cycle st = stable_hash (JObj [(''schema'', JStr FEEDBACK_SCHEMA),
     (''organism_state_root'', JStr (cr_state_root cycle)), (''feedback_state'', JObj (feedback_obj st))])"

text \<open>The gate: \<open>None\<close> if the proposal may proceed, otherwise the reason it is held.\<close>

definition recovery_gate :: "feedback_state \<Rightarrow> jobj option \<Rightarrow> string option" where
  "recovery_gate st proposal = (case (recovery_for st, proposal) of
      (Some c, Some p) \<Rightarrow> if jget p ''recovery_for'' = JStr c then None
                          else Some (''effect recovery required for cycle '' @ c)
    | _ \<Rightarrow> None)"

definition recovery_attempt :: "feedback_state \<Rightarrow> jobj option \<Rightarrow> bool" where
  "recovery_attempt st proposal = (case (recovery_for st, proposal) of
      (Some c, Some p) \<Rightarrow> jget p ''recovery_for'' = JStr c
    | _ \<Rightarrow> False)"

definition record_gate_hold :: "feedback_env \<Rightarrow> cycle_result \<Rightarrow> string \<Rightarrow> (closed_loop, string) eff" where
  "record_gate_hold env cycle why =
     eff_bind (eff_get (\<lambda>l. [(''schema'', JStr FEEDBACK_SCHEMA), (''cycle_id'', JStr (cr_cycle_id cycle)),
        (''recovery_for_cycle_id'', jopt (recovery_for (cl_state l)))])) (\<lambda>inputs.
     let outputs = [(''decision'', JStr (decision_value HOLD)), (''reason'', JStr why)] in
     eff_bind (loop_journal (append (ce_clock (fb_cycle env) ''EFFECT_RECOVERY_GATE'')
        (cr_cycle_id cycle @ '':effect-recovery-gate'') ''physiology'' ''EFFECT_RECOVERY_GATE''
        [(''decision'', JStr (decision_value HOLD)), (''reason'', JStr why),
         (''receipt'', JObj (evidence_receipt ''PHYSIOLOGY_EFFECT_RECOVERY_GATE'' inputs outputs))]
        (Some (cr_cycle_id cycle @ '':memory'')) (Some (cr_cycle_id cycle)))) (\<lambda>_.
     eff_return (receipt_digest ''PHYSIOLOGY_EFFECT_RECOVERY_GATE'' inputs outputs)))"

definition held_tick :: "feedback_env \<Rightarrow> cycle_input \<Rightarrow> string \<Rightarrow> (closed_loop, closed_cycle) eff" where
  "held_tick env inp why =
     eff_bind (on_engine (tick (wrapped_env env) (inp\<lparr>ci_proposal := None\<rparr>))) (\<lambda>cycle.
     eff_bind (record_gate_hold env cycle why) (\<lambda>receipt.
     eff_bind (eff_get cl_state) (\<lambda>st.
     eff_return \<lparr>cc_cycle = cycle, cc_effective_decision = Some HOLD, cc_post_effect_health = None,
       cc_effect_status = None, cc_recovery_required = True, cc_recovery_for = recovery_for st,
       cc_feedback_receipt_hash = Some receipt, cc_state_root = closed_loop_root cycle st\<rparr>)))"

definition allowed_tick :: "feedback_env \<Rightarrow> cycle_input \<Rightarrow> bool \<Rightarrow> (closed_loop, closed_cycle) eff" where
  "allowed_tick env inp recovery =
     eff_bind (on_engine (tick (wrapped_env env) inp)) (\<lambda>cycle.
     eff_bind (if cr_decision cycle = Some PASS
               then eff_bind (record_effect_feedback env cycle (captured env (ci_proposal inp)) recovery)
                      (\<lambda>(h, s, d). eff_return (h, Some s, Some d))
               else eff_return (None, None, None)) (\<lambda>(health, status, receipt).
     eff_bind (eff_get cl_state) (\<lambda>st.
     eff_return \<lparr>cc_cycle = cycle, cc_effective_decision = cr_decision cycle, cc_post_effect_health = health,
       cc_effect_status = status, cc_recovery_required = recovery_required st, cc_recovery_for = recovery_for st,
       cc_feedback_receipt_hash = receipt, cc_state_root = closed_loop_root cycle st\<rparr>)))"

definition closed_tick :: "feedback_env \<Rightarrow> cycle_input \<Rightarrow> (closed_loop, closed_cycle) eff" where
  "closed_tick env inp0 =
     (let inp = inp0\<lparr>ci_proposal := map_option clone_obj (ci_proposal inp0)\<rparr> in
      eff_bind (eff_get cl_state) (\<lambda>st.
      case recovery_gate st (ci_proposal inp) of
        Some why \<Rightarrow> held_tick env inp why
      | None \<Rightarrow> allowed_tick env inp (recovery_attempt st (ci_proposal inp))))"

end
