(* ===== verification/Homeostatic_Supervisor.thy ===== *)
theory Homeostatic_Supervisor
  imports Effect_Feedback
begin

text \<open>
  \<open>app/homeostatic_supervisor.py\<close>: the supervisor above the closed loop. While a recovery is
  pending it makes the proposals itself, from a policy whose fingerprint was bound in the
  journal before the failure; each attempt takes a number from a durable counter, and
  proposal and outcome are written to the journal with their receipts.
\<close>

definition SUPERVISOR_SCHEMA :: string where
  "SUPERVISOR_SCHEMA = ''matverse.bounded-autonomous-recovery.v1''"

definition RESERVED_POLICY_KEYS :: "string list" where
  "RESERVED_POLICY_KEYS = [''action'', ''recovery_for'']"

section \<open>The recovery policy\<close>

record recovery_policy =
  rp_action :: string
  rp_parameters_json :: string

definition build_policy :: "string \<Rightarrow> jobj option \<Rightarrow> recovery_policy res" where
  "build_policy action parameters =
     res_bind (raise_if (blank action) (ValueError ''action must be a non-empty string'')) (\<lambda>_.
     let params = (case parameters of None \<Rightarrow> [] | Some d \<Rightarrow> clone_obj d) in
     res_bind (raise_if (\<exists>k \<in> set RESERVED_POLICY_KEYS. k \<in> set (map fst params)) (ValueError ''reserved recovery policy keys'')) (\<lambda>_.
     Inr \<lparr>rp_action = strip action, rp_parameters_json = canonical_json (JObj params)\<rparr>))"

definition fingerprint :: "recovery_policy \<Rightarrow> string res" where
  "fingerprint p = res_bind (json_loads (rp_parameters_json p)) (\<lambda>parameters.
     Inr (stable_hash (JObj [(''schema'', JStr SUPERVISOR_SCHEMA), (''action'', JStr (rp_action p)),
                             (''parameters'', parameters)])))"

definition proposal_for :: "recovery_policy \<Rightarrow> feedback_state \<Rightarrow> jobj res" where
  "proposal_for p st = (case (recovery_required st, recovery_for st) of
      (True, Some c) \<Rightarrow>
        res_bind (json_loads (rp_parameters_json p)) (\<lambda>v. case v of
            JObj d \<Rightarrow> Inr (dict_set (dict_set d ''action'' (JStr (rp_action p))) ''recovery_for'' (JStr c))
          | _ \<Rightarrow> Inl (TypeError ''object does not support item assignment''))
    | _ \<Rightarrow> Inl (ValueError ''recovery policy may run only while recovery is required''))"

section \<open>The supervisor\<close>

record supervisor =
  sv_loop :: closed_loop
  sv_policy :: recovery_policy

definition supervisor_organism :: "supervisor \<Rightarrow> organism" where
  "supervisor_organism s = e_organism (cl_engine (sv_loop s))"

definition supervisor_journal :: "supervisor \<Rightarrow> journal" where
  "supervisor_journal s = e_journal (cl_engine (sv_loop s))"

definition policy_key :: "organism \<Rightarrow> string" where
  "policy_key o1 = ''bounded-recovery-policy:'' @ organism_id o1"

definition attempt_key :: "organism \<Rightarrow> string" where
  "attempt_key o1 = ''bounded-recovery-attempts:'' @ organism_id o1"

definition on_loop :: "(closed_loop, 'a) eff \<Rightarrow> (supervisor, 'a) eff" where
  "on_loop m = eff_part sv_loop (\<lambda>l s. s\<lparr>sv_loop := l\<rparr>) m"

definition bind_or_validate_policy :: "int \<Rightarrow> (supervisor, unit) eff" where
  "bind_or_validate_policy now =
     eff_bind (eff_get (\<lambda>s. get_state (supervisor_journal s) (policy_key (supervisor_organism s)) JNull)) (\<lambda>got.
     eff_bind (eff_lift got) (\<lambda>stored.
     eff_bind (eff_get (\<lambda>s. fingerprint (sv_policy s))) (\<lambda>fp.
     eff_bind (eff_lift fp) (\<lambda>current.
     case stored of
       JNull \<Rightarrow>
         eff_bind (eff_get (\<lambda>s. recovery_required (cl_state (sv_loop s)))) (\<lambda>pending.
         eff_bind (eff_lift (raise_if pending (RuntimeError ''pending recovery has no pre-bound recovery policy''))) (\<lambda>_.
         eff_bind (eff_get (\<lambda>s. policy_key (supervisor_organism s))) (\<lambda>k.
         on_loop (loop_journal (set_state now k
           (JObj [(''schema'', JStr SUPERVISOR_SCHEMA), (''policy_fingerprint'', JStr current)]))))))
     | JObj d \<Rightarrow>
         eff_bind (eff_lift (raise_if (jget d ''schema'' \<noteq> JStr SUPERVISOR_SCHEMA)
                    (ValueError ''unsupported recovery policy binding schema''))) (\<lambda>_.
         eff_lift (raise_if (jget d ''policy_fingerprint'' \<noteq> JStr current)
                    (ValueError ''recovery policy fingerprint mismatch'')))
     | _ \<Rightarrow> eff_raise (ValueError ''invalid persisted recovery policy binding'')))))"

definition new_supervisor :: "int \<Rightarrow> closed_loop \<Rightarrow> recovery_policy \<Rightarrow> unit res \<times> supervisor" where
  "new_supervisor now l p = bind_or_validate_policy now \<lparr>sv_loop = l, sv_policy = p\<rparr>"

definition next_attempt_number :: "(string \<Rightarrow> int res) \<Rightarrow> int \<Rightarrow> string \<Rightarrow> (supervisor, int) eff" where
  "next_attempt_number trunc now origin =
     eff_bind (eff_get (\<lambda>s. get_state (supervisor_journal s) (attempt_key (supervisor_organism s)) (JObj []))) (\<lambda>got.
     eff_bind (eff_lift got) (\<lambda>state. case state of
       JObj d \<Rightarrow>
         eff_bind (eff_lift (json_int trunc (get_default d origin (JInt 0)))) (\<lambda>current.
         eff_bind (eff_lift (raise_if (current < 0) (ValueError ''invalid persisted recovery attempt counter''))) (\<lambda>_.
         eff_bind (eff_get (\<lambda>s. attempt_key (supervisor_organism s))) (\<lambda>k.
         eff_bind (on_loop (loop_journal (set_state now k (JObj (dict_set d origin (JInt (current + 1))))))) (\<lambda>_.
         eff_return (current + 1)))))
     | _ \<Rightarrow> eff_raise (ValueError ''invalid persisted recovery attempt state'')))"

definition carries_receipt :: "string \<Rightarrow> journal_event \<Rightarrow> bool" where
  "carries_receipt digest e = (case je_payload e of
      JObj d \<Rightarrow> (case jget d ''receipt'' of JObj r \<Rightarrow> jget r ''receipt_hash'' = JStr digest | _ \<Rightarrow> False)
    | _ \<Rightarrow> False)"

text \<open>The last event carrying the receipt among those one \<open>read\<close> with its largest limit returns.\<close>

definition feedback_event_id_for_receipt :: "journal \<Rightarrow> string option \<Rightarrow> string res" where
  "feedback_event_id_for_receipt j receipt = (case receipt of
      None \<Rightarrow> Inl (RuntimeError ''pending recovery has no source feedback receipt'')
    | Some digest \<Rightarrow>
        res_bind (read j 0 10000 (Some ''physiology'')) (\<lambda>es.
        case find (carries_receipt digest) (rev es) of
          Some e \<Rightarrow> Inr (ev_id (je_row e))
        | None \<Rightarrow> Inl (RuntimeError ''source feedback event for pending recovery was not found'')))"

section \<open>One step\<close>

record step_result =
  sr_cycle :: closed_cycle
  sr_attempted :: bool
  sr_origin :: "string option"
  sr_fingerprint :: "string option"
  sr_proposal_receipt :: "string option"
  sr_outcome_receipt :: "string option"

definition flags_json :: "gate_flags \<Rightarrow> json" where
  "flags_json f = JObj [(''ontology_ok'', JBool (ontology_ok f)), (''signature_valid'', JBool (signature_valid f)),
     (''transition_valid'', JBool (transition_valid f))]"

definition proposal_inputs ::
  "string \<Rightarrow> string \<Rightarrow> int \<Rightarrow> string \<Rightarrow> string option \<Rightarrow> string \<Rightarrow> cycle_input \<Rightarrow> jobj" where
  "proposal_inputs oid origin n source receipt fp inp =
     [(''schema'', JStr SUPERVISOR_SCHEMA), (''organism_id'', JStr oid), (''recovery_origin_cycle_id'', JStr origin),
      (''attempt_number'', JInt n), (''source_feedback_event_id'', JStr source),
      (''source_feedback_receipt_hash'', jopt receipt), (''policy_fingerprint'', JStr fp),
      (''gate_inputs'', flags_json (ci_flags inp)),
      (''human_input_hash'', jopt (map_option (\<lambda>h. stable_hash (JObj h)) (ci_human inp)))]"

definition outcome_outputs :: "closed_cycle \<Rightarrow> jobj" where
  "outcome_outputs c =
     [(''effective_decision'', jopt (map_option decision_value (cc_effective_decision c))),
      (''executed'', JBool (cr_executed (cc_cycle c))),
      (''post_effect_health'', jopt (map_option health_value (cc_post_effect_health c))),
      (''recovery_required'', JBool (cc_recovery_required c)), (''recovery_cleared'', JBool (\<not> cc_recovery_required c)),
      (''feedback_receipt_hash'', jopt (cc_feedback_receipt_hash c)), (''closed_loop_state_root'', JStr (cc_state_root c))]"

definition outcome_inputs :: "string \<Rightarrow> string \<Rightarrow> closed_cycle \<Rightarrow> int \<Rightarrow> jobj" where
  "outcome_inputs receipt origin c n =
     [(''schema'', JStr SUPERVISOR_SCHEMA), (''proposal_receipt_hash'', JStr receipt),
      (''recovery_origin_cycle_id'', JStr origin), (''recovery_cycle_id'', JStr (cr_cycle_id (cc_cycle c))),
      (''attempt_number'', JInt n)]"

definition attempt_event_id :: "string \<Rightarrow> int \<Rightarrow> jobj \<Rightarrow> string \<Rightarrow> string" where
  "attempt_event_id origin n inputs receipt = origin @ '':autonomous-recovery:'' @ int_text n @ '':'' @
     take 16 (stable_hash (JObj (inputs @ [(''proposal_receipt_hash'', JStr receipt)])))"

text \<open>The attempt itself, once its number and its source event are known.\<close>

definition run_attempt ::
  "feedback_env \<Rightarrow> cycle_input \<Rightarrow> string \<Rightarrow> int \<Rightarrow> jobj \<Rightarrow> jobj \<Rightarrow> string \<Rightarrow> string \<Rightarrow> (supervisor, step_result) eff" where
  "run_attempt env inp origin n inputs proposal fp source =
     (let outputs = [(''proposal'', JObj proposal)];
          receipt = receipt_digest ''BOUNDED_AUTONOMOUS_RECOVERY_PROPOSAL'' inputs outputs;
          clock = ce_clock (fb_cycle env) in
      eff_bind (on_loop (loop_journal (append (clock ''BOUNDED_AUTONOMOUS_RECOVERY_PROPOSED'')
         (attempt_event_id origin n inputs receipt) ''physiology'' ''BOUNDED_AUTONOMOUS_RECOVERY_PROPOSED''
         [(''inputs'', JObj inputs), (''outputs'', JObj outputs),
          (''receipt'', JObj (evidence_receipt ''BOUNDED_AUTONOMOUS_RECOVERY_PROPOSAL'' inputs outputs))]
         (Some source) (Some origin)))) (\<lambda>event.
      eff_bind (on_loop (closed_tick env (inp\<lparr>ci_proposal := Some proposal\<rparr>))) (\<lambda>cycle.
      let oin = outcome_inputs receipt origin cycle n; oout = outcome_outputs cycle in
      eff_bind (on_loop (loop_journal (append (clock ''BOUNDED_AUTONOMOUS_RECOVERY_OUTCOME'')
         (ev_id (je_row event) @ '':outcome'') ''physiology'' ''BOUNDED_AUTONOMOUS_RECOVERY_OUTCOME''
         [(''inputs'', JObj oin), (''outputs'', JObj oout),
          (''receipt'', JObj (evidence_receipt ''BOUNDED_AUTONOMOUS_RECOVERY_OUTCOME'' oin oout))]
         (Some (ev_id (je_row event))) (Some origin)))) (\<lambda>_.
      eff_return \<lparr>sr_cycle = cycle, sr_attempted = True, sr_origin = Some origin, sr_fingerprint = Some fp,
        sr_proposal_receipt = Some receipt,
        sr_outcome_receipt = Some (receipt_digest ''BOUNDED_AUTONOMOUS_RECOVERY_OUTCOME'' oin oout)\<rparr>))))"

definition recovery_step :: "(string \<Rightarrow> int res) \<Rightarrow> feedback_env \<Rightarrow> cycle_input \<Rightarrow> (supervisor, step_result) eff" where
  "recovery_step trunc env inp =
     eff_bind (eff_lift (raise_if (ci_proposal inp \<noteq> None)
       (ValueError ''external proposal is not accepted while bounded autonomous recovery is pending''))) (\<lambda>_.
     eff_bind (eff_get (\<lambda>s. cl_state (sv_loop s))) (\<lambda>st. case recovery_for st of
       None \<Rightarrow> eff_raise (RuntimeError ''recovery_required without recovery origin'')
     | Some origin \<Rightarrow>
         eff_bind (next_attempt_number trunc (ce_clock (fb_cycle env) ''attempt'') origin) (\<lambda>n.
         eff_bind (eff_get (\<lambda>s. feedback_event_id_for_receipt (supervisor_journal s) (last_feedback_receipt_hash st))) (\<lambda>found.
         eff_bind (eff_lift found) (\<lambda>source.
         eff_bind (eff_get (\<lambda>s. proposal_for (sv_policy s) st)) (\<lambda>made.
         eff_bind (eff_lift made) (\<lambda>proposal.
         eff_bind (eff_get (\<lambda>s. fingerprint (sv_policy s))) (\<lambda>fingerprinted.
         eff_bind (eff_lift fingerprinted) (\<lambda>fp.
         eff_bind (eff_get (\<lambda>s. proposal_inputs (organism_id (supervisor_organism s)) origin n source
                      (last_feedback_receipt_hash st) fp inp)) (\<lambda>inputs.
         run_attempt env inp origin n inputs proposal fp source))))))))))"

definition supervisor_step :: "(string \<Rightarrow> int res) \<Rightarrow> feedback_env \<Rightarrow> cycle_input \<Rightarrow> (supervisor, step_result) eff" where
  "supervisor_step trunc env inp =
     eff_bind (bind_or_validate_policy (ce_clock (fb_cycle env) ''policy'')) (\<lambda>_.
     eff_bind (eff_get (\<lambda>s. recovery_required (cl_state (sv_loop s)))) (\<lambda>pending.
     if \<not> pending then
       eff_bind (on_loop (closed_tick env inp)) (\<lambda>cycle.
       eff_return \<lparr>sr_cycle = cycle, sr_attempted = False, sr_origin = None, sr_fingerprint = None,
         sr_proposal_receipt = None, sr_outcome_receipt = None\<rparr>)
     else recovery_step trunc env inp))"

end
