(* ===== verification/Feedback_Properties.thy ===== *)
theory Feedback_Properties
  imports Effect_Feedback
begin

text \<open>
  The guarantees of the closed loop: its state survives restarts and exceptions, the gate
  holds every proposal that does not name the cycle to recover, recovery ends only with an
  accepted effect and a fresh normal measurement, and only an authenticated state is loaded.
  The locale \<open>cycle_invariant\<close> is the contract of a cycle with whoever keeps an invariant of
  the engine: what holds of the writes of a cycle holds of the cycle, also when it raises.
\<close>

section \<open>Invariants of a cycle\<close>

locale cycle_invariant =
  fixes P :: "engine \<Rightarrow> bool"
  assumes keeps_append: "eff_keeps P (on_journal (append t eid topic etype payload ca co))"
    and keeps_state: "eff_keeps P (persist_runtime_state t)"
    and keeps_root: "eff_keeps P (on_organism root_eff)"
    and keeps_evaluate: "eff_keeps P (on_organism (evaluate_eff genv eid p h f))"
    and keeps_runtime: "P e \<Longrightarrow> P (e\<lparr>e_runtime := rt\<rparr>)"
begin

lemmas parts = keeps_append keeps_state keeps_root keeps_evaluate

lemma record_keeps: "eff_keeps P (record_event env cid s ty p c)"
  unfolding record_event_def by (intro keeps_intros parts)

lemma sense_keeps: "eff_keeps P (sense_and_plan env cid k)"
  unfolding sense_and_plan_def Let_def
  by (intro keeps_intros keeps_modify parts record_keeps) (rule keeps_runtime)

lemma decide_keeps: "eff_keeps P (decide_proposal env cid plan p inp)"
  unfolding decide_proposal_def Let_def by (intro keeps_intros parts record_keeps)

lemma execute_keeps: "eff_keeps P (execute_proposal env cid d p)"
  unfolding execute_proposal_def by (auto split: option.split intro!: keeps_intros record_keeps)

lemma handle_keeps: "eff_keeps P (handle_proposal env cid plan inp)"
  unfolding handle_proposal_def Let_def
  by (auto split: option.split intro!: keeps_intros decide_keeps execute_keeps)

lemma close_keeps: "eff_keeps P (close_cycle env cid k a act plan d x ev)"
  unfolding close_cycle_def Let_def by (intro keeps_intros parts record_keeps)

lemma tick_keeps: "eff_keeps P (tick env inp)"
  unfolding tick_def
  by (intro keeps_intros keeps_modify parts)
    (auto intro!: keeps_runtime keeps_intros sense_keeps handle_keeps close_keeps)

end

text \<open>A key of the runtime state other than the engine's own keeps its value.\<close>

definition slot_is :: "string \<Rightarrow> string \<Rightarrow> (string \<times> int) option \<Rightarrow> engine \<Rightarrow> bool" where
  "slot_is oid k v e \<longleftrightarrow> organism_id (e_organism e) = oid \<and> map_of (runtime_state (e_journal e)) k = v"

lemma strip_prefix:
  assumes "p \<noteq> []" and "\<not> is_space (hd p)" and "\<not> is_space (last p)"
  shows "strip (p @ s) = p @ rev (dropWhile is_space (rev s))"
proof -
  have "dropWhile is_space (p @ s) = p @ s" using assms(1,2) by (cases p) auto
  moreover have "dropWhile is_space (rev s @ rev p) = dropWhile is_space (rev s) @ rev p"
  proof (cases "\<forall>c \<in> set (rev s). is_space c")
    case True
    then have "dropWhile is_space (rev s @ rev p) = dropWhile is_space (rev p)"
      by (intro dropWhile_append2) simp
    also have "\<dots> = rev p" using assms(1,3) by (cases p rule: rev_cases) auto
    finally show ?thesis using True by simp
  next
    case False
    then show ?thesis by (meson dropWhile_append1)
  qed
  ultimately show ?thesis by (simp add: strip_def)
qed

definition feedback_slot_key :: "string \<Rightarrow> string" where
  "feedback_slot_key oid = strip (''physiology-effect-feedback:'' @ oid)"

lemma keys_apart: "strip (state_key o1) \<noteq> feedback_slot_key oid"
  by (simp add: state_key_def feedback_slot_key_def strip_prefix is_space_def del: append.simps) simp

lemma set_state_slot:
  "set_state now k v j = (r, j') \<Longrightarrow> strip k \<noteq> k' \<Longrightarrow> map_of (runtime_state j') k' = map_of (runtime_state j) k'"
  by (auto simp: set_state_def eff_bind_def validate_label_def split: if_splits)

lemma append_slot: "append t eid topic etype payload ca co j = (r, j') \<Longrightarrow> runtime_state j' = runtime_state j"
  by (drule append_events) auto

lemma slot_cycle_invariant:
  assumes "\<And>o1. strip (state_key o1) \<noteq> k"
  shows "cycle_invariant (slot_is oid k v)"
proof unfold_locales
  fix t eid topic etype payload ca co genv p h f e rt
  let ?P = "slot_is oid k v"
  show "eff_keeps ?P (on_journal (append t eid topic etype payload ca co))"
    by (auto simp: eff_keeps_def slot_is_def on_journal_def eff_part_def split: prod.splits dest: append_slot)
  show "eff_keeps ?P (persist_runtime_state t)"
    unfolding eff_keeps_def persist_runtime_state_def
    by (auto simp: slot_is_def on_journal_def eff_part_def eff_bind_def split: prod.splits
        dest!: set_state_slot [OF _ assms])
  show "eff_keeps ?P (on_organism root_eff)"
    by (auto simp: eff_keeps_def slot_is_def on_organism_def eff_part_def root_eff_def split: prod.splits)
      (metis same_stateD(3) snd_conv state_root_same)
  show "eff_keeps ?P (on_organism (evaluate_eff genv eid p h f))"
    by (auto simp: eff_keeps_def slot_is_def on_organism_def eff_part_def evaluate_eff_def
        split: prod.splits sum.splits dest!: evaluate_effect(2) simp: same_identity_def)
  show "?P (e\<lparr>e_runtime := rt\<rparr>)" if "?P e" using that by (simp add: slot_is_def)
qed

interpretation feedback_slot: cycle_invariant "slot_is oid (feedback_slot_key oid) v" for oid v
  by (rule slot_cycle_invariant [OF keys_apart])

section \<open>Storing and loading the feedback state\<close>

definition feedback_ok :: "feedback_state \<Rightarrow> bool" where
  "feedback_ok st \<longleftrightarrow> 0 \<le> failure_streak st \<and> (recovery_required st \<longleftrightarrow> recovery_for st \<noteq> None) \<and>
     recovery_for st \<noteq> Some '''' \<and> (\<forall>h. last_feedback_receipt_hash st = Some h \<longrightarrow> hex_lower_n 64 h)"

lemma empty_feedback_ok: "feedback_ok empty_feedback"
  by (simp add: feedback_ok_def empty_feedback_def)

lemma wf_feedback_obj: "wf_json (JObj (feedback_obj st))"
  by (simp add: feedback_obj_def)

lemma health_json: "health_of_json (JStr (health_value h)) = Inr h"
  by (cases h) (simp_all add: health_of_json_def)

lemma optional_text_jopt: "(\<And>s. v = Some s \<Longrightarrow> good s) \<Longrightarrow> optional_text (jopt v) good m = Inr v"
  by (cases v) (simp_all add: optional_text_def)

lemma feedback_fields:
  "get_default (clone_obj (feedback_obj st)) ''schema'' d = JStr FEEDBACK_SCHEMA"
  "get_default (clone_obj (feedback_obj st)) ''failure_streak'' d = JInt (failure_streak st)"
  "get_default (clone_obj (feedback_obj st)) ''recovery_required'' d = JBool (recovery_required st)"
  "jget (clone_obj (feedback_obj st)) ''recovery_for_cycle_id'' = jopt (recovery_for st)"
  "jget (clone_obj (feedback_obj st)) ''last_effect_status'' = jopt (last_effect_status st)"
  "jget (clone_obj (feedback_obj st)) ''last_post_effect_health'' =
     jopt (map_option health_value (last_post_effect_health st))"
  "jget (clone_obj (feedback_obj st)) ''last_feedback_receipt_hash'' = jopt (last_feedback_receipt_hash st)"
proof -
  have ok: "dict_ok (feedback_obj st)" by (rule wf_JObj_dict_ok [OF wf_feedback_obj])
  show "get_default (clone_obj (feedback_obj st)) ''schema'' d = JStr FEEDBACK_SCHEMA"
    "get_default (clone_obj (feedback_obj st)) ''failure_streak'' d = JInt (failure_streak st)"
    "get_default (clone_obj (feedback_obj st)) ''recovery_required'' d = JBool (recovery_required st)"
    by (simp_all add: get_default_def map_of_clone [OF ok]) (simp_all add: feedback_obj_def sort_json.simps)
  show "jget (clone_obj (feedback_obj st)) ''recovery_for_cycle_id'' = jopt (recovery_for st)"
    "jget (clone_obj (feedback_obj st)) ''last_effect_status'' = jopt (last_effect_status st)"
    "jget (clone_obj (feedback_obj st)) ''last_post_effect_health'' =
       jopt (map_option health_value (last_post_effect_health st))"
    "jget (clone_obj (feedback_obj st)) ''last_feedback_receipt_hash'' = jopt (last_feedback_receipt_hash st)"
    by (simp_all add: jget_clone [OF ok]) (simp_all add: feedback_obj_def jget_def)
qed

lemma validate_stored:
  assumes "feedback_ok st"
  shows "validate_feedback trunc (JObj (clone_obj (feedback_obj st))) = Inr st"
proof -
  have health: "(if jopt (map_option health_value h) = JNull then Inr None
      else res_bind (health_of_json (jopt (map_option health_value h))) (\<lambda>x. Inr (Some x))) = Inr h" for h
    by (cases h) (simp_all add: health_json)
  have texts: "optional_text (jopt (recovery_for st)) (\<lambda>s. s \<noteq> '''') m = Inr (recovery_for st)"
    "optional_text (jopt (last_effect_status st)) (\<lambda>s. True) m = Inr (last_effect_status st)"
    "optional_text (jopt (last_feedback_receipt_hash st)) (hex_lower_n 64) m = Inr (last_feedback_receipt_hash st)" for m
    using assms by (auto simp: feedback_ok_def intro!: optional_text_jopt)
  show ?thesis
    unfolding validate_feedback_def json.case feedback_fields health texts
    using assms by (cases st; cases "recovery_for st") (simp_all add: Let_def json_int_def feedback_ok_def truthy.simps)
qed

lemma feedback_mac_ascii: "is_ascii (feedback_mac secret d)"
  by (simp add: feedback_mac_def)

lemma load_envelope:
  assumes "feedback_ok st"
  shows "load_feedback trunc secret (sort_json (feedback_envelope secret st)) = Inr st"
proof -
  define p where "p = clone_obj (feedback_obj st)"
  have "sort_json (feedback_envelope secret st) =
      JObj [(''payload'', JObj p), (''state_mac'', JStr (feedback_mac secret p))]"
    by (simp add: feedback_envelope_def p_def [symmetric] sort_json.simps) (simp add: p_def)
  moreover have "validate_feedback trunc (JObj p) = Inr st" using validate_stored [OF assms] by (simp add: p_def)
  ultimately show ?thesis
    by (simp add: load_feedback_def jget_def compare_digest_def feedback_mac_ascii insert_commute)
qed

lemma wf_envelope: "wf_json (feedback_envelope secret st)"
  by (simp add: feedback_envelope_def Let_def wf_feedback_obj)

lemma feedback_key_slot: "strip (feedback_key o1) = feedback_slot_key (organism_id o1)" "\<not> blank (feedback_key o1)"
  by (simp_all add: feedback_key_def feedback_slot_key_def blank_iff is_space_def)

text \<open>What is loaded depends on one entry of the runtime state and the organism's id.\<close>

lemma initial_feedback_slot:
  "initial_feedback trunc secret o1 j =
    res_bind (case map_of (runtime_state j) (feedback_slot_key (organism_id o1)) of
        None \<Rightarrow> Inr JNull | Some (v, t) \<Rightarrow> json_loads v)
      (\<lambda>stored. if stored = JNull then Inr empty_feedback else load_feedback trunc secret stored)"
  by (simp add: initial_feedback_def get_state_def validate_label_def feedback_key_slot)

definition in_sync :: "(string \<Rightarrow> int res) \<Rightarrow> closed_loop \<Rightarrow> bool" where
  "in_sync trunc l \<longleftrightarrow> feedback_ok (cl_state l) \<and>
     initial_feedback trunc (cl_secret l) (e_organism (cl_engine l)) (e_journal (cl_engine l)) = Inr (cl_state l)"

section \<open>The parts of a tick\<close>

lemma on_engine_eq:
  "on_engine m l = (r, l') \<longleftrightarrow> (\<exists>e. m (cl_engine l) = (r, e) \<and> l' = l\<lparr>cl_engine := e\<rparr>)"
  by (auto simp: on_engine_def eff_part_def split: prod.splits)

lemma loop_journal_eq:
  "loop_journal m l = (r, l') \<longleftrightarrow>
     (\<exists>j. m (e_journal (cl_engine l)) = (r, j) \<and> l' = l\<lparr>cl_engine := (cl_engine l)\<lparr>e_journal := j\<rparr>\<rparr>)"
  by (auto simp: loop_journal_def on_engine_eq on_journal_eq)

lemma tick_slot:
  assumes "tick env inp e = (r, e')" and "slot_is oid (feedback_slot_key oid) v e"
  shows "slot_is oid (feedback_slot_key oid) v e'"
  using eff_keepsD [OF feedback_slot.tick_keeps assms(2,1)] .

lemma in_sync_slot:
  assumes "in_sync trunc l" and "cl_state l' = cl_state l" and "cl_secret l' = cl_secret l"
    and "\<And>v. slot_is (organism_id (e_organism (cl_engine l))) (feedback_slot_key (organism_id (e_organism (cl_engine l)))) v
        (cl_engine l) \<Longrightarrow>
      slot_is (organism_id (e_organism (cl_engine l))) (feedback_slot_key (organism_id (e_organism (cl_engine l)))) v
        (cl_engine l')"
  shows "in_sync trunc l'"
  using assms(1,2,3) assms(4) [unfolded slot_is_def, OF conjI [OF refl refl]]
  by (simp add: in_sync_def initial_feedback_slot)

text \<open>The engine's tick leaves the feedback state, and what is stored of it, as they are.\<close>

lemma engine_tick:
  assumes "on_engine (tick env inp) l = (r, l')"
  shows "cl_state l' = cl_state l \<and> cl_policy l' = cl_policy l \<and> cl_secret l' = cl_secret l \<and>
    (in_sync trunc l \<longrightarrow> in_sync trunc l')"
proof -
  obtain e where e: "tick env inp (cl_engine l) = (r, e)" "l' = l\<lparr>cl_engine := e\<rparr>"
    using assms by (auto simp: on_engine_eq)
  have "in_sync trunc l'" if s: "in_sync trunc l"
    by (rule in_sync_slot [OF s]) (use e tick_slot [OF e(1)] in simp_all)
  then show ?thesis using e(2) by simp
qed

lemma loop_append:
  assumes "loop_journal (append t eid topic etype payload ca co) l = (r, l')"
  shows "cl_state l' = cl_state l \<and> cl_policy l' = cl_policy l \<and> cl_secret l' = cl_secret l \<and>
    e_organism (cl_engine l') = e_organism (cl_engine l) \<and> (in_sync trunc l \<longrightarrow> in_sync trunc l')"
proof -
  obtain j where j: "append t eid topic etype payload ca co (e_journal (cl_engine l)) = (r, j)"
    "l' = l\<lparr>cl_engine := (cl_engine l)\<lparr>e_journal := j\<rparr>\<rparr>" using assms by (auto simp: loop_journal_eq)
  have "in_sync trunc l'" if s: "in_sync trunc l"
    by (rule in_sync_slot [OF s]) (use j append_slot [OF j(1)] in \<open>simp_all add: slot_is_def\<close>)
  then show ?thesis using j(2) by simp
qed

lemma persist_feedback_result:
  "persist_feedback now l = (Inr (), l\<lparr>cl_engine := (cl_engine l)\<lparr>e_journal :=
     put_state now (feedback_key (e_organism (cl_engine l))) (feedback_envelope (cl_secret l) (cl_state l))
       (e_journal (cl_engine l))\<rparr>\<rparr>)"
  using feedback_key_slot(2) [of "e_organism (cl_engine l)"]
  by (simp add: persist_feedback_def loop_journal_def on_engine_def on_journal_def eff_part_def put_state_def
      set_state_def validate_label_def)

lemma persist_syncs:
  assumes "feedback_ok (cl_state l)" and "persist_feedback now l = (r, l')"
  shows "in_sync trunc l' \<and> cl_state l' = cl_state l \<and> r = Inr ()"
proof -
  have "get_state (put_state now (feedback_key o1) (feedback_envelope s st) j) (feedback_key o1) JNull =
      Inr (sort_json (feedback_envelope s st))" for o1 s st j
    by (rule journal_store.get_put [OF feedback_key_slot(2) wf_envelope])
  moreover have "sort_json (feedback_envelope s st) \<noteq> JNull" for s st
    by (simp add: feedback_envelope_def Let_def sort_json.simps)
  ultimately show ?thesis
    using assms by (auto simp: in_sync_def initial_feedback_def persist_feedback_result load_envelope)
qed

text \<open>The state after an effect.\<close>

definition feedback_after ::
  "effect_feedback_policy \<Rightarrow> string \<Rightarrow> health_assessment option \<times> (string \<times> string) option \<Rightarrow> string \<Rightarrow> string \<Rightarrow>
   feedback_state \<Rightarrow> feedback_state" where
  "feedback_after p status m cid digest st = (update_feedback p (effect_success p status (fst m) (snd m)) cid st)
     \<lparr>last_effect_status := Some status, last_post_effect_health := map_option as_state (fst m),
      last_feedback_receipt_hash := Some digest\<rparr>"

lemma feedback_after_ok:
  assumes "feedback_ok st" and "cid \<noteq> ''''" and "hex_lower_n 64 digest"
  shows "feedback_ok (feedback_after p status m cid digest st)"
  using assms by (auto simp: feedback_ok_def feedback_after_def update_feedback_def Let_def split: option.splits)

lemma record_result:
  assumes "record_effect_feedback env cycle outcome recovery l = (r, l')"
    and "feedback_ok (cl_state l)" and "cr_cycle_id cycle \<noteq> ''''"
  obtains digest where "hex_lower_n 64 digest"
    "cl_state l' = feedback_after (cl_policy l) (effect_status_of outcome)
       (snd (measure_effect env (e_policy (cl_engine l)))) (cr_cycle_id cycle) digest (cl_state l)"
    "cl_policy l' = cl_policy l" "cl_secret l' = cl_secret l" "e_organism (cl_engine l') = e_organism (cl_engine l)"
    "in_sync trunc l'"
    "\<And>h s d. r = Inr (h, s, d) \<Longrightarrow> h = map_option as_state (fst (snd (measure_effect env (e_policy (cl_engine l))))) \<and>
       s = effect_status_of outcome \<and> d = digest"
proof -
  define status where "status = effect_status_of outcome"
  define m where "m = measure_effect env (e_policy (cl_engine l))"
  define success where "success = effect_success (cl_policy l) status (fst (snd m)) (snd (snd m))"
  define l1 where "l1 = l\<lparr>cl_state := (update_feedback (cl_policy l) success (cr_cycle_id cycle) (cl_state l))
        \<lparr>last_effect_status := Some status, last_post_effect_health := map_option as_state (fst (snd m))\<rparr>\<rparr>"
  define inputs where "inputs = feedback_inputs cycle recovery status outcome m"
  define outputs where "outputs = feedback_outputs success (cl_state l1)"
  define digest where "digest = receipt_digest ''PHYSIOLOGY_EFFECT_FEEDBACK'' inputs outputs"
  define l2 where "l2 = l1\<lparr>cl_state := (cl_state l1)\<lparr>last_feedback_receipt_hash := Some digest\<rparr>\<rparr>"
  obtain l3 where p: "persist_feedback (ce_clock (fb_cycle env) ''feedback'') l2 = (Inr (), l3)"
    using persist_feedback_result by blast
  define event where "event = append (ce_clock (fb_cycle env) ''EFFECT_FEEDBACK'') (cr_cycle_id cycle @ '':effect-feedback'')
         ''physiology'' ''EFFECT_FEEDBACK''
         [(''inputs'', JObj (clone_obj inputs)), (''outputs'', JObj (clone_obj outputs)),
          (''receipt'', JObj (evidence_receipt ''PHYSIOLOGY_EFFECT_FEEDBACK'' inputs outputs))]
         (Some (cr_cycle_id cycle @ '':effect'')) (Some (cr_cycle_id cycle))"
  have "record_effect_feedback env cycle outcome recovery l =
      eff_bind (loop_journal event) (\<lambda>_. eff_return (map_option as_state (fst (snd m)), status, digest)) l3"
    using p unfolding record_effect_feedback_def Let_def event_def l2_def l1_def digest_def outputs_def inputs_def
      success_def m_def status_def
    by simp
  then obtain a where a: "loop_journal event l3 = (a, l')"
    and r: "r = res_bind a (\<lambda>_. Inr (map_option as_state (fst (snd m)), status, digest))"
    using assms(1) by (auto simp: eff_bind_def split: prod.splits sum.splits)
  have st2: "cl_state l2 = feedback_after (cl_policy l) status (snd m) (cr_cycle_id cycle) digest (cl_state l)"
    by (simp add: l2_def l1_def feedback_after_def success_def)
  have hex: "hex_lower_n 64 digest" unfolding digest_def by (rule receipt_digest_hex)
  have "feedback_ok (cl_state l2)" unfolding st2 by (rule feedback_after_ok [OF assms(2,3) hex])
  from persist_syncs [OF this p, of trunc] have p3: "in_sync trunc l3" "cl_state l3 = cl_state l2" by simp_all
  have l3: "cl_policy l3 = cl_policy l" "cl_secret l3 = cl_secret l" "e_organism (cl_engine l3) = e_organism (cl_engine l)"
    using p by (auto simp: persist_feedback_result l2_def l1_def)
  note app = loop_append [OF a [unfolded event_def], of trunc]
  show ?thesis
    by (rule that [OF hex])
      (use app p3 l3 st2 r in \<open>auto simp: status_def [symmetric] m_def [symmetric]\<close>)
qed

lemma cycle_id_nonempty: "on_engine (tick env inp) l = (Inr cycle, l') \<Longrightarrow> cr_cycle_id cycle \<noteq> ''''"
proof -
  assume "on_engine (tick env inp) l = (Inr cycle, l')"
  then obtain e where "tick env inp (cl_engine l) = (Inr cycle, e)" by (auto simp: on_engine_eq)
  then have "cr_cycle_id cycle = cycle_id_at (cl_engine l)" by (rule tickE)
  moreover have "cycle_id_at (cl_engine l) \<noteq> ''''" by (simp add: cycle_id_at_def cycle_id_of_def stable_hash_def)
  ultimately show ?thesis by simp
qed

lemma gate_hold_result:
  assumes "record_gate_hold env cycle why l = (r, l')"
  shows "cl_state l' = cl_state l \<and> cl_policy l' = cl_policy l \<and> cl_secret l' = cl_secret l \<and>
    e_organism (cl_engine l') = e_organism (cl_engine l) \<and> (in_sync trunc l \<longrightarrow> in_sync trunc l')"
  using assms loop_append
  by (auto simp: record_gate_hold_def Let_def eff_bind_def split: prod.splits sum.splits)

text \<open>What a held tick leaves, whether or not it raises.\<close>

lemma held_tick_result:
  assumes "held_tick env inp why l = (r, l')"
  shows "cl_state l' = cl_state l \<and> cl_policy l' = cl_policy l \<and> cl_secret l' = cl_secret l \<and>
    (in_sync trunc l \<longrightarrow> in_sync trunc l')"
proof -
  obtain r1 l1 where t: "on_engine (tick (wrapped_env env) (inp\<lparr>ci_proposal := None\<rparr>)) l = (r1, l1)" by fastforce
  note 1 = engine_tick [OF t, of trunc]
  show ?thesis
  proof (cases r1)
    case (Inl e)
    then show ?thesis using assms t 1 by (auto simp: held_tick_def eff_bind_def)
  next
    case (Inr cycle)
    obtain r2 l2 where g: "record_gate_hold env cycle why l1 = (r2, l2)" by fastforce
    have "l' = l2" using assms t g Inr by (cases r2) (auto simp: held_tick_def eff_bind_def)
    then show ?thesis using 1 gate_hold_result [OF g, of trunc] by auto
  qed
qed

lemma allowed_tickE:
  assumes "allowed_tick env inp recovery l = (r, l')" and "feedback_ok (cl_state l)"
  obtains (raised) e where "r = Inl e" "cl_state l' = cl_state l" "cl_policy l' = cl_policy l" "cl_secret l' = cl_secret l"
      "in_sync trunc l \<longrightarrow> in_sync trunc l'"
  | (quiet) cycle l1 c where "on_engine (tick (wrapped_env env) inp) l = (Inr cycle, l1)" "cr_decision cycle \<noteq> Some PASS"
      "r = Inr c" "cc_cycle c = cycle" "l' = l1" "cl_state l' = cl_state l" "cl_policy l' = cl_policy l"
      "cl_secret l' = cl_secret l" "in_sync trunc l \<longrightarrow> in_sync trunc l'"
  | (effect) cycle l1 digest where "on_engine (tick (wrapped_env env) inp) l = (Inr cycle, l1)"
      "cr_decision cycle = Some PASS" "cr_cycle_id cycle \<noteq> ''''" "hex_lower_n 64 digest"
      "cl_state l' = feedback_after (cl_policy l) (effect_status_of (captured env (ci_proposal inp)))
         (snd (measure_effect env (e_policy (cl_engine l1)))) (cr_cycle_id cycle) digest (cl_state l)"
      "cl_policy l' = cl_policy l" "cl_secret l' = cl_secret l" "in_sync trunc l'"
      "\<And>c. r = Inr c \<Longrightarrow> cc_cycle c = cycle \<and> cc_effect_status c = Some (effect_status_of (captured env (ci_proposal inp)))"
proof -
  obtain r1 l1 where t: "on_engine (tick (wrapped_env env) inp) l = (r1, l1)" by fastforce
  note 1 = engine_tick [OF t, of trunc]
  show ?thesis
  proof (cases r1)
    case (Inl e)
    have "r = Inl e" "l' = l1" using assms(1) t Inl by (simp_all add: allowed_tick_def eff_bind_def)
    then show ?thesis using raised 1 by simp
  next
    case (Inr cycle)
    show ?thesis
    proof (cases "cr_decision cycle = Some PASS")
      case False
      then show ?thesis using quiet [of cycle l1] t 1 Inr assms(1) by (auto simp: allowed_tick_def eff_bind_def)
    next
      case True
      obtain r2 l2 where g: "record_effect_feedback env cycle (captured env (ci_proposal inp)) recovery l1 = (r2, l2)" by fastforce
      have id: "cr_cycle_id cycle \<noteq> ''''" using cycle_id_nonempty t Inr by blast
      have ok: "feedback_ok (cl_state l1)" using 1 assms(2) by simp
      have l': "l' = l2" using assms(1) t g Inr True by (cases r2) (auto simp: allowed_tick_def eff_bind_def split: prod.splits)
      have rc: "\<exists>h s d. r2 = Inr (h, s, d) \<and> cc_cycle c = cycle \<and> cc_effect_status c = Some s" if "r = Inr c" for c
        using assms(1) t g Inr True that by (cases r2) (auto simp: allowed_tick_def eff_bind_def split: prod.splits)
      obtain digest where d: "hex_lower_n 64 digest"
        "cl_state l2 = feedback_after (cl_policy l1) (effect_status_of (captured env (ci_proposal inp)))
           (snd (measure_effect env (e_policy (cl_engine l1)))) (cr_cycle_id cycle) digest (cl_state l1)"
        "cl_policy l2 = cl_policy l1" "cl_secret l2 = cl_secret l1" "in_sync trunc l2"
        "\<And>h s d. r2 = Inr (h, s, d) \<Longrightarrow> s = effect_status_of (captured env (ci_proposal inp))"
        by (rule record_result [OF g ok id, of trunc]) blast
      show ?thesis
        by (rule effect [OF _ True id d(1)]) (use t Inr 1 d l' rc in \<open>auto 4 4\<close>)
    qed
  qed
qed

lemma closed_tick_split:
  "closed_tick env inp l =
    (let inp' = inp\<lparr>ci_proposal := map_option clone_obj (ci_proposal inp)\<rparr> in
     case recovery_gate (cl_state l) (ci_proposal inp') of
        Some why \<Rightarrow> held_tick env inp' why l
      | None \<Rightarrow> allowed_tick env inp' (recovery_attempt (cl_state l) (ci_proposal inp')) l)"
  by (simp add: closed_tick_def Let_def split: option.split)

lemma closed_tick_keeps:
  assumes "closed_tick env inp l = (r, l')" and "in_sync trunc l"
  shows "in_sync trunc l' \<and> cl_policy l' = cl_policy l \<and> cl_secret l' = cl_secret l"
proof (cases "recovery_gate (cl_state l) (map_option clone_obj (ci_proposal inp))")
  case (Some why)
  then show ?thesis using assms held_tick_result by (fastforce simp: closed_tick_split Let_def)
next
  case None
  have ok: "feedback_ok (cl_state l)" using assms(2) by (simp add: in_sync_def)
  have a: "allowed_tick env (inp\<lparr>ci_proposal := map_option clone_obj (ci_proposal inp)\<rparr>)
      (recovery_attempt (cl_state l) (map_option clone_obj (ci_proposal inp))) l = (r, l')"
    using assms(1) None by (simp add: closed_tick_split Let_def)
  from a ok show ?thesis by (cases rule: allowed_tickE [where trunc = trunc]) (use assms(2) in auto)
qed

section \<open>Restart\<close>

lemma optional_text_Some: "optional_text v good m = Inr (Some s) \<Longrightarrow> good s"
  by (auto simp: optional_text_def split: json.splits if_splits)

lemma validate_feedback_ok: "validate_feedback trunc v = Inr st \<Longrightarrow> feedback_ok st"
  by (cases v) (auto simp: validate_feedback_def feedback_ok_def Let_def dest: optional_text_Some)

lemma load_feedback_mac:
  assumes "load_feedback trunc secret v = Inr st"
  obtains d payload where "v = JObj d" "jget d ''payload'' = JObj payload"
    "jget d ''state_mac'' = JStr (feedback_mac secret payload)" "validate_feedback trunc (JObj payload) = Inr st"
proof (cases v)
  case (JObj d)
  then show ?thesis
    using assms that by (auto simp: load_feedback_def compare_digest_def split: if_splits json.splits)
qed (use assms in \<open>simp_all add: load_feedback_def\<close>)

lemma initial_feedback_ok: "initial_feedback trunc secret o1 j = Inr st \<Longrightarrow> feedback_ok st"
  by (auto simp: initial_feedback_def empty_feedback_ok split: if_splits
      elim!: load_feedback_mac dest: validate_feedback_ok)

lemma new_engine_fields: "new_engine trunc o1 j p = Inr e \<Longrightarrow> e_organism e = o1 \<and> e_journal e = j"
  by (auto simp: new_engine_def)

lemma new_closed_loopE:
  assumes "new_closed_loop trunc secret o1 j hp fp = Inr l"
  shows "in_sync trunc l \<and> cl_policy l = fp \<and> cl_secret l = secret \<and> secret \<noteq> '''' \<and>
    initial_feedback trunc secret o1 j = Inr (cl_state l)"
  using assms by (auto simp: new_closed_loop_def in_sync_def dest: initial_feedback_ok new_engine_fields)

text \<open>The states a loop passes through, also by ticks that raise.\<close>

inductive loop_step :: "closed_loop \<Rightarrow> closed_loop \<Rightarrow> bool" where
  ticked: "closed_tick env inp l = (r, l') \<Longrightarrow> loop_step l l'"

inductive_cases loop_stepE: "loop_step l l'"

lemma loop_steps_keep:
  "loop_step\<^sup>*\<^sup>* l l' \<Longrightarrow> in_sync trunc l \<Longrightarrow> in_sync trunc l' \<and> cl_policy l' = cl_policy l \<and> cl_secret l' = cl_secret l"
proof (induction rule: rtranclp_induct)
  case (step l1 l2)
  then have ok: "in_sync trunc l1" and l1: "cl_policy l1 = cl_policy l" "cl_secret l1 = cl_secret l" by simp_all
  from step(2) show ?case
  proof (rule loop_stepE)
    fix env inp r
    assume "closed_tick env inp l1 = (r, l2)"
    from closed_tick_keeps [OF this ok] show ?thesis using l1 by simp
  qed
qed simp

text \<open>C21: No restart loses the recovery gate. After any number of ticks, whether they returned or raised, a
  loop built anew on the journal with the same secret and organism starts with exactly the feedback
  state the running loop has, and in that state recovery is required precisely when there is a cycle to
  recover.\<close>

theorem feedback_survives_restart:
  assumes "new_closed_loop trunc secret o1 j hpolicy fpolicy = Inr l0" and "loop_step\<^sup>*\<^sup>* l0 l"
  shows "initial_feedback trunc secret (e_organism (cl_engine l)) (e_journal (cl_engine l)) = Inr (cl_state l) \<and>
    (recovery_required (cl_state l) \<longleftrightarrow> recovery_for (cl_state l) \<noteq> None)"
proof -
  note new = new_closed_loopE [OF assms(1)]
  have "in_sync trunc l \<and> cl_policy l = cl_policy l0 \<and> cl_secret l = cl_secret l0"
    by (rule loop_steps_keep [OF assms(2)]) (use new in blast)
  then have "in_sync trunc l" "cl_secret l = secret" using new by simp_all
  then show ?thesis unfolding in_sync_def feedback_ok_def by blast
qed

text \<open>A loop trusts only an authenticated state. If a journal holds anything under the loop's key, the loop
  starts from it only if it is an envelope whose MAC under the loop's secret is that of its payload;
  a text that is another MAC makes the constructor raise the authentication error.\<close>

theorem only_authenticated_state:
  assumes "get_state j (feedback_key o1) JNull = Inr stored" and "stored \<noteq> JNull"
  shows "(new_closed_loop trunc secret o1 j hpolicy fpolicy = Inr l \<longrightarrow>
      (\<exists>d payload. stored = JObj d \<and> jget d ''payload'' = JObj payload \<and>
        jget d ''state_mac'' = JStr (hmac_text secret (canonical_json (JObj payload))) \<and>
        validate_feedback trunc (JObj payload) = Inr (cl_state l))) \<and>
    (\<forall>payload mac. stored = JObj [(''payload'', JObj payload), (''state_mac'', JStr mac)] \<and> is_ascii mac \<and>
        mac \<noteq> hmac_text secret (canonical_json (JObj payload)) \<and> secret \<noteq> '''' \<longrightarrow>
      new_closed_loop trunc secret o1 j hpolicy fpolicy =
        Inl (ValueError ''effect feedback state authentication failed''))"
proof (intro conjI impI allI)
  assume "new_closed_loop trunc secret o1 j hpolicy fpolicy = Inr l"
  from new_closed_loopE [OF this] have "load_feedback trunc secret stored = Inr (cl_state l)"
    using assms by (simp add: initial_feedback_def)
  then show "\<exists>d payload. stored = JObj d \<and> jget d ''payload'' = JObj payload \<and>
        jget d ''state_mac'' = JStr (hmac_text secret (canonical_json (JObj payload))) \<and>
        validate_feedback trunc (JObj payload) = Inr (cl_state l)"
    by (rule load_feedback_mac) (simp add: feedback_mac_def)
next
  fix payload mac
  assume s: "stored = JObj [(''payload'', JObj payload), (''state_mac'', JStr mac)] \<and> is_ascii mac \<and>
        mac \<noteq> hmac_text secret (canonical_json (JObj payload)) \<and> secret \<noteq> ''''"
  then have "load_feedback trunc secret stored = Inl (ValueError ''effect feedback state authentication failed'')"
    by (auto simp: load_feedback_def jget_def compare_digest_def feedback_mac_def)
  then show "new_closed_loop trunc secret o1 j hpolicy fpolicy =
        Inl (ValueError ''effect feedback state authentication failed'')"
    using s assms by (simp add: new_closed_loop_def initial_feedback_def)
qed

section \<open>The gate\<close>

lemma no_proposal_tick:
  assumes "tick env (inp\<lparr>ci_proposal := None\<rparr>) e = (Inr cycle, e')"
  shows "cr_decision cycle = None \<and> \<not> cr_executed cycle \<and> same_state (e_organism e) (e_organism e')"
  using assms
proof (cases rule: tickE)
  case (1 e1 e2 e3 a act plan ev)
  have h: "cr_decision cycle = None" "\<not> cr_executed cycle" "e3 = e2" using 1(5) by (simp_all add: handle_proposal_def)
  have "same_state (e_organism e) (e_organism e2)"
    using 1(1) sense_and_plan_result(4) [OF 1(4)] by (simp add: same_but_cache_def started_def)
  moreover have "same_state (e_organism e2) (e_organism e')"
    using close_cycleE [OF 1(6)] h(3) by (simp add: same_but_cache_def)
  ultimately show ?thesis using h same_state_trans by blast
qed

lemma no_proposal_executor:
  "tick (env\<lparr>ce_executor := x\<rparr>) (inp\<lparr>ci_proposal := None\<rparr>) = tick env (inp\<lparr>ci_proposal := None\<rparr>)"
  by (rule ext) (simp add: tick_def sense_and_plan_def record_event_def handle_proposal_def close_cycle_def)

definition with_executor :: "(jobj \<Rightarrow> exec_outcome) option \<Rightarrow> feedback_env \<Rightarrow> feedback_env" where
  "with_executor x env = env\<lparr>fb_cycle := (fb_cycle env)\<lparr>ce_executor := x\<rparr>\<rparr>"

lemma held_tick_executor: "held_tick (with_executor x env) inp why = held_tick env inp why"
proof -
  have "wrapped_env (with_executor x env) = (wrapped_env env)\<lparr>ce_executor := map_option execute_and_capture x\<rparr>"
    by (simp add: wrapped_env_def with_executor_def)
  then show ?thesis
    by (simp add: held_tick_def no_proposal_executor record_gate_hold_def with_executor_def)
qed

lemma sort_json_str [simp]: "sort_json v = JStr s \<longleftrightarrow> v = JStr s"
  by (cases v) (simp_all add: sort_json.simps)

text \<open>C22: While a cycle is to be recovered, a proposal that does not name it goes nowhere. The tick never
  reaches the executor: it is the same whatever the executor is, or with none. If it returns, the
  decision is HOLD, nothing was decided by the organism or executed, the organism's constraints and
  lineage and the feedback state are as before, and recovery is still required for the same cycle.\<close>

theorem recovery_gate_holds:
  assumes "recovery_for (cl_state l) = Some c" and "ci_proposal inp = Some p" and "dict_ok p"
    and "jget p ''recovery_for'' \<noteq> JStr c"
  shows "closed_tick (with_executor x env) inp l = closed_tick env inp l \<and>
    cl_state (snd (closed_tick env inp l)) = cl_state l \<and>
    (\<forall>r. fst (closed_tick env inp l) = Inr r \<longrightarrow>
      cc_effective_decision r = Some HOLD \<and> cr_decision (cc_cycle r) = None \<and> \<not> cr_executed (cc_cycle r) \<and>
      cc_recovery_required r \<and> cc_recovery_for r = Some c \<and>
      constraints (e_organism (cl_engine (snd (closed_tick env inp l)))) = constraints (e_organism (cl_engine l)) \<and>
      lineage (e_organism (cl_engine (snd (closed_tick env inp l)))) = lineage (e_organism (cl_engine l)))"
proof -
  define inp' where "inp' = inp\<lparr>ci_proposal := Some (clone_obj p)\<rparr>"
  define why where "why = ''effect recovery required for cycle '' @ c"
  have t: "closed_tick env inp l = held_tick env inp' why l" for env
    using assms by (simp add: closed_tick_split recovery_gate_def jget_clone inp'_def why_def)
  obtain r l' where h: "held_tick env inp' why l = (r, l')" by fastforce
  have st: "cl_state l' = cl_state l" using held_tick_result [OF h] by blast
  have "cc_effective_decision q = Some HOLD \<and> cr_decision (cc_cycle q) = None \<and> \<not> cr_executed (cc_cycle q) \<and>
      cc_recovery_required q \<and> cc_recovery_for q = Some c \<and>
      constraints (e_organism (cl_engine l')) = constraints (e_organism (cl_engine l)) \<and>
      lineage (e_organism (cl_engine l')) = lineage (e_organism (cl_engine l))" if q: "r = Inr q" for q
  proof -
    obtain cycle l1 d l2 where parts: "on_engine (tick (wrapped_env env) (inp'\<lparr>ci_proposal := None\<rparr>)) l = (Inr cycle, l1)"
      "record_gate_hold env cycle why l1 = (Inr d, l2)" "l' = l2" "cc_cycle q = cycle"
      "cc_effective_decision q = Some HOLD" "cc_recovery_required q" "cc_recovery_for q = recovery_for (cl_state l2)"
      using h unfolding q by (auto simp: held_tick_def)
    obtain e where e: "tick (wrapped_env env) (inp'\<lparr>ci_proposal := None\<rparr>) (cl_engine l) = (Inr cycle, e)" "cl_engine l1 = e"
      using parts(1) by (auto simp: on_engine_eq)
    show ?thesis
      using no_proposal_tick [OF e(1)] gate_hold_result [OF parts(2)] parts(3-7) e(2) st assms(1)
      by (simp add: same_stateD)
  qed
  then show ?thesis using t h st held_tick_executor by simp
qed

section \<open>Opening and closing the gate\<close>

lemma closed_tick_state:
  assumes "closed_tick env inp l = (r, l')" and "feedback_ok (cl_state l)"
  shows "cl_state l' = cl_state l \<or>
    (\<exists>status m cid digest. cl_state l' = feedback_after (cl_policy l) status m cid digest (cl_state l))"
proof (cases "recovery_gate (cl_state l) (map_option clone_obj (ci_proposal inp))")
  case (Some why)
  then show ?thesis using assms(1) held_tick_result by (fastforce simp: closed_tick_split Let_def)
next
  case None
  have "allowed_tick env (inp\<lparr>ci_proposal := map_option clone_obj (ci_proposal inp)\<rparr>)
      (recovery_attempt (cl_state l) (map_option clone_obj (ci_proposal inp))) l = (r, l')"
    using assms(1) None by (simp add: closed_tick_split Let_def)
  then show ?thesis using assms(2) by (cases rule: allowed_tickE) blast+
qed

definition at_threshold :: "closed_loop \<Rightarrow> bool" where
  "at_threshold l \<longleftrightarrow> 0 \<le> failure_streak (cl_state l) \<and>
     (recovery_required (cl_state l) \<longleftrightarrow> failures_before_recovery_gate (cl_policy l) \<le> failure_streak (cl_state l))"

lemma threshold_step:
  assumes "loop_step l l'" and "at_threshold l" and "feedback_ok (cl_state l)" and "1 \<le> failures_before_recovery_gate (cl_policy l)"
    and "in_sync trunc l"
  shows "at_threshold l' \<and> cl_policy l' = cl_policy l"
  using assms(1)
proof (rule loop_stepE)
  fix env inp r
  assume t: "closed_tick env inp l = (r, l')"
  have p: "cl_policy l' = cl_policy l" using closed_tick_keeps [OF t assms(5)] by blast
  from closed_tick_state [OF t assms(3)] show ?thesis
  proof (elim disjE exE)
    fix status m cid digest
    assume "cl_state l' = feedback_after (cl_policy l) status m cid digest (cl_state l)"
    then show ?thesis using assms(2,4) p
      by (simp add: at_threshold_def feedback_after_def update_feedback_def Let_def)
  qed (use assms(2) p in \<open>simp add: at_threshold_def\<close>)
qed

text \<open>The gate opens at the threshold of the policy. In a loop begun on a journal without a stored state, the
  streak of failures is never negative, and after any ticks, returned or raised, recovery is required
  exactly while the streak has reached the policy's number.\<close>

theorem gate_at_threshold:
  assumes "new_closed_loop trunc secret o1 j hpolicy fpolicy = Inr l0"
    and "get_state j (feedback_key o1) JNull = Inr JNull" and "1 \<le> failures_before_recovery_gate fpolicy"
    and "loop_step\<^sup>*\<^sup>* l0 l"
  shows "0 \<le> failure_streak (cl_state l) \<and>
    (recovery_required (cl_state l) \<longleftrightarrow> failures_before_recovery_gate fpolicy \<le> failure_streak (cl_state l))"
proof -
  note new = new_closed_loopE [OF assms(1)]
  have "cl_state l0 = empty_feedback" using new assms(2) by (simp add: initial_feedback_def)
  then have start: "at_threshold l0" using new assms(3) by (simp add: at_threshold_def empty_feedback_def)
  from assms(4) have "at_threshold l \<and> cl_policy l = fpolicy"
  proof (induction rule: rtranclp_induct)
    case base
    then show ?case using start new by simp
  next
    case (step l1 l2)
    have sync: "in_sync trunc l1" using loop_steps_keep [OF step(1)] new by blast
    then have "feedback_ok (cl_state l1)" by (simp add: in_sync_def)
    from threshold_step [OF step(2) _ this _ sync] step(3) assms(3) show ?case by simp
  qed
  then show ?thesis by (simp add: at_threshold_def)
qed

lemma tick_policy: "tick env inp e = (Inr r, e') \<Longrightarrow> e_policy e' = e_policy e"
proof (erule tickE)
  fix e1 e2 e3 a act plan ev
  assume s: "same_but_cache (started e) e1"
    and p: "sense_and_plan env (cycle_id_at e) (cycle_seq (e_runtime e) + 1) e1 = (Inr (a, act, plan), e2)"
    and h: "handle_proposal env (cycle_id_at e) plan inp e2 = (Inr (cr_decision r, cr_executed r, ev), e3)"
    and c: "close_cycle env (cycle_id_at e) (cycle_seq (e_runtime e) + 1) a act plan (cr_decision r) (cr_executed r) ev e3 = (Inr r, e')"
  have "e_policy e3 = e_policy e2"
  proof (cases "ci_proposal inp")
    case None
    then show ?thesis using h by (simp add: handle_proposal_def)
  next
    case (Some p)
    then obtain d ev1 e4 where d: "decide_proposal env (cycle_id_at e) plan (clone_obj p) inp e2 = (Inr (d, ev1), e4)"
      "e_policy e3 = e_policy e4"
      using h by (auto simp: handle_proposal_def Let_def same_but_journal_def split: if_splits dest!: execute_same)
    from d(1) have "e_policy e4 = e_policy e2"
      by (cases rule: decide_proposalE) (simp_all add: same_but_journal_def)
    with d(2) show ?thesis by simp
  qed
  then show ?thesis
    using s sense_and_plan_result(5) [OF p] close_cycleE [OF c] by (simp add: same_but_cache_def started_def)
qed

text \<open>The evidence that ends a recovery: the status is one the policy accepts and a fresh sample, with an intact
  journal, is assessed normal.\<close>

definition recovery_evidence :: "feedback_env \<Rightarrow> effect_feedback_policy \<Rightarrow> homeostatic_policy \<Rightarrow> string \<Rightarrow> bool" where
  "recovery_evidence env fpolicy hpolicy status \<longleftrightarrow> accepts fpolicy (Some status) \<and> fb_journal_ok env = Inr True \<and>
     (\<exists>sample. fb_sample env = Inr sample \<and>
        as_state (assess (ce_float_div (fb_cycle env)) hpolicy sample True) = NORMAL)"

lemma assess_journal: "as_state (assess fd policy s ok) = NORMAL \<Longrightarrow> ok"
  by (auto simp: assess_def Let_def split: if_splits)

lemma success_evidence:
  "effect_success fp status (fst (snd (measure_effect env hp))) (snd (snd (measure_effect env hp))) \<longleftrightarrow>
     recovery_evidence env fp hp status"
  by (auto simp: effect_success_def measure_effect_def recovery_evidence_def split: sum.splits dest: assess_journal)
    (metis assess_journal)+

text \<open>The engine's cycle on a proposal ended with the organism's PASS.\<close>

definition cycle_passed :: "feedback_env \<Rightarrow> cycle_input \<Rightarrow> engine \<Rightarrow> bool" where
  "cycle_passed env inp e = (case fst (tick (wrapped_env env) inp e) of
      Inl x \<Rightarrow> False
    | Inr cycle \<Rightarrow> cr_decision cycle = Some PASS)"

lemma over_iff_evidence:
  assumes t: "closed_tick env inp l = (r, l')" and "feedback_ok (cl_state l)" and "recovery_for (cl_state l) = Some c"
    and "ci_proposal inp = Some p" and "dict_ok p"
  shows "if jget p ''recovery_for'' = JStr c \<and> cycle_passed env (inp\<lparr>ci_proposal := Some (clone_obj p)\<rparr>) (cl_engine l) \<and>
        recovery_evidence env (cl_policy l) (e_policy (cl_engine l))
          (effect_status_of (captured env (Some (clone_obj p))))
      then recovery_for (cl_state l') = None \<and> \<not> recovery_required (cl_state l') \<and> failure_streak (cl_state l') = 0
      else recovery_for (cl_state l') = Some c \<and> recovery_required (cl_state l')"
proof (cases "jget p ''recovery_for'' = JStr c")
  case False
  have "cl_state l' = cl_state l"
    using assms(1,3,4,5) False held_tick_result
    by (fastforce simp: closed_tick_split recovery_gate_def jget_clone Let_def)
  then show ?thesis using False assms(2,3) by (simp add: feedback_ok_def)
next
  case True
  define inp' where "inp' = inp\<lparr>ci_proposal := Some (clone_obj p)\<rparr>"
  have gate: "recovery_gate (cl_state l) (Some (clone_obj p)) = None"
    using True assms(3,5) by (simp add: recovery_gate_def jget_clone)
  have a: "allowed_tick env inp' (recovery_attempt (cl_state l) (Some (clone_obj p))) l = (r, l')"
    using assms(1,4) gate by (simp add: closed_tick_split inp'_def)
  obtain r1 e1 where k: "tick (wrapped_env env) inp' (cl_engine l) = (r1, e1)" by fastforce
  have k': "on_engine (tick (wrapped_env env) inp') l = (r1, l\<lparr>cl_engine := e1\<rparr>)" using k by (simp add: on_engine_eq)
  have passed: "cycle_passed env inp' (cl_engine l) \<longleftrightarrow> (\<exists>cycle. r1 = Inr cycle \<and> cr_decision cycle = Some PASS)"
    by (auto simp: cycle_passed_def k split: sum.splits)
  show ?thesis
  proof (cases "cycle_passed env inp' (cl_engine l)")
    case False
    have "cl_state l' = cl_state l"
    proof (cases r1)
      case (Inl x)
      then show ?thesis using a k' by (auto simp: allowed_tick_def eff_bind_def)
    next
      case (Inr cycle)
      then show ?thesis using a k' False passed by (auto simp: allowed_tick_def eff_bind_def)
    qed
    then show ?thesis using False assms(2,3) by (simp add: feedback_ok_def inp'_def)
  next
    case yes: True
    then obtain cycle where cyc: "r1 = Inr cycle" "cr_decision cycle = Some PASS" using passed by blast
    have pol: "e_policy e1 = e_policy (cl_engine l)" using k cyc(1) tick_policy by blast
    obtain r2 l2 where g: "record_effect_feedback env cycle (captured env (Some (clone_obj p)))
        (recovery_attempt (cl_state l) (Some (clone_obj p))) (l\<lparr>cl_engine := e1\<rparr>) = (r2, l2)" by fastforce
    have l': "l' = l2"
      using a k' g cyc by (cases r2) (auto simp: allowed_tick_def eff_bind_def inp'_def split: prod.splits)
    obtain digest where "cl_state l2 = feedback_after (cl_policy l) (effect_status_of (captured env (Some (clone_obj p))))
           (snd (measure_effect env (e_policy e1))) (cr_cycle_id cycle) digest (cl_state l)"
      by (rule record_result [OF g, of undefined]) (use assms(2) cycle_id_nonempty k' cyc(1) in auto)
    then show ?thesis
      using True yes assms(2,3)
      by (simp add: l' pol feedback_after_def success_evidence update_feedback_def inp'_def Let_def feedback_ok_def)
  qed
qed

text \<open>C0: Recovery ends with evidence and not otherwise. After a tick while cycle \<open>c\<close> is to be recovered,
  whether it returns or raises, recovery is over if and only if the proposal named \<open>c\<close>, the engine's
  cycle ended with the organism's PASS, the effect's status is accepted and a fresh measurement is
  normal; the streak is then zero. In every other case it is still cycle \<open>c\<close> that is to be recovered.\<close>

theorem recovery_needs_evidence:
  assumes "feedback_ok (cl_state l)" and "recovery_for (cl_state l) = Some c"
    and "ci_proposal inp = Some p" and "dict_ok p"
  shows "if jget p ''recovery_for'' = JStr c \<and> cycle_passed env (inp\<lparr>ci_proposal := Some (clone_obj p)\<rparr>) (cl_engine l) \<and>
        recovery_evidence env (cl_policy l) (e_policy (cl_engine l))
          (effect_status_of (captured env (Some (clone_obj p))))
      then recovery_for (cl_state (snd (closed_tick env inp l))) = None \<and>
        \<not> recovery_required (cl_state (snd (closed_tick env inp l))) \<and> failure_streak (cl_state (snd (closed_tick env inp l))) = 0
      else recovery_for (cl_state (snd (closed_tick env inp l))) = Some c \<and>
        recovery_required (cl_state (snd (closed_tick env inp l)))"
  by (rule over_iff_evidence [OF surjective_pairing assms])

section \<open>A concrete loop\<close>

definition loop_organism :: organism where
  "loop_organism = \<lparr>organism_id = ''org'', runtime_id = ''run'', frozen_contract_hash = ''f'', state_secret = ''secret'',
     authority_secrets = [], gate_fingerprint = ''g'', constitutional_contract_hash = ''h'', constraints = [],
     lineage = [], state_generation = 0, cached_state_root = None, cached_state_generation = -1\<rparr>"

definition no_trunc :: "string \<Rightarrow> int res" where
  "no_trunc t = Inl (ValueError t)"

definition sample_loop :: closed_loop where
  "sample_loop = \<lparr>cl_engine = \<lparr>e_organism = loop_organism, e_journal = empty_journal, e_policy = sample_policy,
      e_runtime = initial_runtime\<rparr>, cl_policy = default_feedback_policy, cl_secret = ''key'', cl_state = empty_feedback\<rparr>"

definition pending_loop :: closed_loop where
  "pending_loop = sample_loop\<lparr>cl_state := empty_feedback\<lparr>failure_streak := 1, recovery_required := True,
      recovery_for := Some ''c1''\<rparr>\<rparr>"

definition sample_sample :: telemetry_sample where
  "sample_sample = \<lparr>monotonic_ns = 1, process_time_ns = 1, disk_total_bytes = 100, disk_used_bytes = 50,
     disk_free_bytes = 50, rss_bytes = None, load_1m = None, instruments = []\<rparr>"

definition sample_feedback_env :: feedback_env where
  "sample_feedback_env = \<lparr>fb_cycle = \<lparr>ce_guards = sample_env, ce_clock = (\<lambda>_. 0), ce_sample = sample_sample,
       ce_journal_ok = True, ce_float_div = (\<lambda>a b. of_int a / of_int b), ce_executor = Some (\<lambda>p. Executed ''OK'' [])\<rparr>,
     fb_sample = Inl (''OSError'', ''no reading''), fb_journal_ok = Inr True\<rparr>"

definition sample_input :: "json \<Rightarrow> cycle_input" where
  "sample_input v = \<lparr>ci_proposal = Some [(''action'', JStr ''PUBLISH''), (''recovery_for'', v)], ci_human = None,
     ci_flags = all_flags\<rparr>"

lemma sample_loop_new:
  "get_state empty_journal (feedback_key loop_organism) JNull = Inr JNull"
  "new_closed_loop no_trunc ''key'' loop_organism empty_journal sample_policy default_feedback_policy = Inr sample_loop"
proof -
  show g: "get_state empty_journal (feedback_key loop_organism) JNull = Inr JNull"
    using feedback_key_slot(2) by (simp add: get_state_def validate_label_def empty_journal_def)
  have "new_engine no_trunc loop_organism empty_journal sample_policy = Inr (cl_engine sample_loop)"
    using state_key_not_blank [of loop_organism]
    by (simp add: new_engine_def get_state_def validate_label_def empty_journal_def validate_runtime_state_def
        runtime_json_def get_default_def json_int_def initial_runtime_def sample_loop_def truthy.simps)
  then show "new_closed_loop no_trunc ''key'' loop_organism empty_journal sample_policy default_feedback_policy = Inr sample_loop"
    using g by (simp add: new_closed_loop_def initial_feedback_def) (simp add: sample_loop_def)
qed

lemma one_tick: "loop_step\<^sup>*\<^sup>* l (snd (closed_tick env inp l))"
  by (intro r_into_rtranclp loop_step.ticked [of env inp l "fst (closed_tick env inp l)"]) simp

theorem feedback_survives_restart_witness:
  "\<exists>l. l = snd (closed_tick sample_feedback_env (sample_input JNull) sample_loop) \<and>
     initial_feedback no_trunc ''key'' (e_organism (cl_engine l)) (e_journal (cl_engine l)) = Inr (cl_state l)"
  using feedback_survives_restart [OF sample_loop_new(2) one_tick] by blast

theorem gate_at_threshold_witness:
  "\<exists>l. l = snd (closed_tick sample_feedback_env (sample_input JNull) sample_loop) \<and> 0 \<le> failure_streak (cl_state l) \<and>
     (recovery_required (cl_state l) \<longleftrightarrow> 1 \<le> failure_streak (cl_state l))"
  using gate_at_threshold [OF sample_loop_new(2) sample_loop_new(1) _ one_tick]
  by (simp add: default_feedback_policy_def)

theorem only_authenticated_state_witness:
  "\<exists>j. get_state j (feedback_key loop_organism) JNull = Inr (JObj [(''payload'', JObj []), (''state_mac'', JStr ''forged'')]) \<and>
     new_closed_loop no_trunc ''key'' loop_organism j sample_policy default_feedback_policy =
       Inl (ValueError ''effect feedback state authentication failed'')"
proof -
  define v where "v = JObj [(''payload'', JObj []), (''state_mac'', JStr ''forged'')]"
  define j where "j = put_state 0 (feedback_key loop_organism) v empty_journal"
  have "wf_json v" by (simp add: v_def)
  moreover have "sort_json v = v" by (simp add: v_def sort_json.simps)
  ultimately have g: "get_state j (feedback_key loop_organism) JNull = Inr v"
    unfolding j_def using journal_store.get_put [OF feedback_key_slot(2)] by metis
  have "hmac_text ''key'' t \<noteq> ''forged''" for t
  proof
    assume "hmac_text ''key'' t = ''forged''"
    then show False using length_hmac_text [of "''key''" t] by simp
  qed
  moreover have "is_ascii ''forged''" by (simp add: is_ascii_def)
  ultimately show ?thesis
    using only_authenticated_state [OF g] g unfolding v_def by (intro exI [of _ j]) force
qed

theorem recovery_gate_holds_witness:
  "closed_tick (with_executor None sample_feedback_env) (sample_input (JStr ''c2'')) pending_loop =
     closed_tick sample_feedback_env (sample_input (JStr ''c2'')) pending_loop \<and>
   cl_state (snd (closed_tick sample_feedback_env (sample_input (JStr ''c2'')) pending_loop)) = cl_state pending_loop"
  using recovery_gate_holds [of pending_loop "''c1''" "sample_input (JStr ''c2'')"
      "[(''action'', JStr ''PUBLISH''), (''recovery_for'', JStr ''c2'')]" None sample_feedback_env]
  by (simp add: pending_loop_def sample_input_def dict_ok_def jget_def)

theorem recovery_needs_evidence_witness:
  "recovery_for (cl_state (snd (closed_tick sample_feedback_env (sample_input (JStr ''c1'')) pending_loop))) = Some ''c1''"
proof -
  have "\<not> recovery_evidence sample_feedback_env p q s" for p q s
    by (simp add: recovery_evidence_def sample_feedback_env_def)
  then show ?thesis
    using recovery_needs_evidence [of pending_loop "''c1''" "sample_input (JStr ''c1'')"
      "[(''action'', JStr ''PUBLISH''), (''recovery_for'', JStr ''c1'')]" sample_feedback_env]
    by (simp add: pending_loop_def sample_input_def dict_ok_def jget_def feedback_ok_def empty_feedback_def)
qed

end
