(* ===== verification/Physiology_Recovery.thy ===== *)
theory Physiology_Recovery
  imports Physiology_Properties
begin

text \<open>
  \<open>app/physiology_recovery.py\<close>: a restart seals the cycles the previous run left open. The
  events of the topic \<open>physiology\<close> are read in batches, grouped by their correlation id, and
  a group with a \<open>TICK\<close> and no terminal event is closed by a \<open>CYCLE_ABORTED\<close> event. The
  lemmas show that after a sealing no open cycle is left and that it adds nothing but
  these events.
\<close>

definition TERMINAL_EVENT_TYPES :: "string list" where
  "TERMINAL_EVENT_TYPES = [''MEMORY_COMMIT'', ''CYCLE_ABORTED'']"

record incomplete_cycle =
  inc_cycle_id :: string
  inc_first_seq :: int
  inc_last_seq :: int
  inc_last_event_id :: string
  inc_event_types :: "string list"

section \<open>Reading all events\<close>

lemma res_map_rows: "res_map row_to_event rs = Inr es \<Longrightarrow> map je_row es = rs"
  by (induction rs arbitrary: es) (auto dest: row_to_event_row)

lemma read_until_rows:
  assumes "read j after limit topic = Inr es"
  shows "map je_row es = take (nat limit) (sort_key ev_seq
           (filter (\<lambda>r. ev_seq r > after \<and> (topic = None \<or> topic = Some (ev_topic r))) (events j)))"
  using assms by (auto simp: read_def dest!: res_map_rows)

lemma read_last:
  assumes "read j after limit topic = Inr es" and "es \<noteq> []"
  shows "je_row (last es) \<in> set (events j) \<and> after < ev_seq (je_row (last es))"
proof -
  have "je_row (last es) \<in> set (map je_row es)" using assms(2) by simp
  then show ?thesis unfolding read_until_rows [OF assms(1)] by (auto dest: in_set_takeD)
qed

text \<open>The generator \<open>_all_events\<close>, run to its end.\<close>

function all_events :: "journal \<Rightarrow> string \<Rightarrow> int \<Rightarrow> journal_event list res" where
  "all_events j topic after = (case read j after 10000 (Some topic) of
      Inl e \<Rightarrow> Inl e
    | Inr batch \<Rightarrow>
        if batch = [] then Inr []
        else res_bind (all_events j topic (ev_seq (je_row (last batch)))) (\<lambda>rest. Inr (batch @ rest)))"
  by pat_completeness auto
termination
proof (relation "measure (\<lambda>(j, t, a). length (filter (\<lambda>r. ev_seq r > a) (events j)))")
  fix j topic after batch
  assume "read j after 10000 (Some topic) = Inr batch" and "batch \<noteq> []"
  from read_last [OF this] have r: "je_row (last batch) \<in> set (events j)" "after < ev_seq (je_row (last batch))" by simp_all
  have "length (filter (\<lambda>r. ev_seq (je_row (last batch)) < ev_seq r) xs) < length (filter (\<lambda>r. after < ev_seq r) xs)"
    if "je_row (last batch) \<in> set xs" for xs
  proof -
    have "length (filter (\<lambda>r. ev_seq (je_row (last batch)) < ev_seq r) ys) \<le> length (filter (\<lambda>r. after < ev_seq r) ys)" for ys
      by (induction ys) (use r(2) in auto)
    then show ?thesis using that by (induction xs) (use r(2) in \<open>auto simp: less_Suc_eq_le\<close>)
  qed
  from this [OF r(1)]
  show "((j, topic, ev_seq (je_row (last batch))), j, topic, after)
      \<in> measure (\<lambda>(j, t, a). length (filter (\<lambda>r. ev_seq r > a) (events j)))" by simp
qed simp

declare all_events.simps [simp del]

section \<open>Finding and sealing\<close>

text \<open>\<open>grouped.setdefault(cycle_id, []).append(event)\<close>.\<close>

definition group_event :: "journal_event \<Rightarrow> (string, journal_event list) dict \<Rightarrow> (string, journal_event list) dict" where
  "group_event e d = (case ev_correlation_id (je_row e) of
      None \<Rightarrow> d
    | Some c \<Rightarrow> if c = '''' then d
                else dict_set d c ((case map_of d c of None \<Rightarrow> [] | Some es \<Rightarrow> es) @ [e]))"

definition incomplete_of :: "string \<times> journal_event list \<Rightarrow> incomplete_cycle option" where
  "incomplete_of g = (case g of (cid, es) \<Rightarrow>
     let ordered = map je_row (sort_key (\<lambda>e. ev_seq (je_row e)) es); types = map ev_type ordered in
     if ''TICK'' \<notin> set types then None
     else if \<exists>t \<in> set types. t \<in> set TERMINAL_EVENT_TYPES then None
     else Some \<lparr>inc_cycle_id = cid, inc_first_seq = ev_seq (hd ordered), inc_last_seq = ev_seq (last ordered),
            inc_last_event_id = ev_id (last ordered), inc_event_types = types\<rparr>)"

definition find_incomplete_cycles :: "journal \<Rightarrow> incomplete_cycle list res" where
  "find_incomplete_cycles j =
     res_bind (all_events j ''physiology'' 0) (\<lambda>es.
     Inr (sort_key inc_first_seq (List.map_filter incomplete_of (fold group_event es []))))"

definition aborted_payload :: "string \<Rightarrow> incomplete_cycle \<Rightarrow> jobj" where
  "aborted_payload why c =
     [(''cycle_id'', JStr (inc_cycle_id c)), (''reason'', JStr why), (''first_seq'', JInt (inc_first_seq c)),
      (''last_seq'', JInt (inc_last_seq c)), (''observed_event_types'', JArr (map JStr (inc_event_types c))),
      (''closed'', JBool False), (''terminal'', JBool True)]"

text \<open>The clock is read at each append: \<open>clock\<close> gives its reading by the id of the cycle sealed.\<close>

definition seal_cycle :: "(string \<Rightarrow> int) \<Rightarrow> string \<Rightarrow> incomplete_cycle \<Rightarrow> (journal, string) eff" where
  "seal_cycle clock why c =
     eff_bind (append (clock (inc_cycle_id c)) (inc_cycle_id c @ '':aborted'') ''physiology'' ''CYCLE_ABORTED''
       (aborted_payload why c) (Some (inc_last_event_id c)) (Some (inc_cycle_id c)))
     (\<lambda>e. eff_return (ev_id (je_row e)))"

definition seal_incomplete_cycles :: "(string \<Rightarrow> int) \<Rightarrow> string \<Rightarrow> (journal, string list) eff" where
  "seal_incomplete_cycles clock why =
     eff_bind (eff_lift (raise_if (blank why) (ValueError ''reason must be non-empty''))) (\<lambda>_.
     eff_bind (eff_get find_incomplete_cycles) (\<lambda>found.
     eff_bind (eff_lift found) (\<lambda>cycles.
     eff_map (seal_cycle clock why) cycles)))"

text \<open>
  The constructor of \<open>RestartSafePhysiologyEngine\<close>: the events it recovered and the engine.
  A journal sealed before a later exception stays sealed.
\<close>

definition restart_safe_engine ::
  "(string \<Rightarrow> int res) \<Rightarrow> (string \<Rightarrow> int) \<Rightarrow> string \<Rightarrow> organism \<Rightarrow> homeostatic_policy \<Rightarrow>
   (journal, string list \<times> engine) eff" where
  "restart_safe_engine trunc clock why o1 policy =
     eff_bind (seal_incomplete_cycles clock why) (\<lambda>recovered.
     eff_bind (eff_get (\<lambda>j. new_engine trunc o1 j policy)) (\<lambda>built.
     eff_bind (eff_lift built) (\<lambda>e.
     eff_return (recovered, e))))"

definition restart_safe_init ::
  "(string \<Rightarrow> int res) \<Rightarrow> (string \<Rightarrow> int) \<Rightarrow> string \<Rightarrow> organism \<Rightarrow> homeostatic_policy \<Rightarrow> journal option \<Rightarrow>
   (string list \<times> engine) res" where
  "restart_safe_init trunc clock why o1 policy given = (case given of
      None \<Rightarrow> Inl (TypeError ''journal must be provided as a keyword argument'')
    | Some j \<Rightarrow> fst (restart_safe_engine trunc clock why o1 policy j))"

section \<open>What is found\<close>

definition physiology_rows :: "journal \<Rightarrow> int \<Rightarrow> event_row list" where
  "physiology_rows j after = filter (\<lambda>r. after < ev_seq r \<and> ev_topic r = ''physiology'') (events j)"

lemma event_seqs_sorted: "journal_ok j \<Longrightarrow> sorted (map ev_seq (events j)) \<and> distinct (map ev_seq (events j))"
proof -
  assume "journal_ok j"
  then have e: "map ev_seq (events j) = map int [1..<Suc (length (events j))]" by (simp add: journal_ok_def)
  have "strict_mono_on UNIV int" by (simp add: strict_mono_on_def)
  then show ?thesis unfolding e by (simp add: sorted_map distinct_map sorted_wrt_upt del: upt_Suc)
qed

lemma seq_positive:
  assumes "journal_ok j" and "r \<in> set (events j)"
  shows "0 < ev_seq r"
proof -
  have "ev_seq r \<in> set (map ev_seq (events j))" using assms(2) by simp
  also have "set (map ev_seq (events j)) = set (map int [1..<Suc (length (events j))])"
    using assms(1) unfolding journal_ok_def by metis
  finally show ?thesis by auto
qed

lemma sort_filtered: "sorted (map f xs) \<Longrightarrow> sort_key f (filter P xs) = filter P xs"
  by (simp add: sorted_filter sorted_sort_id sort_key_id_if_sorted)

lemma filter_beyond:
  assumes "sorted (map f F)" and "distinct (map f F)" and "take n F \<noteq> []"
  shows "filter (\<lambda>r. (f (last (take n F)) :: int) < f r) F = drop n F"
proof -
  define A where "A = take n F"
  define B where "B = drop n F"
  have F: "F = A @ B" by (simp add: A_def B_def)
  have "A \<noteq> []" using assms(3) by (simp add: A_def)
  then obtain as a where A: "A = as @ [a]" by (metis rev_exhaust)
  have s: "sorted_wrt (<) (map f F)" using assms(1,2) by (simp add: strict_sorted_iff)
  have "filter (\<lambda>r. f a < f r) A = []"
    using s unfolding F A by (auto simp: sorted_wrt_append filter_empty_conv)
  moreover have "filter (\<lambda>r. f a < f r) B = B"
    using s unfolding F A by (auto simp: sorted_wrt_append filter_id_conv)
  ultimately have "filter (\<lambda>r. f (last A) < f r) (A @ B) = B" by (simp only: filter_append) (simp add: A)
  then show ?thesis by (simp add: A_def B_def)
qed

lemma rows_load: "\<forall>r \<in> set rs. event_ok r \<Longrightarrow> \<exists>es. res_map row_to_event rs = Inr es"
proof (induction rs)
  case (Cons r rs)
  then obtain es where "res_map row_to_event rs = Inr es" by auto
  moreover obtain p where "row_to_event r = Inr \<lparr>je_row = r, je_payload = p\<rparr>" using row_loads Cons.prems by force
  ultimately show ?case by simp
qed simp

lemma read_returns:
  assumes "journal_ok j" and "0 \<le> after"
  obtains es where "read j after 10000 topic = Inr es"
proof -
  have "\<forall>r \<in> set (take (nat 10000) (sort_key ev_seq
      (filter (\<lambda>r. after < ev_seq r \<and> (topic = None \<or> topic = Some (ev_topic r))) (events j)))). event_ok r"
    using assms(1) by (auto simp: journal_ok_def dest: in_set_takeD)
  from rows_load [OF this] show ?thesis using assms(2) that by (auto simp: read_def)
qed

lemma topic_rows:
  assumes "journal_ok j" and "read j after 10000 (Some topic) = Inr es"
  shows "map je_row es = take 10000 (filter (\<lambda>r. after < ev_seq r \<and> ev_topic r = topic) (events j))"
proof -
  have "sort_key ev_seq (filter (\<lambda>r. after < ev_seq r \<and> ev_topic r = topic) (events j)) =
      filter (\<lambda>r. after < ev_seq r \<and> ev_topic r = topic) (events j)"
    using event_seqs_sorted [OF assms(1)] by (intro sort_filtered) simp
  then show ?thesis using read_until_rows [OF assms(2)] by (simp add: eq_commute [of topic])
qed

lemma all_events_rows:
  assumes "journal_ok j" and "0 \<le> after"
  shows "\<exists>es. all_events j topic after = Inr es \<and>
    map je_row es = filter (\<lambda>r. after < ev_seq r \<and> ev_topic r = topic) (events j)"
  using assms
proof (induction j topic after rule: all_events.induct)
  case (1 j topic after)
  define F where "F = filter (\<lambda>r. after < ev_seq r \<and> ev_topic r = topic) (events j)"
  obtain batch where b: "read j after 10000 (Some topic) = Inr batch" using read_returns [OF 1(2,3)] .
  have rows: "map je_row batch = take 10000 F" using topic_rows [OF 1(2) b] by (simp add: F_def)
  show ?case
  proof (cases "batch = []")
    case True
    then have "F = []" using rows by auto
    then show ?thesis using b True by (simp add: all_events.simps [of j] F_def)
  next
    case False
    let ?next = "ev_seq (je_row (last batch))"
    have lt: "after < ?next" using read_last [OF b False] by simp
    then have "0 \<le> ?next" using 1(3) by simp
    from 1(1) [OF b False 1(2) this] obtain rest where rest: "all_events j topic ?next = Inr rest"
      "map je_row rest = filter (\<lambda>r. ?next < ev_seq r \<and> ev_topic r = topic) (events j)" by blast
    have "?next = ev_seq (last (take 10000 F))" using False by (simp flip: rows add: last_map)
    moreover have "sorted (map ev_seq F)" "distinct (map ev_seq F)"
      using event_seqs_sorted [OF 1(2)] by (auto simp: F_def sorted_filter distinct_map inj_on_def)
    moreover have "take 10000 F \<noteq> []" using rows False by auto
    ultimately have "filter (\<lambda>r. ?next < ev_seq r) F = drop 10000 F" using filter_beyond [of ev_seq F 10000] by simp
    moreover have "filter (\<lambda>r. ?next < ev_seq r) F =
        filter (\<lambda>r. ?next < ev_seq r \<and> ev_topic r = topic) (events j)"
      unfolding F_def filter_filter by (rule filter_cong) (use lt in auto)
    ultimately have "map je_row (batch @ rest) = F" using rest(2) rows by simp
    then show ?thesis using b False rest(1) by (simp add: all_events.simps [of j] F_def)
  qed
qed

definition cycle_rows :: "journal \<Rightarrow> string \<Rightarrow> event_row list" where
  "cycle_rows j c = filter (\<lambda>r. ev_topic r = ''physiology'' \<and> ev_correlation_id r = Some c) (events j)"

text \<open>A cycle is open when it has begun and no terminal event of it is in the journal.\<close>

definition open_cycle :: "journal \<Rightarrow> string \<Rightarrow> bool" where
  "open_cycle j c \<longleftrightarrow> ''TICK'' \<in> ev_type ` set (cycle_rows j c) \<and>
     set TERMINAL_EVENT_TYPES \<inter> ev_type ` set (cycle_rows j c) = {}"

lemma group_event_ok: "dict_ok d \<Longrightarrow> dict_ok (group_event e d)"
  by (simp add: group_event_def split: option.split)

lemma groups_ok: "dict_ok d \<Longrightarrow> dict_ok (fold group_event es d)"
  by (induction es arbitrary: d) (simp_all add: group_event_ok)

definition members :: "journal_event list \<Rightarrow> string \<Rightarrow> journal_event list" where
  "members es c = filter (\<lambda>e. ev_correlation_id (je_row e) = Some c) es"

lemma groups_snoc: "fold group_event (es @ [e]) d = group_event e (fold group_event es d)"
  by simp

lemma group_of:
  "map_of (fold group_event es []) c = (if c = '''' \<or> members es c = [] then None else Some (members es c))"
proof (induction es rule: rev_induct)
  case (snoc e es)
  then show ?case
    by (cases "ev_correlation_id (je_row e)") (auto simp: groups_snoc group_event_def members_def)
qed (simp add: members_def)

lemma incomplete_of_Some:
  "incomplete_of (cid, es) = Some c \<Longrightarrow> inc_cycle_id c = cid"
  by (auto simp: incomplete_of_def Let_def split: if_splits)

lemma incomplete_of_iff:
  "incomplete_of (cid, es) \<noteq> None \<longleftrightarrow> ''TICK'' \<in> ev_type ` je_row ` set es \<and>
     set TERMINAL_EVENT_TYPES \<inter> ev_type ` je_row ` set es = {}"
  by (auto simp: incomplete_of_def Let_def image_image)

lemma found_cycles:
  assumes "journal_ok j"
  shows "\<exists>cs. find_incomplete_cycles j = Inr cs \<and> (\<forall>c. c \<in> inc_cycle_id ` set cs \<longleftrightarrow> c \<noteq> '''' \<and> open_cycle j c)"
proof -
  obtain es where es: "all_events j ''physiology'' 0 = Inr es"
    "map je_row es = filter (\<lambda>r. 0 < ev_seq r \<and> ev_topic r = ''physiology'') (events j)"
    using all_events_rows [OF assms order_refl] by blast
  note pos = seq_positive [OF assms]
  have rows: "je_row ` set (members es c) = set (cycle_rows j c)" for c
  proof -
    have "je_row ` set (members es c) = {r \<in> set (map je_row es). ev_correlation_id r = Some c}"
      by (auto simp: members_def)
    also have "\<dots> = set (cycle_rows j c)" unfolding es(2) using pos by (auto simp: cycle_rows_def)
    finally show ?thesis .
  qed
  define D where "D = fold group_event es []"
  define cs where "cs = sort_key inc_first_seq (List.map_filter incomplete_of D)"
  have ok: "dict_ok D" using groups_ok by (simp add: D_def)
  have "c \<in> inc_cycle_id ` set cs \<longleftrightarrow> c \<noteq> '''' \<and> open_cycle j c" for c
  proof -
    have "c \<in> inc_cycle_id ` set cs \<longleftrightarrow> (\<exists>ms. (c, ms) \<in> set D \<and> incomplete_of (c, ms) \<noteq> None)"
    proof -
      have "set cs = {x. \<exists>g \<in> set D. incomplete_of g = Some x}"
        by (force simp: cs_def map_filter_def)
      then show ?thesis using incomplete_of_Some by (fastforce simp: image_iff)
    qed
    also have "\<dots> \<longleftrightarrow> (\<exists>ms. map_of D c = Some ms \<and> incomplete_of (c, ms) \<noteq> None)"
      using ok by (simp add: dict_ok_def)
    also have "\<dots> \<longleftrightarrow> c \<noteq> '''' \<and> open_cycle j c"
      unfolding incomplete_of_iff D_def group_of open_cycle_def rows [symmetric] by auto
    finally show ?thesis .
  qed
  then show ?thesis using es(1) by (simp add: find_incomplete_cycles_def cs_def D_def)
qed

section \<open>What sealing does\<close>

definition aborted_row :: "event_row \<Rightarrow> bool" where
  "aborted_row r \<longleftrightarrow> ev_topic r = ''physiology'' \<and> ev_type r = ''CYCLE_ABORTED''"

definition only_aborted :: "journal \<Rightarrow> journal \<Rightarrow> bool" where
  "only_aborted j j' \<longleftrightarrow> (\<exists>new. j' = j\<lparr>events := events j @ new\<rparr> \<and> (\<forall>r \<in> set new. aborted_row r))"

lemma only_aborted_refl: "only_aborted j j"
  unfolding only_aborted_def by (intro exI [of _ "[]"]) simp

lemma only_aborted_trans: "only_aborted j j1 \<Longrightarrow> only_aborted j1 j2 \<Longrightarrow> only_aborted j j2"
  unfolding only_aborted_def by (elim exE conjE) (rule exI, rule conjI, simp, auto)

lemma strip_plain [simp]: "strip ''physiology'' = ''physiology''" "strip ''CYCLE_ABORTED'' = ''CYCLE_ABORTED''"
  by (simp_all add: strip_def is_space_def)

lemma wf_aborted_payload: "wf_json (JObj (aborted_payload why c))"
  by (auto simp: aborted_payload_def)

lemma seal_cycle_effect:
  assumes "seal_cycle clock why c j = (r, j')"
  shows "only_aborted j j'" and "journal_ok j \<Longrightarrow> journal_ok j'"
    and "r = Inr eid \<Longrightarrow> \<exists>row \<in> set (cycle_rows j' (inc_cycle_id c)). ev_type row = ''CYCLE_ABORTED''"
proof -
  obtain a where a: "append (clock (inc_cycle_id c)) (inc_cycle_id c @ '':aborted'') ''physiology'' ''CYCLE_ABORTED''
       (aborted_payload why c) (Some (inc_last_event_id c)) (Some (inc_cycle_id c)) j = (a, j')"
    and r: "r = res_bind a (\<lambda>e. Inr (ev_id (je_row e)))"
    using assms by (auto simp: seal_cycle_def eff_bind_def split: prod.splits sum.splits)
  from a show "only_aborted j j'"
  proof (cases rule: appendE)
    case (ins row)
    from ins(6) show ?thesis
    proof (cases rule: insert_event_cases)
      case new
      then show ?thesis unfolding only_aborted_def by (intro exI [of _ "[row]"]) (simp add: ins(1) aborted_row_def)
    qed (simp_all add: only_aborted_refl)
  qed (simp add: only_aborted_refl)
  show "journal_ok j'" if "journal_ok j" using append_keeps [OF a that wf_aborted_payload] .
  show "\<exists>row \<in> set (cycle_rows j' (inc_cycle_id c)). ev_type row = ''CYCLE_ABORTED''" if ri: "r = Inr eid"
  proof -
    obtain e where e: "a = Inr e" using ri r by auto
    from append_Inr [OF a [unfolded e] wf_aborted_payload]
    have "je_row e \<in> set (events j')" "ev_topic (je_row e) = ''physiology''" "ev_type (je_row e) = ''CYCLE_ABORTED''"
      "ev_correlation_id (je_row e) = Some (inc_cycle_id c)"
      by (auto simp: holds_event_def same_event_def)
    then show ?thesis by (auto simp: cycle_rows_def)
  qed
qed

lemma cycle_rows_grow: "only_aborted j j' \<Longrightarrow> set (cycle_rows j c) \<subseteq> set (cycle_rows j' c)"
  by (auto simp: only_aborted_def cycle_rows_def)

text \<open>After the loop every cycle of the list has its terminal event.\<close>

lemma seal_all:
  assumes "eff_map (seal_cycle clock why) cs j = (r, j')"
  shows "only_aborted j j'" and "journal_ok j \<Longrightarrow> journal_ok j'"
    and "r = Inr ids \<Longrightarrow> c \<in> set cs \<Longrightarrow> \<exists>row \<in> set (cycle_rows j' (inc_cycle_id c)). ev_type row = ''CYCLE_ABORTED''"
proof -
  have "only_aborted j j' \<and> (journal_ok j \<longrightarrow> journal_ok j') \<and> (\<forall>ids. r = Inr ids \<longrightarrow>
      (\<forall>c \<in> set cs. \<exists>row \<in> set (cycle_rows j' (inc_cycle_id c)). ev_type row = ''CYCLE_ABORTED''))"
    using assms
  proof (induction cs arbitrary: j r)
    case Nil
    then show ?case by (auto simp: only_aborted_refl)
  next
    case (Cons c cs)
    obtain r1 j1 where s: "seal_cycle clock why c j = (r1, j1)" by fastforce
    note fact = seal_cycle_effect [OF s]
    show ?case
    proof (cases r1)
      case (Inl e)
      then show ?thesis using Cons.prems s fact by (auto simp: eff_bind_def)
    next
      case (Inr eid)
      obtain r2 where m: "eff_map (seal_cycle clock why) cs j1 = (r2, j')" and r: "r = res_bind r2 (\<lambda>ys. Inr (eid # ys))"
        using Cons.prems s Inr by (auto simp: eff_bind_def split: prod.splits sum.splits)
      from Cons.IH [OF m] have ih: "only_aborted j1 j'" "journal_ok j1 \<longrightarrow> journal_ok j'"
        "\<forall>ids. r2 = Inr ids \<longrightarrow> (\<forall>c \<in> set cs. \<exists>row \<in> set (cycle_rows j' (inc_cycle_id c)). ev_type row = ''CYCLE_ABORTED'')"
        by blast+
      show ?thesis
        using fact(1,2) fact(3) [OF Inr] ih only_aborted_trans cycle_rows_grow [OF ih(1), of "inc_cycle_id c"] r
        by auto
    qed
  qed
  then show "only_aborted j j'" and "journal_ok j \<Longrightarrow> journal_ok j'"
    and "r = Inr ids \<Longrightarrow> c \<in> set cs \<Longrightarrow> \<exists>row \<in> set (cycle_rows j' (inc_cycle_id c)). ev_type row = ''CYCLE_ABORTED''"
    by blast+
qed

text \<open>C0: Recovery is complete and honest. When \<open>seal_incomplete_cycles\<close> has returned, no cycle of the
  journal is incomplete any more, and all it has written are \<open>CYCLE_ABORTED\<close> events of the topic:
  it commits nothing to memory, changes no event, no consumer offset and no runtime state.\<close>

theorem sealing_closes_all:
  assumes "journal_ok j" and "seal_incomplete_cycles clock why j = (Inr ids, j')"
  shows "find_incomplete_cycles j' = Inr [] \<and> journal_ok j' \<and>
    (\<exists>new. j' = j\<lparr>events := events j @ new\<rparr> \<and> (\<forall>r \<in> set new. ev_type r = ''CYCLE_ABORTED''))"
proof -
  obtain cs where cs: "find_incomplete_cycles j = Inr cs" "eff_map (seal_cycle clock why) cs j = (Inr ids, j')"
    using assms(2) by (auto simp: seal_incomplete_cycles_def)
  have open_found: "c \<in> inc_cycle_id ` set cs \<longleftrightarrow> c \<noteq> '''' \<and> open_cycle j c" for c
    using found_cycles [OF assms(1)] cs(1) by auto
  note sealed = seal_all [OF cs(2)]
  have closed: "\<not> open_cycle j' c" if ne: "c \<noteq> ''''" for c
  proof
    assume o: "open_cycle j' c"
    have "cycle_rows j' c = cycle_rows j c @ filter (\<lambda>r. ev_topic r = ''physiology'' \<and> ev_correlation_id r = Some c) new"
      if "j' = j\<lparr>events := events j @ new\<rparr>" for new by (simp add: that cycle_rows_def)
    with sealed(1) have new: "r \<in> set (cycle_rows j c) \<or> aborted_row r" if "r \<in> set (cycle_rows j' c)" for r
      using that unfolding only_aborted_def by fastforce
    obtain t where t: "t \<in> set (cycle_rows j' c)" "ev_type t = ''TICK''" using o by (auto simp: open_cycle_def)
    then have "t \<in> set (cycle_rows j c)" using new [OF t(1)] by (auto simp: aborted_row_def)
    moreover have "set TERMINAL_EVENT_TYPES \<inter> ev_type ` set (cycle_rows j c) = {}"
      using o cycle_rows_grow [OF sealed(1), of c] unfolding open_cycle_def by blast
    ultimately have "open_cycle j c" unfolding open_cycle_def using t(2) by (metis image_eqI)
    then have "c \<in> inc_cycle_id ` set cs" using open_found [of c] ne by simp
    then obtain x where x: "x \<in> set cs" "inc_cycle_id x = c" by (elim imageE) simp
    obtain row where "row \<in> set (cycle_rows j' c)" "ev_type row = ''CYCLE_ABORTED''"
      using sealed(3) [OF refl x(1)] unfolding x(2) by blast
    then have "''CYCLE_ABORTED'' \<in> ev_type ` set (cycle_rows j' c)" by (metis image_eqI)
    with o show False by (simp add: open_cycle_def TERMINAL_EVENT_TYPES_def)
  qed
  have ok: "journal_ok j'" using sealed(2) assms(1) .
  obtain ds where ds: "find_incomplete_cycles j' = Inr ds"
    "\<forall>c. c \<in> inc_cycle_id ` set ds \<longleftrightarrow> c \<noteq> '''' \<and> open_cycle j' c" using found_cycles [OF ok] by blast
  have "ds = []" using ds(2) closed by (cases ds) auto
  then show ?thesis using ds(1) ok sealed(1) unfolding only_aborted_def aborted_row_def by blast
qed

section \<open>A journal with an open cycle\<close>

definition open_journal :: journal where
  "open_journal = \<lparr>events = [\<lparr>ev_seq = 1, ev_id = ''c:tick'', ev_topic = ''physiology'', ev_type = ''TICK'',
      ev_payload_json = canonical_json (JObj []), ev_created_ns = 0, ev_causation_id = None,
      ev_correlation_id = Some ''c'', ev_receipt_hash = ''r''\<rparr>], consumer_offsets = [], runtime_state = []\<rparr>"

definition open_found :: incomplete_cycle where
  "open_found = \<lparr>inc_cycle_id = ''c'', inc_first_seq = 1, inc_last_seq = 1, inc_last_event_id = ''c:tick'',
     inc_event_types = [''TICK'']\<rparr>"

lemma open_journal_ok: "journal_ok open_journal"
  by (auto simp: journal_ok_def open_journal_def event_ok_def intro!: exI [of _ "[]"])

lemma open_journal_found: "find_incomplete_cycles open_journal = Inr [open_found]"
proof -
  have "all_events open_journal ''physiology'' 1 = Inr []"
    by (subst all_events.simps) (simp add: read_def open_journal_def)
  then have "all_events open_journal ''physiology'' 0 = Inr [\<lparr>je_row = hd (events open_journal), je_payload = JObj []\<rparr>]"
    by (subst all_events.simps) (simp add: read_def open_journal_def row_to_event_def sort_json.simps)
  then show ?thesis
    by (simp add: find_incomplete_cycles_def group_event_def incomplete_of_def open_found_def TERMINAL_EVENT_TYPES_def
        open_journal_def dict_set_def map_filter_def Let_def)
qed

lemma open_journal_sealed:
  "\<exists>j'. seal_incomplete_cycles (\<lambda>_. 0) ''restart'' open_journal = (Inr [''c:aborted''], j')"
proof -
  define digest where "digest = receipt_digest ''PHYSIOLOGY_EVENT''
      (journal_core ''c:aborted'' ''physiology'' ''CYCLE_ABORTED'' (clone_obj (aborted_payload ''restart'' open_found)) 0
        (Some ''c:tick'') (Some ''c'')) [(''accepted'', JBool True)]"
  have "length digest = 64" using receipt_digest_hex unfolding digest_def hex_lower_n_def by blast
  then have "digest \<noteq> ''r''" by auto
  moreover have "strip ''c:aborted'' = ''c:aborted''" "\<not> blank ''c:aborted''" "\<not> blank ''physiology''"
    "\<not> blank ''CYCLE_ABORTED''" "\<not> blank ''restart''"
    by (simp_all add: strip_def blank_def is_space_def)
  ultimately have "\<exists>e. append 0 ''c:aborted'' ''physiology'' ''CYCLE_ABORTED'' (aborted_payload ''restart'' open_found)
      (Some ''c:tick'') (Some ''c'') open_journal =
      (Inr e, open_journal\<lparr>events := events open_journal @ [je_row e]\<rparr>) \<and> ev_id (je_row e) = ''c:aborted''"
    unfolding append_def
    by (simp add: validate_label_def insert_event_def Let_def max_seq_def digest_def [symmetric] row_to_event_def
        wf_aborted_payload) (simp add: open_journal_def)
  then show ?thesis
    using \<open>\<not> blank ''restart''\<close>
    by (auto simp: seal_incomplete_cycles_def open_journal_found seal_cycle_def open_found_def eff_bind_def)
qed

theorem sealing_closes_all_witness:
  "find_incomplete_cycles open_journal = Inr [open_found] \<and>
   (\<exists>j'. seal_incomplete_cycles (\<lambda>_. 0) ''restart'' open_journal = (Inr [''c:aborted''], j') \<and>
     find_incomplete_cycles j' = Inr [])"
  using open_journal_sealed sealing_closes_all [OF open_journal_ok] open_journal_found by blast

end
