(* ===== verification/Supervisor_Properties.thy ===== *)
theory Supervisor_Properties
  imports Homeostatic_Supervisor Feedback_Properties Physiology_Recovery
begin

text \<open>
  The guarantees of the supervisor: the policy a journal is bound to is the only one under
  which anybody may step, attempts are counted without gaps whatever is raised, a pending
  recovery takes no proposal from outside, and the search for the source event sees only the
  oldest ten thousand events of the topic.
\<close>

section \<open>The supervisor's entries of the runtime state\<close>

definition supervisor_slot :: "string \<Rightarrow> string \<Rightarrow> string" where
  "supervisor_slot name oid = strip (''bounded-recovery-'' @ name @ oid)"

lemma supervisor_keys:
  "strip (policy_key o1) = supervisor_slot ''policy:'' (organism_id o1)" "\<not> blank (policy_key o1)"
  "strip (attempt_key o1) = supervisor_slot ''attempts:'' (organism_id o1)" "\<not> blank (attempt_key o1)"
  by (simp_all add: policy_key_def attempt_key_def supervisor_slot_def blank_iff is_space_def)

lemma supervisor_slot_prefix: "\<exists>x. supervisor_slot name oid = ''bounded-recovery-'' @ x"
  unfolding supervisor_slot_def by (subst strip_prefix) (auto simp: is_space_def)

lemma supervisor_slots_foreign:
  "strip (state_key o1) \<noteq> supervisor_slot name oid" "strip (feedback_key o1) \<noteq> supervisor_slot name oid"
proof -
  obtain x where x: "supervisor_slot name oid = ''bounded-recovery-'' @ x" using supervisor_slot_prefix by blast
  show "strip (state_key o1) \<noteq> supervisor_slot name oid"
    unfolding x state_key_def by (subst strip_prefix) (auto simp: is_space_def)
  show "strip (feedback_key o1) \<noteq> supervisor_slot name oid"
    unfolding x feedback_key_def by (subst strip_prefix) (auto simp: is_space_def)
qed

lemma supervisor_slots_apart: "supervisor_slot ''policy:'' a \<noteq> supervisor_slot ''attempts:'' b"
proof -
  have "supervisor_slot ''policy:'' a = ''bounded-recovery-policy:'' @ rev (dropWhile is_space (rev a))"
    using strip_prefix [of "''bounded-recovery-policy:''" a] by (simp add: supervisor_slot_def is_space_def)
  moreover have "supervisor_slot ''attempts:'' b = ''bounded-recovery-attempts:'' @ rev (dropWhile is_space (rev b))"
    using strip_prefix [of "''bounded-recovery-attempts:''" b] by (simp add: supervisor_slot_def is_space_def)
  ultimately show ?thesis by simp
qed

interpretation supervisor_slot: cycle_invariant "slot_is oid (supervisor_slot name oid) v" for oid name v
  by (rule slot_cycle_invariant [OF supervisor_slots_foreign(1)])

definition loop_slot :: "string \<Rightarrow> string \<Rightarrow> (string \<times> int) option \<Rightarrow> closed_loop \<Rightarrow> bool" where
  "loop_slot oid name v l \<longleftrightarrow> slot_is oid (supervisor_slot name oid) v (cl_engine l)"

lemma keeps_on_engine: "eff_keeps (slot_is oid (supervisor_slot name oid) v) m \<Longrightarrow> eff_keeps (loop_slot oid name v) (on_engine m)"
  by (auto simp: eff_keeps_def loop_slot_def on_engine_def eff_part_def split: prod.splits)

lemma keeps_loop_append: "eff_keeps (loop_slot oid name v) (loop_journal (append t eid topic etype payload ca co))"
  unfolding loop_journal_def by (intro keeps_on_engine supervisor_slot.keeps_append)

lemma keeps_persist_feedback: "eff_keeps (loop_slot oid name v) (persist_feedback now)"
  by (simp add: eff_keeps_def persist_feedback_result loop_slot_def slot_is_def put_state_def
      set_state_slot [OF surjective_pairing supervisor_slots_foreign(2)])

lemma keeps_closed_tick: "eff_keeps (loop_slot oid name v) (closed_tick env inp)"
proof -
  have state: "eff_keeps (loop_slot oid name v) (eff_modify (\<lambda>l. l\<lparr>cl_state := f l\<rparr>))" for f
    by (rule keeps_modify) (simp add: loop_slot_def)
  have gate: "eff_keeps (loop_slot oid name v) (record_gate_hold env cycle why)" for cycle why
    unfolding record_gate_hold_def Let_def by (intro keeps_intros keeps_loop_append)
  have rec: "eff_keeps (loop_slot oid name v) (record_effect_feedback env cycle outcome recovery)" for cycle outcome recovery
    unfolding record_effect_feedback_def Let_def
    by (intro keeps_intros state keeps_loop_append keeps_persist_feedback)
  have tick: "eff_keeps (loop_slot oid name v) (on_engine (tick e i))" for e i
    by (intro keeps_on_engine supervisor_slot.tick_keeps)
  have "eff_keeps (loop_slot oid name v) (held_tick env i why)" for i why
    unfolding held_tick_def by (intro keeps_intros tick gate)
  moreover have "eff_keeps (loop_slot oid name v) (allowed_tick env i b)" for i b
    unfolding allowed_tick_def by (auto intro!: keeps_intros tick rec)
  ultimately show ?thesis
    unfolding closed_tick_def Let_def by (auto split: option.split intro!: keeps_intros)
qed

lemma get_slot:
  "get_state j (policy_key o1) d = (case map_of (runtime_state j) (supervisor_slot ''policy:'' (organism_id o1)) of
      None \<Rightarrow> Inr d | Some (v, t) \<Rightarrow> json_loads v)"
  "get_state j (attempt_key o1) d = (case map_of (runtime_state j) (supervisor_slot ''attempts:'' (organism_id o1)) of
      None \<Rightarrow> Inr d | Some (v, t) \<Rightarrow> json_loads v)"
  using supervisor_keys [of o1] by (simp_all add: get_state_def validate_label_def)

section \<open>The bound policy\<close>

lemma on_loop_eq: "on_loop m s = (r, s') \<longleftrightarrow> (\<exists>l. m (sv_loop s) = (r, l) \<and> s' = s\<lparr>sv_loop := l\<rparr>)"
  by (auto simp: on_loop_def eff_part_def split: prod.splits)

definition sv_slot :: "string \<Rightarrow> recovery_policy \<Rightarrow> string \<Rightarrow> (string \<times> int) option \<Rightarrow> supervisor \<Rightarrow> bool" where
  "sv_slot oid p name v s \<longleftrightarrow> sv_policy s = p \<and> loop_slot oid name v (sv_loop s)"

lemma keeps_on_loop: "eff_keeps (loop_slot oid name v) m \<Longrightarrow> eff_keeps (sv_slot oid p name v) (on_loop m)"
  by (auto simp: eff_keeps_def sv_slot_def on_loop_def eff_part_def split: prod.splits)

lemma keeps_run_attempt: "eff_keeps (sv_slot oid p name v) (run_attempt env inp origin n inputs proposal fp source)"
  unfolding run_attempt_def Let_def by (intro keeps_intros keeps_on_loop keeps_loop_append keeps_closed_tick)

lemma keeps_attempt_write:
  "eff_keeps (sv_slot oid p ''policy:'' v)
     (eff_bind (eff_get (\<lambda>s. attempt_key (supervisor_organism s))) (\<lambda>k. on_loop (loop_journal (set_state now k w))))"
  by (auto simp: eff_keeps_def sv_slot_def loop_slot_def slot_is_def on_loop_def loop_journal_def on_engine_def
      on_journal_def eff_part_def supervisor_keys supervisor_slots_apart [symmetric] split: prod.splits
      dest!: set_state_slot [where k' = "supervisor_slot ''policy:'' oid"])

lemma keeps_next_attempt: "eff_keeps (sv_slot oid p ''policy:'' v) (next_attempt_number trunc now origin)"
proof -
  have assoc: "eff_bind (eff_get f) (\<lambda>k. eff_bind (g k) h) = eff_bind (eff_bind (eff_get f) g) h" for f g h
    by (rule ext) (simp add: eff_bind_def)
  show ?thesis
    unfolding next_attempt_number_def assoc
    by (auto intro!: keeps_intros keeps_attempt_write split: json.split)
qed

lemma keeps_recovery_step: "eff_keeps (sv_slot oid p ''policy:'' v) (recovery_step trunc env inp)"
  unfolding recovery_step_def
  by (auto intro!: keeps_intros keeps_next_attempt keeps_run_attempt split: option.split)

definition binding_names :: "(string \<times> int) option \<Rightarrow> string \<Rightarrow> bool" where
  "binding_names v fp \<longleftrightarrow> (\<exists>text t d. v = Some (text, t) \<and> json_loads text = Inr (JObj d) \<and>
     jget d ''schema'' = JStr SUPERVISOR_SCHEMA \<and> jget d ''policy_fingerprint'' = JStr fp)"

text \<open>The journal of a supervisor is bound to a fingerprint.\<close>

definition bound_to :: "string \<Rightarrow> supervisor \<Rightarrow> bool" where
  "bound_to fp s \<longleftrightarrow> (\<exists>v. binding_names v fp \<and>
     map_of (runtime_state (supervisor_journal s)) (supervisor_slot ''policy:'' (organism_id (supervisor_organism s))) = v)"

lemma bound_to_slot:
  "bound_to fp s \<longleftrightarrow> (\<exists>v. binding_names v fp \<and> sv_slot (organism_id (supervisor_organism s)) (sv_policy s) ''policy:'' v s)"
  by (auto simp: bound_to_def sv_slot_def loop_slot_def slot_is_def supervisor_journal_def supervisor_organism_def)

lemma sv_slot_bound: "sv_slot oid p ''policy:'' v s \<Longrightarrow> binding_names v fp \<Longrightarrow> bound_to fp s \<and> sv_policy s = p"
  by (auto simp: bound_to_def sv_slot_def loop_slot_def slot_is_def supervisor_journal_def supervisor_organism_def)

lemma keeps_bound:
  assumes "m s = (r, s')" and "\<And>oid p v. eff_keeps (sv_slot oid p ''policy:'' v) m" and "bound_to fp s"
  shows "bound_to fp s' \<and> sv_policy s' = sv_policy s"
proof -
  obtain v where v: "binding_names v fp" "sv_slot (organism_id (supervisor_organism s)) (sv_policy s) ''policy:'' v s"
    using assms(3) bound_to_slot by blast
  from eff_keepsD [OF assms(2) v(2) assms(1)] show ?thesis by (rule sv_slot_bound [OF _ v(1)])
qed

lemma bound_reads:
  assumes "bound_to fp s"
  obtains d where "get_state (supervisor_journal s) (policy_key (supervisor_organism s)) JNull = Inr (JObj d)"
    "jget d ''schema'' = JStr SUPERVISOR_SCHEMA" "jget d ''policy_fingerprint'' = JStr fp"
  using assms by (auto simp: bound_to_def binding_names_def get_slot)

lemma bind_when_bound:
  assumes "bound_to fp s" and "fingerprint (sv_policy s) = Inr fq"
  shows "bind_or_validate_policy now s =
    (if fq = fp then Inr () else Inl (ValueError ''recovery policy fingerprint mismatch''), s)"
  by (rule bound_reads [OF assms(1)]) (simp add: bind_or_validate_policy_def assms(2) raise_if_def)

lemma bind_unchanged: "bound_to fp s \<Longrightarrow> snd (bind_or_validate_policy now s) = s"
  by (erule bound_reads, cases "fingerprint (sv_policy s)")
    (simp_all add: bind_or_validate_policy_def eff_bind_def raise_if_def)

lemma bind_binds:
  assumes "bind_or_validate_policy now s = (Inr (), s')" and "fingerprint (sv_policy s) = Inr fp"
  shows "bound_to fp s' \<and> sv_policy s' = sv_policy s \<and> supervisor_organism s' = supervisor_organism s \<and>
    cl_state (sv_loop s') = cl_state (sv_loop s)"
proof -
  let ?v = "JObj [(''schema'', JStr SUPERVISOR_SCHEMA), (''policy_fingerprint'', JStr fp)]"
  obtain stored where g: "get_state (supervisor_journal s) (policy_key (supervisor_organism s)) JNull = Inr stored"
    using assms(1) by (auto simp: bind_or_validate_policy_def)
  show ?thesis
  proof (cases stored)
    case JNull
    have w: "set_state now (policy_key (supervisor_organism s)) ?v j =
        (Inr (), j\<lparr>runtime_state := dict_set (runtime_state j) (supervisor_slot ''policy:'' (organism_id (supervisor_organism s)))
           (canonical_json ?v, now)\<rparr>)" for j
      using supervisor_keys by (simp add: set_state_def validate_label_def)
    have "binding_names (Some (canonical_json ?v, now)) fp"
      by (simp add: binding_names_def) (simp add: sort_json.simps jget_def)
    then show ?thesis
      using assms g JNull w
      by (auto simp: bind_or_validate_policy_def on_loop_eq loop_journal_eq bound_to_def supervisor_organism_def
          supervisor_journal_def)
  next
    case (JObj d)
    then have "jget d ''schema'' = JStr SUPERVISOR_SCHEMA" "jget d ''policy_fingerprint'' = JStr fp" "s' = s"
      using assms g by (auto simp: bind_or_validate_policy_def)
    moreover obtain w t where "map_of (runtime_state (supervisor_journal s))
        (supervisor_slot ''policy:'' (organism_id (supervisor_organism s))) = Some (w, t)" "json_loads w = Inr (JObj d)"
      using g JObj by (auto simp: get_slot split: option.splits)
    ultimately show ?thesis by (auto simp: bound_to_def binding_names_def)
  qed (use assms g in \<open>auto simp: bind_or_validate_policy_def\<close>)
qed

lemma keeps_closed_on_loop: "eff_keeps (sv_slot oid p name v) (on_loop (closed_tick env inp))"
  by (rule keeps_on_loop [OF keeps_closed_tick])

lemma step_keeps_bound:
  assumes "supervisor_step trunc env inp s = (r, s')" and "bound_to fp s"
  shows "bound_to fp s' \<and> sv_policy s' = sv_policy s"
proof -
  obtain u where b: "bind_or_validate_policy (ce_clock (fb_cycle env) ''policy'') s = (u, s)"
    using bind_unchanged [OF assms(2)] by (metis prod.collapse)
  show ?thesis
  proof (cases u)
    case (Inl e)
    then show ?thesis using assms b by (auto simp: supervisor_step_def)
  next
    case (Inr x)
    let ?m = "if \<not> recovery_required (cl_state (sv_loop s)) then
       eff_bind (on_loop (closed_tick env inp)) (\<lambda>cycle.
       eff_return \<lparr>sr_cycle = cycle, sr_attempted = False, sr_origin = None, sr_fingerprint = None,
         sr_proposal_receipt = None, sr_outcome_receipt = None\<rparr>)
     else recovery_step trunc env inp"
    have "?m s = (r, s')" using assms(1) b Inr by (simp add: supervisor_step_def)
    moreover have "eff_keeps (sv_slot oid p ''policy:'' v) ?m" for oid p v
      by (auto intro!: keeps_intros keeps_closed_on_loop keeps_recovery_step)
    ultimately show ?thesis using keeps_bound assms(2) by blast
  qed
qed

text \<open>Steps of supervisors over one journal; the next one may be built with another policy.\<close>

inductive supervised :: "supervisor \<Rightarrow> supervisor \<Rightarrow> bool" where
  stepped: "supervisor_step trunc env inp s = (r, s') \<Longrightarrow> supervised s s'"
| rebuilt: "new_supervisor now (sv_loop s) p = (r, s') \<Longrightarrow> supervised s s'"

inductive_cases supervisedE: "supervised s s'"

lemma new_keeps_bound:
  assumes "new_supervisor now (sv_loop s) p = (r, s')" and "bound_to fp s"
  shows "bound_to fp s'"
proof -
  have "bound_to fp \<lparr>sv_loop = sv_loop s, sv_policy = p\<rparr>"
    using assms(2) by (simp add: bound_to_def supervisor_organism_def supervisor_journal_def)
  from bind_unchanged [OF this, of now] this show ?thesis using assms(1) by (simp add: new_supervisor_def)
qed

lemma supervised_bound: "supervised\<^sup>*\<^sup>* s s' \<Longrightarrow> bound_to fp s \<Longrightarrow> bound_to fp s'"
proof (induction rule: rtranclp_induct)
  case (step s1 s2)
  then have b: "bound_to fp s1" by simp
  from step(2) show ?case
  proof (rule supervisedE)
    show "bound_to fp s2" if "supervisor_step trunc env inp s1 = (r, s2)" for trunc env inp r
      using step_keeps_bound [OF that b] by blast
    show "bound_to fp s2" if "new_supervisor now (sv_loop s1) p = (r, s2)" for now p r
      using new_keeps_bound [OF that b] .
  qed
qed simp


section \<open>Attempts\<close>

text \<open>The counters of a supervisor whose stored attempts are a table of numbers.\<close>

definition attempts_are :: "jobj \<Rightarrow> supervisor \<Rightarrow> bool" where
  "attempts_are d s \<longleftrightarrow> get_state (supervisor_journal s) (attempt_key (supervisor_organism s)) (JObj []) = Inr (JObj d) \<and>
     wf_json (JObj d) \<and> (\<forall>v \<in> snd ` set d. \<exists>n. v = JInt n \<and> 0 \<le> n)"

definition attempts_of :: "supervisor \<Rightarrow> string \<Rightarrow> int" where
  "attempts_of s origin = (case get_state (supervisor_journal s) (attempt_key (supervisor_organism s)) (JObj []) of
      Inr (JObj d) \<Rightarrow> (case get_default d origin (JInt 0) of JInt n \<Rightarrow> n | _ \<Rightarrow> 0)
    | _ \<Rightarrow> 0)"

lemma attempt_read:
  assumes "attempts_are d s"
  shows "get_default d origin (JInt 0) = JInt (attempts_of s origin)" and "0 \<le> attempts_of s origin"
proof -
  have "\<exists>n. get_default d origin (JInt 0) = JInt n \<and> 0 \<le> n"
  proof (cases "map_of d origin")
    case (Some v)
    then have "v \<in> snd ` set d" by (force dest: map_of_SomeD)
    then show ?thesis using assms Some by (auto simp: attempts_are_def get_default_def)
  qed (simp add: get_default_def)
  then show "get_default d origin (JInt 0) = JInt (attempts_of s origin)" "0 \<le> attempts_of s origin"
    using assms by (auto simp: attempts_of_def attempts_are_def)
qed

text \<open>Taking a number writes it and nothing else.\<close>

lemma next_attempt_result:
  assumes "attempts_are d s"
  shows "\<exists>s'. next_attempt_number trunc now origin s = (Inr (attempts_of s origin + 1), s') \<and>
    (\<exists>d'. attempts_are d' s') \<and> attempts_of s' origin = attempts_of s origin + 1 \<and>
    (\<forall>other. other \<noteq> origin \<longrightarrow> attempts_of s' other = attempts_of s other) \<and>
    sv_policy s' = sv_policy s \<and> cl_state (sv_loop s') = cl_state (sv_loop s) \<and>
    supervisor_organism s' = supervisor_organism s \<and>
    events (supervisor_journal s') = events (supervisor_journal s) \<and> cl_secret (sv_loop s') = cl_secret (sv_loop s) \<and>
    e_runtime (cl_engine (sv_loop s')) = e_runtime (cl_engine (sv_loop s))"
proof -
  let ?n = "attempts_of s origin + 1" and ?k = "attempt_key (supervisor_organism s)"
  define d1 where "d1 = dict_set d origin (JInt ?n)"
  define j where "j = put_state now ?k (JObj d1) (supervisor_journal s)"
  define s' where "s' = s\<lparr>sv_loop := (sv_loop s)\<lparr>cl_engine := (cl_engine (sv_loop s))\<lparr>e_journal := j\<rparr>\<rparr>\<rparr>"
  note got = assms [unfolded attempts_are_def]
  have vals: "v \<in> snd ` set d1 \<Longrightarrow> \<exists>n. v = JInt n \<and> 0 \<le> n" for v
    using set_dict_set [of d origin "JInt ?n"] got attempt_read(2) [OF assms, of origin] unfolding d1_def by fastforce
  have wf: "wf_json (JObj d1)" unfolding d1_def using got by (intro wf_dict_set) simp_all
  have "set_state now ?k (JObj d1) (supervisor_journal s) = (Inr (), j)"
    using supervisor_keys by (simp add: j_def put_state_def set_state_def validate_label_def)
  then have step: "next_attempt_number trunc now origin s = (Inr ?n, s')"
    using got attempt_read [OF assms, of origin]
    by (simp add: next_attempt_number_def json_int_def d1_def [symmetric] on_loop_def loop_journal_def on_engine_def
        on_journal_def eff_part_def s'_def supervisor_journal_def eff_bind_def raise_if_def)
  have read: "get_state (supervisor_journal s') (attempt_key (supervisor_organism s')) (JObj []) = Inr (JObj (clone_obj d1))"
    using journal_store.get_put [OF supervisor_keys(4) wf] clone_obj_sort [of d1]
    by (simp add: s'_def supervisor_journal_def supervisor_organism_def j_def)
  have ints: "sort_json v = v" if "v \<in> snd ` set d1" for v using vals [OF that] by (auto simp: sort_json.simps)
  have "attempts_are (clone_obj d1) s'"
    using read wf vals ints by (auto simp: attempts_are_def clone_values)
  moreover have "map_of (clone_obj d1) k = map_of d1 k" for k
    using ints wf_JObj_dict_ok [OF wf] by (cases "map_of d1 k") (force simp: map_of_clone dest: map_of_SomeD)+
  then have "get_default (clone_obj d1) k (JInt 0) = get_default d1 k (JInt 0)" for k
    by (simp add: get_default_def)
  then have "attempts_of s' origin = ?n" "\<And>other. other \<noteq> origin \<Longrightarrow> attempts_of s' other = attempts_of s other"
    using read got by (simp_all add: attempts_of_def d1_def get_default_def)
  moreover have "events (supervisor_journal s') = events (supervisor_journal s)"
    using set_state_effect [of now ?k "JObj d1" "supervisor_journal s"]
    by (simp add: s'_def supervisor_journal_def j_def put_state_def) (metis prod.collapse)
  ultimately show ?thesis
    using step by (intro exI [of _ s'] conjI) (auto simp: s'_def supervisor_organism_def)
qed

lemma attempts_slot:
  assumes "sv_slot oid p ''attempts:'' v s" and "sv_slot oid p ''attempts:'' v s'"
  shows "attempts_of s' = attempts_of s" and "attempts_are d s' \<longleftrightarrow> attempts_are d s"
  using assms
  by (auto simp: sv_slot_def loop_slot_def slot_is_def attempts_of_def attempts_are_def get_slot supervisor_journal_def
      supervisor_organism_def)

text \<open>A supervisor that must recover, under its bound policy.\<close>

definition must_recover :: "string \<Rightarrow> string \<Rightarrow> supervisor \<Rightarrow> bool" where
  "must_recover fp c s \<longleftrightarrow> bound_to fp s \<and> fingerprint (sv_policy s) = Inr fp \<and>
     recovery_required (cl_state (sv_loop s)) \<and> recovery_for (cl_state (sv_loop s)) = Some c"

lemma pending_step:
  "must_recover fp c s \<Longrightarrow> supervisor_step trunc env inp s = recovery_step trunc env inp s"
  using bind_when_bound [of fp s fp "ce_clock (fb_cycle env) ''policy''"]
  by (simp add: supervisor_step_def must_recover_def)

text \<open>While a recovery is pending the supervisor proposes alone, and counts every attempt. A proposal from
  outside is refused with an error and without any effect. Without one, the step takes the next
  attempt number of the cycle to recover: whatever is raised afterwards, the counter of that cycle is
  one higher and every other counter is as it was.\<close>

theorem attempts_counted:
  assumes "must_recover fp c s" and "attempts_are d s"
  shows "(ci_proposal inp \<noteq> None \<longrightarrow> supervisor_step trunc env inp s =
      (Inl (ValueError ''external proposal is not accepted while bounded autonomous recovery is pending''), s)) \<and>
    (ci_proposal inp = None \<longrightarrow> (\<exists>s'. s' = snd (supervisor_step trunc env inp s) \<and> attempts_of s' c = attempts_of s c + 1 \<and>
      (\<forall>other. other \<noteq> c \<longrightarrow> attempts_of s' other = attempts_of s other) \<and> (\<exists>d'. attempts_are d' s')))"
proof (intro conjI impI)
  assume "ci_proposal inp \<noteq> None"
  then show "supervisor_step trunc env inp s =
      (Inl (ValueError ''external proposal is not accepted while bounded autonomous recovery is pending''), s)"
    unfolding pending_step [OF assms(1)] by (simp add: recovery_step_def raise_if_def eff_bind_def)
next
  assume none: "ci_proposal inp = None"
  obtain s1 where n: "next_attempt_number trunc (ce_clock (fb_cycle env) ''attempt'') c s = (Inr (attempts_of s c + 1), s1)"
    and s1: "\<exists>d'. attempts_are d' s1" "attempts_of s1 c = attempts_of s c + 1"
      "\<forall>other. other \<noteq> c \<longrightarrow> attempts_of s1 other = attempts_of s other"
    using next_attempt_result [OF assms(2), of trunc "ce_clock (fb_cycle env) ''attempt''" c] by blast
  let ?st = "cl_state (sv_loop s)"
  let ?rest = "eff_bind (eff_get (\<lambda>s. feedback_event_id_for_receipt (supervisor_journal s) (last_feedback_receipt_hash ?st))) (\<lambda>found.
         eff_bind (eff_lift found) (\<lambda>source.
         eff_bind (eff_get (\<lambda>s. proposal_for (sv_policy s) ?st)) (\<lambda>made.
         eff_bind (eff_lift made) (\<lambda>proposal.
         eff_bind (eff_get (\<lambda>s. fingerprint (sv_policy s))) (\<lambda>fingerprinted.
         eff_bind (eff_lift fingerprinted) (\<lambda>fp.
         eff_bind (eff_get (\<lambda>s. proposal_inputs (organism_id (supervisor_organism s)) c (attempts_of s1 c) source
                      (last_feedback_receipt_hash ?st) fp inp)) (\<lambda>inputs.
         run_attempt env inp c (attempts_of s1 c) inputs proposal fp source)))))))"
  have step: "supervisor_step trunc env inp s = ?rest s1"
    using assms(1) none n s1(2)
    unfolding pending_step [OF assms(1)] by (simp add: recovery_step_def must_recover_def)
  obtain v where v: "sv_slot (organism_id (supervisor_organism s1)) (sv_policy s1) ''attempts:'' v s1"
    by (auto simp: sv_slot_def loop_slot_def slot_is_def supervisor_organism_def)
  have "eff_keeps (sv_slot (organism_id (supervisor_organism s1)) (sv_policy s1) ''attempts:'' v) ?rest"
    by (intro keeps_intros keeps_run_attempt)
  then have v': "sv_slot (organism_id (supervisor_organism s1)) (sv_policy s1) ''attempts:'' v (snd (?rest s1))"
    using v by (simp add: eff_keeps_def)
  show "\<exists>s'. s' = snd (supervisor_step trunc env inp s) \<and> attempts_of s' c = attempts_of s c + 1 \<and>
      (\<forall>other. other \<noteq> c \<longrightarrow> attempts_of s' other = attempts_of s other) \<and> (\<exists>d'. attempts_are d' s')"
    unfolding step using attempts_slot [OF v v'] s1 by simp
qed

section \<open>The search for the source event\<close>

definition row_carries :: "string \<Rightarrow> event_row \<Rightarrow> bool" where
  "row_carries digest r = (case row_to_event r of Inl e \<Rightarrow> False | Inr e \<Rightarrow> carries_receipt digest e)"

lemma rows_carry:
  "res_map row_to_event rs = Inr es \<Longrightarrow> (\<exists>e \<in> set es. carries_receipt digest e) \<longleftrightarrow> (\<exists>r \<in> set rs. row_carries digest r)"
  by (induction rs arbitrary: es) (auto simp: row_carries_def)

lemma source_not_found:
  assumes "\<forall>r \<in> set (take 10000 (sort_key ev_seq (filter (\<lambda>r. 0 < ev_seq r \<and> ev_topic r = ''physiology'') (events j)))).
      event_ok r \<and> \<not> row_carries digest r"
  shows "feedback_event_id_for_receipt j (Some digest) =
    Inl (RuntimeError ''source feedback event for pending recovery was not found'')"
proof -
  let ?rows = "take 10000 (sort_key ev_seq (filter (\<lambda>r. 0 < ev_seq r \<and> ev_topic r = ''physiology'') (events j)))"
  have "\<exists>es. res_map row_to_event ?rows = Inr es"
  proof -
    have "\<exists>es. res_map row_to_event rs = Inr es" if "\<forall>r \<in> set rs. event_ok r" for rs
      using that
    proof (induction rs)
      case (Cons r rs)
      then obtain es p where "res_map row_to_event rs = Inr es" "row_to_event r = Inr \<lparr>je_row = r, je_payload = p\<rparr>"
        using row_loads by force
      then show ?case by simp
    qed simp
    then show ?thesis using assms by blast
  qed
  then obtain es where es: "res_map row_to_event ?rows = Inr es" by blast
  then have none: "\<not> (\<exists>e \<in> set es. carries_receipt digest e)" using rows_carry assms by blast
  have "read j 0 10000 (Some ''physiology'') = Inr es"
    using es by (simp add: read_def eq_commute [of "''physiology''"])
  moreover have "find (carries_receipt digest) (rev es) = None" using none by (auto simp: find_None_iff)
  ultimately show ?thesis by (simp add: feedback_event_id_for_receipt_def)
qed


section \<open>A crowded journal\<close>

definition sample_recovery :: "string \<Rightarrow> recovery_policy" where
  "sample_recovery action = \<lparr>rp_action = action, rp_parameters_json = canonical_json (JObj [])\<rparr>"

definition sample_fingerprint :: "string \<Rightarrow> string" where
  "sample_fingerprint action = stable_hash (JObj [(''schema'', JStr SUPERVISOR_SCHEMA), (''action'', JStr action),
     (''parameters'', JObj [])])"

lemma sample_recovery_fingerprint: "fingerprint (sample_recovery action) = Inr (sample_fingerprint action)"
  by (simp add: fingerprint_def sample_recovery_def sample_fingerprint_def sort_json.simps)

definition plain_row :: "jobj \<Rightarrow> nat \<Rightarrow> event_row" where
  "plain_row payload n = \<lparr>ev_seq = int n, ev_id = replicate n (CHR ''a''), ev_topic = ''physiology'', ev_type = ''TICK'',
     ev_payload_json = canonical_json (JObj payload), ev_created_ns = 0, ev_causation_id = None,
     ev_correlation_id = None, ev_receipt_hash = replicate n (CHR ''b'')\<rparr>"

definition carrier :: "string \<Rightarrow> jobj" where
  "carrier digest = [(''receipt'', JObj [(''receipt_hash'', JStr digest)])]"

definition crowded_journal :: "nat \<Rightarrow> journal" where
  "crowded_journal n = \<lparr>events = map (plain_row []) [1..<Suc n] @ [plain_row (carrier ''d'') (Suc n)], consumer_offsets = [],
     runtime_state = [(supervisor_slot ''policy:'' ''org'', (canonical_json (JObj [(''policy_fingerprint'',
       JStr (sample_fingerprint ''RECOVER'')), (''schema'', JStr SUPERVISOR_SCHEMA)]), 0))]\<rparr>"

definition crowded_supervisor :: "nat \<Rightarrow> supervisor" where
  "crowded_supervisor n = \<lparr>sv_loop = pending_loop\<lparr>cl_engine := (cl_engine pending_loop)\<lparr>e_journal := crowded_journal n\<rparr>,
       cl_state := (cl_state pending_loop)\<lparr>last_feedback_receipt_hash := Some ''d''\<rparr>\<rparr>, sv_policy = sample_recovery ''RECOVER''\<rparr>"

lemma crowded_journal_ok: "journal_ok (crowded_journal n)"
proof -
  have seqs: "map ev_seq (events (crowded_journal n)) = map int [1..<Suc (length (events (crowded_journal n)))]"
    by (simp add: crowded_journal_def plain_row_def o_def)
  have "distinct (map (\<lambda>i. replicate i x) [1..<Suc (Suc n)])" for x :: char
    by (simp add: distinct_map inj_on_def replicate_eq_replicate del: upt_Suc)
  moreover have "map ev_id (events (crowded_journal n)) = map (\<lambda>i. replicate i (CHR ''a'')) [1..<Suc (Suc n)]"
    "map ev_receipt_hash (events (crowded_journal n)) = map (\<lambda>i. replicate i (CHR ''b'')) [1..<Suc (Suc n)]"
    by (simp_all add: crowded_journal_def plain_row_def o_def)
  ultimately have "distinct (map ev_id (events (crowded_journal n)))" "distinct (map ev_receipt_hash (events (crowded_journal n)))"
    by metis+
  moreover have "\<forall>r \<in> set (events (crowded_journal n)). event_ok r"
    by (auto simp: crowded_journal_def plain_row_def event_ok_def carrier_def intro!: exI)
  ultimately show ?thesis using seqs unfolding journal_ok_def by (simp add: crowded_journal_def)
qed

lemma crowded_facts:
  "must_recover (sample_fingerprint ''RECOVER'') ''c1'' (crowded_supervisor n)"
  "attempts_are [] (crowded_supervisor n)" "supervisor_journal (crowded_supervisor n) = crowded_journal n"
  "last_feedback_receipt_hash (cl_state (sv_loop (crowded_supervisor n))) = Some ''d''"
proof -
  have oid: "organism_id (supervisor_organism (crowded_supervisor n)) = ''org''"
    by (simp add: supervisor_organism_def crowded_supervisor_def pending_loop_def sample_loop_def loop_organism_def)
  show j: "supervisor_journal (crowded_supervisor n) = crowded_journal n"
    by (simp add: supervisor_journal_def crowded_supervisor_def)
  have "bound_to (sample_fingerprint ''RECOVER'') (crowded_supervisor n)"
    unfolding bound_to_def j oid
    by (simp add: crowded_journal_def binding_names_def) (simp add: sort_json.simps jget_def)
  then show "must_recover (sample_fingerprint ''RECOVER'') ''c1'' (crowded_supervisor n)"
    by (simp add: must_recover_def sample_recovery_fingerprint crowded_supervisor_def)
      (simp add: pending_loop_def)
  show "attempts_are [] (crowded_supervisor n)"
    unfolding attempts_are_def j get_slot oid
    using supervisor_slots_apart [symmetric] by (simp add: crowded_journal_def)
  show "last_feedback_receipt_hash (cl_state (sv_loop (crowded_supervisor n))) = Some ''d''"
    by (simp add: crowded_supervisor_def)
qed

lemma plain_row_empty: "\<not> row_carries digest (plain_row [] n)"
  by (simp add: row_carries_def plain_row_def row_to_event_def carries_receipt_def) (simp add: sort_json.simps jget_def)

definition empty_input :: cycle_input where
  "empty_input = \<lparr>ci_proposal = None, ci_human = None, ci_flags = all_flags\<rparr>"


theorem attempts_counted_witness:
  "\<exists>s'. s' = snd (supervisor_step no_trunc sample_feedback_env empty_input (crowded_supervisor 0)) \<and>
     attempts_of s' ''c1'' = attempts_of (crowded_supervisor 0) ''c1'' + 1"
  using attempts_counted [OF crowded_facts(1,2) [of 0], where inp = empty_input and trunc = no_trunc and env = sample_feedback_env]
  by (auto simp: empty_input_def)

lemma sample_supervisor_new: "\<exists>s0. new_supervisor 0 sample_loop (sample_recovery ''RECOVER'') = (Inr (), s0)"
proof -
  define s where "s = \<lparr>sv_loop = sample_loop, sv_policy = sample_recovery ''RECOVER''\<rparr>"
  have parts: "supervisor_journal s = empty_journal" "supervisor_organism s = loop_organism"
    "recovery_required (cl_state (sv_loop s)) = False" "fingerprint (sv_policy s) = Inr (sample_fingerprint ''RECOVER'')"
    by (simp_all add: s_def supervisor_journal_def supervisor_organism_def sample_loop_def empty_feedback_def
        sample_recovery_fingerprint)
  have g: "get_state empty_journal (policy_key loop_organism) JNull = Inr JNull"
    by (simp add: get_slot empty_journal_def)
  have "\<exists>s'. on_loop (loop_journal (set_state 0 (policy_key loop_organism) v)) s = (Inr (), s')" for v
    using supervisor_keys(2) by (auto simp: on_loop_eq loop_journal_eq set_state_def validate_label_def)
  then show ?thesis
    unfolding new_supervisor_def s_def [symmetric] by (simp add: bind_or_validate_policy_def parts g eff_bind_def)
qed


end
