(* ===== verification/Lease_Store.thy ===== *)
theory Lease_Store
  imports Effects
begin

text \<open>
  The accounting of lease uses of \<open>app/secret_plane.py\<close>: leases, the contract of a store
  (\<open>LeaseStateStore\<close>) as the locale \<open>lease_store\<close> over a map from lease ids to use counts,
  and its two implementations, a dictionary in memory and a table of SQLite. The use of a
  lease never goes beyond its limit, and a revoked lease is never used, whichever store it is.
\<close>

record lease =
  lease_id :: string
  le_secret_id :: string
  le_secret_version :: int
  le_actor :: string
  le_capability :: string
  le_scope :: string
  issued_at :: int
  le_expires_at :: int
  le_max_uses :: int
  le_nonce :: string
  le_signature :: string

text \<open>What a store knows of one lease.\<close>

record lease_use =
  us_secret :: string
  us_uses :: int
  us_revoked :: bool

section \<open>The store in memory\<close>

type_synonym memory_store = "(string, lease_use) dict"

definition memory_register :: "lease \<Rightarrow> (memory_store, unit) eff" where
  "memory_register l s =
     (if lease_id l \<in> set (map fst s) then (Inl (ValueError ''duplicate lease_id''), s)
      else (Inr (), dict_set s (lease_id l) \<lparr>us_secret = le_secret_id l, us_uses = 0, us_revoked = False\<rparr>))"

definition memory_consume :: "lease \<Rightarrow> (memory_store, bool) eff" where
  "memory_consume l s = (case map_of s (lease_id l) of
      None \<Rightarrow> (Inr False, s)
    | Some u \<Rightarrow> if us_revoked u \<or> us_uses u \<ge> le_max_uses l then (Inr False, s)
                else (Inr True, dict_set s (lease_id l) (u\<lparr>us_uses := us_uses u + 1\<rparr>)))"

definition memory_revoke :: "string \<Rightarrow> (memory_store, unit) eff" where
  "memory_revoke sid s =
     (Inr (), map (\<lambda>(k, u). (k, if us_secret u = sid then u\<lparr>us_revoked := True\<rparr> else u)) s)"

section \<open>The store in SQLite\<close>

text \<open>
  The table \<open>secret_lease_state\<close> and whether the connection is inside a transaction. An
  \<open>INSERT\<close> opens one implicitly; when it breaks the primary key the exception leaves it
  open, and the explicit \<open>BEGIN IMMEDIATE\<close> of the next \<open>consume\<close> is then refused.
\<close>

record sql_row =
  sq_lease_id :: string
  sq_secret_id :: string
  sq_uses :: int
  sq_revoked :: int

record sql_store =
  sq_rows :: "sql_row list"
  sq_in_transaction :: bool

definition sql_register :: "lease \<Rightarrow> (sql_store, unit) eff" where
  "sql_register l s =
     (if lease_id l \<in> sq_lease_id ` set (sq_rows s)
      then (Inl (IntegrityError ''UNIQUE constraint failed: secret_lease_state.lease_id''), s\<lparr>sq_in_transaction := True\<rparr>)
      else (Inr (), \<lparr>sq_rows = sq_rows s @ [\<lparr>sq_lease_id = lease_id l, sq_secret_id = le_secret_id l, sq_uses = 0, sq_revoked = 0\<rparr>],
                     sq_in_transaction = False\<rparr>))"

definition sql_consume :: "lease \<Rightarrow> (sql_store, bool) eff" where
  "sql_consume l s =
     (if sq_in_transaction s then (Inl (OperationalError ''cannot start a transaction within a transaction''), s)
      else (case find (\<lambda>r. sq_lease_id r = lease_id l) (sq_rows s) of
          None \<Rightarrow> (Inr False, s)
        | Some r \<Rightarrow> if sq_revoked r \<noteq> 0 \<or> sq_uses r \<ge> le_max_uses l then (Inr False, s)
                    else (Inr True, s\<lparr>sq_rows := map (\<lambda>r. if sq_lease_id r = lease_id l then r\<lparr>sq_uses := sq_uses r + 1\<rparr> else r)
                                                   (sq_rows s)\<rparr>)))"

definition sql_revoke :: "string \<Rightarrow> (sql_store, unit) eff" where
  "sql_revoke sid s = (Inr (), \<lparr>sq_rows = map (\<lambda>r. if sq_secret_id r = sid then r\<lparr>sq_revoked := 1\<rparr> else r) (sq_rows s),
     sq_in_transaction = False\<rparr>)"

section \<open>The contract\<close>

definition revoked_view :: "string \<Rightarrow> (string \<rightharpoonup> lease_use) \<Rightarrow> (string \<rightharpoonup> lease_use)" where
  "revoked_view sid m = (\<lambda>k. map_option (\<lambda>u. if us_secret u = sid then u\<lparr>us_revoked := True\<rparr> else u) (m k))"

definition usable :: "lease \<Rightarrow> (string \<rightharpoonup> lease_use) \<Rightarrow> bool" where
  "usable l m \<longleftrightarrow> (\<exists>u. m (lease_id l) = Some u \<and> \<not> us_revoked u \<and> us_uses u < le_max_uses l)"

definition used_view :: "lease \<Rightarrow> (string \<rightharpoonup> lease_use) \<Rightarrow> (string \<rightharpoonup> lease_use)" where
  "used_view l m = (case m (lease_id l) of None \<Rightarrow> m | Some u \<Rightarrow> m(lease_id l \<mapsto> u\<lparr>us_uses := us_uses u + 1\<rparr>))"

text \<open>The abstract store: a map and what each call answers on it.\<close>

datatype store_call = Register lease | Consume lease | Revoke string
datatype store_answer = Accepted | Refused | Counted bool

fun spec_answer :: "store_call \<Rightarrow> (string \<rightharpoonup> lease_use) \<Rightarrow> store_answer" where
  "spec_answer (Register l) m = (if m (lease_id l) = None then Accepted else Refused)"
| "spec_answer (Consume l) m = Counted (usable l m)"
| "spec_answer (Revoke sid) m = Accepted"

fun spec_view :: "store_call \<Rightarrow> (string \<rightharpoonup> lease_use) \<Rightarrow> (string \<rightharpoonup> lease_use)" where
  "spec_view (Register l) m = m(lease_id l \<mapsto> \<lparr>us_secret = le_secret_id l, us_uses = 0, us_revoked = False\<rparr>)"
| "spec_view (Consume l) m = (if usable l m then used_view l m else m)"
| "spec_view (Revoke sid) m = revoked_view sid m"

fun spec_answers :: "store_call list \<Rightarrow> (string \<rightharpoonup> lease_use) \<Rightarrow> store_answer list" where
  "spec_answers [] m = []"
| "spec_answers (c # cs) m = spec_answer c m # spec_answers cs (spec_view c m)"

fun new_call :: "store_call \<Rightarrow> (string \<rightharpoonup> lease_use) \<Rightarrow> bool" where
  "new_call (Register l) m = (m (lease_id l) = None)"
| "new_call (Consume l) m = True"
| "new_call (Revoke sid) m = True"

fun new_calls :: "store_call list \<Rightarrow> (string \<rightharpoonup> lease_use) \<Rightarrow> bool" where
  "new_calls [] m = True"
| "new_calls (c # cs) m = (new_call c m \<and> new_calls cs (spec_view c m))"

locale lease_store =
  fixes register :: "lease \<Rightarrow> ('s, unit) eff"
    and consume :: "lease \<Rightarrow> ('s, bool) eff"
    and revoke :: "string \<Rightarrow> ('s, unit) eff"
    and view :: "'s \<Rightarrow> (string \<rightharpoonup> lease_use)"
    and ok :: "'s \<Rightarrow> bool"
  assumes register_new: "ok s \<Longrightarrow> view s (lease_id l) = None \<Longrightarrow> \<exists>s'. register l s = (Inr (), s') \<and> ok s' \<and>
        view s' = (view s)(lease_id l \<mapsto> \<lparr>us_secret = le_secret_id l, us_uses = 0, us_revoked = False\<rparr>)"
    and register_old: "ok s \<Longrightarrow> view s (lease_id l) \<noteq> None \<Longrightarrow> \<exists>e s'. register l s = (Inl e, s') \<and> view s' = view s"
    and consume_law: "ok s \<Longrightarrow> \<exists>s'. consume l s = (Inr (usable l (view s)), s') \<and> ok s' \<and>
        view s' = (if usable l (view s) then used_view l (view s) else view s)"
    and revoke_law: "ok s \<Longrightarrow> \<exists>s'. revoke sid s = (Inr (), s') \<and> ok s' \<and> view s' = revoked_view sid (view s)"
begin

lemma consumed_counts:
  assumes "ok s" and "consume l s = (Inr True, s')"
  shows "\<exists>u. view s (lease_id l) = Some u \<and> \<not> us_revoked u \<and> us_uses u < le_max_uses l \<and>
    view s' (lease_id l) = Some (u\<lparr>us_uses := us_uses u + 1\<rparr>)"
  using consume_law [OF assms(1), of l] assms(2) by (auto simp: usable_def used_view_def split: if_splits)

text \<open>A sequence of calls, with the answers of a store: what was refused, done, or answered.\<close>

fun answer :: "store_call \<Rightarrow> 's \<Rightarrow> store_answer \<times> 's" where
  "answer (Register l) s = (case register l s of (Inl e, s') \<Rightarrow> (Refused, s') | (Inr u, s') \<Rightarrow> (Accepted, s'))"
| "answer (Consume l) s = (case consume l s of (Inl e, s') \<Rightarrow> (Refused, s') | (Inr b, s') \<Rightarrow> (Counted b, s'))"
| "answer (Revoke sid) s = (case revoke sid s of (Inl e, s') \<Rightarrow> (Refused, s') | (Inr u, s') \<Rightarrow> (Accepted, s'))"

fun answers :: "store_call list \<Rightarrow> 's \<Rightarrow> store_answer list" where
  "answers [] s = []"
| "answers (c # cs) s = (case answer c s of (a, s') \<Rightarrow> a # answers cs s')"

lemma answer_spec:
  assumes "ok s" and "new_call c (view s)"
  shows "\<exists>s'. answer c s = (spec_answer c (view s), s') \<and> ok s' \<and> view s' = spec_view c (view s)"
proof (cases c)
  case (Register l)
  then show ?thesis using register_new [OF assms(1), of l] assms(2) by auto
next
  case (Consume l)
  then show ?thesis using consume_law [OF assms(1), of l] by auto
next
  case (Revoke sid)
  then show ?thesis using revoke_law [OF assms(1), of sid] by auto
qed

text \<open>The refinement: as long as no lease is registered twice, the answers are those of the map.\<close>

lemma answers_spec:
  assumes "ok s" and "new_calls cs (view s)"
  shows "answers cs s = spec_answers cs (view s)"
  using assms
proof (induction cs arbitrary: s)
  case (Cons c cs)
  obtain s' where "answer c s = (spec_answer c (view s), s')" "ok s'" "view s' = spec_view c (view s)"
    using answer_spec [OF Cons.prems(1)] Cons.prems(2) by auto
  then show ?case using Cons by simp
qed simp

lemma revoked_unusable:
  assumes "ok s" and "revoke sid s = (r, s')" and "view s (lease_id l) = Some u" and "us_secret u = sid"
  shows "\<exists>s''. consume l s' = (Inr False, s'') \<and> view s'' = view s'"
proof -
  have s': "ok s'" "view s' = revoked_view sid (view s)" using revoke_law [OF assms(1), of sid] assms(2) by auto
  then have "\<not> usable l (view s')" using assms(3,4) by (auto simp: usable_def revoked_view_def)
  then show ?thesis using consume_law [OF s'(1), of l] by auto
qed

end

section \<open>Both stores keep the contract\<close>

definition sql_view :: "sql_store \<Rightarrow> (string \<rightharpoonup> lease_use)" where
  "sql_view s = map_of (map (\<lambda>r. (sq_lease_id r, \<lparr>us_secret = sq_secret_id r, us_uses = sq_uses r, us_revoked = (sq_revoked r \<noteq> 0)\<rparr>))
     (sq_rows s))"

definition sql_ok :: "sql_store \<Rightarrow> bool" where
  "sql_ok s \<longleftrightarrow> distinct (map sq_lease_id (sq_rows s)) \<and> \<not> sq_in_transaction s"

lemma map_of_map_value: "map_of (map (\<lambda>(k, u). (k, f u)) s) = (\<lambda>k. map_option f (map_of s k))"
  by (rule ext, induction s) auto

interpretation memory: lease_store memory_register memory_consume memory_revoke map_of dict_ok
proof unfold_locales
  fix s :: memory_store and l :: lease and sid :: string
  assume ok: "dict_ok s"
  show "\<exists>s'. memory_register l s = (Inr (), s') \<and> dict_ok s' \<and>
      map_of s' = (map_of s)(lease_id l \<mapsto> \<lparr>us_secret = le_secret_id l, us_uses = 0, us_revoked = False\<rparr>)"
    if "map_of s (lease_id l) = None"
    using that ok by (auto simp: memory_register_def map_of_eq_None_iff)
  show "\<exists>e s'. memory_register l s = (Inl e, s') \<and> map_of s' = map_of s" if "map_of s (lease_id l) \<noteq> None"
  proof -
    have "lease_id l \<in> fst ` set s" using that by (metis map_of_eq_None_iff)
    then show ?thesis by (simp add: memory_register_def)
  qed
  show "\<exists>s'. memory_consume l s = (Inr (usable l (map_of s)), s') \<and> dict_ok s' \<and>
      map_of s' = (if usable l (map_of s) then used_view l (map_of s) else map_of s)"
    using ok by (auto simp: memory_consume_def usable_def used_view_def split: option.splits)
  show "\<exists>s'. memory_revoke sid s = (Inr (), s') \<and> dict_ok s' \<and> map_of s' = revoked_view sid (map_of s)"
    using ok by (auto simp: memory_revoke_def revoked_view_def map_of_map_value dict_ok_def o_def case_prod_beta)
qed

lemma sql_find:
  "map_of (map (\<lambda>r. (sq_lease_id r, f r)) rows) k = map_option f (find (\<lambda>r. sq_lease_id r = k) rows)"
  by (induction rows) auto

lemma sql_view_find: "sql_view s k = map_option (\<lambda>r. \<lparr>us_secret = sq_secret_id r, us_uses = sq_uses r, us_revoked = (sq_revoked r \<noteq> 0)\<rparr>)
    (find (\<lambda>r. sq_lease_id r = k) (sq_rows s))"
  by (simp add: sql_view_def sql_find)

lemma find_map_lease:
  assumes "\<And>r. sq_lease_id (g r) = sq_lease_id r"
  shows "find (\<lambda>r. sq_lease_id r = k) (map g rows) = map_option g (find (\<lambda>r. sq_lease_id r = k) rows)"
  by (induction rows) (auto simp: assms)

lemma find_key: "find (\<lambda>r. sq_lease_id r = k) rows = Some r \<Longrightarrow> sq_lease_id r = k"
  by (auto simp: find_Some_iff)

lemma find_snoc: "find P (xs @ [x]) = (case find P xs of None \<Rightarrow> if P x then Some x else None | Some y \<Rightarrow> Some y)"
  by (induction xs) auto

interpretation sqlite: lease_store sql_register sql_consume sql_revoke sql_view sql_ok
proof unfold_locales
  fix s :: sql_store and l :: lease and sid :: string
  assume ok: "sql_ok s"
  note find_map = find_map_lease [of "\<lambda>r. if sq_lease_id r = k then r\<lparr>sq_uses := sq_uses r + 1\<rparr> else r" for k]
    find_map_lease [of "\<lambda>r. if sq_secret_id r = k then r\<lparr>sq_revoked := 1\<rparr> else r" for k]
  have ids: "sq_lease_id \<circ> (\<lambda>r. if P r then r\<lparr>sq_uses := sq_uses r + 1\<rparr> else r) = sq_lease_id"
    "sq_lease_id \<circ> (\<lambda>r. if P r then r\<lparr>sq_revoked := 1\<rparr> else r) = sq_lease_id" for P by auto
  have none: "lease_id l \<notin> sq_lease_id ` set (sq_rows s) \<longleftrightarrow> sql_view s (lease_id l) = None"
    by (force simp: sql_view_find find_None_iff)
  show "\<exists>s'. sql_register l s = (Inr (), s') \<and> sql_ok s' \<and>
      sql_view s' = (sql_view s)(lease_id l \<mapsto> \<lparr>us_secret = le_secret_id l, us_uses = 0, us_revoked = False\<rparr>)"
    if "sql_view s (lease_id l) = None"
  proof -
    have new: "lease_id l \<notin> sq_lease_id ` set (sq_rows s)" using that none by blast
    have "sql_view \<lparr>sq_rows = sq_rows s @ [\<lparr>sq_lease_id = lease_id l, sq_secret_id = le_secret_id l, sq_uses = 0, sq_revoked = 0\<rparr>],
        sq_in_transaction = False\<rparr> k = ((sql_view s)(lease_id l \<mapsto> \<lparr>us_secret = le_secret_id l, us_uses = 0, us_revoked = False\<rparr>)) k" for k
      using that by (auto simp: sql_view_find find_snoc split: option.split)
    then show ?thesis using new ok by (auto simp: sql_register_def sql_ok_def)
  qed
  show "\<exists>e s'. sql_register l s = (Inl e, s') \<and> sql_view s' = sql_view s" if "sql_view s (lease_id l) \<noteq> None"
  proof -
    have "lease_id l \<in> sq_lease_id ` set (sq_rows s)" using that none by argo
    then show ?thesis by (simp add: sql_register_def sql_view_def)
  qed
  show "\<exists>s'. sql_consume l s = (Inr (usable l (sql_view s)), s') \<and> sql_ok s' \<and>
      sql_view s' = (if usable l (sql_view s) then used_view l (sql_view s) else sql_view s)"
  proof (cases "find (\<lambda>r. sq_lease_id r = lease_id l) (sq_rows s)")
    case None
    then have "\<not> usable l (sql_view s)" by (simp add: usable_def sql_view_find)
    then show ?thesis using None ok by (simp add: sql_consume_def sql_ok_def)
  next
    case (Some r)
    have us: "usable l (sql_view s) \<longleftrightarrow> sq_revoked r = 0 \<and> sq_uses r < le_max_uses l"
      using Some by (auto simp: usable_def sql_view_find)
    let ?s' = "s\<lparr>sq_rows := map (\<lambda>r. if sq_lease_id r = lease_id l then r\<lparr>sq_uses := sq_uses r + 1\<rparr> else r) (sq_rows s)\<rparr>"
    have "sql_view ?s' k = used_view l (sql_view s) k" for k
      using Some by (cases "find (\<lambda>r. sq_lease_id r = k) (sq_rows s)")
        (auto simp: sql_view_find find_map used_view_def dest: find_key)
    then show ?thesis using Some ok us by (auto simp: sql_consume_def sql_ok_def ids)
  qed
  have "sql_view \<lparr>sq_rows = map (\<lambda>r. if sq_secret_id r = sid then r\<lparr>sq_revoked := 1\<rparr> else r) (sq_rows s),
      sq_in_transaction = False\<rparr> k = revoked_view sid (sql_view s) k" for k
    by (cases "find (\<lambda>r. sq_lease_id r = k) (sq_rows s)") (auto simp: sql_view_find find_map revoked_view_def)
  then show "\<exists>s'. sql_revoke sid s = (Inr (), s') \<and> sql_ok s' \<and> sql_view s' = revoked_view sid (sql_view s)"
    using ok by (auto simp: sql_revoke_def sql_ok_def ids)
qed

section \<open>Both stores give the same answers\<close>

definition empty_table :: sql_store where
  "empty_table = \<lparr>sq_rows = [], sq_in_transaction = False\<rparr>"

lemma empty_table_view: "sql_view empty_table = Map.empty" "sql_ok empty_table"
  by (simp_all add: sql_view_def sql_ok_def empty_table_def)


text \<open>A second registration of an id is refused by both, but the durable store then refuses every use.\<close>

lemma stuck_after_duplicate:
  assumes "lease_id l \<in> sq_lease_id ` set (sq_rows s)"
  shows "sql_consume m (snd (sql_register l s)) =
    (Inl (OperationalError ''cannot start a transaction within a transaction''), snd (sql_register l s))"
  using assms by (simp add: sql_register_def sql_consume_def)

definition sample_lease :: "string \<Rightarrow> lease" where
  "sample_lease n = \<lparr>lease_id = n, le_secret_id = ''s'', le_secret_version = 1, le_actor = ''a'', le_capability = ''c'',
     le_scope = ''x'', issued_at = 0, le_expires_at = 10, le_max_uses = 1, le_nonce = ''0123456789abcdef'',
     le_signature = ''''\<rparr>"


end
