(* ===== verification/Secret_Plane.thy ===== *)
theory Secret_Plane
  imports Lease_Store Evidence
begin

text \<open>
  \<open>app/secret_plane.py\<close>: secrets stay behind a vault and are used only through leases, which
  the plane signs, checks and counts. The vault and the lease store a plane is built with are
  datatypes of the adapters the module defines; \<open>clock\<close> gives the reading of the clock at the
  check (\<open>now\<close>) and at each audit event (its type). The value a consumer returns is a Python
  value as \<open>_contains_secret\<close> inspects it. HKDF and the random source are arguments; the
  regular expressions of the exposure detector are not modelled.
\<close>

definition PLANE_SCHEMA :: string where "PLANE_SCHEMA = ''matverse.secret-plane.v1''"
definition LEASE_SCHEMA :: string where "LEASE_SCHEMA = ''matverse.secret-lease.v1''"

datatype secret_state = ACTIVE | REVOKED | DESTROYED

fun secret_state_value :: "secret_state \<Rightarrow> string" where
  "secret_state_value ACTIVE = ''ACTIVE''"
| "secret_state_value REVOKED = ''REVOKED''"
| "secret_state_value DESTROYED = ''DESTROYED''"

datatype storage_class = ENVIRONMENT | PLATFORM_SECRET | OS_KEYCHAIN | HSM | TPM | EXTERNAL_VAULT | TEST_MEMORY

fun storage_class_value :: "storage_class \<Rightarrow> string" where
  "storage_class_value ENVIRONMENT = ''ENVIRONMENT''"
| "storage_class_value PLATFORM_SECRET = ''PLATFORM_SECRET''"
| "storage_class_value OS_KEYCHAIN = ''OS_KEYCHAIN''"
| "storage_class_value HSM = ''HSM''"
| "storage_class_value TPM = ''TPM''"
| "storage_class_value EXTERNAL_VAULT = ''EXTERNAL_VAULT''"
| "storage_class_value TEST_MEMORY = ''TEST_MEMORY''"

section \<open>Descriptors, policies and leases\<close>

record secret_descriptor =
  secret_id :: string
  secret_kind :: string
  secret_owner :: string
  secret_purpose :: string
  secret_provider :: "string option"
  secret_storage :: storage_class
  secret_version :: int
  secret_created_at :: int
  secret_expires_at :: "int option"
  rotation_due_at :: "int option"
  secret_status :: secret_state

definition check_descriptor :: "secret_descriptor \<Rightarrow> secret_descriptor res" where
  "check_descriptor d =
     res_bind (raise_if (secret_id d = '''' \<or> secret_kind d = '''' \<or> secret_owner d = '''' \<or> secret_purpose d = '''')
                (ValueError ''secret_id, kind, owner and purpose are required'')) (\<lambda>_.
     res_bind (raise_if (secret_version d < 1) (ValueError ''secret version must be >= 1'')) (\<lambda>_.
     res_bind (raise_if (secret_created_at d < 0) (ValueError ''created_at must be >= 0'')) (\<lambda>_.
     res_bind (raise_if (case secret_expires_at d of None \<Rightarrow> False | Some t \<Rightarrow> t \<le> secret_created_at d)
                (ValueError ''expires_at must be greater than created_at'')) (\<lambda>_.
     res_bind (raise_if (case rotation_due_at d of None \<Rightarrow> False | Some t \<Rightarrow> t \<le> secret_created_at d)
                (ValueError ''rotation_due_at must be greater than created_at'')) (\<lambda>_. Inr d)))))"

definition jint :: "int option \<Rightarrow> json" where
  "jint v = (case v of None \<Rightarrow> JNull | Some i \<Rightarrow> JInt i)"

definition descriptor_json :: "secret_descriptor \<Rightarrow> json" where
  "descriptor_json d = JObj [(''secret_id'', JStr (secret_id d)), (''kind'', JStr (secret_kind d)),
     (''owner'', JStr (secret_owner d)), (''purpose'', JStr (secret_purpose d)), (''provider'', jopt (secret_provider d)),
     (''storage_class'', JStr (storage_class_value (secret_storage d))), (''version'', JInt (secret_version d)),
     (''created_at'', JInt (secret_created_at d)), (''expires_at'', jint (secret_expires_at d)),
     (''rotation_due_at'', jint (rotation_due_at d)), (''state'', JStr (secret_state_value (secret_status d)))]"

record secret_policy =
  allowed_actors :: "string list"
  allowed_capabilities :: "string list"
  allowed_scopes :: "string list"
  max_ttl_seconds :: int
  max_uses :: int

definition check_secret_policy :: "secret_policy \<Rightarrow> secret_policy res" where
  "check_secret_policy p =
     res_bind (raise_if (allowed_actors p = [] \<or> allowed_capabilities p = [] \<or> allowed_scopes p = [])
                (ValueError ''secret policy allowlists must be non-empty'')) (\<lambda>_.
     res_bind (raise_if (max_ttl_seconds p < 1) (ValueError ''max_ttl_seconds must be >= 1'')) (\<lambda>_.
     res_bind (raise_if (max_uses p < 1) (ValueError ''max_uses must be >= 1'')) (\<lambda>_. Inr p)))"

definition policy_json :: "secret_policy \<Rightarrow> json" where
  "policy_json p = JObj [(''allowed_actors'', JArr (map JStr (allowed_actors p))),
     (''allowed_capabilities'', JArr (map JStr (allowed_capabilities p))),
     (''allowed_scopes'', JArr (map JStr (allowed_scopes p))), (''max_ttl_seconds'', JInt (max_ttl_seconds p)),
     (''max_uses'', JInt (max_uses p))]"

definition signed_payload :: "lease \<Rightarrow> jobj" where
  "signed_payload l = [(''schema'', JStr LEASE_SCHEMA), (''lease_id'', JStr (lease_id l)), (''secret_id'', JStr (le_secret_id l)),
     (''secret_version'', JInt (le_secret_version l)), (''actor'', JStr (le_actor l)), (''capability'', JStr (le_capability l)),
     (''scope'', JStr (le_scope l)), (''issued_at'', JInt (issued_at l)), (''expires_at'', JInt (le_expires_at l)),
     (''max_uses'', JInt (le_max_uses l)), (''nonce'', JStr (le_nonce l))]"

definition audit_dict :: "lease \<Rightarrow> jobj" where
  "audit_dict l = [(''lease_id'', JStr (lease_id l)), (''secret_id'', JStr (le_secret_id l)),
     (''secret_version'', JInt (le_secret_version l)), (''actor'', JStr (le_actor l)), (''capability'', JStr (le_capability l)),
     (''scope'', JStr (le_scope l)), (''issued_at'', JInt (issued_at l)), (''expires_at'', JInt (le_expires_at l)),
     (''max_uses'', JInt (le_max_uses l))]"

section \<open>Vaults\<close>

text \<open>The process environment is read through; the vault in memory keeps its material by locator.\<close>

datatype vault = EnvironmentVault "(string, string) dict" | MemoryVault "(string, byte list) dict"

fun vault_class :: "vault \<Rightarrow> storage_class" where
  "vault_class (EnvironmentVault e) = ENVIRONMENT"
| "vault_class (MemoryVault m) = TEST_MEMORY"

fun vault_read :: "vault \<Rightarrow> string \<Rightarrow> byte list res" where
  "vault_read (EnvironmentVault e) locator = (case map_of e locator of
      None \<Rightarrow> Inl (SecretNotAvailable ''environment-backed secret is not available'')
    | Some v \<Rightarrow> if v = '''' then Inl (SecretNotAvailable ''environment-backed secret is not available'') else Inr (utf8 v))"
| "vault_read (MemoryVault m) locator = (case map_of m locator of
      None \<Rightarrow> Inl (SecretNotAvailable ''secret locator is not available'')
    | Some v \<Rightarrow> Inr v)"

definition memory_put :: "string \<Rightarrow> byte list \<Rightarrow> (string, byte list) dict \<Rightarrow> (string, byte list) dict res" where
  "memory_put locator raw m =
     res_bind (raise_if (locator = '''') (ValueError ''locator is required'')) (\<lambda>_.
     res_bind (raise_if (raw = []) (ValueError ''secret material must be non-empty'')) (\<lambda>_.
     Inr (dict_set m locator raw)))"

fun vault_destroy :: "string \<Rightarrow> (vault, unit) eff" where
  "vault_destroy locator (EnvironmentVault e) = (Inl (SecretPlaneError
      ''environment-backed material cannot be cryptographically destroyed by this process''), EnvironmentVault e)"
| "vault_destroy locator (MemoryVault m) = (case map_of m locator of
      None \<Rightarrow> (Inl (SecretNotAvailable ''secret locator is not available''), MemoryVault m)
    | Some v \<Rightarrow> (Inr (), MemoryVault (filter (\<lambda>(k, w). k \<noteq> locator) m)))"

section \<open>Stores of lease uses\<close>

datatype store = InMemory memory_store | Durable sql_store

definition store_register :: "lease \<Rightarrow> (store, unit) eff" where
  "store_register l s = (case s of
      InMemory m \<Rightarrow> map_prod id InMemory (memory_register l m)
    | Durable d \<Rightarrow> map_prod id Durable (sql_register l d))"

definition store_consume :: "lease \<Rightarrow> (store, bool) eff" where
  "store_consume l s = (case s of
      InMemory m \<Rightarrow> map_prod id InMemory (memory_consume l m)
    | Durable d \<Rightarrow> map_prod id Durable (sql_consume l d))"

definition store_revoke :: "string \<Rightarrow> (store, unit) eff" where
  "store_revoke sid s = (case s of
      InMemory m \<Rightarrow> map_prod id InMemory (memory_revoke sid m)
    | Durable d \<Rightarrow> map_prod id Durable (sql_revoke sid d))"

section \<open>Keys and the disclosure gate\<close>

definition generate_key :: "(nat \<Rightarrow> byte list) \<Rightarrow> int \<Rightarrow> byte list res" where
  "generate_key token_bytes n =
     (if n < 32 then Inl (ValueError ''secret keys must be at least 256 bits'') else Inr (token_bytes (nat n)))"

definition derive_key ::
  "(byte list \<Rightarrow> nat \<Rightarrow> byte list option \<Rightarrow> byte list \<Rightarrow> byte list) \<Rightarrow> byte list \<Rightarrow> string \<Rightarrow> int \<Rightarrow> byte list option \<Rightarrow> byte list res" where
  "derive_key hkdf root context n salt =
     res_bind (raise_if (context = '''') (ValueError ''HKDF context is required'')) (\<lambda>_.
     res_bind (raise_if (n < 16) (ValueError ''derived key length must be >= 16 bytes'')) (\<lambda>_.
     res_bind (raise_if (length root < 32) (ValueError ''root key must be at least 256 bits'')) (\<lambda>_.
     Inr (hkdf root (nat n) salt (utf8 (PLANE_SCHEMA @ ''/'' @ context))))))"

definition allow_match :: "string \<Rightarrow> string list \<Rightarrow> bool" where
  "allow_match v allowlist \<longleftrightarrow> ''*'' \<in> set allowlist \<or> v \<in> set allowlist"

definition disclosure :: "secret_policy \<Rightarrow> string \<Rightarrow> string \<Rightarrow> string \<Rightarrow> bool \<times> string" where
  "disclosure p actor capability scope =
    (if \<not> allow_match actor (allowed_actors p) then (False, ''actor_not_allowed'')
     else if \<not> allow_match capability (allowed_capabilities p) then (False, ''capability_not_allowed'')
     else if \<not> allow_match scope (allowed_scopes p) then (False, ''scope_not_allowed'')
     else (True, ''allowed''))"

section \<open>Secrets in returned values\<close>

text \<open>A Python value: text, bytes, a mapping, a list, tuple or set, or anything else.\<close>

datatype pyval = PText string | PBytes "byte list" | PMap "(pyval \<times> pyval) list" | PSeq "pyval list" | POther string

fun holds_secret :: "byte list \<Rightarrow> pyval \<Rightarrow> bool" where
  "holds_secret raw (PText s) = (case utf8_decode raw of None \<Rightarrow> False | Some t \<Rightarrow> occurs_in t s)"
| "holds_secret raw (PBytes b) = occurs_in raw b"
| "holds_secret raw (PMap kvs) = (\<exists>p \<in> set kvs. holds_secret raw (fst p) \<or> holds_secret raw (snd p))"
| "holds_secret raw (PSeq xs) = (\<exists>x \<in> set xs. holds_secret raw x)"
| "holds_secret raw (POther t) = False"

definition contains_secret :: "pyval \<Rightarrow> byte list \<Rightarrow> bool" where
  "contains_secret v raw = (if raw = [] then False else holds_secret raw v)"

section \<open>The plane\<close>

record plane =
  pl_vault :: vault
  pl_key :: "byte list"
  pl_leases :: store
  pl_descriptors :: "(string, secret_descriptor) dict"
  pl_policies :: "(string, secret_policy) dict"
  pl_bindings :: "(string, string) dict"
  pl_audit :: "jobj list"

definition new_plane :: "vault \<Rightarrow> byte list \<Rightarrow> store option \<Rightarrow> plane res" where
  "new_plane v key leases =
     res_bind (raise_if (length key < 32) (ValueError ''lease signing key must be at least 256 bits'')) (\<lambda>_.
     Inr \<lparr>pl_vault = v, pl_key = key, pl_leases = (case leases of None \<Rightarrow> InMemory [] | Some s \<Rightarrow> s), pl_descriptors = [],
          pl_policies = [], pl_bindings = [], pl_audit = []\<rparr>)"

definition audit :: "(string \<Rightarrow> int) \<Rightarrow> string \<Rightarrow> jobj \<Rightarrow> (plane, unit) eff" where
  "audit clock etype payload =
    (let core = [(''schema'', JStr PLANE_SCHEMA), (''event_type'', JStr etype), (''timestamp'', JInt (clock etype)),
                 (''payload'', JObj payload)]
     in eff_modify (\<lambda>p. p\<lparr>pl_audit := pl_audit p @ [core @ [(''event_hash'', JStr (stable_hash (JObj core)))]]\<rparr>))"

definition on_leases :: "(store, 'a) eff \<Rightarrow> (plane, 'a) eff" where
  "on_leases m = eff_part pl_leases (\<lambda>s p. p\<lparr>pl_leases := s\<rparr>) m"

definition on_vault :: "(vault, 'a) eff \<Rightarrow> (plane, 'a) eff" where
  "on_vault m = eff_part pl_vault (\<lambda>v p. p\<lparr>pl_vault := v\<rparr>) m"

definition register_secret ::
  "(string \<Rightarrow> int) \<Rightarrow> secret_descriptor \<Rightarrow> secret_policy \<Rightarrow> string \<Rightarrow> (plane, unit) eff" where
  "register_secret clock d policy locator =
     eff_bind (eff_get (\<lambda>p. (secret_id d \<in> set (map fst (pl_descriptors p)), vault_class (pl_vault p)))) (\<lambda>(known, class).
     eff_bind (eff_lift (raise_if known (ValueError ''secret_id already registered''))) (\<lambda>_.
     eff_bind (eff_lift (raise_if (secret_storage d \<noteq> class)
                (ValueError ''descriptor storage_class does not match vault adapter''))) (\<lambda>_.
     eff_bind (eff_lift (raise_if (locator = '''') (ValueError ''opaque vault locator is required''))) (\<lambda>_.
     eff_bind (eff_modify (\<lambda>p. p\<lparr>pl_descriptors := dict_set (pl_descriptors p) (secret_id d) d,
                pl_policies := dict_set (pl_policies p) (secret_id d) policy,
                pl_bindings := dict_set (pl_bindings p) (secret_id d) locator\<rparr>)) (\<lambda>_.
     audit clock ''SECRET_REGISTERED'' [(''descriptor'', descriptor_json d), (''policy'', policy_json policy)])))))"

definition descriptor :: "string \<Rightarrow> plane \<Rightarrow> secret_descriptor res" where
  "descriptor sid p = (case map_of (pl_descriptors p) sid of
      None \<Rightarrow> Inl (SecretNotAvailable ''unknown secret_id'')
    | Some d \<Rightarrow> Inr d)"

definition get_descriptor :: "string \<Rightarrow> (plane, secret_descriptor) eff" where
  "get_descriptor sid p = (descriptor sid p, p)"

definition get_policy :: "string \<Rightarrow> (plane, secret_policy) eff" where
  "get_policy sid p = (case map_of (pl_policies p) sid of None \<Rightarrow> Inl (KeyError sid) | Some q \<Rightarrow> Inr q, p)"

definition descriptors :: "plane \<Rightarrow> json list" where
  "descriptors p = map (\<lambda>k. descriptor_json (the (map_of (pl_descriptors p) k))) (sort (map fst (pl_descriptors p)))"

definition sign_lease_payload :: "byte list \<Rightarrow> jobj \<Rightarrow> string" where
  "sign_lease_payload key payload = bytes_hex (hmac_sha256 key (utf8 (canonical_json (JObj payload))))"

definition lease_base :: "string \<Rightarrow> int \<Rightarrow> string \<Rightarrow> string \<Rightarrow> string \<Rightarrow> int \<Rightarrow> int \<Rightarrow> int \<Rightarrow> string \<Rightarrow> jobj" where
  "lease_base sid version actor capability scope now ttl uses nonce =
     [(''schema'', JStr LEASE_SCHEMA), (''secret_id'', JStr sid), (''secret_version'', JInt version), (''actor'', JStr actor),
      (''capability'', JStr capability), (''scope'', JStr scope), (''issued_at'', JInt now), (''expires_at'', JInt (now + ttl)),
      (''max_uses'', JInt uses), (''nonce'', JStr nonce)]"

definition expired :: "int \<Rightarrow> secret_descriptor \<Rightarrow> bool" where
  "expired now d = (case secret_expires_at d of None \<Rightarrow> False | Some t \<Rightarrow> now \<ge> t)"

record lease_request =
  rq_secret_id :: string
  rq_actor :: string
  rq_capability :: string
  rq_scope :: string
  rq_ttl_seconds :: "int option"
  rq_max_uses :: "int option"

definition make_lease :: "byte list \<Rightarrow> lease_request \<Rightarrow> int \<Rightarrow> int \<Rightarrow> int \<Rightarrow> int \<Rightarrow> string \<Rightarrow> lease" where
  "make_lease key rq version now ttl uses nonce =
    (let base = lease_base (rq_secret_id rq) version (rq_actor rq) (rq_capability rq) (rq_scope rq) now ttl uses nonce;
         lid = stable_hash (JObj base)
     in \<lparr>lease_id = lid, le_secret_id = rq_secret_id rq, le_secret_version = version, le_actor = rq_actor rq,
         le_capability = rq_capability rq, le_scope = rq_scope rq, issued_at = now, le_expires_at = now + ttl,
         le_max_uses = uses, le_nonce = nonce,
         le_signature = sign_lease_payload key (base @ [(''lease_id'', JStr lid)])\<rparr>)"

definition issue_lease :: "(string \<Rightarrow> int) \<Rightarrow> string \<Rightarrow> lease_request \<Rightarrow> (plane, lease) eff" where
  "issue_lease clock nonce rq =
     eff_bind (get_descriptor (rq_secret_id rq)) (\<lambda>d.
     eff_bind (get_policy (rq_secret_id rq)) (\<lambda>policy.
     let now = clock ''now'' in
     eff_bind (eff_lift (raise_if (secret_status d \<noteq> ACTIVE) (SecretAccessDenied ''secret is not active''))) (\<lambda>_.
     eff_bind (eff_lift (raise_if (expired now d) (SecretAccessDenied ''secret descriptor is expired''))) (\<lambda>_.
     let (allowed, why) = disclosure policy (rq_actor rq) (rq_capability rq) (rq_scope rq) in
     eff_bind (eff_when (\<not> allowed) (eff_bind (audit clock ''LEASE_DENIED''
        [(''secret_id'', JStr (rq_secret_id rq)), (''actor'', JStr (rq_actor rq)), (''capability'', JStr (rq_capability rq)),
         (''scope'', JStr (rq_scope rq)), (''reason'', JStr why)]) (\<lambda>_. eff_raise (SecretAccessDenied why)))) (\<lambda>_.
     let ttl = (case rq_ttl_seconds rq of None \<Rightarrow> max_ttl_seconds policy | Some t \<Rightarrow> t);
         uses = (case rq_max_uses rq of None \<Rightarrow> max_uses policy | Some u \<Rightarrow> u) in
     eff_bind (eff_lift (raise_if (ttl < 1 \<or> ttl > max_ttl_seconds policy) (SecretAccessDenied ''requested ttl exceeds policy''))) (\<lambda>_.
     eff_bind (eff_lift (raise_if (uses < 1 \<or> uses > max_uses policy) (SecretAccessDenied ''requested max_uses exceeds policy''))) (\<lambda>_.
     eff_bind (eff_lift (raise_if (length nonce < 16) (ValueError ''nonce_factory must return at least 16 characters''))) (\<lambda>_.
     eff_bind (eff_get pl_key) (\<lambda>key.
     let l = make_lease key rq (secret_version d) now ttl uses nonce in
     eff_bind (on_leases (store_register l)) (\<lambda>_.
     eff_bind (audit clock ''LEASE_ISSUED'' (audit_dict l)) (\<lambda>_.
     eff_return l)))))))))))"

definition verify_lease :: "int \<Rightarrow> lease \<Rightarrow> plane \<Rightarrow> secret_descriptor res" where
  "verify_lease now l p =
     res_bind (compare_digest (sign_lease_payload (pl_key p) (signed_payload l)) (le_signature l)) (\<lambda>same.
     res_bind (raise_if (\<not> same) (SecretAccessDenied ''invalid lease signature'')) (\<lambda>_.
     res_bind (descriptor (le_secret_id l) p) (\<lambda>d.
     res_bind (raise_if (secret_status d \<noteq> ACTIVE) (SecretAccessDenied ''secret is not active'')) (\<lambda>_.
     res_bind (raise_if (secret_version d \<noteq> le_secret_version l)
                (SecretAccessDenied ''lease is bound to a superseded secret version'')) (\<lambda>_.
     res_bind (raise_if (now \<ge> le_expires_at l) (SecretAccessDenied ''lease is expired'')) (\<lambda>_.
     res_bind (raise_if (expired now d) (SecretAccessDenied ''secret descriptor is expired'')) (\<lambda>_.
     res_bind (case map_of (pl_policies p) (le_secret_id l) of None \<Rightarrow> Inl (KeyError (le_secret_id l)) | Some q \<Rightarrow> Inr q) (\<lambda>policy.
     let (allowed, why) = disclosure policy (le_actor l) (le_capability l) (le_scope l) in
     res_bind (raise_if (\<not> allowed) (SecretAccessDenied why)) (\<lambda>_. Inr d)))))))))"

text \<open>What a consumer does with the material: a value, an error of the plane, or another exception of a class.\<close>

datatype consumed = Returned pyval | PlaneError exc | OtherError string exc

definition use_material ::
  "(string \<Rightarrow> int) \<Rightarrow> lease \<Rightarrow> (byte list \<Rightarrow> consumed) \<Rightarrow> byte list \<Rightarrow> (plane, pyval) eff" where
  "use_material clock l consumer raw = (case consumer raw of
      PlaneError e \<Rightarrow> eff_raise e
    | OtherError kind e \<Rightarrow>
        eff_bind (audit clock ''LEASE_USE_ERROR'' (audit_dict l @ [(''error_type'', JStr kind)])) (\<lambda>_. eff_raise e)
    | Returned v \<Rightarrow>
        if contains_secret v raw
        then eff_bind (audit clock ''SECRET_RETURN_BLOCKED'' (audit_dict l @ [(''reason'', JStr ''consumer_returned_secret_material'')]))
               (\<lambda>_. eff_raise (SecretExposureError ''consumer attempted to return secret material''))
        else eff_bind (audit clock ''LEASE_USED'' (audit_dict l @ [(''decision'', JStr ''PASS'')])) (\<lambda>_. eff_return v))"

definition execute_with_secret :: "(string \<Rightarrow> int) \<Rightarrow> lease \<Rightarrow> (byte list \<Rightarrow> consumed) \<Rightarrow> (plane, pyval) eff" where
  "execute_with_secret clock l consumer =
     eff_bind (eff_get (verify_lease (clock ''now'') l)) (\<lambda>verified.
     eff_bind (eff_lift verified) (\<lambda>_.
     eff_bind (on_leases (store_consume l)) (\<lambda>counted.
     eff_bind (eff_when (\<not> counted) (eff_bind (audit clock ''LEASE_USE_DENIED''
        (audit_dict l @ [(''reason'', JStr ''usage_exhausted_or_revoked'')]))
        (\<lambda>_. eff_raise (SecretAccessDenied ''lease usage exhausted or revoked'')))) (\<lambda>_.
     eff_bind (eff_get (\<lambda>p. map_of (pl_bindings p) (le_secret_id l))) (\<lambda>bound. case bound of
       None \<Rightarrow> eff_raise (SecretNotAvailable ''secret binding is unavailable'')
     | Some locator \<Rightarrow>
         eff_bind (eff_get (\<lambda>p. vault_read (pl_vault p) locator)) (\<lambda>got.
         eff_bind (eff_lift got) (\<lambda>material.
         eff_bind (eff_lift (raise_if (material = []) (SecretNotAvailable ''vault returned empty secret material''))) (\<lambda>_.
         use_material clock l consumer material))))))))"

text \<open>The end of a rebinding, a revocation and a destruction: descriptor, leases, audit.\<close>

definition settle :: "(string \<Rightarrow> int) \<Rightarrow> string \<Rightarrow> secret_descriptor \<Rightarrow> (plane \<Rightarrow> plane) \<Rightarrow> string \<Rightarrow> jobj \<Rightarrow>
    (plane, secret_descriptor) eff" where
  "settle clock sid d rebind etype payload =
     eff_bind (eff_modify (\<lambda>p. rebind (p\<lparr>pl_descriptors := dict_set (pl_descriptors p) sid d\<rparr>))) (\<lambda>_.
     eff_bind (on_leases (store_revoke sid)) (\<lambda>_.
     eff_bind (audit clock etype payload) (\<lambda>_. eff_return d)))"

definition unbind :: "string \<Rightarrow> plane \<Rightarrow> plane" where
  "unbind sid p = p\<lparr>pl_bindings := filter (\<lambda>(k, v). k \<noteq> sid) (pl_bindings p)\<rparr>"

definition rebind_secret :: "(string \<Rightarrow> int) \<Rightarrow> string \<Rightarrow> string \<Rightarrow> int \<Rightarrow> (plane, secret_descriptor) eff" where
  "rebind_secret clock sid locator version =
     eff_bind (get_descriptor sid) (\<lambda>d.
     eff_bind (eff_lift (raise_if (secret_status d \<noteq> ACTIVE) (SecretAccessDenied ''only active secrets can be rebound''))) (\<lambda>_.
     eff_bind (eff_lift (raise_if (version \<le> secret_version d)
                (ValueError ''new_version must be greater than current version''))) (\<lambda>_.
     eff_bind (eff_lift (raise_if (locator = '''') (ValueError ''new_locator is required''))) (\<lambda>_.
     eff_bind (eff_lift (check_descriptor (d\<lparr>secret_version := version\<rparr>))) (\<lambda>updated.
     settle clock sid updated (\<lambda>p. p\<lparr>pl_bindings := dict_set (pl_bindings p) sid locator\<rparr>) ''SECRET_REBOUND''
       [(''secret_id'', JStr sid), (''old_version'', JInt (secret_version d)), (''new_version'', JInt version)])))))"

definition revoke_secret :: "(string \<Rightarrow> int) \<Rightarrow> string \<Rightarrow> (plane, secret_descriptor) eff" where
  "revoke_secret clock sid =
     eff_bind (get_descriptor sid) (\<lambda>d.
     eff_bind (eff_lift (raise_if (secret_status d = DESTROYED)
                (SecretAccessDenied ''destroyed secret cannot be revoked''))) (\<lambda>_.
     eff_bind (eff_lift (check_descriptor (d\<lparr>secret_status := REVOKED\<rparr>))) (\<lambda>updated.
     settle clock sid updated (unbind sid) ''SECRET_REVOKED''
       [(''secret_id'', JStr sid), (''version'', JInt (secret_version d))])))"

definition destroy_secret :: "(string \<Rightarrow> int) \<Rightarrow> string \<Rightarrow> (plane, secret_descriptor) eff" where
  "destroy_secret clock sid =
     eff_bind (get_descriptor sid) (\<lambda>d.
     if secret_status d = DESTROYED then eff_return d
     else
       eff_bind (eff_get (\<lambda>p. map_of (pl_bindings p) sid)) (\<lambda>bound. case bound of
         None \<Rightarrow> eff_raise (SecretNotAvailable ''secret binding is unavailable'')
       | Some locator \<Rightarrow>
           eff_bind (on_vault (vault_destroy locator)) (\<lambda>_.
           eff_bind (eff_lift (check_descriptor (d\<lparr>secret_status := DESTROYED\<rparr>))) (\<lambda>updated.
           settle clock sid updated (unbind sid) ''SECRET_DESTROYED''
             [(''secret_id'', JStr sid), (''version'', JInt (secret_version d))]))))"

end
