(* ===== verification/Secret_Properties.thy ===== *)
theory Secret_Properties
  imports Secret_Plane
begin

text \<open>
  The guarantees of the secret plane: a consumer sees a secret only under a lease the plane
  signed for it that is current, allowed and not used up; no returned value holds the
  secret; a lease is used no more often than it says; revocation is final; and a lease just
  issued verifies until it expires.
\<close>

section \<open>The store of a plane\<close>

fun store_view :: "store \<Rightarrow> (string \<rightharpoonup> lease_use)" where
  "store_view (InMemory m) = map_of m"
| "store_view (Durable d) = sql_view d"

fun store_ok :: "store \<Rightarrow> bool" where
  "store_ok (InMemory m) = dict_ok m"
| "store_ok (Durable d) = sql_ok d"

interpretation plane_store: lease_store store_register store_consume store_revoke store_view store_ok
proof unfold_locales
  fix s :: store and l :: lease and sid :: string
  assume ok: "store_ok s"
  show "\<exists>s'. store_register l s = (Inr (), s') \<and> store_ok s' \<and>
      store_view s' = (store_view s)(lease_id l \<mapsto> \<lparr>us_secret = le_secret_id l, us_uses = 0, us_revoked = False\<rparr>)"
    if new: "store_view s (lease_id l) = None"
  proof (cases s)
    case (InMemory m)
    then show ?thesis using ok new memory.register_new [of m l] by (auto simp: store_register_def split: if_splits)
  next
    case (Durable d)
    then show ?thesis using ok new sqlite.register_new [of d l] by (auto simp: store_register_def split: if_splits)
  qed
  show "\<exists>e s'. store_register l s = (Inl e, s') \<and> store_view s' = store_view s" if old: "store_view s (lease_id l) \<noteq> None"
  proof (cases s)
    case (InMemory m)
    then show ?thesis using ok old memory.register_old [of m l] by (auto simp: store_register_def split: if_splits)
  next
    case (Durable d)
    then show ?thesis using ok old sqlite.register_old [of d l] by (auto simp: store_register_def split: if_splits)
  qed
  show "\<exists>s'. store_consume l s = (Inr (usable l (store_view s)), s') \<and> store_ok s' \<and>
      store_view s' = (if usable l (store_view s) then used_view l (store_view s) else store_view s)"
  proof (cases s)
    case (InMemory m)
    then show ?thesis using ok memory.consume_law [of m l] by (auto simp: store_consume_def split: if_splits)
  next
    case (Durable d)
    then show ?thesis using ok sqlite.consume_law [of d l] by (auto simp: store_consume_def split: if_splits)
  qed
  show "\<exists>s'. store_revoke sid s = (Inr (), s') \<and> store_ok s' \<and> store_view s' = revoked_view sid (store_view s)"
  proof (cases s)
    case (InMemory m)
    then show ?thesis using ok memory.revoke_law [of m sid] by (auto simp: store_revoke_def split: if_splits)
  next
    case (Durable d)
    then show ?thesis using ok sqlite.revoke_law [of d sid] by (auto simp: store_revoke_def split: if_splits)
  qed
qed

section \<open>Finding a secret in a value\<close>

inductive part_of :: "pyval \<Rightarrow> pyval \<Rightarrow> bool" where
  whole: "part_of v v"
| key: "(k, w) \<in> set kvs \<Longrightarrow> part_of v k \<Longrightarrow> part_of v (PMap kvs)"
| item: "(k, w) \<in> set kvs \<Longrightarrow> part_of v w \<Longrightarrow> part_of v (PMap kvs)"
| member: "x \<in> set xs \<Longrightarrow> part_of v x \<Longrightarrow> part_of v (PSeq xs)"

lemma holds_secret_part: "part_of v w \<Longrightarrow> holds_secret raw v \<Longrightarrow> holds_secret raw w"
  by (induction rule: part_of.induct) force+

section \<open>What an execution does\<close>

text \<open>The material a lease gives access to in a state, if it gives any.\<close>

definition lease_valid :: "int \<Rightarrow> lease \<Rightarrow> plane \<Rightarrow> bool" where
  "lease_valid now l p \<longleftrightarrow> sign_lease_payload (pl_key p) (signed_payload l) = le_signature l \<and>
     now < le_expires_at l \<and>
     (\<exists>d q. map_of (pl_descriptors p) (le_secret_id l) = Some d \<and> secret_status d = ACTIVE \<and>
        secret_version d = le_secret_version l \<and> \<not> expired now d \<and> map_of (pl_policies p) (le_secret_id l) = Some q \<and>
        allow_match (le_actor l) (allowed_actors q) \<and> allow_match (le_capability l) (allowed_capabilities q) \<and>
        allow_match (le_scope l) (allowed_scopes q))"

definition secret_for :: "int \<Rightarrow> lease \<Rightarrow> plane \<Rightarrow> byte list option" where
  "secret_for now l p =
     (if lease_valid now l p \<and> fst (store_consume l (pl_leases p)) = Inr True
      then (case map_of (pl_bindings p) (le_secret_id l) of None \<Rightarrow> None | Some locator \<Rightarrow>
        (case vault_read (pl_vault p) locator of Inl e \<Rightarrow> None | Inr m \<Rightarrow> if m = [] then None else Some m))
      else None)"

definition outcome :: "byte list \<Rightarrow> consumed \<Rightarrow> pyval res" where
  "outcome raw c = (case c of PlaneError e \<Rightarrow> Inl e | OtherError kind e \<Rightarrow> Inl e
    | Returned v \<Rightarrow> if contains_secret v raw then Inl (SecretExposureError ''consumer attempted to return secret material'')
                    else Inr v)"

lemma hex_digest_ascii: "is_ascii (bytes_hex bs)"
  by (rule hex_lower_ascii [of "2 * length bs"]) (simp add: hex_lower_n_def bytes_hex_lower)

lemma disclosure_allows: "fst (disclosure q a c s) \<longleftrightarrow>
    allow_match a (allowed_actors q) \<and> allow_match c (allowed_capabilities q) \<and> allow_match s (allowed_scopes q)"
  by (simp add: disclosure_def)

lemma verify_lease_valid: "(\<exists>d. verify_lease now l p = Inr d) \<longleftrightarrow> lease_valid now l p"
proof (cases "compare_digest (sign_lease_payload (pl_key p) (signed_payload l)) (le_signature l)")
  case (Inl e)
  then have "sign_lease_payload (pl_key p) (signed_payload l) \<noteq> le_signature l"
    using hex_digest_ascii unfolding compare_digest_def sign_lease_payload_def by (metis sum.distinct(1))
  then show ?thesis using Inl by (simp add: verify_lease_def lease_valid_def)
next
  case (Inr same)
  then have same: "same \<longleftrightarrow> sign_lease_payload (pl_key p) (signed_payload l) = le_signature l"
    by (auto simp: compare_digest_def split: if_splits)
  show ?thesis
    using Inr same disclosure_allows
    by (auto simp: verify_lease_def lease_valid_def descriptor_def raise_if_def case_prod_beta not_le
        split: option.splits if_splits)
qed

lemma use_material_outcome: "fst (use_material clock l consumer raw p) = outcome raw (consumer raw)"
  by (simp add: use_material_def outcome_def audit_def Let_def eff_bind_def split: consumed.split)

lemma on_leases_run: "on_leases m p = (fst (m (pl_leases p)), p\<lparr>pl_leases := snd (m (pl_leases p))\<rparr>)"
  by (simp add: on_leases_def eff_part_def case_prod_beta)

lemma execute_cases:
  "case secret_for (clock ''now'') l p of
     Some raw \<Rightarrow> \<forall>consumer. execute_with_secret clock l consumer p =
       use_material clock l consumer raw (p\<lparr>pl_leases := snd (store_consume l (pl_leases p))\<rparr>) \<and>
       fst (execute_with_secret clock l consumer p) = outcome raw (consumer raw)
   | None \<Rightarrow> \<exists>e p'. \<forall>consumer. execute_with_secret clock l consumer p = (Inl e, p')"
proof (cases "verify_lease (clock ''now'') l p")
  case (Inl e)
  then have "\<not> lease_valid (clock ''now'') l p" using verify_lease_valid by (metis Inl_Inr_False)
  then show ?thesis using Inl by (simp add: secret_for_def execute_with_secret_def eff_bind_def)
next
  case (Inr d)
  then have v: "lease_valid (clock ''now'') l p" using verify_lease_valid by blast
  obtain r s where c: "store_consume l (pl_leases p) = (r, s)" by fastforce
  show ?thesis
  proof (cases "r = Inr True")
    case False
    then show ?thesis using Inr v c
      by (cases r) (simp_all add: secret_for_def execute_with_secret_def eff_bind_def on_leases_run eff_when_def audit_def Let_def)
  next
    case True
    note run = Inr v c True secret_for_def execute_with_secret_def eff_bind_def on_leases_run eff_when_def
    show ?thesis
    proof (cases "map_of (pl_bindings p) (le_secret_id l)")
      case None
      then show ?thesis by (simp add: run)
    next
      case (Some locator)
      then show ?thesis
        by (cases "vault_read (pl_vault p) locator") (simp_all add: run use_material_outcome raise_if_def)
    qed
  qed
qed

lemma execute_handed:
  assumes "secret_for (clock ''now'') l p = Some raw"
  shows "execute_with_secret clock l consumer p =
    use_material clock l consumer raw (p\<lparr>pl_leases := snd (store_consume l (pl_leases p))\<rparr>)"
  using execute_cases [of clock l p] assms by simp

text \<open>C26: Executing under a lease either hands the material to the consumer, and then what comes out is what
  the consumer returned or raised, with a value that holds the material replaced by an error; or the
  consumer is not called at all, so that the error and the state do not depend on it. It is called
  exactly when the lease carries the plane's signature, is current, its secret is active in the
  lease's version, the policy allows it, the store counts one more use, and the vault has material.\<close>

theorem execute_decides:
  "case secret_for (clock ''now'') l p of
     Some raw \<Rightarrow> \<forall>consumer. execute_with_secret clock l consumer p =
       use_material clock l consumer raw (p\<lparr>pl_leases := snd (store_consume l (pl_leases p))\<rparr>) \<and>
       fst (execute_with_secret clock l consumer p) = outcome raw (consumer raw)
   | None \<Rightarrow> \<exists>e p'. \<forall>consumer. execute_with_secret clock l consumer p = (Inl e, p')"
  by (rule execute_cases)

section \<open>No secret in what is returned\<close>

lemma outcome_Inr: "outcome raw c = Inr v \<longleftrightarrow> c = Returned v \<and> \<not> contains_secret v raw"
  by (auto simp: outcome_def split: consumed.splits if_splits)


section \<open>Calls of a plane\<close>

datatype plane_call =
    Call_register secret_descriptor secret_policy string
  | Call_issue string lease_request
  | Call_execute lease "byte list \<Rightarrow> consumed"
  | Call_rebind string string int
  | Call_revoke string
  | Call_destroy string

fun perform :: "(string \<Rightarrow> int) \<Rightarrow> plane_call \<Rightarrow> plane \<Rightarrow> plane" where
  "perform clock (Call_register d q locator) p = snd (register_secret clock d q locator p)"
| "perform clock (Call_issue nonce rq) p = snd (issue_lease clock nonce rq p)"
| "perform clock (Call_execute l consumer) p = snd (execute_with_secret clock l consumer p)"
| "perform clock (Call_rebind sid locator version) p = snd (rebind_secret clock sid locator version p)"
| "perform clock (Call_revoke sid) p = snd (revoke_secret clock sid p)"
| "perform clock (Call_destroy sid) p = snd (destroy_secret clock sid p)"

fun performs :: "((string \<Rightarrow> int) \<times> plane_call) list \<Rightarrow> plane \<Rightarrow> plane" where
  "performs [] p = p"
| "performs (c # cs) p = performs cs (perform (fst c) (snd c) p)"

text \<open>How often the calls hand a secret to a consumer under a lease.\<close>

fun handed_out :: "lease \<Rightarrow> (string \<Rightarrow> int) \<Rightarrow> plane_call \<Rightarrow> plane \<Rightarrow> bool" where
  "handed_out l clock (Call_execute m consumer) p = (m = l \<and> secret_for (clock ''now'') l p \<noteq> None)"
| "handed_out l clock c p = False"

fun times_handed_out :: "lease \<Rightarrow> ((string \<Rightarrow> int) \<times> plane_call) list \<Rightarrow> plane \<Rightarrow> nat" where
  "times_handed_out l [] p = 0"
| "times_handed_out l (c # cs) p =
     (if handed_out l (fst c) (snd c) p then 1 else 0) + times_handed_out l cs (perform (fst c) (snd c) p)"

section \<open>A lease is used up\<close>

definition uses_at :: "string \<Rightarrow> store \<Rightarrow> int" where
  "uses_at k s = (case store_view s k of None \<Rightarrow> 0 | Some u \<Rightarrow> us_uses u)"

text \<open>A lease id occurs once in a store, in whatever transaction it is.\<close>

fun store_keys :: "store \<Rightarrow> bool" where
  "store_keys (InMemory m) = dict_ok m"
| "store_keys (Durable d) = distinct (map sq_lease_id (sq_rows d))"

definition counts_from :: "string \<Rightarrow> int \<Rightarrow> store \<Rightarrow> bool" where
  "counts_from k n s \<longleftrightarrow> store_keys s \<and> n \<le> uses_at k s"

lemma closed_ok: "store_keys (Durable d) \<Longrightarrow> store_ok (Durable (d\<lparr>sq_in_transaction := False\<rparr>))"
  by (simp add: sql_ok_def)

lemma ok_keys: "store_ok s \<Longrightarrow> store_keys s"
  by (cases s) (simp_all add: sql_ok_def)

lemma keys_cases:
  assumes "store_keys s"
  obtains "store_ok s" | d where "s = Durable d" "sq_in_transaction d"
  using assms by (cases s) (auto simp: sql_ok_def)

lemma view_transaction [simp]: "store_view (Durable (d\<lparr>sq_in_transaction := b\<rparr>)) = store_view (Durable d)"
  by (simp add: sql_view_def)

lemma register_open: "sql_register l (d\<lparr>sq_in_transaction := b\<rparr>) = sql_register l d"
  by (simp add: sql_register_def)

lemma revoke_open: "sql_revoke sid (d\<lparr>sq_in_transaction := b\<rparr>) = sql_revoke sid d"
  by (simp add: sql_revoke_def)

text \<open>A registration and a revocation do not depend on the transaction; a use inside one is refused.\<close>

lemma consume_open: "sq_in_transaction d \<Longrightarrow>
    store_consume l (Durable d) = (Inl (OperationalError ''cannot start a transaction within a transaction''), Durable d)"
  by (simp add: store_consume_def sql_consume_def)

lemma closed_copy:
  assumes "store_keys s"
  obtains t where "store_ok t" "store_view t = store_view s" "store_register l s = store_register l t"
    "store_revoke sid s = store_revoke sid t"
proof (cases s)
  case (InMemory m)
  then show ?thesis using that [of s] assms by simp
next
  case (Durable d)
  then show ?thesis
    using that [of "Durable (d\<lparr>sq_in_transaction := False\<rparr>)"] assms closed_ok
    by (simp add: store_register_def store_revoke_def register_open revoke_open del: store_view.simps store_ok.simps)
qed

lemma register_keys: "store_keys s \<Longrightarrow> store_keys (snd (store_register l s))"
  by (cases s) (auto simp: store_register_def memory_register_def sql_register_def)

lemma counts_register:
  assumes "counts_from k n s"
  shows "counts_from k n (snd (store_register l s))"
proof -
  have keys: "store_keys s" using assms by (simp add: counts_from_def)
  obtain t where t: "store_ok t" "store_view t = store_view s" "store_register l s = store_register l t"
    using closed_copy [OF keys] by metis
  show ?thesis
  proof (cases "store_view t (lease_id l) = None")
    case True
    then show ?thesis using plane_store.register_new [OF t(1) True] t assms register_keys [OF keys, of l]
      by (auto simp: counts_from_def uses_at_def split: option.splits)
  next
    case False
    then show ?thesis using plane_store.register_old [OF t(1) False] t assms register_keys [OF keys, of l]
      by (auto simp: counts_from_def uses_at_def)
  qed
qed

lemma counts_consume:
  assumes "counts_from k n s"
  shows "counts_from k n (snd (store_consume l s))"
proof -
  have keys: "store_keys s" and n: "n \<le> uses_at k s" using assms by (simp_all add: counts_from_def)
  from keys show ?thesis
  proof (cases rule: keys_cases)
    case 1
    then obtain s' where "store_consume l s = (Inr (usable l (store_view s)), s')" "store_ok s'"
      "store_view s' = (if usable l (store_view s) then used_view l (store_view s) else store_view s)"
      using plane_store.consume_law by blast
    then show ?thesis
      using n ok_keys by (auto simp: counts_from_def uses_at_def used_view_def split: option.splits)
  next
    case (2 d)
    then show ?thesis using assms by (simp add: consume_open)
  qed
qed

lemma counts_revoke:
  assumes "counts_from k n s"
  shows "counts_from k n (snd (store_revoke sid s))"
proof -
  obtain t where t: "store_ok t" "store_view t = store_view s" "store_revoke sid s = store_revoke sid t"
    using closed_copy assms unfolding counts_from_def by metis
  show ?thesis using plane_store.revoke_law [OF t(1), of sid] t assms ok_keys
    by (auto simp: counts_from_def uses_at_def revoked_view_def split: option.splits)
qed

lemma keeps_leases: "eff_keeps Q m \<Longrightarrow> eff_keeps (\<lambda>p. Q (pl_leases p)) (on_leases m)"
  by (auto simp: eff_keeps_def on_leases_run)

text \<open>The parts of the plane a call changes, apart from the store.\<close>

lemma keeps_other:
  "eff_keeps (\<lambda>p. Q (pl_leases p)) (audit clock etype payload)"
  "eff_keeps (\<lambda>p. Q (pl_leases p)) (on_vault m)"
  "eff_keeps (\<lambda>p. Q (pl_leases p)) (get_descriptor sid)"
  "eff_keeps (\<lambda>p. Q (pl_leases p)) (get_policy sid)"
  by (auto simp: eff_keeps_def audit_def Let_def on_vault_def eff_part_def get_descriptor_def get_policy_def
      split: prod.splits)

lemma keeps_counts:
  "eff_keeps (counts_from k n) (store_register l)" "eff_keeps (counts_from k n) (store_consume l)"
  "eff_keeps (counts_from k n) (store_revoke sid)"
  by (simp_all add: eff_keeps_def counts_register counts_consume counts_revoke)

lemma keeps_use: "eff_keeps (\<lambda>p. counts_from k n (pl_leases p)) (use_material clock l consumer raw)"
  unfolding use_material_def by (auto split: consumed.split intro!: keeps_intros keeps_other)

lemma perform_counts:
  assumes "counts_from k n (pl_leases p)"
  shows "counts_from k n (pl_leases (perform clock c p))"
proof -
  note intros = keeps_intros keeps_other keeps_leases keeps_counts keeps_modify
  have "eff_keeps (\<lambda>p. counts_from k n (pl_leases p)) (settle clock sid d f etype payload)"
    if "\<And>p. pl_leases (f p) = pl_leases p" for sid d f etype payload
    unfolding settle_def by (intro intros) (simp add: that)
  then have "eff_keeps (\<lambda>p. counts_from k n (pl_leases p)) (rebind_secret clock sid locator version)"
    "eff_keeps (\<lambda>p. counts_from k n (pl_leases p)) (revoke_secret clock sid)"
    "eff_keeps (\<lambda>p. counts_from k n (pl_leases p)) (destroy_secret clock sid)" for sid locator version
    unfolding rebind_secret_def revoke_secret_def destroy_secret_def
    by (auto intro!: intros simp: unbind_def split: option.split)
  moreover have "eff_keeps (\<lambda>p. counts_from k n (pl_leases p)) (register_secret clock d q locator)" for d q locator
    unfolding register_secret_def by (auto intro!: intros)
  moreover have "eff_keeps (\<lambda>p. counts_from k n (pl_leases p)) (issue_lease clock nonce rq)" for nonce rq
    unfolding issue_lease_def Let_def case_prod_beta by (intro intros)
  moreover have "eff_keeps (\<lambda>p. counts_from k n (pl_leases p)) (execute_with_secret clock l consumer)" for l consumer
    unfolding execute_with_secret_def by (auto intro!: intros keeps_use split: option.split)
  ultimately show ?thesis using assms by (cases c) (auto simp: eff_keeps_def)
qed

lemma handed_out_counts:
  assumes "store_keys (pl_leases p)" and "handed_out l clock c p"
  shows "counts_from (lease_id l) (uses_at (lease_id l) (pl_leases p) + 1) (pl_leases (perform clock c p)) \<and>
    uses_at (lease_id l) (pl_leases p) < le_max_uses l"
proof -
  obtain consumer where c: "c = Call_execute l consumer" and out: "secret_for (clock ''now'') l p \<noteq> None"
    using assms(2) by (cases c) auto
  then have run: "perform clock c p = snd (use_material clock l consumer (the (secret_for (clock ''now'') l p))
      (p\<lparr>pl_leases := snd (store_consume l (pl_leases p))\<rparr>))"
    using execute_cases [of clock l p] by auto
  have yes: "fst (store_consume l (pl_leases p)) = Inr True" using out by (auto simp: secret_for_def split: if_splits)
  then have ok: "store_ok (pl_leases p)" using assms(1) keys_cases consume_open
    by (metis Inl_Inr_False fst_conv)
  obtain s where s: "store_consume l (pl_leases p) = (Inr True, s)" using yes by (metis prod.collapse)
  then have "counts_from (lease_id l) (uses_at (lease_id l) (pl_leases p) + 1) s \<and>
      uses_at (lease_id l) (pl_leases p) < le_max_uses l"
    using plane_store.consumed_counts [OF ok s] plane_store.consume_law [OF ok, of l] ok_keys
    by (auto simp: counts_from_def uses_at_def)
  then show ?thesis using keeps_use s unfolding run eff_keeps_def by auto
qed

text \<open>C0: However a plane is used, over any sequence of calls and any readings of the clock, a lease id that
  its store has never seen is good for at most \<open>max_uses\<close> calls of a consumer under a lease.\<close>

theorem lease_uses_bounded:
  assumes "store_keys (pl_leases p)" and "store_view (pl_leases p) (lease_id l) = None"
  shows "int (times_handed_out l cs p) \<le> max 0 (le_max_uses l)"
proof -
  have "int (times_handed_out l cs p) \<le> max 0 (le_max_uses l - n)" if "counts_from (lease_id l) n (pl_leases p)" for n
    using that
  proof (induction cs arbitrary: n p)
    case (Cons c cs)
    let ?p = "perform (fst c) (snd c) p"
    show ?case
    proof (cases "handed_out l (fst c) (snd c) p")
      case False
      then show ?thesis using Cons.IH [of n ?p] perform_counts [OF Cons.prems] by simp
    next
      case True
      have keys: "store_keys (pl_leases p)" using Cons.prems by (simp add: counts_from_def)
      show ?thesis
        using Cons.IH [of "uses_at (lease_id l) (pl_leases p) + 1" ?p] handed_out_counts [OF keys True] True Cons.prems
        by (simp add: counts_from_def)
    qed
  qed simp
  from this [of 0] show ?thesis using assms by (simp add: counts_from_def uses_at_def)
qed

section \<open>Superseded for good\<close>

definition superseded :: "string \<Rightarrow> int \<Rightarrow> plane \<Rightarrow> bool" where
  "superseded sid v p \<longleftrightarrow> (\<exists>d. map_of (pl_descriptors p) sid = Some d \<and> (secret_status d \<noteq> ACTIVE \<or> v < secret_version d))"

lemma superseded_refused:
  assumes "superseded (le_secret_id l) v p" and "le_secret_version l \<le> v"
  shows "secret_for now l p = None"
  using assms by (auto simp: superseded_def secret_for_def lease_valid_def)

lemma descriptors_part [simp]:
  "pl_descriptors (snd (on_leases m p)) = pl_descriptors p" "pl_descriptors (snd (on_vault w p)) = pl_descriptors p"
  "pl_descriptors (snd (audit clock etype payload p)) = pl_descriptors p"
  by (auto simp: on_leases_run on_vault_def eff_part_def audit_def Let_def split: prod.splits)

lemma settle_descriptors:
  assumes "\<And>p. pl_descriptors (f p) = pl_descriptors p"
  shows "pl_descriptors (snd (settle clock sid d f etype payload p)) = dict_set (pl_descriptors p) sid d"
  using assms by (simp add: settle_def eff_bind_def on_leases_run audit_def Let_def split: sum.split)

lemma keeps_descriptors:
  "eff_keeps (\<lambda>p. R (pl_descriptors p)) (audit clock etype payload)"
  "eff_keeps (\<lambda>p. R (pl_descriptors p)) (on_vault w)"
  "eff_keeps (\<lambda>p. R (pl_descriptors p)) (on_leases m)"
  "eff_keeps (\<lambda>p. R (pl_descriptors p)) (get_descriptor sid)"
  "eff_keeps (\<lambda>p. R (pl_descriptors p)) (get_policy sid)"
  by (simp_all add: eff_keeps_def get_descriptor_def get_policy_def)

lemma vault_descriptors: "on_vault w p = (r, q) \<Longrightarrow> pl_descriptors q = pl_descriptors p"
  using descriptors_part(2) [of w p] by simp

lemma checked_same: "check_descriptor d = Inr d' \<Longrightarrow> d' = d"
  by (auto simp: check_descriptor_def res_bind_eq_Inr)

lemmas changing_defs = rebind_secret_def revoke_secret_def destroy_secret_def eff_bind_def get_descriptor_def
  descriptor_def settle_descriptors unbind_def raise_if_def

text \<open>A rebinding, a revocation and a destruction: what they need, and the descriptor they leave.\<close>

lemma change_descriptor:
  assumes "m = rebind_secret clock sid locator version \<or> m = revoke_secret clock sid \<or> m = destroy_secret clock sid"
  shows "pl_descriptors (snd (m p)) = pl_descriptors p \<or>
    (\<exists>d d'. map_of (pl_descriptors p) sid = Some d \<and> pl_descriptors (snd (m p)) = dict_set (pl_descriptors p) sid d' \<and>
       (secret_status d' \<noteq> ACTIVE \<or> secret_status d = ACTIVE \<and> secret_version d < secret_version d'))"
  using assms
proof (elim disjE)
  assume m: "m = destroy_secret clock sid"
  show ?thesis
    unfolding m by (auto simp: changing_defs dest!: checked_same vault_descriptors
        split: option.splits sum.splits if_splits prod.splits)
qed (auto simp: changing_defs dest!: checked_same split: option.splits sum.splits if_splits prod.splits)

lemma perform_superseded:
  assumes "superseded sid v p"
  shows "superseded sid v (perform clock c p)"
proof -
  have kept: "superseded sid v (snd (m p))" if "eff_keeps (\<lambda>p. \<exists>d. map_of (pl_descriptors p) sid = Some d \<and>
      (secret_status d \<noteq> ACTIVE \<or> v < secret_version d)) m" for m :: "(plane, 'a) eff"
    using that assms by (simp add: eff_keeps_def superseded_def)
  note intros = keeps_intros keeps_descriptors
  have changed: "superseded sid v (snd (m p))"
    if "m = rebind_secret clock s locator version \<or> m = revoke_secret clock s \<or> m = destroy_secret clock s"
    for m s locator version
    using change_descriptor [OF that, of p] assms by (auto simp: superseded_def)
  show ?thesis
  proof (cases c)
    case (Call_register d q locator)
    have "superseded sid v (snd (register_secret clock d q locator p))"
      using assms by (auto simp: register_secret_def eff_bind_def raise_if_def audit_def Let_def superseded_def
          split: if_splits) (metis domI dom_map_of_conv_image_fst)+
    then show ?thesis using Call_register by simp
  next
    case (Call_issue nonce rq)
    show ?thesis unfolding Call_issue perform.simps issue_lease_def Let_def case_prod_beta
      by (rule kept) (intro intros)
  next
    case (Call_execute l consumer)
    have "eff_keeps (\<lambda>p. R (pl_descriptors p)) (use_material clock l consumer raw)" for R raw
      unfolding use_material_def by (auto split: consumed.split intro!: intros)
    then have "eff_keeps (\<lambda>p. R (pl_descriptors p)) (execute_with_secret clock l consumer)" for R
      unfolding execute_with_secret_def by (auto intro!: intros split: option.split)
    then show ?thesis unfolding Call_execute perform.simps by (rule kept)
  qed (use changed in auto)
qed

text \<open>C29: Once a secret was rebound to a new version, revoked or destroyed, no lease of the version it had, or of
  an earlier one, ever hands it to a consumer again: not whatever calls follow, whoever holds the lease,
  and whatever the store of leases says.\<close>

theorem superseded_for_good:
  assumes "fst (m p) = Inr d'"
    and "m = rebind_secret clock (le_secret_id l) locator version \<or> m = revoke_secret clock (le_secret_id l) \<or>
      m = destroy_secret clock (le_secret_id l)"
    and "map_of (pl_descriptors p) (le_secret_id l) = Some d" and "le_secret_version l \<le> secret_version d"
  shows "times_handed_out l cs (snd (m p)) = 0"
proof -
  have "superseded (le_secret_id l) (secret_version d) (snd (m p))"
    using assms(1,2,3)
    by (elim disjE)
      (auto simp: superseded_def changing_defs dest!: checked_same split: option.splits sum.splits if_splits prod.splits)
  moreover have "times_handed_out l cs q = 0" if "superseded (le_secret_id l) (secret_version d) q" for q
    using that
  proof (induction cs arbitrary: q)
    case (Cons c cs)
    have "\<not> handed_out l (fst c) (snd c) q" using superseded_refused [OF Cons.prems assms(4)] by (cases "snd c") auto
    then show ?case using Cons.IH [OF perform_superseded [OF Cons.prems]] by simp
  qed simp
  ultimately show ?thesis by blast
qed

text \<open>A revocation drops the binding, so a revoked secret cannot be destroyed: its material stays in the vault.\<close>

lemma revoked_not_destroyed:
  assumes "revoke_secret clock sid p = (Inr d, p')"
  shows "destroy_secret clock sid p' = (Inl (SecretNotAvailable ''secret binding is unavailable''), p')"
proof -
  have b: "pl_bindings (snd (settle clock sid d (unbind sid) e x q)) = filter (\<lambda>(k, v). k \<noteq> sid) (pl_bindings q)" for d e x q
    by (simp add: settle_def eff_bind_def on_leases_run audit_def Let_def unbind_def split: sum.split)
  have gone: "map_of (filter (\<lambda>(k, v). k \<noteq> sid) xs) sid = None" for xs :: "(string, string) dict"
    by (induction xs) auto
  obtain d' etype payload where d': "secret_status d' = REVOKED" and run: "settle clock sid d' (unbind sid) etype payload p = (Inr d, p')"
    using assms unfolding revoke_secret_def
    by (elim eff_bind_InrE, simp add: get_descriptor_def) (rule that, auto dest!: checked_same)
  have "map_of (pl_bindings p') sid = None" using b [of d' etype payload p] run gone by simp
  moreover have "map_of (pl_descriptors p') sid = Some d'"
    using settle_descriptors [of "unbind sid" clock sid d' etype payload p] run by (simp add: unbind_def)
  ultimately show ?thesis using d' by (simp add: destroy_secret_def get_descriptor_def descriptor_def eff_bind_def)
qed

section \<open>An issued lease works\<close>

lemma made_lease_signed:
  "sign_lease_payload key (signed_payload (make_lease key rq version now ttl uses nonce)) =
     le_signature (make_lease key rq version now ttl uses nonce)"
  unfolding sign_lease_payload_def make_lease_def Let_def lease.select_convs
  by (intro arg_cong [where f = bytes_hex] arg_cong [where f = "hmac_sha256 key"] arg_cong [where f = utf8]
      canonical_json_reorder) (auto simp: signed_payload_def lease_base_def)

lemma make_lease_fields [simp]:
  "le_secret_id (make_lease key rq version now ttl uses nonce) = rq_secret_id rq"
  "le_secret_version (make_lease key rq version now ttl uses nonce) = version"
  "le_actor (make_lease key rq version now ttl uses nonce) = rq_actor rq"
  "le_capability (make_lease key rq version now ttl uses nonce) = rq_capability rq"
  "le_scope (make_lease key rq version now ttl uses nonce) = rq_scope rq"
  "le_expires_at (make_lease key rq version now ttl uses nonce) = now + ttl"
  "le_max_uses (make_lease key rq version now ttl uses nonce) = uses"
  by (simp_all add: make_lease_def Let_def)

text \<open>What an issued lease says.\<close>

lemma issue_lease_run:
  assumes "issue_lease clock nonce rq p = (Inr l, p')"
  obtains d q ttl uses s where "map_of (pl_descriptors p) (rq_secret_id rq) = Some d"
    and "map_of (pl_policies p) (rq_secret_id rq) = Some q" and "secret_status d = ACTIVE"
    and "fst (disclosure q (rq_actor rq) (rq_capability rq) (rq_scope rq))"
    and "1 \<le> ttl" "ttl \<le> max_ttl_seconds q" "1 \<le> uses" "uses \<le> max_uses q"
    and "l = make_lease (pl_key p) rq (secret_version d) (clock ''now'') ttl uses nonce"
    and "store_register l (pl_leases p) = (Inr (), s)"
    and "p' = snd (audit clock ''LEASE_ISSUED'' (audit_dict l) (p\<lparr>pl_leases := s\<rparr>))"
proof -
  obtain d where d: "map_of (pl_descriptors p) (rq_secret_id rq) = Some d"
    using assms by (auto simp: issue_lease_def get_descriptor_def descriptor_def eff_bind_def split: option.splits)
  obtain q where q: "map_of (pl_policies p) (rq_secret_id rq) = Some q"
    using assms d by (auto simp: issue_lease_def get_descriptor_def descriptor_def get_policy_def eff_bind_def split: option.splits)
  have first: "get_descriptor (rq_secret_id rq) p = (Inr d, p)" "get_policy (rq_secret_id rq) p = (Inr q, p)"
    using d q by (simp_all add: get_descriptor_def descriptor_def get_policy_def)
  obtain ttl uses where asked: "(case rq_ttl_seconds rq of None \<Rightarrow> max_ttl_seconds q | Some t \<Rightarrow> t) = ttl"
    "(case rq_max_uses rq of None \<Rightarrow> max_uses q | Some u \<Rightarrow> u) = uses" by blast
  let ?l = "make_lease (pl_key p) rq (secret_version d) (clock ''now'') ttl uses nonce"
  have "secret_status d = ACTIVE \<and> fst (disclosure q (rq_actor rq) (rq_capability rq) (rq_scope rq)) \<and>
      1 \<le> ttl \<and> ttl \<le> max_ttl_seconds q \<and> 1 \<le> uses \<and> uses \<le> max_uses q \<and> l = ?l \<and>
      fst (store_register ?l (pl_leases p)) = Inr () \<and>
      p' = snd (audit clock ''LEASE_ISSUED'' (audit_dict ?l) (p\<lparr>pl_leases := snd (store_register ?l (pl_leases p))\<rparr>))"
    using assms first asked unfolding issue_lease_def Let_def case_prod_beta
    by (elim eff_bind_InrE) (auto simp: eff_when_def on_leases_run not_less eff_bind_def split: if_splits prod.splits sum.splits)
  then show ?thesis by (intro that [OF d q, of ttl uses "snd (store_register ?l (pl_leases p))"]) (auto intro: prod_eqI)
qed

lemma audit_parts [simp]:
  "pl_leases (snd (audit clock etype payload p)) = pl_leases p" "pl_key (snd (audit clock etype payload p)) = pl_key p"
  "pl_policies (snd (audit clock etype payload p)) = pl_policies p"
  by (simp_all add: audit_def Let_def)

lemma issued_lease_usable:
  assumes "issue_lease clock nonce rq p = (Inr l, p')" and "store_ok (pl_leases p)"
    and "now < le_expires_at l" and "map_of (pl_descriptors p) (rq_secret_id rq) = Some d" and "\<not> expired now d"
    and "map_of (pl_policies p) (rq_secret_id rq) = Some q"
  shows "lease_valid now l p' \<and> fst (store_consume l (pl_leases p')) = Inr True \<and>
    le_expires_at l \<le> clock ''now'' + max_ttl_seconds q \<and> le_max_uses l \<le> max_uses q"
  using assms(1)
proof (cases rule: issue_lease_run)
  case (1 d' q' ttl uses s)
  have same: "d' = d" "q' = q" using 1 assms(4,6) by simp_all
  have "lease_valid now l p'"
    using 1 assms(3,4,5) disclosure_allows made_lease_signed by (auto simp: lease_valid_def)
  moreover have "store_view (pl_leases p) (lease_id l) = None"
    using plane_store.register_old [OF assms(2)] 1 by fastforce
  then have "usable l (store_view s)" "store_ok s"
    using plane_store.register_new [OF assms(2), of l] 1 by (auto simp: usable_def)
  then have "fst (store_consume l (pl_leases p')) = Inr True"
    using plane_store.consume_law [of s l] 1 by auto
  ultimately show ?thesis using 1 same by simp
qed


section \<open>A sample plane\<close>

definition sample_descriptor :: secret_descriptor where
  "sample_descriptor = \<lparr>secret_id = ''api-key'', secret_kind = ''token'', secret_owner = ''ops'', secret_purpose = ''publish'',
     secret_provider = None, secret_storage = TEST_MEMORY, secret_version = 1, secret_created_at = 0, secret_expires_at = None,
     rotation_due_at = None, secret_status = ACTIVE\<rparr>"

definition sample_secret_policy :: secret_policy where
  "sample_secret_policy = \<lparr>allowed_actors = [''worker''], allowed_capabilities = [''publish''], allowed_scopes = [''*''],
     max_ttl_seconds = 300, max_uses = 2\<rparr>"

definition sample_secret :: "byte list" where "sample_secret = utf8 ''hunter2''"

definition sample_plane :: plane where
  "sample_plane = \<lparr>pl_vault = MemoryVault [(''slot'', sample_secret)], pl_key = replicate 32 7, pl_leases = InMemory [],
     pl_descriptors = [(''api-key'', sample_descriptor)], pl_policies = [(''api-key'', sample_secret_policy)],
     pl_bindings = [(''api-key'', ''slot'')], pl_audit = []\<rparr>"

definition sample_lease_request :: lease_request where
  "sample_lease_request = \<lparr>rq_secret_id = ''api-key'', rq_actor = ''worker'', rq_capability = ''publish'', rq_scope = ''x'',
     rq_ttl_seconds = None, rq_max_uses = Some 1\<rparr>"

definition sample_nonce :: string where "sample_nonce = ''0123456789abcdef''"

definition issued_lease :: lease where
  "issued_lease = make_lease (replicate 32 7) sample_lease_request 1 1000 300 1 sample_nonce"

definition leased_plane :: plane where
  "leased_plane = snd (issue_lease (\<lambda>e. 1000) sample_nonce sample_lease_request sample_plane)"

lemma sample_issue: "issue_lease (\<lambda>e. 1000) sample_nonce sample_lease_request sample_plane = (Inr issued_lease, leased_plane)"
  unfolding leased_plane_def
  by (simp add: issue_lease_def issued_lease_def eff_bind_def get_descriptor_def get_policy_def descriptor_def sample_plane_def
      sample_lease_request_def sample_descriptor_def sample_secret_policy_def expired_def disclosure_def allow_match_def
      eff_when_def on_leases_run store_register_def memory_register_def audit_def Let_def sample_nonce_def)

lemma leased_parts: "pl_leases leased_plane = InMemory [(lease_id issued_lease, \<lparr>us_secret = ''api-key'', us_uses = 0, us_revoked = False\<rparr>)]"
  "pl_vault leased_plane = pl_vault sample_plane" "pl_bindings leased_plane = pl_bindings sample_plane"
  "pl_descriptors leased_plane = pl_descriptors sample_plane" "pl_policies leased_plane = pl_policies sample_plane"
  unfolding leased_plane_def
  by (simp_all add: issue_lease_def issued_lease_def eff_bind_def get_descriptor_def get_policy_def descriptor_def sample_plane_def
      sample_lease_request_def sample_descriptor_def sample_secret_policy_def expired_def disclosure_def allow_match_def
      eff_when_def on_leases_run store_register_def memory_register_def audit_def Let_def sample_nonce_def dict_set_def)

lemma sample_handed:
  assumes "now < 1300"
  shows "secret_for now issued_lease leased_plane = Some sample_secret"
proof -
  have "lease_valid now issued_lease leased_plane" "fst (store_consume issued_lease (pl_leases leased_plane)) = Inr True"
    using issued_lease_usable [OF sample_issue, of now sample_descriptor sample_secret_policy] assms
    by (simp_all add: sample_plane_def issued_lease_def sample_lease_request_def sample_descriptor_def expired_def)
  then show ?thesis
    by (simp add: secret_for_def leased_parts sample_plane_def issued_lease_def sample_lease_request_def sample_secret_def utf8_def
        utf8_char_def)
qed

lemma sample_execution:
  "execute_with_secret (\<lambda>e. 1001) issued_lease consumer leased_plane =
     use_material (\<lambda>e. 1001) issued_lease consumer sample_secret
       (leased_plane\<lparr>pl_leases := snd (store_consume issued_lease (pl_leases leased_plane))\<rparr>)"
  by (simp add: execute_handed sample_handed)


theorem lease_uses_bounded_witness:
  "times_handed_out issued_lease [(\<lambda>e. 1000, Call_issue sample_nonce sample_lease_request),
      (\<lambda>e. 1001, Call_execute issued_lease (\<lambda>raw. Returned (PText ''posted''))),
      (\<lambda>e. 1002, Call_execute issued_lease (\<lambda>raw. Returned (PText ''posted'')))] sample_plane = 1"
proof -
  have fresh: "store_keys (pl_leases sample_plane)" "store_view (pl_leases sample_plane) (lease_id issued_lease) = None"
    by (simp_all add: sample_plane_def)
  have "le_max_uses issued_lease = 1" by (simp add: issued_lease_def)
  then have "times_handed_out issued_lease [(\<lambda>e. 1000, Call_issue sample_nonce sample_lease_request),
      (\<lambda>e. 1001, Call_execute issued_lease (\<lambda>raw. Returned (PText ''posted''))),
      (\<lambda>e. 1002, Call_execute issued_lease (\<lambda>raw. Returned (PText ''posted'')))] sample_plane \<le> 1"
    using lease_uses_bounded [OF fresh, of "[(\<lambda>e. 1000, Call_issue sample_nonce sample_lease_request),
      (\<lambda>e. 1001, Call_execute issued_lease (\<lambda>raw. Returned (PText ''posted''))),
      (\<lambda>e. 1002, Call_execute issued_lease (\<lambda>raw. Returned (PText ''posted'')))]"] by simp
  moreover have "perform (\<lambda>e. 1000) (Call_issue sample_nonce sample_lease_request) sample_plane = leased_plane"
    by (simp add: sample_issue)
  ultimately show ?thesis by (simp add: sample_handed)
qed

theorem superseded_for_good_witness:
  "fst (revoke_secret (\<lambda>e. 1001) ''api-key'' leased_plane) = Inr (sample_descriptor\<lparr>secret_status := REVOKED\<rparr>) \<and>
   times_handed_out issued_lease [(\<lambda>e. 1002, Call_execute issued_lease (\<lambda>raw. Returned (PText ''posted'')))]
     (snd (revoke_secret (\<lambda>e. 1001) ''api-key'' leased_plane)) = 0"
proof -
  have run: "fst (revoke_secret (\<lambda>e. 1001) (le_secret_id issued_lease) leased_plane) = Inr (sample_descriptor\<lparr>secret_status := REVOKED\<rparr>)"
    by (simp add: revoke_secret_def eff_bind_def get_descriptor_def descriptor_def leased_parts sample_plane_def
        sample_descriptor_def issued_lease_def sample_lease_request_def check_descriptor_def settle_def on_leases_run
        store_revoke_def memory_revoke_def audit_def Let_def unbind_def)
  have "times_handed_out issued_lease [(\<lambda>e. 1002, Call_execute issued_lease (\<lambda>raw. Returned (PText ''posted'')))]
     (snd (revoke_secret (\<lambda>e. 1001) (le_secret_id issued_lease) leased_plane)) = 0"
    using superseded_for_good [where m = "revoke_secret (\<lambda>e. 1001) (le_secret_id issued_lease)" and p = leased_plane
        and clock = "\<lambda>e. 1001" and l = issued_lease and d = sample_descriptor
        and cs = "[(\<lambda>e. 1002, Call_execute issued_lease (\<lambda>raw. Returned (PText ''posted'')))]", OF run]
    by (simp add: leased_parts sample_plane_def issued_lease_def sample_lease_request_def sample_descriptor_def)
  then show ?thesis using run by (simp add: issued_lease_def sample_lease_request_def)
qed


end
