(* ===== verification/Python_Text.thy ===== *)
theory Python_Text
  imports Json
begin

text \<open>
  \<open>str(value)\<close> and \<open>repr(value)\<close> of JSON values, as f-strings write them, and \<open>for item in
  value\<close>, which accepts lists, dictionaries (their keys) and strings (their characters).
\<close>

definition py_unprintable :: "char \<Rightarrow> bool" where
  "py_unprintable c = (let n = of_char c :: nat in n < 32 \<or> 127 \<le> n \<and> n \<le> 160 \<or> n = 173)"

definition py_escape :: "char \<Rightarrow> char \<Rightarrow> string" where
  "py_escape quote c = (let n = of_char c :: nat in
     if c = quote \<or> c = backslash then [backslash, c]
     else if n = 9 then [backslash, CHR ''t'']
     else if n = 10 then [backslash, CHR ''n'']
     else if n = 13 then [backslash, CHR ''r'']
     else if py_unprintable c then [backslash, CHR ''x'', hex_digit (n div 16), hex_digit (n mod 16)]
     else [c])"

definition py_repr_string :: "string \<Rightarrow> string" where
  "py_repr_string s = (let quote = (if CHR 0x27 \<in> set s \<and> quote_char \<notin> set s then quote_char else CHR 0x27)
     in quote # concat (map (py_escape quote) s) @ [quote])"

primrec py_repr :: "json \<Rightarrow> string" where
  "py_repr JNull = ''None''"
| "py_repr (JBool b) = (if b then ''True'' else ''False'')"
| "py_repr (JInt i) = int_text i"
| "py_repr (JFloat t) = (if t = ''NaN'' then ''nan'' else if t = ''Infinity'' then ''inf''
     else if t = ''-Infinity'' then ''-inf'' else t)"
| "py_repr (JStr s) = py_repr_string s"
| "py_repr (JArr xs) = ''['' @ join '', '' (map py_repr xs) @ '']''"
| "py_repr (JObj kvs) = ''{'' @ join '', '' (map (\<lambda>p. py_repr_string (fst p) @ '': '' @ snd p) (map (map_prod id py_repr) kvs)) @ ''}''"

definition py_str :: "json \<Rightarrow> string" where
  "py_str v = (case v of JStr s \<Rightarrow> s | w \<Rightarrow> py_repr w)"

definition py_iter :: "json \<Rightarrow> json list res" where
  "py_iter v = (case v of
      JArr xs \<Rightarrow> Inr xs
    | JObj kvs \<Rightarrow> Inr (map (JStr \<circ> fst) kvs)
    | JStr s \<Rightarrow> Inr (map (\<lambda>c. JStr [c]) s)
    | w \<Rightarrow> Inl (TypeError ''object is not iterable''))"

text \<open>\<open>d.get(key, default)\<close>, where a key that is present reads as its value, \<open>null\<close> too.\<close>

definition jget_or :: "jobj \<Rightarrow> string \<Rightarrow> json \<Rightarrow> json" where
  "jget_or d k v = (case map_of d k of None \<Rightarrow> v | Some w \<Rightarrow> w)"

lemma jget_or_simps [simp]:
  "map_of d k = None \<Longrightarrow> jget_or d k v = v" "map_of d k = Some w \<Longrightarrow> jget_or d k v = w"
  by (simp_all add: jget_or_def)

lemma py_iter_list [simp]: "py_iter (JArr xs) = Inr xs"
  by (simp add: py_iter_def)

end
