(* ===== verification/Python_Time.thy ===== *)
theory Python_Time
  imports Prelude
begin

text \<open>
  The part of Python's \<open>datetime\<close> that the bridge uses: an instant is a number of
  microseconds since 0001-01-01T00:00:00 UTC, below the end of the year 9999, \<open>isoformat\<close>
  writes it, and an operation that leaves the range raises \<open>OverflowError\<close>. A parsed date
  without a time zone is told apart from one with an offset.
\<close>

definition MAX_INSTANT :: int where "MAX_INSTANT = 3652059 * 86400 * 1000000"

definition check_instant :: "int \<Rightarrow> int res" where
  "check_instant t = (if 0 \<le> t \<and> t < MAX_INSTANT then Inr t else Inl (OverflowError ''date value out of range''))"

text \<open>What \<open>datetime.fromisoformat\<close> gives: local time and, if the text has one, the offset from UTC.\<close>

type_synonym parsed_time = "(int \<times> int option) option"

definition is_leap :: "nat \<Rightarrow> bool" where
  "is_leap y \<longleftrightarrow> y mod 4 = 0 \<and> (y mod 100 \<noteq> 0 \<or> y mod 400 = 0)"

definition month_days :: "bool \<Rightarrow> nat list" where
  "month_days leap = [31, if leap then 29 else 28, 31, 30, 31, 30, 31, 31, 30, 31, 30, 31]"

text \<open>The year of a day counted from 0001-01-01, and the day within it; then month and day.\<close>

definition split_year :: "nat \<Rightarrow> nat \<times> nat" where
  "split_year n =
    (let n400 = n div 146097; r400 = n mod 146097;
         n100 = min 3 (r400 div 36524); r100 = r400 - n100 * 36524;
         n4 = r100 div 1461; r4 = r100 mod 1461;
         n1 = min 3 (r4 div 365)
     in (n400 * 400 + n100 * 100 + n4 * 4 + n1 + 1, r4 - n1 * 365))"

fun split_month :: "nat list \<Rightarrow> nat \<Rightarrow> nat \<Rightarrow> nat \<times> nat" where
  "split_month [] m d = (m, d)"
| "split_month (k # ks) m d = (if d < k then (m, d) else split_month ks (m + 1) (d - k))"

definition civil_date :: "nat \<Rightarrow> nat \<times> nat \<times> nat" where
  "civil_date n = (let (y, r) = split_year n; (m, d) = split_month (month_days (is_leap y)) 1 r in (y, m, d + 1))"

text \<open>\<open>f"{n:0{width}d}"\<close>\<close>

fun padded :: "nat \<Rightarrow> nat \<Rightarrow> string" where
  "padded 0 n = ''''"
| "padded (Suc w) n = padded w (n div 10) @ [digit_char (n mod 10)]"

definition utc_isoformat :: "int \<Rightarrow> string" where
  "utc_isoformat t =
    (let us = nat t; micro = us mod 1000000; secs = us div 1000000; (y, m, d) = civil_date (secs div 86400);
         s = secs mod 86400
     in padded 4 y @ ''-'' @ padded 2 m @ ''-'' @ padded 2 d @ ''T'' @ padded 2 (s div 3600) @ '':'' @
        padded 2 (s div 60 mod 60) @ '':'' @ padded 2 (s mod 60) @
        (if micro = 0 then '''' else ''.'' @ padded 6 micro) @ ''+00:00'')"

lemma padded_numeral [simp]: "padded (numeral k) n = padded (pred_numeral k) (n div 10) @ [digit_char (n mod 10)]"
  by (simp only: numeral_eq_Suc [of k] padded.simps)

lemmas civil_defs = civil_date_def split_year_def month_days_def is_leap_def Let_def

lemma civil_date_samples:
  "civil_date 0 = (1, 1, 1)" "civil_date 3652058 = (9999, 12, 31)" "civil_date 719162 = (1970, 1, 1)"
  "civil_date 738944 = (2024, 2, 29)" "civil_date 738945 = (2024, 3, 1)" "civil_date 738837 = (2023, 11, 14)"
  by (simp_all add: civil_defs)

lemma utc_isoformat_samples:
  "utc_isoformat 0 = ''0001-01-01T00:00:00+00:00''"
  "utc_isoformat 315537897599999999 = ''9999-12-31T23:59:59.999999+00:00''"
  "utc_isoformat 63835596800000000 = ''2023-11-14T22:13:20+00:00''"
  by (simp_all add: utc_isoformat_def civil_date_samples digit_char_def)

end
