(* ===== verification/Bridge_Core.thy ===== *)
theory Bridge_Core
  imports Python_Text Python_Time Core
begin

text \<open>
  \<open>app/bridge_core.py\<close>: causal envelopes, the assessment of an engineering transition and
  the normalization of a Codex task. The parser \<open>datetime.fromisoformat\<close> is an argument
  (\<open>fromiso\<close>); writing instants is theory \<open>Python_Time\<close>.
\<close>

definition BRIDGE_PROTOCOL :: string where "BRIDGE_PROTOCOL = ''matverse.bridge.v1.1''"

datatype epistemic_nature = EN_ARTIFACT | EN_RUNTIME | EN_INFERENCE | EN_MODEL

fun nature_value :: "epistemic_nature \<Rightarrow> string" where
  "nature_value EN_ARTIFACT = ''ARTEFATO''"
| "nature_value EN_RUNTIME = ''RUNTIME''"
| "nature_value EN_INFERENCE = ''INFERENCIA''"
| "nature_value EN_MODEL = ''MODELO''"

datatype analytic_status = AS_FACT | AS_CITATION | AS_INFERENCE | AS_HOLD | AS_CONTRADICTION

fun analytic_value :: "analytic_status \<Rightarrow> string" where
  "analytic_value AS_FACT = ''FATO''"
| "analytic_value AS_CITATION = ''CITACAO''"
| "analytic_value AS_INFERENCE = ''INFERENCIA''"
| "analytic_value AS_HOLD = ''HOLD''"
| "analytic_value AS_CONTRADICTION = ''CONTRADICAO''"

datatype execution_status = ES_OPEN | ES_RUNNING | ES_SUCCEEDED | ES_FAILED | ES_CANCELLED

fun execution_value :: "execution_status \<Rightarrow> string" where
  "execution_value ES_OPEN = ''OPEN''"
| "execution_value ES_RUNNING = ''RUNNING''"
| "execution_value ES_SUCCEEDED = ''SUCCEEDED''"
| "execution_value ES_FAILED = ''FAILED''"
| "execution_value ES_CANCELLED = ''CANCELLED''"

datatype engineering_state = WORKSPACE | COMMIT | PUSH | PULL_REQUEST | CI | MERGE | RUNTIME

fun engineering_value :: "engineering_state \<Rightarrow> string" where
  "engineering_value WORKSPACE = ''WORKSPACE''"
| "engineering_value COMMIT = ''COMMIT''"
| "engineering_value PUSH = ''PUSH''"
| "engineering_value PULL_REQUEST = ''PULL_REQUEST''"
| "engineering_value CI = ''CI''"
| "engineering_value MERGE = ''MERGE''"
| "engineering_value RUNTIME = ''RUNTIME''"

datatype evidence_status = EV_UNKNOWN | EV_PRESENT | EV_FAILED

fun evidence_value :: "evidence_status \<Rightarrow> string" where
  "evidence_value EV_UNKNOWN = ''UNKNOWN''"
| "evidence_value EV_PRESENT = ''PRESENT''"
| "evidence_value EV_FAILED = ''FAILED''"

definition require_nonempty :: "string \<Rightarrow> json \<Rightarrow> string res" where
  "require_nonempty name v = (case v of
      JStr s \<Rightarrow> if blank s then Inl (ValueError (name @ '' must be a non-empty string'')) else Inr (strip s)
    | _ \<Rightarrow> Inl (ValueError (name @ '' must be a non-empty string'')))"

section \<open>Snapshots of a payload\<close>

text \<open>
  The Python values a payload may be made of (\<open>PVOther\<close> any other, with the name of its
  type), and their immutable snapshots: mapping proxies, tuples and scalars.
\<close>

datatype pvalue = PVNull | PVBool bool | PVInt int | PVFloat string | PVStr string
  | PVList "pvalue list" | PVTuple "pvalue list" | PVMap "(pvalue \<times> pvalue) list" | PVOther string

datatype frozen = FNull | FBool bool | FInt int | FFloat string | FStr string
  | FTuple "frozen list" | FMap "(string \<times> frozen) list"

fun freeze_json :: "pvalue \<Rightarrow> frozen res" and
  freeze_items :: "pvalue list \<Rightarrow> frozen list res" and
  freeze_entries :: "(pvalue \<times> pvalue) list \<Rightarrow> (string \<times> frozen) list res" where
  "freeze_json PVNull = Inr FNull"
| "freeze_json (PVBool b) = Inr (FBool b)"
| "freeze_json (PVInt i) = Inr (FInt i)"
| "freeze_json (PVFloat t) = Inr (FFloat t)"
| "freeze_json (PVStr s) = Inr (FStr s)"
| "freeze_json (PVList xs) = res_bind (freeze_items xs) (\<lambda>ys. Inr (FTuple ys))"
| "freeze_json (PVTuple xs) = res_bind (freeze_items xs) (\<lambda>ys. Inr (FTuple ys))"
| "freeze_json (PVMap kvs) = res_bind (freeze_entries kvs) (\<lambda>ps. Inr (FMap ps))"
| "freeze_json (PVOther t) = Inl (ValueError (''payload contains unsupported JSON value: '' @ t))"
| "freeze_items [] = Inr []"
| "freeze_items (x # xs) = res_bind (freeze_json x) (\<lambda>y. res_bind (freeze_items xs) (\<lambda>ys. Inr (y # ys)))"
| "freeze_entries [] = Inr []"
| "freeze_entries ((PVStr k, v) # kvs) =
     res_bind (freeze_json v) (\<lambda>y. res_bind (freeze_entries kvs) (\<lambda>ps. Inr ((k, y) # ps)))"
| "freeze_entries (p # kvs) = Inl (ValueError ''payload mappings must use string keys'')"

primrec thaw_json :: "frozen \<Rightarrow> json" where
  "thaw_json FNull = JNull"
| "thaw_json (FBool b) = JBool b"
| "thaw_json (FInt i) = JInt i"
| "thaw_json (FFloat t) = JFloat t"
| "thaw_json (FStr s) = JStr s"
| "thaw_json (FTuple xs) = JArr (map thaw_json xs)"
| "thaw_json (FMap kvs) = JObj (map (map_prod id thaw_json) kvs)"

section \<open>Timestamps\<close>

definition canonicalize_timestamp :: "(string \<Rightarrow> parsed_time) \<Rightarrow> int \<Rightarrow> string option \<Rightarrow> (int \<times> string) res" where
  "canonicalize_timestamp fromiso clock v =
     res_bind (case v of
         None \<Rightarrow> Inr clock
       | Some given \<Rightarrow>
           res_bind (require_nonempty ''timestamp'' (JStr given)) (\<lambda>s.
           let raw = (if last s = CHR ''Z'' then butlast s @ ''+00:00'' else s) in
           case fromiso raw of
             None \<Rightarrow> Inl (ValueError ''timestamp must be a timezone-aware ISO 8601 value'')
           | Some (local, None) \<Rightarrow> Inl (ValueError ''timestamp must include a timezone'')
           | Some (local, Some offset) \<Rightarrow> check_instant (local - offset)))
     (\<lambda>t. Inr (t, utc_isoformat t))"

definition optional_sequence :: "json \<Rightarrow> string \<Rightarrow> json list res" where
  "optional_sequence v name = (case v of
      JNull \<Rightarrow> Inr []
    | JArr xs \<Rightarrow> Inr xs
    | _ \<Rightarrow> Inl (ValueError (name @ '' must be a list or tuple when provided'')))"

definition optional_mapping :: "json \<Rightarrow> string \<Rightarrow> jobj res" where
  "optional_mapping v name = (case v of
      JNull \<Rightarrow> Inr []
    | JObj d \<Rightarrow> Inr d
    | _ \<Rightarrow> Inl (ValueError (name @ '' must be a mapping when provided'')))"

section \<open>Causal envelopes\<close>

record envelope =
  envelope_id :: string
  env_source :: string
  env_destination :: string
  env_actor :: string
  env_objective_id :: string
  env_capability :: string
  env_payload :: frozen
  env_schema :: string
  env_context_refs :: "string list"
  env_authority_ref :: string
  env_policy_ref :: string
  env_correlation_id :: string
  env_causation_id :: "string option"
  env_timestamp :: string
  env_ttl_seconds :: int
  env_expires_at :: string
  env_signature :: "string option"
  env_evidence_refs :: "string list"
  env_nature :: epistemic_nature
  env_analytic :: analytic_status

definition envelope_dict :: "envelope \<Rightarrow> jobj" where
  "envelope_dict e = [(''envelope_id'', JStr (envelope_id e)), (''source'', JStr (env_source e)),
     (''destination'', JStr (env_destination e)), (''actor'', JStr (env_actor e)),
     (''objective_id'', JStr (env_objective_id e)), (''capability'', JStr (env_capability e)),
     (''payload'', thaw_json (env_payload e)), (''schema'', JStr (env_schema e)),
     (''context_refs'', JArr (map JStr (env_context_refs e))), (''authority_ref'', JStr (env_authority_ref e)),
     (''policy_ref'', JStr (env_policy_ref e)), (''correlation_id'', JStr (env_correlation_id e)),
     (''causation_id'', jopt (env_causation_id e)), (''timestamp'', JStr (env_timestamp e)),
     (''ttl_seconds'', JInt (env_ttl_seconds e)), (''expires_at'', JStr (env_expires_at e)),
     (''signature'', jopt (env_signature e)), (''evidence_refs'', JArr (map JStr (env_evidence_refs e))),
     (''epistemic_nature'', JStr (nature_value (env_nature e))),
     (''analytic_status'', JStr (analytic_value (env_analytic e))), (''protocol_version'', JStr BRIDGE_PROTOCOL)]"

text \<open>The arguments of \<open>build_envelope\<close>; those it checks may be any value.\<close>

record envelope_args =
  ar_source :: json
  ar_destination :: json
  ar_actor :: json
  ar_objective_id :: json
  ar_capability :: json
  ar_payload :: pvalue
  ar_schema :: json
  ar_authority_ref :: json
  ar_policy_ref :: json
  ar_correlation_id :: json
  ar_nature :: epistemic_nature
  ar_analytic :: analytic_status
  ar_context_refs :: "string list"
  ar_causation_id :: "string option"
  ar_evidence_refs :: "string list"
  ar_timestamp :: "string option"
  ar_ttl_seconds :: json
  ar_signature :: "string option"

text \<open>The required texts, stripped, in the order the code checks them.\<close>

definition required_texts :: "envelope_args \<Rightarrow> (string, string) dict res" where
  "required_texts a = res_map (\<lambda>(name, v). res_bind (require_nonempty name v) (\<lambda>s. Inr (name, s)))
     [(''source'', ar_source a), (''destination'', ar_destination a), (''actor'', ar_actor a),
      (''objective_id'', ar_objective_id a), (''capability'', ar_capability a), (''schema'', ar_schema a),
      (''authority_ref'', ar_authority_ref a), (''policy_ref'', ar_policy_ref a),
      (''correlation_id'', ar_correlation_id a)]"

fun positive_int :: "json \<Rightarrow> int res" where
  "positive_int (JInt i) = (if i \<le> 0 then Inl (ValueError ''ttl_seconds must be a positive integer'') else Inr i)"
| "positive_int v = Inl (ValueError ''ttl_seconds must be a positive integer'')"

definition envelope_identity ::
  "envelope_args \<Rightarrow> (string, string) dict \<Rightarrow> frozen \<Rightarrow> string \<Rightarrow> int \<Rightarrow> string \<Rightarrow> jobj" where
  "envelope_identity a required payload observed ttl expires =
     [(''protocol_version'', JStr BRIDGE_PROTOCOL)] @ map (map_prod id JStr) required @
     [(''payload'', thaw_json payload), (''context_refs'', JArr (map JStr (ar_context_refs a))),
      (''causation_id'', jopt (ar_causation_id a)), (''timestamp'', JStr observed), (''ttl_seconds'', JInt ttl),
      (''expires_at'', JStr expires), (''evidence_refs'', JArr (map JStr (ar_evidence_refs a))),
      (''epistemic_nature'', JStr (nature_value (ar_nature a))),
      (''analytic_status'', JStr (analytic_value (ar_analytic a)))]"

definition build_envelope :: "(string \<Rightarrow> parsed_time) \<Rightarrow> int \<Rightarrow> envelope_args \<Rightarrow> envelope res" where
  "build_envelope fromiso clock a =
     res_bind (required_texts a) (\<lambda>required.
     res_bind (positive_int (ar_ttl_seconds a)) (\<lambda>ttl.
     res_bind (canonicalize_timestamp fromiso clock (ar_timestamp a)) (\<lambda>(observed_time, observed_at).
     res_bind (check_instant (observed_time + ttl * 1000000)) (\<lambda>expiry.
     res_bind (freeze_json (ar_payload a)) (\<lambda>payload.
     let expires_at = utc_isoformat expiry; field = (\<lambda>name. the (map_of required name)) in
     Inr \<lparr>envelope_id = stable_hash (JObj (envelope_identity a required payload observed_at ttl expires_at)),
          env_source = field ''source'', env_destination = field ''destination'', env_actor = field ''actor'',
          env_objective_id = field ''objective_id'', env_capability = field ''capability'', env_payload = payload,
          env_schema = field ''schema'', env_context_refs = ar_context_refs a, env_authority_ref = field ''authority_ref'',
          env_policy_ref = field ''policy_ref'', env_correlation_id = field ''correlation_id'',
          env_causation_id = ar_causation_id a, env_timestamp = observed_at, env_ttl_seconds = ttl,
          env_expires_at = expires_at, env_signature = ar_signature a, env_evidence_refs = ar_evidence_refs a,
          env_nature = ar_nature a, env_analytic = ar_analytic a\<rparr>)))))"

text \<open>\<open>now\<close> is a given time (its local instant and offset, if any) or the clock.\<close>

definition assert_envelope_fresh ::
  "(string \<Rightarrow> parsed_time) \<Rightarrow> int \<Rightarrow> envelope \<Rightarrow> (int \<times> int option) option \<Rightarrow> bool res" where
  "assert_envelope_fresh fromiso clock e now =
     res_bind (case now of
         None \<Rightarrow> Inr clock
       | Some (local, None) \<Rightarrow> Inl (ValueError ''now must include a timezone'')
       | Some (local, Some offset) \<Rightarrow> check_instant (local - offset)) (\<lambda>current.
     res_bind (canonicalize_timestamp fromiso clock (Some (env_expires_at e))) (\<lambda>(expiry, written).
     res_bind (raise_if (current \<ge> expiry) (ValueError ''envelope has expired'')) (\<lambda>_. Inr True)))"

section \<open>Engineering transitions\<close>

definition CODEX_STATUS :: "(string, execution_status) dict" where
  "CODEX_STATUS = [(''open'', ES_OPEN), (''aberto'', ES_OPEN), (''running'', ES_RUNNING), (''succeeded'', ES_SUCCEEDED),
     (''closed'', ES_SUCCEEDED), (''fechado'', ES_SUCCEEDED), (''merged'', ES_SUCCEEDED), (''combinado'', ES_SUCCEEDED),
     (''failed'', ES_FAILED), (''falhou'', ES_FAILED), (''cancelled'', ES_CANCELLED), (''canceled'', ES_CANCELLED)]"

definition ENGINEERING_SEQUENCE :: "engineering_state list" where
  "ENGINEERING_SEQUENCE = [WORKSPACE, COMMIT, PUSH, PULL_REQUEST, CI, MERGE, RUNTIME]"

record evidence_item =
  it_status :: evidence_status
  it_ref :: json

definition parse_evidence_status :: "string \<Rightarrow> evidence_status option" where
  "parse_evidence_status s = (if s = ''UNKNOWN'' then Some EV_UNKNOWN else if s = ''PRESENT'' then Some EV_PRESENT
     else if s = ''FAILED'' then Some EV_FAILED else None)"

fun normalize_evidence :: "json \<Rightarrow> evidence_item res" where
  "normalize_evidence JNull = Inr \<lparr>it_status = EV_UNKNOWN, it_ref = JNull\<rparr>"
| "normalize_evidence (JObj d) =
     (let raw = upper (py_str (jget_or d ''status'' (JStr ''UNKNOWN''))) in
      case parse_evidence_status raw of
        None \<Rightarrow> Inl (ValueError (''unsupported evidence status: '' @ raw))
      | Some st \<Rightarrow> Inr \<lparr>it_status = st, it_ref = jget d ''ref''\<rparr>)"
| "normalize_evidence (JStr s) =
     (if blank s then Inl (ValueError ''evidence must be null, a non-empty reference, or a status mapping'')
      else Inr \<lparr>it_status = EV_PRESENT, it_ref = JStr s\<rparr>)"
| "normalize_evidence v = Inl (ValueError ''evidence must be null, a non-empty reference, or a status mapping'')"

definition evidence_json :: "evidence_item \<Rightarrow> json" where
  "evidence_json i = JObj [(''status'', JStr (evidence_value (it_status i))), (''ref'', it_ref i)]"

definition stage_key :: "engineering_state \<Rightarrow> string" where
  "stage_key s = lower (engineering_value s)"

text \<open>\<open>evidence or {}\<close>, refused when it has other keys; a sequence or number in its place raises.\<close>

definition unexpected_keys :: "string list \<Rightarrow> string list" where
  "unexpected_keys ks = sort (remdups (filter (\<lambda>k. k \<notin> stage_key ` set ENGINEERING_SEQUENCE) ks))"

definition refuse_unexpected :: "string list \<Rightarrow> unit res" where
  "refuse_unexpected ks = raise_if (unexpected_keys ks \<noteq> [])
     (ValueError (''unsupported engineering evidence: '' @ join '', '' (unexpected_keys ks)))"

fun string_of :: "json \<Rightarrow> string option" where
  "string_of (JStr s) = Some s"
| "string_of v = None"

definition supplied_evidence :: "json \<Rightarrow> jobj res" where
  "supplied_evidence v =
     (if \<not> truthy v then Inr []
      else (case v of
          JObj d \<Rightarrow> res_bind (refuse_unexpected (map fst d)) (\<lambda>_. Inr d)
        | JStr s \<Rightarrow> res_bind (refuse_unexpected (map (\<lambda>c. [c]) s)) (\<lambda>_. Inl (AttributeError ''get''))
        | JArr xs \<Rightarrow> if \<exists>x \<in> set xs. string_of x = None then Inl (TypeError ''evidence is no mapping'')
                    else res_bind (refuse_unexpected (map (the \<circ> string_of) xs)) (\<lambda>_. Inl (AttributeError ''get''))
        | _ \<Rightarrow> Inl (TypeError ''object is not iterable'')))"

record walk =
  wk_states :: "(string, evidence_item) dict"
  wk_highest :: "engineering_state option"
  wk_blocked :: bool

definition stage_evidence :: "jobj \<Rightarrow> engineering_state \<Rightarrow> evidence_item res" where
  "stage_evidence supplied s =
     (if s = WORKSPACE
      then normalize_evidence (jget_or supplied (stage_key s) (JObj [(''status'', JStr ''PRESENT''), (''ref'', JNull)]))
      else normalize_evidence (jget supplied (stage_key s)))"

definition advance :: "engineering_state \<Rightarrow> evidence_item \<Rightarrow> walk \<Rightarrow> walk" where
  "advance s item w =
     (let w' = w\<lparr>wk_states := dict_set (wk_states w) (stage_key s) item\<rparr> in
      if s = WORKSPACE then
        (let blocked = (it_status item \<noteq> EV_PRESENT)
         in w'\<lparr>wk_blocked := blocked, wk_highest := (if blocked then wk_highest w else Some s)\<rparr>)
      else if \<not> wk_blocked w \<and> it_status item = EV_PRESENT then w'\<lparr>wk_highest := Some s\<rparr>
      else w'\<lparr>wk_blocked := True\<rparr>)"

definition walk_stage :: "jobj \<Rightarrow> engineering_state \<Rightarrow> walk \<Rightarrow> walk res" where
  "walk_stage supplied s w = res_bind (stage_evidence supplied s) (\<lambda>item. Inr (advance s item w))"

record promotion =
  pm_highest :: "engineering_state option"
  pm_canonical :: bool
  pm_runtime :: bool
  pm_evidence :: "(string, evidence_item) dict"

definition assess_engineering_transition :: "json \<Rightarrow> promotion res" where
  "assess_engineering_transition evidence =
     res_bind (supplied_evidence evidence) (\<lambda>supplied.
     res_bind (res_fold (walk_stage supplied) ENGINEERING_SEQUENCE
       \<lparr>wk_states = [], wk_highest = None, wk_blocked = False\<rparr>) (\<lambda>w.
     Inr \<lparr>pm_highest = wk_highest w, pm_canonical = (wk_highest w \<in> {Some MERGE, Some RUNTIME}),
          pm_runtime = (wk_highest w = Some RUNTIME), pm_evidence = wk_states w\<rparr>))"

definition promotion_json :: "promotion \<Rightarrow> json" where
  "promotion_json p = JObj [
     (''highest_demonstrated_state'', jopt (map_option engineering_value (pm_highest p))),
     (''canonical_integration'', JStr (if pm_canonical p then ''DEMONSTRATED'' else ''HOLD'')),
     (''runtime_traversal'', JStr (if pm_runtime p then ''DEMONSTRATED'' else ''HOLD'')),
     (''evidence'', JObj (map (map_prod id evidence_json) (pm_evidence p)))]"

definition diff_count :: "string \<Rightarrow> jobj \<Rightarrow> jobj res" where
  "diff_count key d = (case jget_or d key (JInt 0) of
      JInt i \<Rightarrow> if i < 0 then Inl (ValueError (''diff_summary.'' @ key @ '' must be a non-negative integer''))
               else Inr (dict_set d key (JInt i))
    | _ \<Rightarrow> Inl (ValueError (''diff_summary.'' @ key @ '' must be a non-negative integer'')))"

definition normalize_codex_task :: "jobj \<Rightarrow> jobj res" where
  "normalize_codex_task task =
     res_bind (require_nonempty ''task_id'' (jget task ''task_id'')) (\<lambda>task_id.
     res_bind (require_nonempty ''repository'' (jget task ''repository'')) (\<lambda>repository.
     res_bind (require_nonempty ''status'' (jget task ''status'')) (\<lambda>status.
     res_bind (case map_of CODEX_STATUS (lower status) of
         None \<Rightarrow> Inl (ValueError (''unsupported Codex task status: '' @ status)) | Some st \<Rightarrow> Inr st) (\<lambda>st.
     res_bind (optional_sequence (jget task ''changed_files'') ''changed_files'') (\<lambda>changed_files.
     res_bind (optional_mapping (jget task ''diff_summary'') ''diff_summary'') (\<lambda>summary.
     res_bind (res_fold diff_count [''additions'', ''deletions''] summary) (\<lambda>diff.
     res_bind (assess_engineering_transition (jget task ''engineering_evidence'')) (\<lambda>promotion.
     Inr [(''bridge_event'', JStr ''engineering_transition''),
       (''source'', JObj [(''system'', JStr ''codex-cloud''), (''task_id'', JStr task_id), (''repository'', JStr repository),
          (''branch'', jget task ''branch''), (''worktree'', jget task ''worktree'')]),
       (''state'', JObj [(''task'', JStr (execution_value st)), (''additions'', jget diff ''additions''),
          (''deletions'', jget diff ''deletions''), (''objective'', jget task ''objective''),
          (''changed_files'', JArr changed_files), (''failure_reason'', jget task ''failure_reason''),
          (''started_at'', jget task ''started_at''), (''finished_at'', jget task ''finished_at'')]),
       (''destination'', JObj [(''system'', JStr ''github''),
          (''target'', jget_or task ''target'' (JStr ''canonical-repository''))]),
       (''evidence_required'', JArr (map (JStr \<circ> stage_key) (tl ENGINEERING_SEQUENCE))),
       (''promotion'', promotion_json promotion)]))))))))"

end
