(* ===== verification/Bridge_Properties.thy ===== *)
theory Bridge_Properties
  imports Bridge_Core
begin

text \<open>
  The guarantees of the bridge core: a transition is promoted no further than the stages
  before it are evidenced; a payload survives its snapshot; an envelope's id is the hash of
  what it carries, and the envelope is fresh exactly until its time to live has passed.
\<close>

section \<open>Promotion\<close>

definition stage_present :: "jobj \<Rightarrow> engineering_state \<Rightarrow> bool" where
  "stage_present supplied s \<longleftrightarrow> (\<exists>i. stage_evidence supplied s = Inr i \<and> it_status i = EV_PRESENT)"

definition demonstrated :: "jobj \<Rightarrow> engineering_state list" where
  "demonstrated supplied = takeWhile (stage_present supplied) ENGINEERING_SEQUENCE"

definition last_of :: "'a option \<Rightarrow> 'a list \<Rightarrow> 'a option" where
  "last_of x xs = (if xs = [] then x else Some (last xs))"

lemma walk_stage_Inr:
  "walk_stage supplied s w = Inr w' \<longleftrightarrow> (\<exists>i. stage_evidence supplied s = Inr i \<and> w' = advance s i w)"
  by (auto simp: walk_stage_def res_bind_eq_Inr)

lemma walk_highest:
  assumes "res_fold (walk_stage supplied) ss w = Inr w'" and "WORKSPACE \<notin> set ss"
  shows "wk_highest w' = (if wk_blocked w then wk_highest w else last_of (wk_highest w) (takeWhile (stage_present supplied) ss))"
  using assms
proof (induction ss arbitrary: w)
  case (Cons s ss)
  obtain i where i: "stage_evidence supplied s = Inr i" and rest: "res_fold (walk_stage supplied) ss (advance s i w) = Inr w'"
    using Cons.prems(1) by (auto simp: res_bind_eq_Inr walk_stage_Inr)
  have "stage_present supplied s \<longleftrightarrow> it_status i = EV_PRESENT" using i by (simp add: stage_present_def)
  with Cons.IH [OF rest] Cons.prems(2) show ?case
    by (auto simp: last_of_def advance_def Let_def)
qed (simp add: last_of_def)

lemma walk_states:
  assumes "res_fold (walk_stage supplied) ss w = Inr w'" and "distinct (map fst (wk_states w) @ map stage_key ss)"
  shows "\<exists>item. wk_states w' = wk_states w @ map (\<lambda>s. (stage_key s, item s)) ss \<and>
     (\<forall>s \<in> set ss. stage_evidence supplied s = Inr (item s))"
proof (intro exI conjI)
  let ?item = "\<lambda>s. projr (stage_evidence supplied s)"
  show "wk_states w' = wk_states w @ map (\<lambda>s. (stage_key s, ?item s)) ss" using assms
  proof (induction ss arbitrary: w)
    case (Cons s ss)
    obtain i where i: "stage_evidence supplied s = Inr i" and rest: "res_fold (walk_stage supplied) ss (advance s i w) = Inr w'"
      using Cons.prems(1) by (auto simp: res_bind_eq_Inr walk_stage_Inr)
    have "wk_states (advance s i w) = wk_states w @ [(stage_key s, i)]"
      using Cons.prems(2) by (auto simp: advance_def Let_def dict_set_new)
    then show ?case using Cons.IH [OF rest] Cons.prems(2) i by auto
  qed simp
  show "\<forall>s \<in> set ss. stage_evidence supplied s = Inr (?item s)" using assms(1)
    by (induction ss arbitrary: w) (auto simp: res_bind_eq_Inr walk_stage_Inr)
qed

lemma stage_keys:
  "stage_key WORKSPACE = ''workspace''" "stage_key COMMIT = ''commit''" "stage_key PUSH = ''push''"
  "stage_key PULL_REQUEST = ''pull_request''" "stage_key CI = ''ci''" "stage_key MERGE = ''merge''"
  "stage_key RUNTIME = ''runtime''"
  by code_simp+

lemma stage_keys_distinct: "distinct (map stage_key ENGINEERING_SEQUENCE)"
  by (simp add: ENGINEERING_SEQUENCE_def stage_keys)

lemma takeWhile_last_in: "takeWhile P xs \<noteq> [] \<Longrightarrow> P (last (takeWhile P xs))"
  using set_takeWhileD last_in_set by metis

text \<open>C33: The walk over the stages agrees with its specification: the highest demonstrated state is the last of
  the longest run of stages, from the workspace on, whose evidence is PRESENT; integration is demonstrated
  exactly when all stages up to the merge are, traversal when all seven are; and every stage is reported
  with the evidence given for it.\<close>

theorem promotion_is_prefix:
  assumes "supplied_evidence evidence = Inr supplied" and "assess_engineering_transition evidence = Inr p"
  shows "pm_highest p = last_of None (demonstrated supplied) \<and>
    (pm_canonical p \<longleftrightarrow> (\<forall>s \<in> set ENGINEERING_SEQUENCE - {RUNTIME}. stage_present supplied s)) \<and>
    (pm_runtime p \<longleftrightarrow> (\<forall>s \<in> set ENGINEERING_SEQUENCE. stage_present supplied s)) \<and>
    (\<exists>item. pm_evidence p = map (\<lambda>s. (stage_key s, item s)) ENGINEERING_SEQUENCE \<and>
       (\<forall>s \<in> set ENGINEERING_SEQUENCE. stage_evidence supplied s = Inr (item s)))"
proof -
  let ?w0 = "\<lparr>wk_states = [], wk_highest = None, wk_blocked = False\<rparr>"
  obtain w where w: "res_fold (walk_stage supplied) ENGINEERING_SEQUENCE ?w0 = Inr w"
    and p: "p = \<lparr>pm_highest = wk_highest w, pm_canonical = (wk_highest w \<in> {Some MERGE, Some RUNTIME}),
          pm_runtime = (wk_highest w = Some RUNTIME), pm_evidence = wk_states w\<rparr>"
    using assms by (auto simp: assess_engineering_transition_def res_bind_eq_Inr)
  obtain i where i: "stage_evidence supplied WORKSPACE = Inr i"
    and rest: "res_fold (walk_stage supplied) (tl ENGINEERING_SEQUENCE) (advance WORKSPACE i ?w0) = Inr w"
    using w by (auto simp: ENGINEERING_SEQUENCE_def res_bind_eq_Inr walk_stage_Inr)
  have "WORKSPACE \<notin> set (tl ENGINEERING_SEQUENCE)" by (simp add: ENGINEERING_SEQUENCE_def)
  moreover have "demonstrated supplied = (if stage_present supplied WORKSPACE
      then WORKSPACE # takeWhile (stage_present supplied) (tl ENGINEERING_SEQUENCE) else [])"
    by (simp add: demonstrated_def ENGINEERING_SEQUENCE_def)
  ultimately have "wk_highest w = last_of None (demonstrated supplied)"
    using walk_highest [OF rest] i by (simp add: advance_def Let_def stage_present_def last_of_def)
  moreover have "last_of None (demonstrated supplied) \<in> {Some MERGE, Some RUNTIME} \<longleftrightarrow>
      (\<forall>s \<in> set ENGINEERING_SEQUENCE - {RUNTIME}. stage_present supplied s)"
    "last_of None (demonstrated supplied) = Some RUNTIME \<longleftrightarrow> (\<forall>s \<in> set ENGINEERING_SEQUENCE. stage_present supplied s)"
    by (auto simp: demonstrated_def last_of_def ENGINEERING_SEQUENCE_def)
  moreover have "\<exists>item. wk_states w = map (\<lambda>s. (stage_key s, item s)) ENGINEERING_SEQUENCE \<and>
       (\<forall>s \<in> set ENGINEERING_SEQUENCE. stage_evidence supplied s = Inr (item s))"
    using walk_states [OF w] stage_keys_distinct by simp
  ultimately show ?thesis unfolding p by simp
qed

section \<open>Snapshots\<close>

text \<open>A JSON value as the Python value a caller passes.\<close>

primrec of_json :: "json \<Rightarrow> pvalue" where
  "of_json JNull = PVNull"
| "of_json (JBool b) = PVBool b"
| "of_json (JInt i) = PVInt i"
| "of_json (JFloat t) = PVFloat t"
| "of_json (JStr s) = PVStr s"
| "of_json (JArr xs) = PVList (map of_json xs)"
| "of_json (JObj kvs) = PVMap (map (\<lambda>p. (PVStr (fst p), snd p)) (map (map_prod id of_json) kvs))"

lemma freeze_items_map: "(\<And>x. x \<in> set xs \<Longrightarrow> freeze_json (f x) = Inr (g x)) \<Longrightarrow> freeze_items (map f xs) = Inr (map g xs)"
  by (induction xs) simp_all

text \<open>The snapshot of a value, and its reading.\<close>

primrec frozen_json :: "json \<Rightarrow> frozen" where
  "frozen_json JNull = FNull"
| "frozen_json (JBool b) = FBool b"
| "frozen_json (JInt i) = FInt i"
| "frozen_json (JFloat t) = FFloat t"
| "frozen_json (JStr s) = FStr s"
| "frozen_json (JArr xs) = FTuple (map frozen_json xs)"
| "frozen_json (JObj kvs) = FMap (map (map_prod id frozen_json) kvs)"

lemma freeze_entries_map: "(\<And>k x. (k, x) \<in> set kvs \<Longrightarrow> freeze_json (f x) = Inr (g x)) \<Longrightarrow>
    freeze_entries (map (\<lambda>p. (PVStr (fst p), snd p)) (map (map_prod id f) kvs)) = Inr (map (map_prod id g) kvs)"
proof (induction kvs)
  case (Cons p kvs)
  have "freeze_json (f (snd p)) = Inr (g (snd p))" using Cons.prems [of "fst p" "snd p"] by simp
  moreover have "freeze_entries (map (\<lambda>p. (PVStr (fst p), snd p)) (map (map_prod id f) kvs)) = Inr (map (map_prod id g) kvs)"
  proof (rule Cons.IH)
    fix k x
    assume "(k, x) \<in> set kvs"
    then show "freeze_json (f x) = Inr (g x)" using Cons.prems [of k x] by simp
  qed
  ultimately show ?case by (cases p) (simp add: id_def del: map_map)
qed simp

lemma freeze_of_json: "freeze_json (of_json v) = Inr (frozen_json v)"
proof (induction v)
  case (JArr xs)
  then show ?case by (simp add: freeze_items_map)
next
  case (JObj kvs)
  then have "freeze_json (of_json x) = Inr (frozen_json x)" if "(k, x) \<in> set kvs" for k x
    using that by (metis snds.intros snd_conv)
  then show ?case by (simp add: freeze_entries_map del: map_map)
qed simp_all

lemma thaw_frozen: "thaw_json (frozen_json v) = v"
proof (induction v)
  case (JArr xs)
  then show ?case by (simp add: map_idI)
next
  case (JObj kvs)
  then have "thaw_json (frozen_json x) = x" if "(k, x) \<in> set kvs" for k x
    using that by (metis snds.intros snd_conv)
  then show ?case by (force intro: map_idI simp: map_prod_def)
qed simp_all

text \<open>Every JSON value can be frozen, and thawing the snapshot gives it back.\<close>

theorem freeze_thaw: "\<exists>f. freeze_json (of_json v) = Inr f \<and> thaw_json f = v"
  using freeze_of_json thaw_frozen by blast

section \<open>Envelopes\<close>

text \<open>The nine required texts, as checked and stripped.\<close>

lemma required_texts_Inr:
  assumes "required_texts a = Inr required"
  obtains src dst act obj cap sch aut pol cor where "required =
    [(''source'', src), (''destination'', dst), (''actor'', act), (''objective_id'', obj), (''capability'', cap),
     (''schema'', sch), (''authority_ref'', aut), (''policy_ref'', pol), (''correlation_id'', cor)]"
  using assms by (auto simp: required_texts_def res_bind_eq_Inr)

lemma build_envelope_Inr:
  assumes "build_envelope fromiso clock a = Inr e"
  obtains required ttl t payload where "required_texts a = Inr required" and "ar_ttl_seconds a = JInt ttl" and "0 < ttl"
    and "canonicalize_timestamp fromiso clock (ar_timestamp a) = Inr (t, env_timestamp e)"
    and "check_instant (t + ttl * 1000000) = Inr (t + ttl * 1000000)" and "freeze_json (ar_payload a) = Inr payload"
    and "env_expires_at e = utc_isoformat (t + ttl * 1000000)"
    and "e = \<lparr>envelope_id = stable_hash (JObj (envelope_identity a required payload (env_timestamp e) ttl (env_expires_at e))),
          env_source = the (map_of required ''source''), env_destination = the (map_of required ''destination''),
          env_actor = the (map_of required ''actor''), env_objective_id = the (map_of required ''objective_id''),
          env_capability = the (map_of required ''capability''), env_payload = payload,
          env_schema = the (map_of required ''schema''), env_context_refs = ar_context_refs a,
          env_authority_ref = the (map_of required ''authority_ref''), env_policy_ref = the (map_of required ''policy_ref''),
          env_correlation_id = the (map_of required ''correlation_id''),
          env_causation_id = ar_causation_id a, env_timestamp = env_timestamp e, env_ttl_seconds = ttl,
          env_expires_at = env_expires_at e, env_signature = ar_signature a, env_evidence_refs = ar_evidence_refs a,
          env_nature = ar_nature a, env_analytic = ar_analytic a\<rparr>"
proof -
  have ttl: "positive_int v = Inr i \<longleftrightarrow> v = JInt i \<and> 0 < i" for v i by (cases v) auto
  have inst: "check_instant x = Inr y \<longleftrightarrow> check_instant x = Inr x \<and> y = x" for x y by (auto simp: check_instant_def)
  obtain required i t ts x payload where r: "required_texts a = Inr required" "positive_int (ar_ttl_seconds a) = Inr i"
    "canonicalize_timestamp fromiso clock (ar_timestamp a) = Inr (t, ts)" "check_instant (t + i * 1000000) = Inr x"
    "freeze_json (ar_payload a) = Inr payload"
    using assms unfolding build_envelope_def by (auto simp: res_bind_eq_Inr)
  have x: "x = t + i * 1000000" "check_instant (t + i * 1000000) = Inr (t + i * 1000000)" using r(4) inst by blast+
  show ?thesis
    by (rule that [of required i t payload]) (use assms r x ttl in \<open>auto simp: build_envelope_def Let_def\<close>)
qed

text \<open>Whoever holds an envelope can recompute its id: it covers everything but itself and the signature.\<close>

definition identified_part :: "envelope \<Rightarrow> jobj" where
  "identified_part e = filter (\<lambda>p. fst p \<notin> {''envelope_id'', ''signature''}) (envelope_dict e)"

text \<open>An envelope's id is the stable hash of the envelope's own dictionary without the id and the signature, so
  a holder can recompute it, and a change of any other field changes the text that is hashed.\<close>

theorem envelope_id_covers:
  assumes "build_envelope fromiso clock a = Inr e"
  shows "envelope_id e = stable_hash (JObj (identified_part e))"
proof -
  obtain required ttl payload where r: "required_texts a = Inr required" and
    e: "e = \<lparr>envelope_id = stable_hash (JObj (envelope_identity a required payload (env_timestamp e) ttl (env_expires_at e))),
          env_source = the (map_of required ''source''), env_destination = the (map_of required ''destination''),
          env_actor = the (map_of required ''actor''), env_objective_id = the (map_of required ''objective_id''),
          env_capability = the (map_of required ''capability''), env_payload = payload,
          env_schema = the (map_of required ''schema''), env_context_refs = ar_context_refs a,
          env_authority_ref = the (map_of required ''authority_ref''), env_policy_ref = the (map_of required ''policy_ref''),
          env_correlation_id = the (map_of required ''correlation_id''),
          env_causation_id = ar_causation_id a, env_timestamp = env_timestamp e, env_ttl_seconds = ttl,
          env_expires_at = env_expires_at e, env_signature = ar_signature a, env_evidence_refs = ar_evidence_refs a,
          env_nature = ar_nature a, env_analytic = ar_analytic a\<rparr>"
    using build_envelope_Inr [OF assms] by metis
  obtain src dst act obj cap sch aut pol cor where req: "required =
    [(''source'', src), (''destination'', dst), (''actor'', act), (''objective_id'', obj), (''capability'', cap),
     (''schema'', sch), (''authority_ref'', aut), (''policy_ref'', pol), (''correlation_id'', cor)]"
    by (rule required_texts_Inr [OF r])
  define ts ex where "ts = env_timestamp e" and "ex = env_expires_at e"
  note e' = e [folded ts_def ex_def, unfolded req]
  have "canonical_json (JObj (envelope_identity a required payload ts ttl ex)) = canonical_json (JObj (identified_part e))"
    unfolding e' by (rule canonical_json_reorder) (simp_all add: envelope_identity_def identified_part_def envelope_dict_def req insert_commute)
  then show ?thesis using arg_cong [OF e', of envelope_id] by (simp add: stable_hash_def req)
qed

section \<open>Freshness\<close>

lemma strip_unchanged:
  assumes "s \<noteq> ''''" and "\<not> is_space (hd s)" and "\<not> is_space (last s)"
  shows "strip s = s"
proof -
  have "dropWhile is_space s = s" using assms by (cases s) auto
  moreover have "dropWhile is_space (rev s) = rev s" using assms by (cases s rule: rev_cases) auto
  ultimately show ?thesis by (simp add: strip_def)
qed

lemma digit_not_space: "d < 10 \<Longrightarrow> \<not> is_space (digit_char d)"
  unfolding less_eq_Suc_le [symmetric] by (auto simp: digit_char_def is_space_def nth_Cons' split: if_splits)

lemma isoformat_ends:
  "\<exists>s. utc_isoformat t = s @ ''+00:00''" "\<exists>d s. d < 10 \<and> utc_isoformat t = digit_char d # s"
proof -
  obtain y m d where ymd: "civil_date (nat t div 1000000 div 86400) = (y, m, d)" by (metis prod_cases3)
  show "\<exists>s. utc_isoformat t = s @ ''+00:00''" by (simp add: utc_isoformat_def Let_def ymd)
  have four: "padded 4 y = digit_char (y div 1000 mod 10) # padded 3 y"
    by (simp add: div_mult2_eq [symmetric])
  have "y div 1000 mod 10 < 10" by simp
  then show "\<exists>d s. d < 10 \<and> utc_isoformat t = digit_char d # s"
    unfolding utc_isoformat_def Let_def ymd prod.case four by fastforce
qed

lemma isoformat_stripped: "require_nonempty name (JStr (utc_isoformat t)) = Inr (utc_isoformat t)" "last (utc_isoformat t) = CHR ''0''"
proof -
  obtain s where s: "utc_isoformat t = s @ ''+00:00''" using isoformat_ends by blast
  obtain d r where d: "d < 10" "utc_isoformat t = digit_char d # r" using isoformat_ends by blast
  show "last (utc_isoformat t) = CHR ''0''" unfolding s by simp
  then have "strip (utc_isoformat t) = utc_isoformat t"
    using d digit_not_space by (intro strip_unchanged) (simp_all add: is_space_def)
  then show "require_nonempty name (JStr (utc_isoformat t)) = Inr (utc_isoformat t)"
    using d(2) by (simp add: require_nonempty_def blank_def)
qed

lemma canonical_expiry:
  assumes "fromiso (utc_isoformat t) = Some (t, Some 0)" and "check_instant t = Inr t"
  shows "canonicalize_timestamp fromiso clock (Some (utc_isoformat t)) = Inr (t, utc_isoformat t)"
  by (simp add: canonicalize_timestamp_def isoformat_stripped assms)

text \<open>The instant at which freshness is judged.\<close>

definition judged_at :: "int \<Rightarrow> (int \<times> int option) option \<Rightarrow> int res" where
  "judged_at clock now = (case now of None \<Rightarrow> Inr clock
     | Some (local, None) \<Rightarrow> Inl (ValueError ''now must include a timezone'')
     | Some (local, Some offset) \<Rightarrow> check_instant (local - offset))"

text \<open>C0: An envelope built at \<open>t\<close> with a time to live of \<open>ttl\<close> seconds is accepted at an instant of a time zone
  exactly when that instant is before \<open>t + ttl\<close>, and refused with the code's error from then on; a time
  without a zone is always refused. The parser is assumed to read back the one text the envelope holds.\<close>

theorem envelope_fresh_until:
  assumes "build_envelope fromiso clock a = Inr e" and "ar_ttl_seconds a = JInt ttl"
    and "canonicalize_timestamp fromiso clock (ar_timestamp a) = Inr (t, w)"
    and "fromiso (utc_isoformat (t + ttl * 1000000)) = Some (t + ttl * 1000000, Some 0)"
  shows "assert_envelope_fresh fromiso clock' e now = (case judged_at clock' now of
      Inl err \<Rightarrow> Inl err
    | Inr current \<Rightarrow> if current < t + ttl * 1000000 then Inr True else Inl (ValueError ''envelope has expired''))"
proof -
  have e: "env_expires_at e = utc_isoformat (t + ttl * 1000000)" "check_instant (t + ttl * 1000000) = Inr (t + ttl * 1000000)"
    by (rule build_envelope_Inr [OF assms(1)]; use assms(2,3) in simp)+
  have "canonicalize_timestamp fromiso clock' (Some (env_expires_at e)) = Inr (t + ttl * 1000000, env_expires_at e)"
    unfolding e(1) by (rule canonical_expiry) (rule assms(4), rule e(2))
  then show ?thesis
    unfolding assert_envelope_fresh_def judged_at_def [symmetric]
    by (cases "judged_at clock' now") (simp_all add: raise_if_def)
qed

section \<open>Samples\<close>

definition sample_args :: envelope_args where
  "sample_args = \<lparr>ar_source = JStr '' gpt '', ar_destination = JStr ''bridge'', ar_actor = JStr ''ana'', ar_objective_id = JStr ''o1'',
     ar_capability = JStr ''read'', ar_payload = PVMap [(PVStr ''xs'', PVTuple [PVInt 1, PVNull])], ar_schema = JStr ''s1'',
     ar_authority_ref = JStr ''a1'', ar_policy_ref = JStr ''p1'', ar_correlation_id = JStr ''c1'', ar_nature = EN_MODEL,
     ar_analytic = AS_HOLD, ar_context_refs = [''k''], ar_causation_id = None, ar_evidence_refs = [], ar_timestamp = None,
     ar_ttl_seconds = JInt 60, ar_signature = None\<rparr>"

lemma sample_envelope: obtains e where "build_envelope (\<lambda>s. Some (1060000000, Some 0)) 1000000000 sample_args = Inr e"
proof -
  have "\<exists>e. build_envelope (\<lambda>s. Some (1060000000, Some 0)) 1000000000 sample_args = Inr e"
    by (simp add: build_envelope_def sample_args_def required_texts_def require_nonempty_def blank_def strip_def is_space_def
        canonicalize_timestamp_def check_instant_def MAX_INSTANT_def Let_def)
  then show ?thesis using that by blast
qed

theorem envelope_id_covers_witness:
  "\<exists>e. build_envelope (\<lambda>s. Some (1060000000, Some 0)) 1000000000 sample_args = Inr e \<and>
    envelope_id e = stable_hash (JObj (identified_part e))"
proof -
  obtain e where e: "build_envelope (\<lambda>s. Some (1060000000, Some 0)) 1000000000 sample_args = Inr e" by (rule sample_envelope)
  show ?thesis using envelope_id_covers [OF e] e by blast
qed

theorem envelope_fresh_until_witness:
  "\<exists>e. build_envelope (\<lambda>s. Some (1060000000, Some 0)) 1000000000 sample_args = Inr e \<and>
    assert_envelope_fresh (\<lambda>s. Some (1060000000, Some 0)) 1059999999 e None = Inr True \<and>
    assert_envelope_fresh (\<lambda>s. Some (1060000000, Some 0)) 1060000000 e None = Inl (ValueError ''envelope has expired'')"
proof -
  obtain e where e: "build_envelope (\<lambda>s. Some (1060000000, Some 0)) 1000000000 sample_args = Inr e" by (rule sample_envelope)
  have ttl: "ar_ttl_seconds sample_args = JInt 60" by (simp add: sample_args_def)
  have c: "canonicalize_timestamp (\<lambda>s. Some (1060000000, Some 0)) 1000000000 (ar_timestamp sample_args) =
      Inr (1000000000, utc_isoformat 1000000000)"
    by (simp add: sample_args_def canonicalize_timestamp_def)
  have fresh: "assert_envelope_fresh (\<lambda>s. Some (1060000000, Some 0)) clock' e None =
      (if clock' < 1060000000 then Inr True else Inl (ValueError ''envelope has expired''))" for clock'
    using envelope_fresh_until [OF e ttl c, of clock' None] by (simp add: judged_at_def)
  show ?thesis using e fresh by simp
qed

text \<open>A merge without continuous integration demonstrates nothing beyond the pull request.\<close>

definition sample_transition :: jobj where
  "sample_transition = [(''commit'', JStr ''abc''), (''push'', JStr ''abc''), (''pull_request'', JStr ''7''), (''merge'', JStr ''def'')]"

theorem promotion_is_prefix_witness:
  "\<exists>p. assess_engineering_transition (JObj sample_transition) = Inr p \<and> pm_highest p = Some PULL_REQUEST \<and> \<not> pm_canonical p"
proof -
  note keys = stage_keys ENGINEERING_SEQUENCE_def
  have s: "supplied_evidence (JObj sample_transition) = Inr sample_transition"
    by (simp add: supplied_evidence_def refuse_unexpected_def unexpected_keys_def sample_transition_def keys)
  have stage: "stage_evidence sample_transition s = Inr (if s \<in> {WORKSPACE, CI, RUNTIME}
      then \<lparr>it_status = (if s = WORKSPACE then EV_PRESENT else EV_UNKNOWN), it_ref = JNull\<rparr>
      else \<lparr>it_status = EV_PRESENT, it_ref = jget sample_transition (stage_key s)\<rparr>)" for s
    by (cases s) (simp_all add: stage_evidence_def sample_transition_def keys jget_def blank_def strip_def is_space_def
        upper_def upper_char_def py_str_def parse_evidence_status_def)
  have "\<exists>p. assess_engineering_transition (JObj sample_transition) = Inr p"
    by (simp add: assess_engineering_transition_def s ENGINEERING_SEQUENCE_def walk_stage_def stage)
  then obtain p where p: "assess_engineering_transition (JObj sample_transition) = Inr p" by blast
  have d: "demonstrated sample_transition = [WORKSPACE, COMMIT, PUSH, PULL_REQUEST]"
    by (simp add: demonstrated_def ENGINEERING_SEQUENCE_def stage_present_def stage)
  have "\<not> stage_present sample_transition CI" by (simp add: stage_present_def stage)
  moreover have "CI \<in> set ENGINEERING_SEQUENCE - {RUNTIME}" by (simp add: ENGINEERING_SEQUENCE_def)
  ultimately show ?thesis using promotion_is_prefix [OF s p] p d by (auto simp: last_of_def)
qed

end
