(* ===== verification/Runtime_Binding.thy ===== *)
theory Runtime_Binding
  imports Python_Text Core
begin

text \<open>
  \<open>app/runtime_binding.py\<close>: turning a runtime discovery report into an execution binding.
  Reports and bindings are JSON objects. The theorem: a binding passes exactly when the report
  is intact, its selector passed, and the selected runtime, the pinned model and the container
  asked for are available in it; every other report yields a HOLD or raises.
\<close>

definition BINDING_PROTOCOL :: string where "BINDING_PROTOCOL = ''matverse.runtime-binding.v1''"
definition DISCOVERY_PROTOCOL :: string where "DISCOVERY_PROTOCOL = ''matverse.runtime-discovery.v1''"

fun has_runtime_id :: "string \<Rightarrow> json \<Rightarrow> bool" where
  "has_runtime_id rid (JObj item) = (jget item ''runtime_id'' = JStr rid)"
| "has_runtime_id rid v = False"

definition runtime :: "jobj \<Rightarrow> string \<Rightarrow> jobj option res" where
  "runtime report rid =
     res_bind (py_iter (jget_or report ''capabilities'' (JArr []))) (\<lambda>items.
     Inr (case find (has_runtime_id rid) items of Some (JObj item) \<Rightarrow> Some item | _ \<Rightarrow> None))"

definition without :: "string \<Rightarrow> jobj \<Rightarrow> jobj" where
  "without k d = filter (\<lambda>p. fst p \<noteq> k) d"

definition validate_discovery_report :: "jobj \<Rightarrow> bool \<times> string" where
  "validate_discovery_report report =
     (if jget report ''protocol_version'' \<noteq> JStr DISCOVERY_PROTOCOL then (False, ''unsupported_discovery_protocol'')
      else (case jget report ''report_hash'' of
          JStr supplied \<Rightarrow>
            if supplied = '''' then (False, ''discovery_report_hash_missing'')
            else if stable_hash (JObj (without ''report_hash'' report)) \<noteq> supplied then (False, ''discovery_report_hash_mismatch'')
            else (True, ''ok'')
        | _ \<Rightarrow> (False, ''discovery_report_hash_missing'')))"

text \<open>A HOLD with its reason, the entries between the reason and the report's hash, and that hash.\<close>

definition hold :: "jobj \<Rightarrow> string \<Rightarrow> jobj \<Rightarrow> jobj" where
  "hold report reason entries =
     [(''protocol_version'', JStr BINDING_PROTOCOL), (''decision'', JStr ''HOLD''), (''reason'', JStr reason)] @ entries @
     [(''discovery_report_hash'', jget report ''report_hash'')]"

text \<open>The model: nothing asked for, a HOLD, or the name, digest and size.\<close>

fun has_name :: "string \<Rightarrow> json \<Rightarrow> bool" where
  "has_name name (JObj m) = (jget m ''name'' = JStr name)"
| "has_name name v = False"

fun observed_name :: "json \<Rightarrow> string list" where
  "observed_name (JObj m) = (case jget m ''name'' of JStr s \<Rightarrow> [s] | _ \<Rightarrow> [])"
| "observed_name v = []"

definition models_of :: "jobj \<Rightarrow> json list" where
  "models_of r = (case jget r ''models'' of JArr ms \<Rightarrow> ms | _ \<Rightarrow> [])"

definition digest_of :: "jobj \<Rightarrow> string option" where
  "digest_of m = (case jget m ''digest'' of JStr s \<Rightarrow> if blank s then None else Some (strip s) | _ \<Rightarrow> None)"

definition select_model :: "jobj \<Rightarrow> string \<Rightarrow> jobj \<Rightarrow> string option \<Rightarrow> jobj + json" where
  "select_model report rid r required = (case required of
      None \<Rightarrow> Inr JNull
    | Some name \<Rightarrow> (case find (has_name name) (models_of r) of
          Some (JObj m) \<Rightarrow> (case digest_of m of
              None \<Rightarrow> Inl (hold report ''required_model_immutable_identity_missing''
                       [(''runtime_id'', JStr rid), (''required_model'', JStr name)])
            | Some digest \<Rightarrow> Inr (JObj [(''name'', JStr name), (''digest'', JStr digest), (''size'', jget m ''size'')]))
        | _ \<Rightarrow> Inl (hold report ''required_model_not_observed''
                 [(''runtime_id'', JStr rid), (''required_model'', JStr name),
                  (''observed_models'', JArr (map JStr (sort (concat (map observed_name (models_of r))))))])))"

text \<open>The container runtime: the first of \<open>podman\<close> and \<open>docker\<close> that is available.\<close>

fun find_container :: "jobj \<Rightarrow> string list \<Rightarrow> json option res" where
  "find_container report [] = Inr None"
| "find_container report (c # cs) =
     res_bind (runtime report c) (\<lambda>found. case found of
       Some item \<Rightarrow>
         if jget item ''state'' = JStr ''AVAILABLE''
         then Inr (Some (JObj [(''runtime_id'', JStr c), (''version'', jget item ''version''), (''executable'', jget item ''executable'')]))
         else find_container report cs
     | None \<Rightarrow> find_container report cs)"

definition binding_body :: "jobj \<Rightarrow> string \<Rightarrow> jobj \<Rightarrow> json \<Rightarrow> json \<Rightarrow> string option \<Rightarrow> bool \<Rightarrow> jobj" where
  "binding_body report rid r model container required_model require_container =
     [(''protocol_version'', JStr BINDING_PROTOCOL), (''decision'', JStr ''PASS''),
      (''discovery_report_hash'', jget report ''report_hash''),
      (''runtime'', JObj [(''runtime_id'', JStr rid), (''version'', jget r ''version''), (''executable'', jget r ''executable''),
         (''endpoint'', jget r ''endpoint''), (''upstream_repo'', jget r ''upstream_repo'')]),
      (''model'', model), (''container'', container),
      (''requirements'', JObj [(''required_model'', jopt required_model), (''require_container'', JBool require_container)])]"

definition bind_runtime :: "jobj \<Rightarrow> string \<Rightarrow> jobj \<Rightarrow> string option \<Rightarrow> bool \<Rightarrow> jobj res" where
  "bind_runtime report rid r required_model require_container =
     (case select_model report rid r required_model of
        Inl held \<Rightarrow> Inr held
      | Inr model \<Rightarrow>
          res_bind (if require_container then find_container report [''podman'', ''docker''] else Inr (Some JNull)) (\<lambda>found.
          case found of
            None \<Rightarrow> Inr (hold report ''container_runtime_required_but_absent'' [(''runtime_id'', JStr rid)])
          | Some container \<Rightarrow>
              (let body = binding_body report rid r model container required_model require_container
               in Inr (body @ [(''binding_hash'', JStr (stable_hash (JObj body)))]))))"

definition build_execution_binding :: "jobj \<Rightarrow> string option \<Rightarrow> bool \<Rightarrow> jobj res" where
  "build_execution_binding report required_model require_container =
     (let (valid, why) = validate_discovery_report report in
      if \<not> valid then Inr (hold report why [])
      else (case jget report ''selector'' of
          JObj selector \<Rightarrow>
            if jget selector ''decision'' \<noteq> JStr ''PASS'' then Inr (hold report ''runtime_discovery_not_ready'' [])
            else (case jget selector ''runtime_id'' of
                JStr rid \<Rightarrow> res_bind (runtime report rid) (\<lambda>found. case found of
                    Some r \<Rightarrow>
                      if jget r ''state'' \<noteq> JStr ''AVAILABLE''
                      then Inr (hold report ''selected_runtime_not_available'' [(''runtime_id'', JStr rid)])
                      else bind_runtime report rid r required_model require_container
                  | None \<Rightarrow> Inr (hold report ''selected_runtime_not_available'' [(''runtime_id'', JStr rid)]))
              | _ \<Rightarrow> Inr (hold report ''selected_runtime_identity_missing'' []))
        | _ \<Rightarrow> Inr (hold report ''runtime_discovery_not_ready'' [])))"

section \<open>When a binding passes\<close>

definition intact_report :: "jobj \<Rightarrow> bool" where
  "intact_report report \<longleftrightarrow> jget report ''protocol_version'' = JStr DISCOVERY_PROTOCOL \<and>
     jget report ''report_hash'' = JStr (stable_hash (JObj (without ''report_hash'' report)))"

definition available :: "jobj \<Rightarrow> string \<Rightarrow> jobj \<Rightarrow> bool" where
  "available report rid r \<longleftrightarrow> runtime report rid = Inr (Some r) \<and> jget r ''state'' = JStr ''AVAILABLE''"

text \<open>The first model listed under the name has an identity.\<close>

definition pinned :: "jobj \<Rightarrow> string \<Rightarrow> string \<Rightarrow> bool" where
  "pinned r name digest \<longleftrightarrow> (\<exists>m. find (has_name name) (models_of r) = Some (JObj m) \<and> digest_of m = Some digest)"

definition bindable :: "jobj \<Rightarrow> string option \<Rightarrow> bool \<Rightarrow> string \<Rightarrow> jobj \<Rightarrow> bool" where
  "bindable report required_model require_container rid r \<longleftrightarrow> intact_report report \<and>
     (\<exists>selector. jget report ''selector'' = JObj selector \<and> jget selector ''decision'' = JStr ''PASS'' \<and>
        jget selector ''runtime_id'' = JStr rid) \<and>
     available report rid r \<and> (\<forall>name. required_model = Some name \<longrightarrow> (\<exists>digest. pinned r name digest)) \<and>
     (require_container \<longrightarrow> (\<exists>c item. c \<in> {''podman'', ''docker''} \<and> available report c item))"

lemma stable_hash_not_empty: "stable_hash v \<noteq> ''''"
proof
  assume "stable_hash v = ''''"
  then have "hex_lower_n 64 ''''" using stable_hash_hex [of v] by metis
  then show False by (simp add: hex_lower_n_def)
qed

lemma validate_report_intact: "fst (validate_discovery_report report) \<longleftrightarrow> intact_report report"
  by (auto simp: validate_discovery_report_def intact_report_def stable_hash_not_empty split: json.split)

lemma hold_decision [simp]: "jget (hold report reason entries) ''decision'' = JStr ''HOLD''"
  by (simp add: hold_def jget_def)

lemma runtime_items: "runtime report rid = Inr (Some r) \<Longrightarrow> \<exists>items. py_iter (jget_or report ''capabilities'' (JArr [])) = Inr items"
  by (auto simp: runtime_def res_bind_eq_Inr)

lemma runtime_found:
  assumes "runtime report rid = Inr (Some r)"
  shows "\<exists>found. runtime report c = Inr found"
  using runtime_items [OF assms] by (auto simp: runtime_def)

lemma container_found:
  assumes "runtime report rid = Inr (Some r)"
  shows "(\<exists>v. find_container report cs = Inr (Some v)) \<longleftrightarrow> (\<exists>c item. c \<in> set cs \<and> available report c item)"
proof (induction cs)
  case (Cons c cs)
  obtain found where "runtime report c = Inr found" using runtime_found [OF assms] by blast
  then show ?case using Cons by (cases found) (auto simp: available_def)
qed simp

lemma containers_return:
  assumes "runtime report rid = Inr (Some r)"
  shows "\<exists>v. find_container report cs = Inr v"
proof (induction cs)
  case (Cons c cs)
  obtain found where "runtime report c = Inr found" using runtime_found [OF assms] by blast
  then show ?case using Cons by (auto split: option.split)
qed simp

text \<open>What is computed from the selected runtime on.\<close>

lemma pinned_digest: "(\<exists>digest. pinned r name digest) \<longleftrightarrow> (\<exists>model. select_model report rid r (Some name) = Inr model)"
  unfolding pinned_def select_model_def by (auto split: option.splits json.splits)

lemma select_model_held: "select_model report rid r required = Inl held \<Longrightarrow> jget held ''decision'' = JStr ''HOLD''"
  unfolding select_model_def by (auto split: option.splits json.splits)

lemma binding_body_decision: "jget (binding_body report rid r model container q c @ xs) ''decision'' = JStr ''PASS''"
  by (simp add: binding_body_def jget_def)

lemma bind_runtime_passes:
  assumes "runtime report rid = Inr (Some r)"
  shows "(\<exists>b. bind_runtime report rid r required c = Inr b \<and> jget b ''decision'' = JStr ''PASS'') \<longleftrightarrow>
    (\<forall>name. required = Some name \<longrightarrow> (\<exists>digest. pinned r name digest)) \<and>
    (c \<longrightarrow> (\<exists>k item. k \<in> {''podman'', ''docker''} \<and> available report k item))"
proof (cases "select_model report rid r required")
  case (Inl held)
  then have "\<not> (\<forall>name. required = Some name \<longrightarrow> (\<exists>digest. pinned r name digest))"
    using pinned_digest [of r _ report rid] by (cases required) (auto simp: select_model_def)
  moreover have "jget held ''decision'' \<noteq> JStr ''PASS''" using select_model_held [OF Inl] by simp
  ultimately show ?thesis using Inl by (simp add: bind_runtime_def)
next
  case (Inr model)
  then have m: "\<forall>name. required = Some name \<longrightarrow> (\<exists>digest. pinned r name digest)" using pinned_digest by blast
  obtain v where v: "find_container report [''podman'', ''docker''] = Inr v" using containers_return [OF assms] by blast
  have "(v \<noteq> None) \<longleftrightarrow> (\<exists>k item. k \<in> {''podman'', ''docker''} \<and> available report k item)"
    using container_found [OF assms, of "[''podman'', ''docker'']"] v by auto
  then show ?thesis using Inr m v
    by (cases c; cases v) (simp_all add: bind_runtime_def Let_def binding_body_decision)
qed

text \<open>The cases of the call before the runtime is chosen.\<close>

lemma build_cases:
  "(\<exists>b. build_execution_binding report required c = Inr b \<and> jget b ''decision'' = JStr ''PASS'') \<longleftrightarrow>
   intact_report report \<and> (\<exists>rid r selector. jget report ''selector'' = JObj selector \<and> jget selector ''decision'' = JStr ''PASS'' \<and>
     jget selector ''runtime_id'' = JStr rid \<and> available report rid r \<and>
     (\<exists>b. bind_runtime report rid r required c = Inr b \<and> jget b ''decision'' = JStr ''PASS''))"
proof (cases "validate_discovery_report report")
  case (Pair valid why)
  then have "valid \<longleftrightarrow> intact_report report" using validate_report_intact [of report] by simp
  then show ?thesis using Pair
    by (auto simp: build_execution_binding_def available_def res_bind_eq_Inr split: json.splits option.splits if_splits)
qed

text \<open>A binding passes exactly when the discovery report has the hash of its own content, its selector
  passed and names a runtime that the report lists first under that id as available, the model asked for,
  if any, is listed first under its name with a digest, and a container runtime asked for is available.\<close>

theorem binding_passes:
  "(\<exists>b. build_execution_binding report required_model require_container = Inr b \<and> jget b ''decision'' = JStr ''PASS'') \<longleftrightarrow>
   (\<exists>rid r. bindable report required_model require_container rid r)"
proof -
  define bound where "bound rid r \<longleftrightarrow>
    (\<exists>b. bind_runtime report rid r required_model require_container = Inr b \<and> jget b ''decision'' = JStr ''PASS'')" for rid r
  define model where "model r \<longleftrightarrow> (\<forall>name. required_model = Some name \<longrightarrow> (\<exists>digest. pinned r name digest))" for r
  define container where "container \<longleftrightarrow>
    (require_container \<longrightarrow> (\<exists>k item. k \<in> {''podman'', ''docker''} \<and> available report k item))"
  have "bound rid r \<longleftrightarrow> model r \<and> container" if "available report rid r" for rid r
    unfolding bound_def model_def container_def
    using that by (intro bind_runtime_passes) (simp add: available_def)
  then show ?thesis
    unfolding build_cases bindable_def bound_def [symmetric] model_def [symmetric] container_def [symmetric] by blast
qed

lemma bind_runtime_body:
  assumes "bind_runtime report rid r required c = Inr b" and "jget b ''decision'' = JStr ''PASS''"
  obtains model container body where "select_model report rid r required = Inr model"
    and "body = binding_body report rid r model container required c"
    and "b = body @ [(''binding_hash'', JStr (stable_hash (JObj body)))]"
proof (cases "select_model report rid r required")
  case (Inl held)
  then show ?thesis using assms select_model_held [OF Inl] by (simp add: bind_runtime_def)
next
  case (Inr model)
  then show ?thesis using assms that by (auto simp: bind_runtime_def Let_def res_bind_eq_Inr split: option.splits)
qed

lemma without_binding_hash:
  "without ''binding_hash'' (binding_body report rid r model container q c @ [(''binding_hash'', h)]) =
     binding_body report rid r model container q c"
  by (simp add: without_def binding_body_def)

lemma select_model_pinned:
  assumes "select_model report rid r (Some name) = Inr model"
  obtains digest m where "pinned r name digest" "model = JObj m" "jget m ''name'' = JStr name" "jget m ''digest'' = JStr digest"
  using assms unfolding select_model_def by (auto simp: pinned_def jget_def split: option.splits json.splits)

text \<open>A passing binding names the report by its hash, the selected runtime and the digest of the model, and its
  own hash is that of the rest of it, so that a change of any part shows.\<close>

theorem binding_sealed:
  assumes "build_execution_binding report required_model require_container = Inr b" and "jget b ''decision'' = JStr ''PASS''"
  shows "jget b ''binding_hash'' = JStr (stable_hash (JObj (without ''binding_hash'' b))) \<and>
    jget b ''discovery_report_hash'' = JStr (stable_hash (JObj (without ''report_hash'' report))) \<and>
    (\<exists>rid r selector bound. jget report ''selector'' = JObj selector \<and> jget selector ''runtime_id'' = JStr rid \<and>
       available report rid r \<and> jget b ''runtime'' = JObj bound \<and> jget bound ''runtime_id'' = JStr rid \<and>
       (\<forall>name. required_model = Some name \<longrightarrow> (\<exists>digest m. pinned r name digest \<and> jget b ''model'' = JObj m \<and>
          jget m ''name'' = JStr name \<and> jget m ''digest'' = JStr digest)))"
proof -
  obtain rid r selector where sel: "intact_report report" "jget report ''selector'' = JObj selector"
    "jget selector ''runtime_id'' = JStr rid" "available report rid r"
    and run: "bind_runtime report rid r required_model require_container = Inr b"
    using assms validate_report_intact [of report]
    by (auto simp: build_execution_binding_def available_def res_bind_eq_Inr split: json.splits option.splits if_splits prod.splits)
  obtain model container body where b: "select_model report rid r required_model = Inr model"
    "body = binding_body report rid r model container required_model require_container"
    "b = body @ [(''binding_hash'', JStr (stable_hash (JObj body)))]"
    by (rule bind_runtime_body [OF run assms(2)])
  have "jget b ''binding_hash'' = JStr (stable_hash (JObj (without ''binding_hash'' b)))"
    unfolding b without_binding_hash by (simp add: binding_body_def jget_def)
  moreover have "jget b ''discovery_report_hash'' = jget report ''report_hash''" "jget b ''model'' = model"
    "\<exists>bound. jget b ''runtime'' = JObj bound \<and> jget bound ''runtime_id'' = JStr rid"
    unfolding b by (simp_all add: binding_body_def jget_def)
  moreover have "\<exists>digest m. pinned r name digest \<and> model = JObj m \<and> jget m ''name'' = JStr name \<and> jget m ''digest'' = JStr digest"
    if "required_model = Some name" for name
    using b(1) that by (metis select_model_pinned)
  ultimately show ?thesis using sel by (simp add: intact_report_def) blast
qed

section \<open>A sample report\<close>

definition sample_report_body :: jobj where
  "sample_report_body = [(''protocol_version'', JStr DISCOVERY_PROTOCOL),
     (''capabilities'', JArr [JObj [(''runtime_id'', JStr ''ollama''), (''state'', JStr ''AVAILABLE''),
        (''models'', JArr [JObj [(''name'', JStr ''llama''), (''digest'', JStr ''sha256:1 ''), (''size'', JInt 4)]])],
        JObj [(''runtime_id'', JStr ''docker''), (''state'', JStr ''AVAILABLE'')]]),
     (''selector'', JObj [(''decision'', JStr ''PASS''), (''runtime_id'', JStr ''ollama'')])]"

definition sample_report :: jobj where
  "sample_report = sample_report_body @ [(''report_hash'', JStr (stable_hash (JObj sample_report_body)))]"

lemma sample_report_intact: "intact_report sample_report"
  by (simp add: intact_report_def sample_report_def sample_report_body_def without_def jget_def)

lemma sample_execution_binding:
  obtains b where "build_execution_binding sample_report (Some ''llama'') True = Inr b" "jget b ''decision'' = JStr ''PASS''"
proof -
  have "fst (validate_discovery_report sample_report)" using validate_report_intact sample_report_intact by blast
  then obtain why where v: "validate_discovery_report sample_report = (True, why)" by (metis prod.collapse)
  have "\<exists>b. build_execution_binding sample_report (Some ''llama'') True = Inr b \<and> jget b ''decision'' = JStr ''PASS''"
    unfolding build_execution_binding_def v Let_def prod.case
    by (simp add: sample_report_def sample_report_body_def jget_def runtime_def bind_runtime_def
        select_model_def models_of_def digest_of_def binding_body_def Let_def blank_def strip_def is_space_def)
  then show ?thesis using that by blast
qed

theorem binding_sealed_witness:
  "\<exists>b m. build_execution_binding sample_report (Some ''llama'') True = Inr b \<and> jget b ''model'' = JObj m \<and>
    jget m ''name'' = JStr ''llama'' \<and> jget b ''binding_hash'' = JStr (stable_hash (JObj (without ''binding_hash'' b)))"
proof -
  obtain b where b: "build_execution_binding sample_report (Some ''llama'') True = Inr b" "jget b ''decision'' = JStr ''PASS''"
    by (rule sample_execution_binding)
  show ?thesis using binding_sealed [OF b] b(1) by blast
qed

end
