(* ===== verification/Institutional_Contract.thy ===== *)
theory Institutional_Contract
  imports Python_Text Model_Bridge
begin

text \<open>
  \<open>app/institutional_contract.py\<close>: the semantic validation of an institutional projection,
  a JSON object. The errors are collected in the order the code appends them; a collection
  that cannot be iterated raises. The theorem: a projection that passes separates proposer
  and validator, generator and authorizer, executor and evidence producer in every authority
  trace, and everything in it that claims to pass carries evidence.
\<close>

definition ALLOWED_OPERATIONS :: "string list" where
  "ALLOWED_OPERATIONS = [''READ'', ''LIST'', ''FILTER'', ''SEARCH'', ''RENDER'', ''EXPORT_PROJECTION'', ''CREATE_INTENT'']"

definition FORBIDDEN_OPERATIONS :: "string list" where
  "FORBIDDEN_OPERATIONS = [''MUTATE_OMEGA'', ''APPEND_LEDGER'', ''FORGE_RECEIPT'', ''AUTHORIZE_CONSTRAINT'',
     ''PROMOTE_MATURITY'', ''ALTER_CONSTITUTION'', ''ALTER_CONTRACT'', ''WRITE_CANONICAL_STATE'']"

record contract_validation =
  cv_decision :: string
  cv_errors :: "string list"

definition validation_ok :: "contract_validation \<Rightarrow> bool" where
  "validation_ok v \<longleftrightarrow> cv_decision v = ''PASS''"

text \<open>The two regular expressions, matched against a value that is a string.\<close>

fun is_sha256 :: "json \<Rightarrow> bool" where
  "is_sha256 (JStr s) = hex_lower_n 64 s"
| "is_sha256 v = False"

fun is_git_object :: "json \<Rightarrow> bool" where
  "is_git_object (JStr s) = (hex_lower_n 40 s \<or> hex_lower_n 64 s)"
| "is_git_object v = False"

fun is_text :: "json \<Rightarrow> bool" where
  "is_text (JStr s) = True"
| "is_text v = False"

fun is_evidence_pointer :: "json \<Rightarrow> bool" where
  "is_evidence_pointer (JObj d) = (is_text (jget d ''evidence_id'') \<and> is_sha256 (jget d ''receipt_hash'') \<and>
     is_git_object (jget d ''source_commit''))"
| "is_evidence_pointer v = False"

fun has_evidence :: "json \<Rightarrow> bool" where
  "has_evidence (JArr xs) = (xs \<noteq> [] \<and> list_all is_evidence_pointer xs)"
| "has_evidence v = False"

text \<open>\<open>if bad: errors.append(message)\<close>\<close>

definition complain :: "bool \<Rightarrow> string \<Rightarrow> string list" where
  "complain bad m = (if bad then [m] else [])"

fun policy_errors :: "json \<Rightarrow> string list" where
  "policy_errors (JObj p) =
     complain (jget p ''projection_only'' \<noteq> JBool True) ''projection_only must be true''
   @ complain (jget p ''write_authority'' \<noteq> JStr ''NONE'') ''institutional surface must have no canonical write authority''
   @ complain (jget p ''allowed_operations'' \<noteq> JArr (map JStr ALLOWED_OPERATIONS)) ''allowed_operations mismatch''
   @ complain (jget p ''forbidden_operations'' \<noteq> JArr (map JStr FORBIDDEN_OPERATIONS)) ''forbidden_operations mismatch''"
| "policy_errors v = [''projection_policy missing'']"

fun source_errors :: "json \<Rightarrow> string list" where
  "source_errors (JObj s) =
     complain (jget s ''repository'' \<noteq> JStr ''MatVerse-py/Gpt-project-bridge'') ''source repository mismatch''
   @ complain (\<not> is_git_object (jget s ''commit_sha'')) ''source commit is not a supported Git object id''
   @ concat (map (\<lambda>field. complain (\<not> is_sha256 (jget s field)) (field @ '' must be a lowercase SHA-256 digest''))
       [''frozen_contract_hash'', ''gate_fingerprint'', ''constitutional_contract_hash''])"
| "source_errors v = [''source binding missing'']"

text \<open>The authority traces: the dictionary of the first trace of each id, and the errors.\<close>

definition trace_errors :: "string \<Rightarrow> jobj \<Rightarrow> string list" where
  "trace_errors tid t =
     complain (py_eq (jget t ''proposer_id'') (jget t ''final_validator_id''))
       (''authority trace '' @ tid @ '': proposer must differ from final validator'')
   @ complain (jget t ''generator_id'' \<noteq> JNull \<and> py_eq (jget t ''generator_id'') (jget t ''authorizer_id''))
       (''authority trace '' @ tid @ '': generator must differ from authorizer'')
   @ complain (jget t ''executor_id'' \<noteq> JNull \<and> py_eq (jget t ''executor_id'') (jget t ''evidence_producer_id''))
       (''authority trace '' @ tid @ '': executor must differ from evidence producer'')
   @ complain (jget t ''decision'' = JStr ''PASS'' \<and> \<not> has_evidence (jget t ''evidence''))
       (''authority trace '' @ tid @ '': PASS requires evidence'')"

definition read_trace :: "json \<Rightarrow> (string \<times> jobj) option" where
  "read_trace v = (case v of
      JObj t \<Rightarrow> (case jget t ''trace_id'' of JStr tid \<Rightarrow> Some (tid, t) | _ \<Rightarrow> None)
    | _ \<Rightarrow> None)"

definition add_trace :: "json \<Rightarrow> (string, jobj) dict \<times> string list \<Rightarrow> (string, jobj) dict \<times> string list" where
  "add_trace v = (\<lambda>(traces, errors). case read_trace v of
      None \<Rightarrow> (traces, errors @ [''authority trace missing trace_id''])
    | Some (tid, t) \<Rightarrow>
        if tid \<in> set (map fst traces) then (traces, errors @ [''duplicate authority trace: '' @ tid])
        else (dict_set traces tid t, errors @ trace_errors tid t))"

definition read_traces :: "jobj \<Rightarrow> (string, jobj) dict \<times> string list" where
  "read_traces payload = (case jget_or payload ''authority_traces'' (JArr []) of
      JArr raw \<Rightarrow> fold add_trace raw ([], [])
    | _ \<Rightarrow> ([], [''authority_traces must be an array'']))"

fun maturity_errors :: "(string, jobj) dict \<Rightarrow> json \<Rightarrow> string list" where
  "maturity_errors traces (JObj m) =
     (let oid = py_str (jget_or m ''object_id'' (JStr ''<unknown>''));
          trace = (case jget m ''authority_trace_id'' of JStr tid \<Rightarrow> map_of traces tid | _ \<Rightarrow> None)
      in (case trace of
            None \<Rightarrow> [''maturity '' @ oid @ '': authority trace missing'']
          | Some t \<Rightarrow> complain (\<not> py_eq (jget m ''validator_id'') (jget t ''final_validator_id''))
              (''maturity '' @ oid @ '': validator does not match authority trace''))
       @ complain (jget m ''decision'' = JStr ''PASS'' \<and> \<not> has_evidence (jget m ''evidence''))
           (''maturity '' @ oid @ '': PASS requires evidence'')
       @ complain (jget m ''gate'' = JStr ''SCIENTIFIC_PASS'' \<and> jget m ''target_kind'' \<noteq> JStr ''CLAIM'')
           (''maturity '' @ oid @ '': SCIENTIFIC_PASS is claim-scoped''))"
| "maturity_errors traces v = [''invalid maturity entry'']"

fun identifier_errors :: "jobj \<Rightarrow> json \<Rightarrow> string list" where
  "identifier_errors s (JObj i) =
     complain (jget i ''decision'' = JStr ''PASS'' \<and> \<not> is_evidence_pointer (jget i ''witness''))
       (''subject '' @ py_str (jget_or s ''subject_id'' (JStr ''<unknown>'')) @ '': verified identifier requires witness'')"
| "identifier_errors s v = []"

fun subject_errors :: "json \<Rightarrow> string list res" where
  "subject_errors (JObj s) =
     res_bind (py_iter (jget_or s ''identifiers'' (JArr []))) (\<lambda>ids. Inr (concat (map (identifier_errors s) ids)))"
| "subject_errors v = Inr [''invalid subject entry'']"

definition COLLECTIONS :: "(string \<times> string \<times> string) list" where
  "COLLECTIONS = [(''artifacts'', ''artifact_id'', ''status''), (''claims'', ''claim_id'', ''decision''),
     (''experiments'', ''experiment_id'', ''status'')]"

fun item_errors :: "string \<times> string \<times> string \<Rightarrow> json \<Rightarrow> string list" where
  "item_errors (collection, id_field, decision_field) (JObj i) =
     complain (jget i decision_field = JStr ''PASS'' \<and> \<not> has_evidence (jget i ''evidence''))
       (butlast collection @ '' '' @ py_str (jget_or i id_field (JStr ''<unknown>'')) @ '': PASS requires evidence'')"
| "item_errors (collection, id_field, decision_field) v = [''invalid '' @ collection @ '' entry'']"

fun relation_errors :: "json \<Rightarrow> string list" where
  "relation_errors (JObj r) =
     complain (jget r ''decision'' = JStr ''PASS'' \<and> \<not> is_evidence_pointer (jget r ''witness''))
       (''relation '' @ py_str (jget_or r ''relation_id'' (JStr ''<unknown>'')) @ '': PASS requires witness'')"
| "relation_errors v = [''invalid relation entry'']"

fun projection_errors :: "json \<Rightarrow> string list" where
  "projection_errors (JObj p) =
     complain (jget p ''hash_algorithm'' \<noteq> JStr ''SHA-256'') ''projection hash algorithm mismatch''
   @ complain (jget p ''canonicalization'' \<noteq> JStr ''RFC8785_JCS'') ''projection canonicalization mismatch''
   @ complain (jget p ''hash_excludes'' \<noteq> JArr [JStr ''projection.projection_hash'']) ''projection hash exclusion mismatch''
   @ complain (\<not> is_sha256 (jget p ''projection_hash'')) ''projection_hash must be a lowercase SHA-256 digest''"
| "projection_errors v = [''projection metadata missing'']"

definition each_of :: "jobj \<Rightarrow> string \<Rightarrow> (json \<Rightarrow> string list res) \<Rightarrow> string list res" where
  "each_of payload name f =
     res_bind (py_iter (jget_or payload name (JArr []))) (\<lambda>items.
     res_bind (res_map f items) (\<lambda>found. Inr (concat found)))"

definition validate_projection_semantics :: "jobj \<Rightarrow> contract_validation res" where
  "validate_projection_semantics payload =
     (let (traces, trace_found) = read_traces payload in
      res_bind (each_of payload ''maturity'' (Inr \<circ> maturity_errors traces)) (\<lambda>maturity.
      res_bind (each_of payload ''subjects'' subject_errors) (\<lambda>subjects.
      res_bind (res_map (\<lambda>c. each_of payload (fst c) (Inr \<circ> item_errors c)) COLLECTIONS) (\<lambda>items.
      res_bind (each_of payload ''relations'' (Inr \<circ> relation_errors)) (\<lambda>relations.
      let errors = policy_errors (jget payload ''projection_policy'') @ source_errors (jget payload ''source'')
                 @ trace_found @ maturity @ subjects @ concat items @ relations
                 @ projection_errors (jget payload ''projection'')
      in Inr \<lparr>cv_decision = (if errors = [] then ''PASS'' else ''BLOCK''), cv_errors = errors\<rparr>)))))"

section \<open>What a passing projection guarantees\<close>

text \<open>Separation of duties in one authority trace, and its evidence.\<close>

definition separated :: "jobj \<Rightarrow> bool" where
  "separated t \<longleftrightarrow> \<not> py_eq (jget t ''proposer_id'') (jget t ''final_validator_id'') \<and>
     (jget t ''generator_id'' = JNull \<or> \<not> py_eq (jget t ''generator_id'') (jget t ''authorizer_id'')) \<and>
     (jget t ''executor_id'' = JNull \<or> \<not> py_eq (jget t ''executor_id'') (jget t ''evidence_producer_id'')) \<and>
     (jget t ''decision'' = JStr ''PASS'' \<longrightarrow> has_evidence (jget t ''evidence''))"

definition traces_good :: "json list \<Rightarrow> bool" where
  "traces_good raw \<longleftrightarrow> (\<forall>x \<in> set raw. \<exists>tid t. read_trace x = Some (tid, t) \<and> separated t) \<and>
     distinct (map (fst \<circ> the \<circ> read_trace) raw)"

text \<open>A maturity entry rests on a trace of the projection that its validator decided.\<close>

definition matured :: "json list \<Rightarrow> json \<Rightarrow> bool" where
  "matured raw x \<longleftrightarrow> (\<exists>m tid t y. x = JObj m \<and> jget m ''authority_trace_id'' = JStr tid \<and> y \<in> set raw \<and>
     read_trace y = Some (tid, t) \<and> py_eq (jget m ''validator_id'') (jget t ''final_validator_id'') \<and>
     (jget m ''decision'' = JStr ''PASS'' \<longrightarrow> has_evidence (jget m ''evidence'')) \<and>
     (jget m ''gate'' = JStr ''SCIENTIFIC_PASS'' \<longrightarrow> jget m ''target_kind'' = JStr ''CLAIM''))"

definition listed :: "jobj \<Rightarrow> string \<Rightarrow> (json \<Rightarrow> bool) \<Rightarrow> bool" where
  "listed payload name P \<longleftrightarrow> (\<exists>xs. py_iter (jget_or payload name (JArr [])) = Inr xs \<and> (\<forall>x \<in> set xs. P x))"

definition evidenced :: "string \<Rightarrow> (json \<Rightarrow> bool) \<Rightarrow> string \<Rightarrow> json \<Rightarrow> bool" where
  "evidenced decision good field x \<longleftrightarrow> (\<exists>d. x = JObj d \<and> (jget d decision = JStr ''PASS'' \<longrightarrow> good (jget d field)))"

definition identified :: "json \<Rightarrow> bool" where
  "identified x \<longleftrightarrow> (\<exists>s. x = JObj s \<and> listed s ''identifiers''
     (\<lambda>i. \<forall>d. i = JObj d \<longrightarrow> jget d ''decision'' = JStr ''PASS'' \<longrightarrow> is_evidence_pointer (jget d ''witness'')))"

definition read_only_policy :: "json \<Rightarrow> bool" where
  "read_only_policy v \<longleftrightarrow> (\<exists>p. v = JObj p \<and> jget p ''projection_only'' = JBool True \<and> jget p ''write_authority'' = JStr ''NONE'' \<and>
     jget p ''allowed_operations'' = JArr (map JStr ALLOWED_OPERATIONS) \<and>
     jget p ''forbidden_operations'' = JArr (map JStr FORBIDDEN_OPERATIONS))"

definition bound_source :: "json \<Rightarrow> bool" where
  "bound_source v \<longleftrightarrow> (\<exists>s. v = JObj s \<and> jget s ''repository'' = JStr ''MatVerse-py/Gpt-project-bridge'' \<and>
     is_git_object (jget s ''commit_sha'') \<and> is_sha256 (jget s ''frozen_contract_hash'') \<and>
     is_sha256 (jget s ''gate_fingerprint'') \<and> is_sha256 (jget s ''constitutional_contract_hash''))"

definition projection_bound :: "json \<Rightarrow> bool" where
  "projection_bound v \<longleftrightarrow> (\<exists>p. v = JObj p \<and> jget p ''hash_algorithm'' = JStr ''SHA-256'' \<and>
     jget p ''canonicalization'' = JStr ''RFC8785_JCS'' \<and>
     jget p ''hash_excludes'' = JArr [JStr ''projection.projection_hash''] \<and> is_sha256 (jget p ''projection_hash''))"

definition admissible_projection :: "jobj \<Rightarrow> bool" where
  "admissible_projection payload \<longleftrightarrow>
     read_only_policy (jget payload ''projection_policy'') \<and> bound_source (jget payload ''source'') \<and>
     projection_bound (jget payload ''projection'') \<and>
     (\<exists>raw. jget_or payload ''authority_traces'' (JArr []) = JArr raw \<and> traces_good raw \<and>
        listed payload ''maturity'' (matured raw)) \<and>
     listed payload ''subjects'' identified \<and>
     listed payload ''artifacts'' (evidenced ''status'' has_evidence ''evidence'') \<and>
     listed payload ''claims'' (evidenced ''decision'' has_evidence ''evidence'') \<and>
     listed payload ''experiments'' (evidenced ''status'' has_evidence ''evidence'') \<and>
     listed payload ''relations'' (evidenced ''decision'' is_evidence_pointer ''witness'')"

lemma complain_Nil [simp]: "complain bad m = [] \<longleftrightarrow> \<not> bad"
  by (simp add: complain_def)

lemma policy_errors_Nil: "policy_errors v = [] \<longleftrightarrow> read_only_policy v"
  by (cases v) (simp_all add: read_only_policy_def)

lemma source_errors_Nil: "source_errors v = [] \<longleftrightarrow> bound_source v"
  by (cases v) (simp_all add: bound_source_def)

lemma projection_errors_Nil: "projection_errors v = [] \<longleftrightarrow> projection_bound v"
  by (cases v) (simp_all add: projection_bound_def)

lemma trace_errors_Nil: "trace_errors tid t = [] \<longleftrightarrow> separated t"
  by (auto simp: trace_errors_def separated_def)

lemma item_errors_Nil: "item_errors (c, f, d) x = [] \<longleftrightarrow> evidenced d has_evidence ''evidence'' x"
  by (cases x) (auto simp: evidenced_def)

lemma relation_errors_Nil: "relation_errors x = [] \<longleftrightarrow> evidenced ''decision'' is_evidence_pointer ''witness'' x"
  by (cases x) (auto simp: evidenced_def)

text \<open>A loop over a collection finds nothing.\<close>

lemma each_of_Nil: "each_of payload name f = Inr [] \<longleftrightarrow> listed payload name (\<lambda>x. f x = Inr [])"
proof -
  have "(\<exists>found. res_map f xs = Inr found \<and> concat found = []) \<longleftrightarrow> (\<forall>x \<in> set xs. f x = Inr [])" for xs
    by (induction xs) (auto simp: res_bind_eq_Inr)
  then show ?thesis by (auto simp: each_of_def listed_def res_bind_eq_Inr)
qed

lemma identifier_errors_Nil:
  "identifier_errors s x = [] \<longleftrightarrow> (\<forall>d. x = JObj d \<longrightarrow> jget d ''decision'' = JStr ''PASS'' \<longrightarrow> is_evidence_pointer (jget d ''witness''))"
  by (cases x) auto

lemma subject_errors_Nil: "subject_errors x = Inr [] \<longleftrightarrow> identified x"
  by (cases x) (auto simp: identified_def listed_def res_bind_eq_Inr identifier_errors_Nil)

text \<open>The fold over the traces: its dictionary holds the traces read, and it found nothing exactly if all are good.\<close>

lemma fold_traces_stuck: "errors \<noteq> [] \<Longrightarrow> snd (fold add_trace raw (ts, errors)) \<noteq> []"
proof (induction raw arbitrary: ts errors)
  case (Cons x raw)
  have "snd (add_trace x (ts, errors)) \<noteq> []" using Cons.prems by (auto simp: add_trace_def split: option.split)
  then show ?case using Cons.IH by (metis fold_simps(2) prod.collapse)
qed simp

lemma fold_traces_step:
  "snd (fold add_trace (x # raw) (ts, [])) = [] \<longleftrightarrow> (\<exists>tid t. read_trace x = Some (tid, t) \<and> tid \<notin> fst ` set ts \<and> separated t \<and>
     snd (fold add_trace raw (dict_set ts tid t, [])) = [])"
proof (cases "\<exists>tid t. read_trace x = Some (tid, t) \<and> tid \<notin> fst ` set ts \<and> separated t")
  case True
  then show ?thesis by (auto simp: add_trace_def trace_errors_Nil [THEN iffD2])
next
  case False
  obtain ts' errors where step: "add_trace x (ts, []) = (ts', errors)" by fastforce
  moreover have "errors \<noteq> []"
    using step False trace_errors_Nil by (auto simp: add_trace_def split: option.splits if_splits)
  ultimately show ?thesis using False fold_traces_stuck by auto
qed

lemma fold_traces_good:
  "snd (fold add_trace raw (ts, [])) = [] \<longleftrightarrow> traces_good raw \<and> fst ` set ts \<inter> (fst \<circ> the \<circ> read_trace) ` set raw = {}"
proof (induction raw arbitrary: ts)
  case (Cons x raw)
  have keys: "fst ` set (dict_set ts tid t) = insert tid (fst ` set ts)" for tid t
    using dict_keys_set [of ts tid t] by simp
  show ?case unfolding fold_traces_step by (auto simp: Cons.IH keys traces_good_def) force
qed (simp add: traces_good_def)

lemma fold_traces_map:
  "snd (fold add_trace raw (ts, [])) = [] \<Longrightarrow> map_of (fst (fold add_trace raw (ts, []))) tid = Some t \<longleftrightarrow>
     map_of ts tid = Some t \<or> (\<exists>y \<in> set raw. read_trace y = Some (tid, t))"
proof (induction raw arbitrary: ts)
  case (Cons x raw)
  obtain tid' t' where x: "read_trace x = Some (tid', t')" "tid' \<notin> fst ` set ts" "separated t'"
    "snd (fold add_trace raw (dict_set ts tid' t', [])) = []"
    using Cons.prems unfolding fold_traces_step by blast
  then have "fold add_trace (x # raw) (ts, []) = fold add_trace raw (dict_set ts tid' t', [])"
    by (simp add: add_trace_def trace_errors_Nil [THEN iffD2])
  moreover have "map_of ts tid' = None" using x(2) by (metis map_of_eq_None_iff)
  ultimately show ?case using Cons.IH [OF x(4)] x(1) by auto
qed simp

lemma maturity_errors_Nil:
  assumes "\<And>tid t. map_of traces tid = Some t \<longleftrightarrow> (\<exists>y \<in> set raw. read_trace y = Some (tid, t))"
  shows "maturity_errors traces x = [] \<longleftrightarrow> matured raw x"
proof (cases x)
  case (JObj m)
  show ?thesis
  proof (cases "\<exists>tid t. jget m ''authority_trace_id'' = JStr tid \<and> map_of traces tid = Some t")
    case False
    then have "\<not> matured raw x" using assms JObj by (auto simp: matured_def)
    moreover have "maturity_errors traces x \<noteq> []"
      using False JObj by (auto simp: Let_def split: json.split option.split)
    ultimately show ?thesis by blast
  next
    case True
    then obtain tid t where t: "jget m ''authority_trace_id'' = JStr tid" "map_of traces tid = Some t" by blast
    have u: "t' = t" if "y \<in> set raw" "read_trace y = Some (tid, t')" for y t'
      using assms [of tid t'] that t(2) by auto
    obtain y where "y \<in> set raw" "read_trace y = Some (tid, t)" using assms t(2) by blast
    then have "matured raw x \<longleftrightarrow> py_eq (jget m ''validator_id'') (jget t ''final_validator_id'') \<and>
       (jget m ''decision'' = JStr ''PASS'' \<longrightarrow> has_evidence (jget m ''evidence'')) \<and>
       (jget m ''gate'' = JStr ''SCIENTIFIC_PASS'' \<longrightarrow> jget m ''target_kind'' = JStr ''CLAIM'')"
      (is "_ \<longleftrightarrow> ?good")
    proof (intro iffI)
      assume "matured raw x"
      then obtain m' tid' t' y' where "x = JObj m'" "jget m' ''authority_trace_id'' = JStr tid'" "y' \<in> set raw"
        "read_trace y' = Some (tid', t')" "py_eq (jget m' ''validator_id'') (jget t' ''final_validator_id'')"
        "jget m' ''decision'' = JStr ''PASS'' \<longrightarrow> has_evidence (jget m' ''evidence'')"
        "jget m' ''gate'' = JStr ''SCIENTIFIC_PASS'' \<longrightarrow> jget m' ''target_kind'' = JStr ''CLAIM''"
        unfolding matured_def by blast
      then show ?good using JObj t(1) u [of y' t'] by simp
    next
      assume ?good
      then show "matured raw x" unfolding matured_def JObj
        using t(1) \<open>y \<in> set raw\<close> \<open>read_trace y = Some (tid, t)\<close> by blast
    qed
    then show ?thesis using JObj t by (auto simp: Let_def)
  qed
qed (simp_all add: matured_def)

lemma projection_admitted:
  "(\<exists>v. validate_projection_semantics payload = Inr v \<and> validation_ok v) \<longleftrightarrow> admissible_projection payload"
proof -
  obtain traces found where r: "read_traces payload = (traces, found)" by fastforce
  have "(\<exists>v. validate_projection_semantics payload = Inr v \<and> validation_ok v) \<longleftrightarrow>
     policy_errors (jget payload ''projection_policy'') = [] \<and> source_errors (jget payload ''source'') = [] \<and> found = [] \<and>
     each_of payload ''maturity'' (Inr \<circ> maturity_errors traces) = Inr [] \<and>
     each_of payload ''subjects'' subject_errors = Inr [] \<and>
     (\<forall>c \<in> set COLLECTIONS. each_of payload (fst c) (Inr \<circ> item_errors c) = Inr []) \<and>
     each_of payload ''relations'' (Inr \<circ> relation_errors) = Inr [] \<and>
     projection_errors (jget payload ''projection'') = []"
    by (auto simp: validate_projection_semantics_def r Let_def res_bind_eq_Inr COLLECTIONS_def validation_ok_def)
  moreover have "found = [] \<and> each_of payload ''maturity'' (Inr \<circ> maturity_errors traces) = Inr [] \<longleftrightarrow>
     (\<exists>raw. jget_or payload ''authority_traces'' (JArr []) = JArr raw \<and> traces_good raw \<and> listed payload ''maturity'' (matured raw))"
  proof (cases "jget_or payload ''authority_traces'' (JArr [])")
    case (JArr raw)
    then have f: "fold add_trace raw ([], []) = (traces, found)" using r by (simp add: read_traces_def)
    then have g: "found = [] \<longleftrightarrow> traces_good raw" using fold_traces_good [of raw "[]"] by simp
    have m: "maturity_errors traces x = [] \<longleftrightarrow> matured raw x" if "found = []" for x
      using fold_traces_map [of raw "[]"] f that by (intro maturity_errors_Nil) auto
    show ?thesis
    proof (cases "found = []")
      case True
      show ?thesis using m [OF True] g True JArr by (simp add: each_of_Nil)
    qed (use g JArr in auto)
  qed (use r in \<open>auto simp: read_traces_def\<close>)
  ultimately show ?thesis
    by (simp add: each_of_Nil policy_errors_Nil source_errors_Nil projection_errors_Nil subject_errors_Nil COLLECTIONS_def
        item_errors_Nil relation_errors_Nil admissible_projection_def) blast
qed

text \<open>C32: The validator passes a projection exactly when it is admissible: the policy leaves it no write
  authority, the source is bound to commits and digests, in every authority trace proposer and validator,
  generator and authorizer, executor and evidence producer differ, no trace id occurs twice, every maturity
  entry names a trace of the projection that its validator decided, everything that says PASS carries
  evidence pointers or a witness, and every collection can be iterated. It never passes by raising.\<close>

theorem projection_validated:
  "(\<exists>v. validate_projection_semantics payload = Inr v \<and> validation_ok v) \<longleftrightarrow> admissible_projection payload"
  by (rule projection_admitted)

end
