(* ===== verification/Institutional_Projection.thy ===== *)
theory Institutional_Projection
  imports Institutional_Contract Python_Time Storage_Properties Organism
begin

text \<open>
  \<open>app/institutional_projection.py\<close>: the RFC 8785 subset of canonical JSON with its hash, and
  the read-only projection of the ledger and the contract artifacts. The projection is built
  from one snapshot of the database (theory \<open>Storage\<close>); the environment variables are a
  dictionary, what \<open>inspect\<close> finds of the guard functions a \<open>guard_env\<close> (theory \<open>Organism\<close>),
  and \<open>datetime.fromisoformat\<close> an argument. The snapshot a remote state service sends is not
  modelled.
\<close>

section \<open>The canonical subset\<close>

definition SAFE_INTEGER :: int where "SAFE_INTEGER = 9007199254740991"

text \<open>A \<open>float\<close> is accepted when it is finite, integral and in range, and then it is that integer.\<close>

definition integral_float :: "string \<Rightarrow> int option" where
  "integral_float t = (case float_key t of JInt i \<Rightarrow> if \<bar>i\<bar> \<le> SAFE_INTEGER then Some i else None | _ \<Rightarrow> None)"

fun assert_jcs_subset :: "json \<Rightarrow> string \<Rightarrow> unit res"
  and assert_jcs_fields :: "jobj \<Rightarrow> string \<Rightarrow> unit res"
  and assert_jcs_items :: "json list \<Rightarrow> nat \<Rightarrow> string \<Rightarrow> unit res" where
  "assert_jcs_subset (JInt i) path =
     raise_if (\<bar>i\<bar> > SAFE_INTEGER) (ValueError (''integer outside JCS interoperable range at '' @ path))"
| "assert_jcs_subset (JFloat t) path =
     raise_if (integral_float t = None) (ValueError (''non-integral or non-interoperable floating point value at '' @ path))"
| "assert_jcs_subset (JArr xs) path = assert_jcs_items xs 0 path"
| "assert_jcs_subset (JObj kvs) path = assert_jcs_fields kvs path"
| "assert_jcs_subset v path = Inr ()"
| "assert_jcs_fields [] path = Inr ()"
| "assert_jcs_fields ((key, item) # r) path =
     res_bind (assert_jcs_subset item (path @ ''.'' @ key)) (\<lambda>_. assert_jcs_fields r path)"
| "assert_jcs_items [] index path = Inr ()"
| "assert_jcs_items (item # r) index path =
     res_bind (assert_jcs_subset item (path @ ''['' @ nat_text index @ '']'')) (\<lambda>_. assert_jcs_items r (index + 1) path)"

text \<open>Keys are ordered by their UTF-16 code units, which for U+0000 to U+00FF is the order of strings.\<close>

primrec jcs_subset_text :: "json \<Rightarrow> string" where
  "jcs_subset_text JNull = ''null''"
| "jcs_subset_text (JBool b) = (if b then ''true'' else ''false'')"
| "jcs_subset_text (JInt i) = int_text i"
| "jcs_subset_text (JFloat t) = (case integral_float t of None \<Rightarrow> t | Some i \<Rightarrow> int_text i)"
| "jcs_subset_text (JStr s) = dump_string False s"
| "jcs_subset_text (JArr xs) = ''['' @ join '','' (map jcs_subset_text xs) @ '']''"
| "jcs_subset_text (JObj kvs) =
     ''{'' @ join '','' (map (dump_pair False) (sort_key fst (map (map_prod id jcs_subset_text) kvs))) @ ''}''"

definition jcs_subset_hash :: "json \<Rightarrow> string res" where
  "jcs_subset_hash v = res_bind (assert_jcs_subset v ''$'') (\<lambda>_. Inr (sha256_text (jcs_subset_text v)))"

definition genesis_commitment :: "string res" where
  "genesis_commitment = jcs_subset_hash (JObj [(''ledger_head'', JStr ''GENESIS''), (''events'', JInt 0)])"

section \<open>The source binding\<close>

definition getenv :: "(string, string) dict \<Rightarrow> string \<Rightarrow> string \<Rightarrow> string" where
  "getenv environ name v = (case map_of environ name of None \<Rightarrow> v | Some w \<Rightarrow> w)"

definition build_binding :: "guard_env \<Rightarrow> (string, string) dict \<Rightarrow> jobj res" where
  "build_binding env environ =
    (let commit = lower (getenv environ ''MATVERSE_BUILD_COMMIT'' '''');
         frozen = lower (getenv environ ''MATVERSE_FROZEN_CONTRACT_HASH'' '''');
         build_ref = getenv environ ''MATVERSE_BUILD_REF'' ''main''
     in res_bind (raise_if (\<not> is_git_object_id commit)
          (ProjectionUnavailable ''MATVERSE_BUILD_COMMIT must be a 40- or 64-character lowercase Git object id'')) (\<lambda>_.
        res_bind (raise_if (\<not> hex_lower_n 64 frozen)
          (ProjectionUnavailable ''MATVERSE_FROZEN_CONTRACT_HASH must be a lowercase SHA-256 digest'')) (\<lambda>_.
        res_bind (raise_if (build_ref = '''' \<or> length build_ref > 256)
          (ProjectionUnavailable ''MATVERSE_BUILD_REF must be a non-empty identifier <= 256 characters'')) (\<lambda>_.
        res_bind (gate_fingerprint_of env None) (\<lambda>fp.
        res_bind (constitutional_contract_hash_of env frozen None) (\<lambda>constitutional.
        Inr [(''repository'', JStr ''MatVerse-py/Gpt-project-bridge''), (''commit_sha'', JStr commit), (''ref'', JStr build_ref),
             (''frozen_contract_hash'', JStr frozen), (''gate_fingerprint'', JStr fp),
             (''constitutional_contract_hash'', JStr constitutional)]))))))"

section \<open>What the ledger says\<close>

definition verify_ledger_rows :: "ledger_row list \<Rightarrow> chain_report" where
  "verify_ledger_rows rows = (case verify_rows ''GENESIS'' rows of
      Inl failed \<Rightarrow> ChainFailed failed | Inr head \<Rightarrow> ChainOk (length rows) head)"

text \<open>\<open>event.get\<close> on what the row's text loads to.\<close>

definition as_object :: "json \<Rightarrow> jobj res" where
  "as_object v = (case v of JObj e \<Rightarrow> Inr e | _ \<Rightarrow> Inl (AttributeError ''get''))"

definition event_source_commit :: "jobj \<Rightarrow> int \<Rightarrow> string res" where
  "event_source_commit event seq =
    (let e = ProjectionUnavailable (''ledger event seq='' @ int_text seq @
               '' lacks immutable originating source_commit; provenance migration required'')
     in case jget event ''source_commit'' of
          JStr s \<Rightarrow> if is_git_object_id (lower s) then Inr (lower s) else Inl e
        | _ \<Rightarrow> Inl e)"

definition ledger_id :: "ledger_row \<Rightarrow> json" where
  "ledger_id row = JStr (''ledger:'' @ int_text (row_seq row))"

definition artifact_receipt :: "ledger_row \<Rightarrow> (string, jobj) dict \<Rightarrow> (string, jobj) dict res" where
  "artifact_receipt row found = (case json_loads (event_json row) of
      Inl e \<Rightarrow> Inr found
    | Inr v \<Rightarrow> res_bind (as_object v) (\<lambda>event.
        if jget event ''event_type'' \<noteq> JStr ''CONTRACT_ARTIFACT_REGISTERED'' then Inr found
        else (case jget event ''artifact_hash'' of
            JStr h \<Rightarrow> res_bind (event_source_commit event (row_seq row)) (\<lambda>commit. Inr (dict_set found h
              [(''evidence_id'', ledger_id row), (''receipt_hash'', JStr (event_hash row)), (''source_commit'', JStr commit)]))
          | _ \<Rightarrow> Inr found)))"

definition project_artifact :: "string \<Rightarrow> (string, jobj) dict \<Rightarrow> artifact_row \<Rightarrow> json" where
  "project_artifact current_commit found row =
    (let evidence = map_of found (artifact_hash row) in JObj
      [(''artifact_id'', JStr (''contract:'' @ artifact_hash row)),
       (''kind'', JStr (''contract-registry/'' @ art_kind row @ ''/'' @ art_version row)),
       (''content_hash'', JStr (artifact_hash row)),
       (''source_commit'', case evidence of None \<Rightarrow> JStr current_commit | Some e \<Rightarrow> jget e ''source_commit''),
       (''status'', JStr (if evidence = None then ''HOLD'' else ''PASS'')),
       (''evidence'', JArr (case evidence of None \<Rightarrow> [] | Some e \<Rightarrow> [JObj e]))])"

definition project_contract_artifacts :: "artifact_row list \<Rightarrow> string \<Rightarrow> ledger_row list \<Rightarrow> json list res" where
  "project_contract_artifacts rows current_commit entries =
     res_bind (res_fold artifact_receipt entries []) (\<lambda>found.
     Inr (map (project_artifact current_commit found) rows))"

definition project_receipt :: "ledger_row \<Rightarrow> json res" where
  "project_receipt row = (case json_loads (event_json row) of
      Inl e \<Rightarrow> Inl (ProjectionUnavailable (''ledger event seq='' @ int_text (row_seq row) @ '' is not parseable JSON''))
    | Inr v \<Rightarrow> res_bind (as_object v) (\<lambda>event.
        res_bind (event_source_commit event (row_seq row)) (\<lambda>commit. Inr (JObj
          [(''receipt_id'', ledger_id row), (''receipt_hash'', JStr (event_hash row)),
           (''receipt_type'', case jget event ''event_type'' of JStr s \<Rightarrow> JStr s | _ \<Rightarrow> JStr ''LEDGER_EVENT''),
           (''source_commit'', JStr commit)]))))"

definition project_receipts :: "string \<Rightarrow> ledger_row list \<Rightarrow> json list res" where
  "project_receipts current_commit entries =
     (if entries = [] then res_bind genesis_commitment (\<lambda>g. Inr [JObj
        [(''receipt_id'', JStr ''ledger:GENESIS''), (''receipt_hash'', JStr g),
         (''receipt_type'', JStr ''LEDGER_GENESIS_COMMITMENT''), (''source_commit'', JStr current_commit)]])
      else res_map project_receipt entries)"

definition replace_Z :: "string \<Rightarrow> string" where
  "replace_Z s = concat (map (\<lambda>c. if c = CHR ''Z'' then ''+00:00'' else [c]) s)"

definition TIME_FIELDS :: "string list" where
  "TIME_FIELDS = [''ledger_at'', ''accepted_at'', ''acked_at'', ''created_at'']"

text \<open>The time fields of an event that parse, in order.\<close>

definition parsed_times :: "(string \<Rightarrow> parsed_time) \<Rightarrow> jobj \<Rightarrow> string list" where
  "parsed_times fromiso event = concat (map (\<lambda>field. case jget event field of
      JStr s \<Rightarrow> if fromiso (replace_Z s) = None then [] else [s] | _ \<Rightarrow> []) TIME_FIELDS)"

fun latest_time :: "(string \<Rightarrow> parsed_time) \<Rightarrow> ledger_row list \<Rightarrow> string option res" where
  "latest_time fromiso [] = Inr None"
| "latest_time fromiso (row # rows) = (case json_loads (event_json row) of
      Inl e \<Rightarrow> latest_time fromiso rows
    | Inr v \<Rightarrow> res_bind (as_object v) (\<lambda>event. case parsed_times fromiso event of
          [] \<Rightarrow> latest_time fromiso rows | t # ts \<Rightarrow> Inr (Some t)))"

definition projection_time :: "(string \<Rightarrow> parsed_time) \<Rightarrow> (string, string) dict \<Rightarrow> ledger_row list \<Rightarrow> string res" where
  "projection_time fromiso environ entries =
     res_bind (latest_time fromiso (rev entries)) (\<lambda>found. case found of
       Some t \<Rightarrow> Inr t
     | None \<Rightarrow>
         (let configured = getenv environ ''MATVERSE_BUILD_TIMESTAMP'' '''' in
          if configured = '''' then Inr ''1970-01-01T00:00:00+00:00''
          else if fromiso (replace_Z configured) = None
            then Inl (ProjectionUnavailable ''MATVERSE_BUILD_TIMESTAMP must be ISO-8601 when configured'')
          else Inr configured))"

section \<open>The projection\<close>

definition projection_meta :: "string \<Rightarrow> string \<Rightarrow> jobj" where
  "projection_meta generated receipt = [(''generated_at'', JStr generated), (''source_receipt'', JStr receipt),
     (''freshness'', JStr ''LIVE''), (''hash_algorithm'', JStr ''SHA-256''), (''canonicalization'', JStr ''RFC8785_JCS''),
     (''hash_excludes'', JArr [JStr ''projection.projection_hash''])]"

text \<open>With the hash in its place.\<close>

definition sealed_meta :: "string \<Rightarrow> string \<Rightarrow> string \<Rightarrow> jobj" where
  "sealed_meta generated h receipt =
     take 1 (projection_meta generated receipt) @ (''projection_hash'', JStr h) # drop 1 (projection_meta generated receipt)"

definition projection_with :: "jobj \<Rightarrow> json list \<Rightarrow> json list \<Rightarrow> jobj \<Rightarrow> jobj" where
  "projection_with source artifacts receipts meta =
     [(''schema_version'', JStr ''matverse.institutional-surface.v1''),
      (''projection_policy'', JObj [(''projection_only'', JBool True), (''write_authority'', JStr ''NONE''),
         (''allowed_operations'', JArr (map JStr ALLOWED_OPERATIONS)),
         (''forbidden_operations'', JArr (map JStr FORBIDDEN_OPERATIONS))]),
      (''source'', JObj source), (''subjects'', JArr []), (''authority_traces'', JArr []), (''maturity'', JArr []),
      (''artifacts'', JArr artifacts), (''claims'', JArr []), (''experiments'', JArr []), (''relations'', JArr []),
      (''receipts'', JArr receipts), (''projection'', JObj meta)]"

text \<open>Everything up to the validation, the hash included.\<close>

definition assemble_projection ::
  "(string \<Rightarrow> parsed_time) \<Rightarrow> guard_env \<Rightarrow> (string, string) dict \<Rightarrow> ledger_row list \<Rightarrow> artifact_row list \<Rightarrow> jobj res" where
  "assemble_projection fromiso env environ entries artifact_rows =
    (case verify_ledger_rows entries of
       ChainFailed failed \<Rightarrow> Inl (ProjectionUnavailable (''canonical ledger integrity failure at seq='' @ int_text failed))
     | ChainOk n head \<Rightarrow>
         res_bind (build_binding env environ) (\<lambda>source.
         res_bind (if hex_lower_n 64 head then Inr head else genesis_commitment) (\<lambda>receipt.
         let commit = (case jget source ''commit_sha'' of JStr s \<Rightarrow> s | _ \<Rightarrow> '''') in
         res_bind (project_contract_artifacts artifact_rows commit entries) (\<lambda>artifacts.
         res_bind (project_receipts commit entries) (\<lambda>receipts.
         res_bind (projection_time fromiso environ entries) (\<lambda>generated.
         res_bind (jcs_subset_hash (JObj (projection_with source artifacts receipts (projection_meta generated receipt)))) (\<lambda>h.
         Inr (projection_with source artifacts receipts (sealed_meta generated h receipt)))))))))"

definition build_projection ::
  "(string \<Rightarrow> parsed_time) \<Rightarrow> guard_env \<Rightarrow> (string, string) dict \<Rightarrow> ledger_row list \<Rightarrow> artifact_row list \<Rightarrow> jobj res" where
  "build_projection fromiso env environ entries artifact_rows =
     res_bind (assemble_projection fromiso env environ entries artifact_rows) (\<lambda>projection.
     res_bind (validate_projection_semantics projection) (\<lambda>v.
     res_bind (raise_if (\<not> validation_ok v)
       (ProjectionUnavailable (''generated projection failed semantic validation: '' @ join ''; '' (cv_errors v)))) (\<lambda>_.
     Inr projection)))"

definition build_projection_from_db :: "(string \<Rightarrow> parsed_time) \<Rightarrow> guard_env \<Rightarrow> (string, string) dict \<Rightarrow> db \<Rightarrow> jobj res" where
  "build_projection_from_db fromiso env environ d =
     build_projection fromiso env environ (read_ledger d) (sort_key artifact_hash (contract_artifacts d))"

end
