(* ===== verification/Federation_Relation.thy ===== *)
theory Federation_Relation
  imports Evidence
begin

text \<open>
  \<open>app/federation_relation.py\<close>, the relations and their HMAC gate: a directed authorization
  between two domains, witnessed by both authorities over its canonical payload, and the gate
  that decides whether a request may cross. The clock is an argument. The witness class of
  \<open>app/federation_ed25519.py\<close> is here too, since a relation may carry either.
\<close>

definition HMAC_SCHEME :: string where
  "HMAC_SCHEME = ''HMAC-SHA256-SHARED-SECRET-V1''"

definition ED25519_SCHEME :: string where
  "ED25519_SCHEME = ''ED25519-PUBLIC-KEY-V1''"

datatype relation_status = ACTIVE | REVOKED

fun status_value :: "relation_status \<Rightarrow> string" where
  "status_value ACTIVE = ''ACTIVE''"
| "status_value REVOKED = ''REVOKED''"

definition require_sha256 :: "string \<Rightarrow> string \<Rightarrow> unit res" where
  "require_sha256 v name =
     raise_if (\<not> hex_lower_n 64 v) (ValueError (name @ '' must be a lowercase SHA-256 hex digest''))"

definition blocked_key :: "string \<Rightarrow> string \<Rightarrow> string \<Rightarrow> string" where
  "blocked_key src dst rid = ascii_json (JArr [JStr src, JStr dst, JStr rid])"

section \<open>Witnesses\<close>

record relation_witness =
  hw_scheme :: string
  hw_payload_sha256 :: string
  source_hmac_sha256 :: string
  target_hmac_sha256 :: string

record ed25519_witness =
  ew_scheme :: string
  ew_payload_sha256 :: string
  source_signature_hex :: "string option"
  target_signature_hex :: "string option"

datatype witness = Hmac relation_witness | Ed25519 ed25519_witness

definition check_relation_witness :: "relation_witness \<Rightarrow> relation_witness res" where
  "check_relation_witness w =
     res_bind (require_text (hw_scheme w) ''scheme'') (\<lambda>_.
     res_bind (require_sha256 (hw_payload_sha256 w) ''payload_sha256'') (\<lambda>_.
     res_bind (require_sha256 (source_hmac_sha256 w) ''source_hmac_sha256'') (\<lambda>_.
     res_bind (require_sha256 (target_hmac_sha256 w) ''target_hmac_sha256'') (\<lambda>_.
     Inr w))))"

section \<open>Relations and requests\<close>

record federation_relation =
  relation_id :: string
  source_domain :: string
  target_domain :: string
  source_authority :: string
  target_authority :: string
  rel_contract_hash :: string
  rel_capabilities :: "string list"
  rel_valid_from :: int
  rel_valid_until :: int
  rel_status :: relation_status
  evidence_policy :: string
  witness_scheme :: string
  rel_witness :: "witness option"

definition check_relation :: "federation_relation \<Rightarrow> federation_relation res" where
  "check_relation r =
     res_bind (res_map (\<lambda>(v, name). require_text v name)
        [(relation_id r, ''relation_id''), (source_domain r, ''source_domain''), (target_domain r, ''target_domain''),
         (source_authority r, ''source_authority''), (target_authority r, ''target_authority''),
         (evidence_policy r, ''evidence_policy''), (witness_scheme r, ''witness_scheme'')]) (\<lambda>_.
     res_bind (raise_if (source_domain r = target_domain r)
        (ValueError ''federation relation must cross distinct domains'')) (\<lambda>_.
     res_bind (raise_if (source_authority r = target_authority r)
        (ValueError ''federation relation requires distinct authorities'')) (\<lambda>_.
     res_bind (require_sha256 (rel_contract_hash r) ''contract_hash'') (\<lambda>_.
     res_bind (raise_if (rel_valid_until r \<le> rel_valid_from r)
        (ValueError ''valid_until must be greater than valid_from'')) (\<lambda>_.
     res_bind (raise_if (rel_capabilities r = []) (ValueError ''at least one capability is required'')) (\<lambda>_.
     res_bind (raise_if (list_ex blank (rel_capabilities r)) (ValueError ''capabilities must be non-empty strings'')) (\<lambda>_.
     res_bind (raise_if (rel_capabilities r \<noteq> sort (remdups (rel_capabilities r)))
        (ValueError ''capabilities must be unique and lexicographically sorted'')) (\<lambda>_.
     res_bind (raise_if (''*'' \<in> set (rel_capabilities r))
        (ValueError ''wildcard federation capability is forbidden'')) (\<lambda>_.
     Inr r)))))))))"

definition canonical_payload :: "federation_relation \<Rightarrow> jobj" where
  "canonical_payload r =
     [(''relation_id'', JStr (relation_id r)), (''source_domain'', JStr (source_domain r)),
      (''target_domain'', JStr (target_domain r)), (''source_authority'', JStr (source_authority r)),
      (''target_authority'', JStr (target_authority r)), (''contract_hash'', JStr (rel_contract_hash r)),
      (''capabilities'', JArr (map JStr (rel_capabilities r))), (''valid_from'', JInt (rel_valid_from r)),
      (''valid_until'', JInt (rel_valid_until r)), (''status'', JStr (status_value (rel_status r))),
      (''evidence_policy'', JStr (evidence_policy r)), (''witness_scheme'', JStr (witness_scheme r))]"

definition payload_text :: "federation_relation \<Rightarrow> string" where
  "payload_text r = ascii_json (JObj (canonical_payload r))"

definition payload_sha256 :: "federation_relation \<Rightarrow> string" where
  "payload_sha256 r = sha256_text (payload_text r)"

record relation_request =
  req_source_domain :: string
  req_target_domain :: string
  req_contract_hash :: string
  req_capability :: string

definition check_request :: "relation_request \<Rightarrow> relation_request res" where
  "check_request q =
     res_bind (require_text (req_source_domain q) ''source_domain'') (\<lambda>_.
     res_bind (require_text (req_target_domain q) ''target_domain'') (\<lambda>_.
     res_bind (require_text (req_capability q) ''capability'') (\<lambda>_.
     res_bind (require_sha256 (req_contract_hash q) ''contract_hash'') (\<lambda>_. Inr q))))"

record relation_decision =
  rd_relation_id :: string
  admissible :: bool
  reasons :: "string list"
  relation_sha256 :: string
  evaluated_at :: int

text \<open>The decision object every gate ends with.\<close>

definition decision_of :: "federation_relation \<Rightarrow> int \<Rightarrow> string list \<Rightarrow> relation_decision" where
  "decision_of r t why = \<lparr>rd_relation_id = relation_id r, admissible = (why = []), reasons = why,
     relation_sha256 = payload_sha256 r, evaluated_at = t\<rparr>"

section \<open>Signing\<close>

definition signature_message :: "string \<Rightarrow> string \<Rightarrow> string" where
  "signature_message role digest = ''matverse.federation-relation.v1'' @ [CHR 0x0A] @ role @ [CHR 0x0A] @ digest"

definition relation_signature :: "string \<Rightarrow> string \<Rightarrow> string \<Rightarrow> string res" where
  "relation_signature secret digest role =
     (if secret = '''' then Inl (ValueError ''authority secret must be non-empty'')
      else Inr (hmac_text secret (signature_message role digest)))"

definition sign_relation :: "federation_relation \<Rightarrow> string \<Rightarrow> string \<Rightarrow> federation_relation res" where
  "sign_relation r source_secret target_secret =
     res_bind (raise_if (rel_witness r \<noteq> None) (ValueError ''relation is already witnessed'')) (\<lambda>_.
     res_bind (raise_if (witness_scheme r \<noteq> HMAC_SCHEME)
        (ValueError (''unsupported witness scheme: '' @ witness_scheme r))) (\<lambda>_.
     res_bind (require_text source_secret ''source_secret'') (\<lambda>_.
     res_bind (require_text target_secret ''target_secret'') (\<lambda>_.
     res_bind (compare_digest source_secret target_secret) (\<lambda>same.
     res_bind (raise_if same (ValueError ''source and target authority secrets must be distinct'')) (\<lambda>_.
     let digest = payload_sha256 r in
     res_bind (relation_signature source_secret digest ''source'') (\<lambda>s.
     res_bind (relation_signature target_secret digest ''target'') (\<lambda>t.
     res_bind (check_relation_witness \<lparr>hw_scheme = HMAC_SCHEME, hw_payload_sha256 = digest,
                 source_hmac_sha256 = s, target_hmac_sha256 = t\<rparr>) (\<lambda>w.
     check_relation (r\<lparr>rel_witness := Some (Hmac w)\<rparr>))))))))))"

section \<open>The HMAC gate\<close>

definition reason_if :: "bool \<Rightarrow> string \<Rightarrow> string list" where
  "reason_if bad why = (if bad then [why] else [])"

text \<open>What every gate asks of the relation and the request, in the order of the checks.\<close>

definition common_reasons :: "federation_relation \<Rightarrow> relation_request \<Rightarrow> int \<Rightarrow> string list res" where
  "common_reasons r q t =
     res_bind (compare_digest (req_contract_hash q) (rel_contract_hash r)) (\<lambda>same.
     Inr (reason_if (rel_status r \<noteq> ACTIVE) (''status:'' @ status_value (rel_status r)) @
          reason_if (req_source_domain q \<noteq> source_domain r) ''source_domain_mismatch'' @
          reason_if (req_target_domain q \<noteq> target_domain r) ''target_domain_mismatch'' @
          reason_if (\<not> same) ''contract_hash_mismatch'' @
          reason_if (req_capability q \<notin> set (rel_capabilities r)) ''capability_out_of_scope'' @
          reason_if (t < rel_valid_from r) ''relation_not_yet_valid'' @
          reason_if (t \<ge> rel_valid_until r) ''relation_expired''))"

definition check_secrets :: "(string, string) dict \<Rightarrow> (string, string) dict res" where
  "check_secrets secrets =
     res_bind (raise_if (list_ex (\<lambda>(k, v). k = '''') secrets) (ValueError ''authority ids must be non-empty strings'')) (\<lambda>_.
     res_bind (raise_if (list_ex (\<lambda>(k, v). v = '''') secrets) (ValueError ''authority secrets must be non-empty strings'')) (\<lambda>_.
     Inr secrets))"

text \<open>\<open>if secret:\<close>, for the secret of an authority.\<close>

definition secret_of :: "(string, string) dict \<Rightarrow> string \<Rightarrow> string option" where
  "secret_of secrets who = (case map_of secrets who of Some s \<Rightarrow> if s = '''' then None else Some s | None \<Rightarrow> None)"

definition role_reasons :: "string option \<Rightarrow> string \<Rightarrow> string \<Rightarrow> string \<Rightarrow> string list res" where
  "role_reasons secret digest role signature = (case secret of
      None \<Rightarrow> Inr []
    | Some s \<Rightarrow> res_bind (relation_signature s digest role) (\<lambda>expected.
        res_bind (compare_digest expected signature) (\<lambda>same.
        Inr (reason_if (\<not> same) (''invalid_'' @ role @ ''_witness'')))))"

definition shared_secret :: "string option \<Rightarrow> string option \<Rightarrow> bool res" where
  "shared_secret a b = (case (a, b) of (Some s, Some t) \<Rightarrow> compare_digest s t | _ \<Rightarrow> Inr False)"

definition hmac_witness_reasons ::
  "(string, string) dict \<Rightarrow> federation_relation \<Rightarrow> relation_witness \<Rightarrow> string list res" where
  "hmac_witness_reasons secrets r w =
    (let digest = payload_sha256 r;
         source = secret_of secrets (source_authority r); target = secret_of secrets (target_authority r)
     in res_bind (compare_digest (hw_payload_sha256 w) digest) (\<lambda>same.
        res_bind (shared_secret source target) (\<lambda>shared.
        res_bind (role_reasons source digest ''source'' (source_hmac_sha256 w)) (\<lambda>rs.
        res_bind (role_reasons target digest ''target'' (target_hmac_sha256 w)) (\<lambda>rt.
        Inr (reason_if (hw_scheme w \<noteq> witness_scheme r) ''witness_scheme_mismatch'' @
             reason_if (\<not> same) ''witness_payload_hash_mismatch'' @
             reason_if (source = None) ''unknown_source_authority'' @
             reason_if (target = None) ''unknown_target_authority'' @
             reason_if shared ''shared_authority_secret'' @ rs @ rt))))))"

definition evaluate_hmac ::
  "(string, string) dict \<Rightarrow> int \<Rightarrow> federation_relation \<Rightarrow> relation_request \<Rightarrow> relation_decision res" where
  "evaluate_hmac secrets t r q =
     res_bind (common_reasons r q t) (\<lambda>common.
     res_bind (case rel_witness r of
         None \<Rightarrow> Inr [''missing_bilateral_witness'']
       | Some (Ed25519 w) \<Rightarrow> Inr [''witness_type_mismatch'']
       | Some (Hmac w) \<Rightarrow> hmac_witness_reasons secrets r w) (\<lambda>witness.
     Inr (decision_of r t
       (common @ reason_if (witness_scheme r \<noteq> HMAC_SCHEME) ''unsupported_witness_scheme'' @ witness))))"

end
