(* ===== verification/Relation_Properties.thy ===== *)
theory Relation_Properties
  imports Federation_Relation
begin

text \<open>
  What a relation's witness binds, what the HMAC gate admits, and the contract of a relation
  gate as a locale: whatever its witness scheme, a gate admits only requests in the scope of a
  relation whose witness is over the relation's own payload.
\<close>

definition in_scope :: "federation_relation \<Rightarrow> relation_request \<Rightarrow> int \<Rightarrow> bool" where
  "in_scope r q t \<longleftrightarrow> rel_status r = ACTIVE \<and> req_source_domain q = source_domain r \<and>
     req_target_domain q = target_domain r \<and> req_contract_hash q = rel_contract_hash r \<and>
     req_capability q \<in> set (rel_capabilities r) \<and> rel_valid_from r \<le> t \<and> t < rel_valid_until r"

definition witness_payload :: "witness \<Rightarrow> string" where
  "witness_payload w = (case w of Hmac h \<Rightarrow> hw_payload_sha256 h | Ed25519 e \<Rightarrow> ew_payload_sha256 e)"

definition witnessed :: "federation_relation \<Rightarrow> bool" where
  "witnessed r \<longleftrightarrow> (\<exists>w. rel_witness r = Some w \<and> witness_payload w = payload_sha256 r)"

section \<open>The contract of a gate\<close>

locale relation_gate =
  fixes gate :: "int \<Rightarrow> federation_relation \<Rightarrow> relation_request \<Rightarrow> relation_decision res"
  assumes decided: "gate t r q = Inr d \<Longrightarrow> d = decision_of r t (reasons d)"
    and admits_in_scope: "gate t r q = Inr d \<Longrightarrow> reasons d = [] \<Longrightarrow> in_scope r q t"
    and admits_witnessed: "gate t r q = Inr d \<Longrightarrow> reasons d = [] \<Longrightarrow> witnessed r"
begin

lemma admissible_iff: "gate t r q = Inr d \<Longrightarrow> admissible d \<longleftrightarrow> reasons d = []"
  using decided [of t r q d] by (metis decision_of_def relation_decision.select_convs(2))

lemma admitted:
  assumes "gate t r q = Inr d" and "admissible d"
  shows "in_scope r q t" and "witnessed r" and "relation_sha256 d = payload_sha256 r"
  using assms admits_in_scope [OF assms(1)] admits_witnessed [OF assms(1)] decided [OF assms(1)] admissible_iff
  by (metis, metis, metis decision_of_def relation_decision.select_convs(4))

lemma refuses_revoked: "gate t r q = Inr d \<Longrightarrow> rel_status r = REVOKED \<Longrightarrow> \<not> admissible d"
  using admitted(1) by (fastforce simp: in_scope_def)

lemma refuses_expired: "gate t r q = Inr d \<Longrightarrow> rel_valid_until r \<le> t \<Longrightarrow> \<not> admissible d"
  using admitted(1) by (fastforce simp: in_scope_def)

lemma refuses_unwitnessed: "gate t r q = Inr d \<Longrightarrow> rel_witness r = None \<Longrightarrow> \<not> admissible d"
  using admitted(2) by (fastforce simp: witnessed_def)

end

section \<open>The payload determines the relation\<close>

lemma status_value_inj: "status_value a = status_value b \<longleftrightarrow> a = b"
  by (cases a; cases b) simp_all

lemma canonical_payload_wf: "wf_json (JObj (canonical_payload r))"
  by (simp add: canonical_payload_def list_all_iff)

lemma map_JStr_eq: "map JStr xs = map JStr ys \<longleftrightarrow> xs = ys"
  by (simp add: inj_map_eq_map inj_def)

lemma sort_strings: "sort_json (JArr (map JStr xs)) = JArr (map JStr xs)"
  by simp

lemma payload_fields:
  "map_of (canonical_payload r) ''relation_id'' = Some (JStr (relation_id r))"
  "map_of (canonical_payload r) ''source_domain'' = Some (JStr (source_domain r))"
  "map_of (canonical_payload r) ''target_domain'' = Some (JStr (target_domain r))"
  "map_of (canonical_payload r) ''source_authority'' = Some (JStr (source_authority r))"
  "map_of (canonical_payload r) ''target_authority'' = Some (JStr (target_authority r))"
  "map_of (canonical_payload r) ''contract_hash'' = Some (JStr (rel_contract_hash r))"
  "map_of (canonical_payload r) ''capabilities'' = Some (JArr (map JStr (rel_capabilities r)))"
  "map_of (canonical_payload r) ''valid_from'' = Some (JInt (rel_valid_from r))"
  "map_of (canonical_payload r) ''valid_until'' = Some (JInt (rel_valid_until r))"
  "map_of (canonical_payload r) ''status'' = Some (JStr (status_value (rel_status r)))"
  "map_of (canonical_payload r) ''evidence_policy'' = Some (JStr (evidence_policy r))"
  "map_of (canonical_payload r) ''witness_scheme'' = Some (JStr (witness_scheme r))"
  by (simp_all add: canonical_payload_def)

lemma payload_text_binds:
  assumes "payload_text r = payload_text r'"
  shows "r\<lparr>rel_witness := None\<rparr> = r'\<lparr>rel_witness := None\<rparr>"
proof -
  have eq: "sort_json (JObj (canonical_payload r)) = sort_json (JObj (canonical_payload r'))"
    using ascii_json_determines [OF canonical_payload_wf canonical_payload_wf] assms
    unfolding payload_text_def by blast
  have field: "map_option sort_json (map_of (canonical_payload r) k) = map_option sort_json (map_of (canonical_payload r') k)" for k
    by (rule sorted_field_eq [OF eq]) (rule canonical_payload_wf)+
  have "relation_id r = relation_id r'" "source_domain r = source_domain r'" "target_domain r = target_domain r'"
    "source_authority r = source_authority r'" "target_authority r = target_authority r'"
    "rel_contract_hash r = rel_contract_hash r'"
    using field [of "''relation_id''"] field [of "''source_domain''"] field [of "''target_domain''"]
      field [of "''source_authority''"] field [of "''target_authority''"] field [of "''contract_hash''"]
    by (simp_all add: payload_fields)
  moreover have "rel_capabilities r = rel_capabilities r'" "rel_valid_from r = rel_valid_from r'"
    "rel_valid_until r = rel_valid_until r'" "rel_status r = rel_status r'"
    "evidence_policy r = evidence_policy r'" "witness_scheme r = witness_scheme r'"
    using field [of "''capabilities''"] field [of "''valid_from''"] field [of "''valid_until''"] field [of "''status''"]
      field [of "''evidence_policy''"] field [of "''witness_scheme''"]
    by (simp_all add: payload_fields status_value_inj comp_def map_JStr_eq)
  ultimately show ?thesis by (intro federation_relation.equality) simp_all
qed

lemma payload_sha256_binds:
  assumes "payload_sha256 r = payload_sha256 r'" and "inj_on sha256_text {payload_text r, payload_text r'}"
  shows "r\<lparr>rel_witness := None\<rparr> = r'\<lparr>rel_witness := None\<rparr>"
proof (rule payload_text_binds)
  show "payload_text r = payload_text r'"
    by (rule inj_onD [OF assms(2)]) (use assms(1) in \<open>simp_all add: payload_sha256_def\<close>)
qed

lemma payload_sha256_witness [simp]: "payload_sha256 (r\<lparr>rel_witness := w\<rparr>) = payload_sha256 r"
  by (simp add: payload_sha256_def payload_text_def canonical_payload_def)

section \<open>The HMAC gate\<close>

lemma reason_if_Nil [simp]: "reason_if b s = [] \<longleftrightarrow> \<not> b"
  by (simp add: reason_if_def)

lemma compare_digest_eq: "compare_digest a b = Inr e \<longleftrightarrow> is_ascii a \<and> is_ascii b \<and> e = (a = b)"
  by (auto simp: compare_digest_def)

lemma common_reasons_Nil:
  "common_reasons r q t = Inr [] \<longleftrightarrow> in_scope r q t \<and> is_ascii (rel_contract_hash r)"
  by (auto simp: common_reasons_def res_bind_eq_Inr compare_digest_eq in_scope_def)

text \<open>A witness value is right for a role when it is the HMAC of the digest under the authority's secret.\<close>

definition hmac_signed :: "(string, string) dict \<Rightarrow> string \<Rightarrow> string \<Rightarrow> string \<Rightarrow> string \<Rightarrow> bool" where
  "hmac_signed secrets who digest role signature \<longleftrightarrow>
     (\<exists>s. secret_of secrets who = Some s \<and> signature = hmac_text s (signature_message role digest))"

lemma secret_of_nonempty: "secret_of secrets who = Some s \<Longrightarrow> s \<noteq> ''''"
  by (auto simp: secret_of_def split: option.splits if_splits)

lemma role_reasons_Nil:
  "role_reasons (secret_of secrets who) digest role signature = Inr [] \<longleftrightarrow>
     secret_of secrets who = None \<or> (is_ascii signature \<and> hmac_signed secrets who digest role signature)"
  by (auto simp: role_reasons_def hmac_signed_def relation_signature_def res_bind_eq_Inr compare_digest_eq
      dest: secret_of_nonempty split: option.split)


definition hmac_witness_ok :: "(string, string) dict \<Rightarrow> federation_relation \<Rightarrow> relation_witness \<Rightarrow> bool" where
  "hmac_witness_ok secrets r w \<longleftrightarrow> hw_scheme w = witness_scheme r \<and> hw_payload_sha256 w = payload_sha256 r \<and>
     secret_of secrets (source_authority r) \<noteq> secret_of secrets (target_authority r) \<and>
     hmac_signed secrets (source_authority r) (payload_sha256 r) ''source'' (source_hmac_sha256 w) \<and>
     hmac_signed secrets (target_authority r) (payload_sha256 r) ''target'' (target_hmac_sha256 w)"

lemma hmac_witness_reasons_Nil:
  assumes "hmac_witness_reasons secrets r w = Inr rs"
  shows "rs = [] \<longleftrightarrow> hmac_witness_ok secrets r w"
proof -
  obtain same shared rs1 rs2 where steps: "compare_digest (hw_payload_sha256 w) (payload_sha256 r) = Inr same"
    "shared_secret (secret_of secrets (source_authority r)) (secret_of secrets (target_authority r)) = Inr shared"
    "role_reasons (secret_of secrets (source_authority r)) (payload_sha256 r) ''source'' (source_hmac_sha256 w) = Inr rs1"
    "role_reasons (secret_of secrets (target_authority r)) (payload_sha256 r) ''target'' (target_hmac_sha256 w) = Inr rs2"
    and rs: "rs = reason_if (hw_scheme w \<noteq> witness_scheme r) ''witness_scheme_mismatch'' @
             reason_if (\<not> same) ''witness_payload_hash_mismatch'' @
             reason_if (secret_of secrets (source_authority r) = None) ''unknown_source_authority'' @
             reason_if (secret_of secrets (target_authority r) = None) ''unknown_target_authority'' @
             reason_if shared ''shared_authority_secret'' @ rs1 @ rs2"
    using assms by (auto simp: hmac_witness_reasons_def Let_def)
  have 1: "rs1 = [] \<longleftrightarrow> secret_of secrets (source_authority r) = None \<or>
      is_ascii (source_hmac_sha256 w) \<and> hmac_signed secrets (source_authority r) (payload_sha256 r) ''source'' (source_hmac_sha256 w)"
    using role_reasons_Nil steps(3) by (metis sum.inject(2))
  have 2: "rs2 = [] \<longleftrightarrow> secret_of secrets (target_authority r) = None \<or>
      is_ascii (target_hmac_sha256 w) \<and> hmac_signed secrets (target_authority r) (payload_sha256 r) ''target'' (target_hmac_sha256 w)"
    using role_reasons_Nil steps(4) by (metis sum.inject(2))
  have "same \<longleftrightarrow> hw_payload_sha256 w = payload_sha256 r" using steps(1) by (simp add: compare_digest_eq)
  moreover have "shared \<longleftrightarrow> (\<exists>s. secret_of secrets (source_authority r) = Some s \<and> secret_of secrets (target_authority r) = Some s)"
    using steps(2) by (auto simp: shared_secret_def compare_digest_eq split: option.splits)
  ultimately show ?thesis
    unfolding rs hmac_witness_ok_def using 1 2 by (auto simp: hmac_signed_def)
qed

section \<open>What the HMAC gate decides\<close>

definition hmac_admits :: "(string, string) dict \<Rightarrow> int \<Rightarrow> federation_relation \<Rightarrow> relation_request \<Rightarrow> bool" where
  "hmac_admits secrets t r q \<longleftrightarrow> in_scope r q t \<and> witness_scheme r = HMAC_SCHEME \<and>
     (\<exists>w. rel_witness r = Some (Hmac w) \<and> hmac_witness_ok secrets r w)"

lemma evaluate_hmac_decision: "evaluate_hmac secrets t r q = Inr d \<Longrightarrow> d = decision_of r t (reasons d)"
  by (auto simp: evaluate_hmac_def decision_of_def)

lemma evaluate_hmac_Nil:
  assumes "evaluate_hmac secrets t r q = Inr d"
  shows "reasons d = [] \<longleftrightarrow> hmac_admits secrets t r q"
proof -
  obtain common wr where steps: "common_reasons r q t = Inr common"
    "(case rel_witness r of None \<Rightarrow> Inr [''missing_bilateral_witness'']
       | Some (Ed25519 w) \<Rightarrow> Inr [''witness_type_mismatch'']
       | Some (Hmac w) \<Rightarrow> hmac_witness_reasons secrets r w) = Inr wr"
    and d: "d = decision_of r t (common @ reason_if (witness_scheme r \<noteq> HMAC_SCHEME) ''unsupported_witness_scheme'' @ wr)"
    using assms by (auto simp: evaluate_hmac_def)
  have "is_ascii (rel_contract_hash r)"
    using steps(1) by (auto simp: common_reasons_def compare_digest_eq)
  then have "common = [] \<longleftrightarrow> in_scope r q t" using common_reasons_Nil [of r q t] steps(1) by auto
  moreover have "wr = [] \<longleftrightarrow> (\<exists>w. rel_witness r = Some (Hmac w) \<and> hmac_witness_ok secrets r w)"
    using steps(2) by (auto simp: hmac_witness_reasons_Nil split: option.splits witness.splits)
  ultimately show ?thesis by (simp add: d decision_of_def hmac_admits_def)
qed

interpretation hmac_gate: relation_gate "evaluate_hmac secrets"
proof unfold_locales
  show "d = decision_of r t (reasons d)" if "evaluate_hmac secrets t r q = Inr d" for t r q d
    using that by (rule evaluate_hmac_decision)
  show "in_scope r q t" if "evaluate_hmac secrets t r q = Inr d" "reasons d = []" for t r q d
    using evaluate_hmac_Nil [OF that(1)] that(2) by (simp add: hmac_admits_def)
  show "witnessed r" if "evaluate_hmac secrets t r q = Inr d" "reasons d = []" for t r q d
    using evaluate_hmac_Nil [OF that(1)] that(2)
    by (auto simp: hmac_admits_def hmac_witness_ok_def witnessed_def witness_payload_def)
qed

text \<open>The HMAC gate decides exactly by its rule. A decision admits if and only if the relation is active, the
  request has its domains, its contract hash and one of its capabilities, the time is within its
  window, the scheme is the HMAC scheme, and its witness carries the digest of its own payload and,
  for both authorities, the HMAC of that digest and the role under two different secrets the gate holds.\<close>

theorem hmac_gate_decides:
  assumes "evaluate_hmac secrets t r q = Inr d"
  shows "(admissible d \<longleftrightarrow> hmac_admits secrets t r q) \<and> (admissible d \<longleftrightarrow> reasons d = []) \<and>
    relation_sha256 d = payload_sha256 r \<and> evaluated_at d = t"
  using evaluate_hmac_Nil [OF assms] evaluate_hmac_decision [OF assms] hmac_gate.admissible_iff [OF assms]
  by (metis decision_of_def relation_decision.select_convs(4,5))

section \<open>Signing and verifying\<close>

lemma sign_relationE:
  assumes "sign_relation r s1 s2 = Inr r'"
  obtains "rel_witness r = None" "witness_scheme r = HMAC_SCHEME" "s1 \<noteq> s2" "s1 \<noteq> ''''" "s2 \<noteq> ''''" "is_ascii s1" "is_ascii s2"
    "r' = r\<lparr>rel_witness := Some (Hmac \<lparr>hw_scheme = HMAC_SCHEME, hw_payload_sha256 = payload_sha256 r,
        source_hmac_sha256 = hmac_text s1 (signature_message ''source'' (payload_sha256 r)),
        target_hmac_sha256 = hmac_text s2 (signature_message ''target'' (payload_sha256 r))\<rparr>)\<rparr>"
  using assms
  by (auto simp: sign_relation_def Let_def compare_digest_eq relation_signature_def check_relation_def
      check_relation_witness_def split: if_splits)

lemma payload_sha256_hex: "is_ascii (payload_sha256 r)"
  by (simp add: payload_sha256_def)

text \<open>A gate that holds the secrets of a signed relation decides by the common checks alone.\<close>

lemma signed_relation_evaluates:
  assumes "sign_relation r s1 s2 = Inr r'"
    and "map_of secrets (source_authority r) = Some s1" and "map_of secrets (target_authority r) = Some s2"
    and "is_ascii (rel_contract_hash r)" and "is_ascii (req_contract_hash q)"
  shows "\<exists>common. common_reasons r' q t = Inr common \<and> evaluate_hmac secrets t r' q = Inr (decision_of r' t common)"
  using assms(1)
proof (cases rule: sign_relationE)
  case 1
  have sec: "secret_of secrets (source_authority r') = Some s1" "secret_of secrets (target_authority r') = Some s2"
    using assms(2,3) 1 by (simp_all add: secret_of_def)
  obtain common where common: "common_reasons r' q t = Inr common"
    using assms(4,5) 1(8) by (simp add: common_reasons_def compare_digest_def)
  have "hmac_witness_reasons secrets r' (\<lparr>hw_scheme = HMAC_SCHEME, hw_payload_sha256 = payload_sha256 r,
        source_hmac_sha256 = hmac_text s1 (signature_message ''source'' (payload_sha256 r)),
        target_hmac_sha256 = hmac_text s2 (signature_message ''target'' (payload_sha256 r))\<rparr>) = Inr []"
    using 1 sec by (simp add: hmac_witness_reasons_def Let_def shared_secret_def role_reasons_def relation_signature_def
        compare_digest_def payload_sha256_hex reason_if_def)
  then show ?thesis
    using common 1(2,8) by (simp add: evaluate_hmac_def reason_if_def)
qed

text \<open>A relation that two authorities signed is admitted by a gate that holds their secrets, for every
  request in its scope while it is valid; nothing raises.\<close>

theorem signed_relation_admitted:
  assumes "sign_relation r s1 s2 = Inr r'"
    and "map_of secrets (source_authority r) = Some s1" and "map_of secrets (target_authority r) = Some s2"
    and "in_scope r' q t" and "is_ascii (rel_contract_hash r)"
  shows "evaluate_hmac secrets t r' q = Inr (decision_of r' t [])"
proof -
  have same: "rel_contract_hash r' = rel_contract_hash r" using assms(1) by (auto elim: sign_relationE)
  have "common_reasons r' q t = Inr []" using assms(4,5) same by (simp add: common_reasons_Nil)
  moreover have "is_ascii (req_contract_hash q)" using assms(4,5) same by (simp add: in_scope_def)
  ultimately show ?thesis using signed_relation_evaluates [OF assms(1-3,5), of q t] by auto
qed

text \<open>A witness cannot be moved to a changed relation. If a relation that carries the witness made for
  another one is admitted by any HMAC gate, the two agree in every field, unless SHA-256 collides
  on their two payloads.\<close>

theorem witness_not_transferable:
  assumes "sign_relation r s1 s2 = Inr r'" and "rel_witness r2 = rel_witness r'"
    and "evaluate_hmac secrets t r2 q = Inr d" and "admissible d"
    and "inj_on sha256_text {payload_text r2, payload_text r}"
  shows "r2 = r'"
  using assms(1)
proof (cases rule: sign_relationE)
  case 1
  have "witnessed r2" by (rule hmac_gate.admitted [OF assms(3,4)])
  then have "payload_sha256 r2 = payload_sha256 r"
    using assms(2) 1(8) by (simp add: witnessed_def witness_payload_def)
  then have "r2\<lparr>rel_witness := None\<rparr> = r\<lparr>rel_witness := None\<rparr>" by (rule payload_sha256_binds) (rule assms(5))
  then have "(r2\<lparr>rel_witness := None\<rparr>)\<lparr>rel_witness := rel_witness r'\<rparr> = (r\<lparr>rel_witness := None\<rparr>)\<lparr>rel_witness := rel_witness r'\<rparr>"
    by simp
  moreover have "(r2\<lparr>rel_witness := None\<rparr>)\<lparr>rel_witness := rel_witness r'\<rparr> = r2"
    using assms(2) by simp
  moreover have "(r\<lparr>rel_witness := None\<rparr>)\<lparr>rel_witness := rel_witness r'\<rparr> = r'"
    unfolding 1(8) by simp
  ultimately show ?thesis by simp
qed

section \<open>Witnesses\<close>

definition sample_relation :: federation_relation where
  "sample_relation = \<lparr>relation_id = ''r1'', source_domain = ''a'', target_domain = ''b'',
     source_authority = ''auth-a'', target_authority = ''auth-b'', rel_contract_hash = replicate 64 (CHR ''0''),
     rel_capabilities = [''read''], rel_valid_from = 10, rel_valid_until = 20, rel_status = ACTIVE,
     evidence_policy = ''receipt_required'', witness_scheme = HMAC_SCHEME, rel_witness = None\<rparr>"

definition sample_secrets :: "(string, string) dict" where
  "sample_secrets = [(''auth-a'', ''s1''), (''auth-b'', ''s2'')]"

definition sample_relation_request :: relation_request where
  "sample_relation_request = \<lparr>req_source_domain = ''a'', req_target_domain = ''b'',
     req_contract_hash = replicate 64 (CHR ''0''), req_capability = ''read''\<rparr>"

lemma sample_hash_ok: "hex_lower_n 64 (replicate 64 (CHR ''0''))"
  by (simp add: hex_lower_n_def is_hex_lower_def list_all_iff)

lemma sample_relation_checks: "check_relation (sample_relation\<lparr>rel_witness := w\<rparr>) = Inr (sample_relation\<lparr>rel_witness := w\<rparr>)"
  using sample_hash_ok
  by (simp add: check_relation_def sample_relation_def require_text_def require_sha256_def blank_iff is_space_def
      HMAC_SCHEME_def)

lemma sample_signed: "\<exists>r'. sign_relation sample_relation ''s1'' ''s2'' = Inr r'"
  using sample_relation_checks sample_hash_ok
  by (simp add: sign_relation_def Let_def compare_digest_def is_ascii_def relation_signature_def check_relation_witness_def
      require_text_def require_sha256_def blank_iff is_space_def HMAC_SCHEME_def hmac_text_hex sha256_text_hex payload_sha256_def)
    (simp add: sample_relation_def HMAC_SCHEME_def)

lemma sample_in_scope: "in_scope (sample_relation\<lparr>rel_witness := w\<rparr>) sample_relation_request 15"
  by (simp add: in_scope_def sample_relation_def sample_relation_request_def)

theorem signed_relation_admitted_witness:
  "\<exists>r'. sign_relation sample_relation ''s1'' ''s2'' = Inr r' \<and>
     evaluate_hmac sample_secrets 15 r' sample_relation_request = Inr (decision_of r' 15 [])"
proof -
  obtain r' where r': "sign_relation sample_relation ''s1'' ''s2'' = Inr r'" using sample_signed by blast
  have scope: "in_scope r' sample_relation_request 15"
    using r' sample_in_scope by (auto elim: sign_relationE)
  have "evaluate_hmac sample_secrets 15 r' sample_relation_request = Inr (decision_of r' 15 [])"
    by (rule signed_relation_admitted [OF r' _ _ scope])
      (use hex_lower_ascii [OF sample_hash_ok] in \<open>simp_all add: sample_secrets_def sample_relation_def\<close>)
  then show ?thesis using r' by blast
qed

theorem hmac_gate_decides_witness:
  "\<exists>r' d. sign_relation sample_relation ''s1'' ''s2'' = Inr r' \<and>
     evaluate_hmac sample_secrets 20 r' sample_relation_request = Inr d \<and> \<not> admissible d"
proof -
  obtain r' where r': "sign_relation sample_relation ''s1'' ''s2'' = Inr r'" using sample_signed by blast
  have ascii: "is_ascii (rel_contract_hash sample_relation)" "is_ascii (req_contract_hash sample_relation_request)"
    using hex_lower_ascii [OF sample_hash_ok] by (simp_all add: sample_relation_def sample_relation_request_def)
  have keys: "map_of sample_secrets (source_authority sample_relation) = Some ''s1''"
    "map_of sample_secrets (target_authority sample_relation) = Some ''s2''"
    by (simp_all add: sample_secrets_def sample_relation_def)
  obtain d where d: "evaluate_hmac sample_secrets 20 r' sample_relation_request = Inr d"
    using signed_relation_evaluates [OF r' keys ascii] by blast
  have "\<not> hmac_admits sample_secrets 20 r' sample_relation_request"
    using r' by (auto elim!: sign_relationE simp: hmac_admits_def in_scope_def sample_relation_def)
  then show ?thesis using hmac_gate_decides [OF d] r' d by blast
qed

theorem witness_not_transferable_witness:
  "\<exists>r' d. sign_relation sample_relation ''s1'' ''s2'' = Inr r' \<and>
     evaluate_hmac sample_secrets 15 (sample_relation\<lparr>rel_witness := rel_witness r'\<rparr>) sample_relation_request = Inr d \<and>
     admissible d \<and> sample_relation\<lparr>rel_witness := rel_witness r'\<rparr> = r'"
proof -
  obtain r' where r': "sign_relation sample_relation ''s1'' ''s2'' = Inr r'" using sample_signed by blast
  have ascii: "is_ascii (rel_contract_hash sample_relation)" "is_ascii (req_contract_hash sample_relation_request)"
    using hex_lower_ascii [OF sample_hash_ok] by (simp_all add: sample_relation_def sample_relation_request_def)
  have keys: "map_of sample_secrets (source_authority sample_relation) = Some ''s1''"
    "map_of sample_secrets (target_authority sample_relation) = Some ''s2''"
    by (simp_all add: sample_secrets_def sample_relation_def)
  have scope: "common_reasons r' sample_relation_request 15 = Inr []"
    using r' sample_in_scope ascii by (auto elim!: sign_relationE simp: common_reasons_Nil)
  have ev: "evaluate_hmac sample_secrets 15 r' sample_relation_request = Inr (decision_of r' 15 [])"
    using signed_relation_evaluates [OF r' keys ascii, of 15] scope by auto
  let ?r2 = "sample_relation\<lparr>rel_witness := rel_witness r'\<rparr>"
  have "?r2 = r'" using r' by (auto elim!: sign_relationE)
  then have ev2: "evaluate_hmac sample_secrets 15 ?r2 sample_relation_request = Inr (decision_of r' 15 [])" using ev by simp
  have "payload_text ?r2 = payload_text sample_relation"
    by (simp add: payload_text_def canonical_payload_def)
  then have "?r2 = r'"
    by (intro witness_not_transferable [OF r' _ ev2]) (simp_all add: decision_of_def)
  then show ?thesis using r' ev2 by (auto simp: decision_of_def)
qed

end
