(* ===== verification/Federation_Ed25519.thy ===== *)
theory Federation_Ed25519
  imports Relation_Properties
begin

text \<open>
  \<open>app/federation_ed25519.py\<close>: bilateral witnesses with public keys, the gate that verifies them
  and the gate that accepts both schemes. The Ed25519 functions of the \<open>cryptography\<close> package
  are arguments: \<open>pub\<close> gives the raw public key of a private key, \<open>sign\<close> a signature,
  \<open>verify\<close> whether a signature of a message verifies under a raw public key. What the code
  relies on is that \<open>verify\<close> accepts what \<open>sign\<close> made, stated where it is used. A public key
  object is its 32 raw bytes.
\<close>

section \<open>Hexadecimal arguments\<close>

text \<open>\<open>bytes.fromhex\<close>, which skips ASCII white space between bytes.\<close>

definition ascii_space :: "char \<Rightarrow> bool" where
  "ascii_space c = (let n = of_char c :: nat in n = 32 \<or> (9 \<le> n \<and> n \<le> 13))"

fun py_fromhex :: "string \<Rightarrow> byte list option" where
  "py_fromhex [] = Some []"
| "py_fromhex (c # r) =
     (if ascii_space c then py_fromhex r
      else case r of
          [] \<Rightarrow> None
        | d # r' \<Rightarrow> (case (hex_value c, hex_value d, py_fromhex r') of
            (Some x, Some y, Some bs) \<Rightarrow> Some (of_nat (16 * x + y) # bs)
          | _ \<Rightarrow> None))"

text \<open>\<open>_require_sha256\<close> of this module, which parses the bytes instead of matching a pattern.\<close>

definition require_sha256_bytes :: "string \<Rightarrow> string \<Rightarrow> unit res" where
  "require_sha256_bytes v name =
    (let err = ValueError (name @ '' must be a lowercase SHA-256 hex digest'') in
     res_bind (raise_if (length v \<noteq> 64) err) (\<lambda>_.
     case py_fromhex v of
       None \<Rightarrow> Inl err
     | Some raw \<Rightarrow> raise_if (length raw \<noteq> 32 \<or> v \<noteq> lower v) err))"

definition require_signature :: "string option \<Rightarrow> string \<Rightarrow> unit res" where
  "require_signature v name = (case v of
      None \<Rightarrow> Inr ()
    | Some s \<Rightarrow> raise_if (\<not> hex_lower_n 128 s) (ValueError (name @ '' must be a lowercase 64-byte Ed25519 signature hex'')))"

text \<open>A public key is given as a key object or as raw hex.\<close>

datatype key_input = KeyObject "byte list" | KeyHex string

definition coerce_public_key :: "key_input \<Rightarrow> byte list res" where
  "coerce_public_key k = (case k of
      KeyObject raw \<Rightarrow> Inr raw
    | KeyHex s \<Rightarrow>
        res_bind (raise_if (\<not> hex_lower_n 64 s) (ValueError ''Ed25519 public key must be 32-byte lowercase raw hex'')) (\<lambda>_.
        case py_fromhex s of None \<Rightarrow> Inl (ValueError ''non-hexadecimal number found in fromhex() arg'') | Some raw \<Rightarrow> Inr raw))"

definition ed25519_message :: "string \<Rightarrow> string \<Rightarrow> string" where
  "ed25519_message digest role = ''matverse.federation-relation.v1'' @ [CHR 0x0A] @ ED25519_SCHEME @ [CHR 0x0A] @
     role @ [CHR 0x0A] @ digest"

definition signing_message :: "string \<Rightarrow> string \<Rightarrow> byte list res" where
  "signing_message digest role =
     res_bind (require_sha256_bytes digest ''payload_sha256'') (\<lambda>_.
     res_bind (raise_if (role \<notin> {''source'', ''target''}) (ValueError ''role must be source or target'')) (\<lambda>_.
     Inr (utf8 (ed25519_message digest role))))"

section \<open>Signing\<close>

definition check_ed25519_witness :: "ed25519_witness \<Rightarrow> ed25519_witness res" where
  "check_ed25519_witness w =
     res_bind (raise_if (ew_scheme w \<noteq> ED25519_SCHEME) (ValueError ''invalid Ed25519 witness scheme'')) (\<lambda>_.
     res_bind (require_sha256_bytes (ew_payload_sha256 w) ''payload_sha256'') (\<lambda>_.
     res_bind (require_signature (source_signature_hex w) ''source_signature_hex'') (\<lambda>_.
     res_bind (require_signature (target_signature_hex w) ''target_signature_hex'') (\<lambda>_.
     Inr w))))"

definition witness_for_signing :: "federation_relation \<Rightarrow> (string \<times> ed25519_witness) res" where
  "witness_for_signing r =
     res_bind (raise_if (witness_scheme r \<noteq> ED25519_SCHEME)
        (ValueError (''unsupported witness scheme: '' @ witness_scheme r))) (\<lambda>_.
     let digest = payload_sha256 r in
     case rel_witness r of
       None \<Rightarrow> res_bind (check_ed25519_witness \<lparr>ew_scheme = ED25519_SCHEME, ew_payload_sha256 = digest,
                  source_signature_hex = None, target_signature_hex = None\<rparr>) (\<lambda>w. Inr (digest, w))
     | Some (Hmac w) \<Rightarrow> Inl (ValueError ''relation carries a witness from a different scheme'')
     | Some (Ed25519 w) \<Rightarrow>
         res_bind (compare_digest (ew_payload_sha256 w) digest) (\<lambda>same.
         res_bind (raise_if (\<not> same) (ValueError ''existing witness payload does not match current relation'')) (\<lambda>_.
         Inr (digest, w))))"

definition sign_source :: "('k \<Rightarrow> byte list \<Rightarrow> byte list) \<Rightarrow> 'k \<Rightarrow> federation_relation \<Rightarrow> federation_relation res" where
  "sign_source sign key r =
     res_bind (witness_for_signing r) (\<lambda>(digest, w).
     res_bind (raise_if (source_signature_hex w \<noteq> None)
        (ValueError ''source authority has already signed this relation'')) (\<lambda>_.
     res_bind (signing_message digest ''source'') (\<lambda>m.
     res_bind (check_ed25519_witness (w\<lparr>source_signature_hex := Some (bytes_hex (sign key m))\<rparr>)) (\<lambda>w'.
     check_relation (r\<lparr>rel_witness := Some (Ed25519 w')\<rparr>)))))"

definition sign_target :: "('k \<Rightarrow> byte list \<Rightarrow> byte list) \<Rightarrow> 'k \<Rightarrow> federation_relation \<Rightarrow> federation_relation res" where
  "sign_target sign key r =
     res_bind (witness_for_signing r) (\<lambda>(digest, w).
     res_bind (raise_if (target_signature_hex w \<noteq> None)
        (ValueError ''target authority has already signed this relation'')) (\<lambda>_.
     res_bind (signing_message digest ''target'') (\<lambda>m.
     res_bind (check_ed25519_witness (w\<lparr>target_signature_hex := Some (bytes_hex (sign key m))\<rparr>)) (\<lambda>w'.
     check_relation (r\<lparr>rel_witness := Some (Ed25519 w')\<rparr>)))))"

section \<open>The public-key gate\<close>

fun new_key_ring :: "(string \<times> key_input) list \<Rightarrow> (string, byte list) dict \<Rightarrow> (string, byte list) dict res" where
  "new_key_ring [] ring = Inr ring"
| "new_key_ring ((who, k) # rest) ring =
     res_bind (raise_if (blank who) (ValueError ''authority ids must be non-empty strings'')) (\<lambda>_.
     res_bind (coerce_public_key k) (\<lambda>raw. new_key_ring rest (dict_set ring who raw)))"

definition signature_reasons ::
  "(byte list \<Rightarrow> byte list \<Rightarrow> byte list \<Rightarrow> bool) \<Rightarrow> byte list option \<Rightarrow> string \<Rightarrow> string \<Rightarrow> string option \<Rightarrow> string list res" where
  "signature_reasons verify key digest role signature = (case signature of
      None \<Rightarrow> Inr [''missing_'' @ role @ ''_witness'']
    | Some s \<Rightarrow> (case key of
        None \<Rightarrow> Inr []
      | Some k \<Rightarrow> (case py_fromhex s of
          None \<Rightarrow> Inl (ValueError ''non-hexadecimal number found in fromhex() arg'')
        | Some raw \<Rightarrow> res_bind (signing_message digest role) (\<lambda>m.
            Inr (reason_if (\<not> verify k raw m) (''invalid_'' @ role @ ''_witness''))))))"

definition ed25519_witness_reasons ::
  "(byte list \<Rightarrow> byte list \<Rightarrow> byte list \<Rightarrow> bool) \<Rightarrow> (string, byte list) dict \<Rightarrow> federation_relation \<Rightarrow> ed25519_witness \<Rightarrow>
   string list res" where
  "ed25519_witness_reasons verify ring r w =
    (let digest = payload_sha256 r;
         source = map_of ring (source_authority r); target = map_of ring (target_authority r)
     in res_bind (compare_digest (ew_payload_sha256 w) digest) (\<lambda>same.
        res_bind (signature_reasons verify source digest ''source'' (source_signature_hex w)) (\<lambda>rs.
        res_bind (signature_reasons verify target digest ''target'' (target_signature_hex w)) (\<lambda>rt.
        Inr (reason_if (ew_scheme w \<noteq> witness_scheme r) ''witness_scheme_mismatch'' @
             reason_if (\<not> same) ''witness_payload_hash_mismatch'' @
             reason_if (source = None) ''unknown_source_authority'' @
             reason_if (target = None) ''unknown_target_authority'' @
             reason_if (source \<noteq> None \<and> source = target) ''shared_authority_public_key'' @ rs @ rt)))))"

definition evaluate_ed25519 ::
  "(byte list \<Rightarrow> byte list \<Rightarrow> byte list \<Rightarrow> bool) \<Rightarrow> (string, byte list) dict \<Rightarrow>
   int \<Rightarrow> federation_relation \<Rightarrow> relation_request \<Rightarrow> relation_decision res" where
  "evaluate_ed25519 verify ring t r q =
     res_bind (common_reasons r q t) (\<lambda>common.
     if witness_scheme r \<noteq> ED25519_SCHEME
     then Inr (decision_of r t (common @ [''unsupported_witness_scheme'']))
     else res_bind (case rel_witness r of
            None \<Rightarrow> Inr [''missing_bilateral_witness'']
          | Some (Hmac w) \<Rightarrow> Inr [''witness_type_mismatch'']
          | Some (Ed25519 w) \<Rightarrow> ed25519_witness_reasons verify ring r w) (\<lambda>witness.
          Inr (decision_of r t (common @ witness))))"

section \<open>The gate for both schemes\<close>

definition evaluate_hybrid ::
  "(byte list \<Rightarrow> byte list \<Rightarrow> byte list \<Rightarrow> bool) \<Rightarrow> (string, string) dict \<Rightarrow> (string, byte list) dict \<Rightarrow>
   int \<Rightarrow> federation_relation \<Rightarrow> relation_request \<Rightarrow> relation_decision res" where
  "evaluate_hybrid verify secrets ring t r q =
    (if witness_scheme r = HMAC_SCHEME then evaluate_hmac secrets t r q
     else if witness_scheme r = ED25519_SCHEME then evaluate_ed25519 verify ring t r q
     else res_bind (common_reasons r q t) (\<lambda>common.
       Inr (decision_of r t (common @ [''unsupported_witness_scheme''] @
         reason_if (rel_witness r = None) ''missing_bilateral_witness''))))"

end
