(* ===== verification/Ed25519_Properties.thy ===== *)
theory Ed25519_Properties
  imports Federation_Ed25519
begin

text \<open>
  What the public-key gate and the hybrid gate admit: both meet the contract of a relation gate.
  The byte-wise check of a digest is the pattern match it replaces, the two authorities can sign
  independently and in either order, and the hybrid gate never reads a witness under the
  other scheme.
\<close>

section \<open>The two checks of a digest agree\<close>

lemma py_fromhex_length: "py_fromhex s = Some bs \<Longrightarrow> 2 * length bs \<le> length s"
proof (induction s arbitrary: bs rule: py_fromhex.induct)
  case (2 c r)
  then show ?case by (fastforce split: if_splits list.splits option.splits)
qed simp

lemma py_fromhex_full:
  "py_fromhex s = Some bs \<Longrightarrow> length s = 2 * length bs \<Longrightarrow> list_all (\<lambda>c. hex_value c \<noteq> None) s"
proof (induction s arbitrary: bs rule: py_fromhex.induct)
  case (2 c r)
  show ?case
  proof (cases "ascii_space c")
    case True
    then have "2 * length bs \<le> length r" using "2.prems" by (intro py_fromhex_length) simp
    then show ?thesis using "2.prems" by simp
  next
    case False
    then obtain d r' x y bs' where "r = d # r'" "hex_value c = Some x" "hex_value d = Some y"
      "py_fromhex r' = Some bs'" "bs = of_nat (16 * x + y) # bs'"
      using "2.prems"(1) by (auto split: list.splits option.splits)
    then show ?thesis using "2.IH"(2) [OF False, of d r'] "2.prems"(2) by simp
  qed
qed simp

lemma hex_value_not_space: "hex_value c \<noteq> None \<Longrightarrow> \<not> ascii_space c"
  by (auto simp: hex_value_def ascii_space_def Let_def split: if_splits)

lemma py_fromhex_hex:
  assumes "list_all (\<lambda>c. hex_value c \<noteq> None) s" and "even (length s)"
  shows "\<exists>bs. py_fromhex s = Some bs \<and> length s = 2 * length bs"
  using assms
proof (induction s rule: induct_list012)
  case (3 c d r)
  then obtain bs where "py_fromhex r = Some bs" "length r = 2 * length bs" by auto
  then show ?case using 3 hex_value_not_space [of c] by auto
qed simp_all

lemma lower_hex: "hex_value c \<noteq> None \<Longrightarrow> lower_char c = c \<longleftrightarrow> is_hex_lower c"
proof -
  assume h: "hex_value c \<noteq> None"
  define n where "n = (of_char c :: nat)"
  have n: "(48 \<le> n \<and> n \<le> 57) \<or> (97 \<le> n \<and> n \<le> 102) \<or> (65 \<le> n \<and> n \<le> 70)"
    using h by (auto simp: hex_value_def Let_def n_def split: if_splits)
  have "lower_char c = c \<longleftrightarrow> \<not> (65 \<le> n \<and> n \<le> 70)"
  proof (cases "65 \<le> n \<and> n \<le> 70")
    case True
    then have "(of_char (lower_char c) :: nat) = n + 32" by (simp add: lower_char_def Let_def n_def)
    then have "lower_char c \<noteq> c" by (auto simp: n_def)
    then show ?thesis using True by simp
  next
    case False
    then show ?thesis using n by (auto simp: lower_char_def Let_def n_def)
  qed
  also have "\<dots> \<longleftrightarrow> is_hex_lower c"
    using n by (auto simp: is_hex_lower_def is_digit_def n_def Let_def)
  finally show ?thesis .
qed

lemma is_hex_lower_value: "is_hex_lower c \<Longrightarrow> hex_value c \<noteq> None"
  by (auto simp: is_hex_lower_def is_digit_def hex_value_def Let_def)

lemma lower_fixed: "list_all (\<lambda>c. hex_value c \<noteq> None) s \<Longrightarrow> s = lower s \<longleftrightarrow> list_all is_hex_lower s"
proof (induction s)
  case (Cons c s)
  then show ?case using lower_hex [of c] by (simp add: lower_def) metis
qed (simp add: lower_def)

text \<open>C24: The check of a digest that parses its bytes (with \<open>bytes.fromhex\<close>, which skips white space, a length test
  and a comparison with the lower case text) accepts and refuses exactly what the pattern of
  64 lower-case hexadecimal digits does, with the same error.\<close>

theorem digest_checks_agree: "require_sha256_bytes v name = require_sha256 v name"
proof (cases "length v = 64 \<and> list_all (\<lambda>c. hex_value c \<noteq> None) v")
  case True
  then obtain bs where "py_fromhex v = Some bs" "length bs = 32" using py_fromhex_hex [of v] by auto
  then show ?thesis
    using True lower_fixed [of v]
    by (simp add: require_sha256_bytes_def require_sha256_def hex_lower_n_def)
next
  case False
  have "\<not> hex_lower_n 64 v"
    using False is_hex_lower_value unfolding hex_lower_n_def list_all_iff by blast
  moreover have "py_fromhex v = None \<or> length (the (py_fromhex v)) \<noteq> 32" if "length v = 64"
    using False that py_fromhex_full [of v] by auto
  ultimately show ?thesis
    by (auto simp: require_sha256_bytes_def require_sha256_def Let_def raise_if_def res_bind_def split: option.split)
qed

section \<open>What the public-key gate decides\<close>

text \<open>The signature of a role verifies under the key the gate has for an authority.\<close>

definition ed25519_signed ::
  "(byte list \<Rightarrow> byte list \<Rightarrow> byte list \<Rightarrow> bool) \<Rightarrow> (string, byte list) dict \<Rightarrow> string \<Rightarrow> string \<Rightarrow> string \<Rightarrow> string option \<Rightarrow> bool" where
  "ed25519_signed verify ring who digest role signature \<longleftrightarrow>
     (\<exists>k s raw. map_of ring who = Some k \<and> signature = Some s \<and> py_fromhex s = Some raw \<and>
        verify k raw (utf8 (ed25519_message digest role)))"

definition ed25519_admits ::
  "(byte list \<Rightarrow> byte list \<Rightarrow> byte list \<Rightarrow> bool) \<Rightarrow> (string, byte list) dict \<Rightarrow> int \<Rightarrow> federation_relation \<Rightarrow> relation_request \<Rightarrow> bool" where
  "ed25519_admits verify ring t r q \<longleftrightarrow> in_scope r q t \<and> witness_scheme r = ED25519_SCHEME \<and>
     (\<exists>w. rel_witness r = Some (Ed25519 w) \<and> ew_scheme w = ED25519_SCHEME \<and> ew_payload_sha256 w = payload_sha256 r \<and>
        map_of ring (source_authority r) \<noteq> map_of ring (target_authority r) \<and>
        ed25519_signed verify ring (source_authority r) (payload_sha256 r) ''source'' (source_signature_hex w) \<and>
        ed25519_signed verify ring (target_authority r) (payload_sha256 r) ''target'' (target_signature_hex w))"

lemma require_sha256_hash [simp]: "require_sha256 (sha256_text s) name = Inr ()" "require_sha256 (payload_sha256 r) name = Inr ()"
  by (simp_all add: require_sha256_def sha256_text_hex payload_sha256_def)

lemma signing_message_ok:
  "role \<in> {''source'', ''target''} \<Longrightarrow> signing_message (payload_sha256 r) role = Inr (utf8 (ed25519_message (payload_sha256 r) role))"
  unfolding signing_message_def by (simp add: digest_checks_agree)

lemma signature_reasons_Nil:
  assumes "role \<in> {''source'', ''target''}"
  shows "signature_reasons verify (map_of ring who) (payload_sha256 r) role signature = Inr [] \<longleftrightarrow>
    (signature \<noteq> None \<and> map_of ring who = None) \<or> ed25519_signed verify ring who (payload_sha256 r) role signature"
  using assms
  by (auto simp: signature_reasons_def ed25519_signed_def signing_message_ok reason_if_def split: option.split)

lemma ed25519_witness_reasons_Nil:
  assumes "ed25519_witness_reasons verify ring r w = Inr rs"
  shows "rs = [] \<longleftrightarrow> ew_scheme w = witness_scheme r \<and> ew_payload_sha256 w = payload_sha256 r \<and>
    map_of ring (source_authority r) \<noteq> map_of ring (target_authority r) \<and>
    ed25519_signed verify ring (source_authority r) (payload_sha256 r) ''source'' (source_signature_hex w) \<and>
    ed25519_signed verify ring (target_authority r) (payload_sha256 r) ''target'' (target_signature_hex w)"
proof -
  obtain same rs1 rs2 where steps: "compare_digest (ew_payload_sha256 w) (payload_sha256 r) = Inr same"
    "signature_reasons verify (map_of ring (source_authority r)) (payload_sha256 r) ''source'' (source_signature_hex w) = Inr rs1"
    "signature_reasons verify (map_of ring (target_authority r)) (payload_sha256 r) ''target'' (target_signature_hex w) = Inr rs2"
    and rs: "rs = reason_if (ew_scheme w \<noteq> witness_scheme r) ''witness_scheme_mismatch'' @
             reason_if (\<not> same) ''witness_payload_hash_mismatch'' @
             reason_if (map_of ring (source_authority r) = None) ''unknown_source_authority'' @
             reason_if (map_of ring (target_authority r) = None) ''unknown_target_authority'' @
             reason_if (map_of ring (source_authority r) \<noteq> None \<and>
               map_of ring (source_authority r) = map_of ring (target_authority r)) ''shared_authority_public_key'' @ rs1 @ rs2"
    using assms by (auto simp: ed25519_witness_reasons_def Let_def)
  have 1: "rs1 = [] \<longleftrightarrow> (source_signature_hex w \<noteq> None \<and> map_of ring (source_authority r) = None) \<or>
      ed25519_signed verify ring (source_authority r) (payload_sha256 r) ''source'' (source_signature_hex w)"
    using signature_reasons_Nil [of "''source''" verify ring "source_authority r" r "source_signature_hex w"] steps(2) by simp
  have 2: "rs2 = [] \<longleftrightarrow> (target_signature_hex w \<noteq> None \<and> map_of ring (target_authority r) = None) \<or>
      ed25519_signed verify ring (target_authority r) (payload_sha256 r) ''target'' (target_signature_hex w)"
    using signature_reasons_Nil [of "''target''" verify ring "target_authority r" r "target_signature_hex w"] steps(3) by simp
  have "same \<longleftrightarrow> ew_payload_sha256 w = payload_sha256 r" using steps(1) by (simp add: compare_digest_eq)
  moreover have "map_of ring who \<noteq> None" if "ed25519_signed verify ring who d role sg" for who d role sg
    using that by (auto simp: ed25519_signed_def)
  ultimately show ?thesis
    unfolding rs append_is_Nil_conv reason_if_Nil 1 2 by metis
qed

lemma common_reasons_eq_Nil: "common_reasons r q t = Inr common \<Longrightarrow> common = [] \<longleftrightarrow> in_scope r q t"
  using common_reasons_Nil [of r q t] by (auto simp: common_reasons_def compare_digest_eq)

lemma evaluate_ed25519_decision: "evaluate_ed25519 verify ring t r q = Inr d \<Longrightarrow> d = decision_of r t (reasons d)"
  by (auto simp: evaluate_ed25519_def decision_of_def split: if_splits)

lemma evaluate_ed25519_Nil:
  assumes "evaluate_ed25519 verify ring t r q = Inr d"
  shows "reasons d = [] \<longleftrightarrow> ed25519_admits verify ring t r q"
proof (cases "witness_scheme r = ED25519_SCHEME")
  case True
  obtain common wr where steps: "common_reasons r q t = Inr common"
    "(case rel_witness r of None \<Rightarrow> Inr [''missing_bilateral_witness'']
       | Some (Hmac w) \<Rightarrow> Inr [''witness_type_mismatch'']
       | Some (Ed25519 w) \<Rightarrow> ed25519_witness_reasons verify ring r w) = Inr wr"
    and d: "d = decision_of r t (common @ wr)"
    using assms True by (auto simp: evaluate_ed25519_def)
  show ?thesis
    using common_reasons_eq_Nil [OF steps(1)] steps(2) True
    by (auto simp: d decision_of_def ed25519_admits_def ed25519_witness_reasons_Nil split: option.splits witness.splits)
next
  case False
  then show ?thesis using assms by (auto simp: evaluate_ed25519_def ed25519_admits_def decision_of_def)
qed

interpretation ed25519_gate: relation_gate "evaluate_ed25519 verify ring"
proof unfold_locales
  show "d = decision_of r t (reasons d)" if "evaluate_ed25519 verify ring t r q = Inr d" for t r q d
    using that by (rule evaluate_ed25519_decision)
  show "in_scope r q t" if "evaluate_ed25519 verify ring t r q = Inr d" "reasons d = []" for t r q d
    using evaluate_ed25519_Nil [OF that(1)] that(2) by (simp add: ed25519_admits_def)
  show "witnessed r" if "evaluate_ed25519 verify ring t r q = Inr d" "reasons d = []" for t r q d
    using evaluate_ed25519_Nil [OF that(1)] that(2)
    by (auto simp: ed25519_admits_def witnessed_def witness_payload_def)
qed

lemma scheme_names: "HMAC_SCHEME \<noteq> ED25519_SCHEME"
  by (simp add: HMAC_SCHEME_def ED25519_SCHEME_def)

lemma evaluate_hybrid_Nil:
  assumes "evaluate_hybrid verify secrets ring t r q = Inr d"
  shows "reasons d = [] \<longleftrightarrow> hmac_admits secrets t r q \<or> ed25519_admits verify ring t r q"
  using assms evaluate_hmac_Nil [of secrets t r q d] evaluate_ed25519_Nil [of verify ring t r q d] scheme_names
  by (auto simp: evaluate_hybrid_def decision_of_def hmac_admits_def ed25519_admits_def split: if_splits)

interpretation hybrid_gate: relation_gate "evaluate_hybrid verify secrets ring"
proof unfold_locales
  show "d = decision_of r t (reasons d)" if "evaluate_hybrid verify secrets ring t r q = Inr d" for t r q d
    using that evaluate_hmac_decision evaluate_ed25519_decision
    by (auto simp: evaluate_hybrid_def decision_of_def split: if_splits)
  show "in_scope r q t" if "evaluate_hybrid verify secrets ring t r q = Inr d" "reasons d = []" for t r q d
    using evaluate_hybrid_Nil [OF that(1)] that(2) by (auto simp: hmac_admits_def ed25519_admits_def)
  show "witnessed r" if "evaluate_hybrid verify secrets ring t r q = Inr d" "reasons d = []" for t r q d
    using evaluate_hybrid_Nil [OF that(1)] that(2)
    by (auto simp: hmac_admits_def hmac_witness_ok_def ed25519_admits_def witnessed_def witness_payload_def)
qed

text \<open>C11: The migration gate admits a request exactly when one of the two schemes does, each only for relations
  that declare it: a relation of one scheme is never read under the other, and one of an
  unknown scheme is refused whatever it carries.\<close>

theorem hybrid_gate_decides:
  assumes "evaluate_hybrid verify secrets ring t r q = Inr d"
  shows "(admissible d \<longleftrightarrow> hmac_admits secrets t r q \<or> ed25519_admits verify ring t r q) \<and>
    \<not> (hmac_admits secrets t r q \<and> ed25519_admits verify ring t r q) \<and>
    (witness_scheme r = HMAC_SCHEME \<longrightarrow> evaluate_hmac secrets t r q = Inr d) \<and>
    (witness_scheme r = ED25519_SCHEME \<longrightarrow> evaluate_ed25519 verify ring t r q = Inr d)"
  using evaluate_hybrid_Nil [OF assms] hybrid_gate.admissible_iff [OF assms] assms scheme_names
  by (auto simp: evaluate_hybrid_def hmac_admits_def ed25519_admits_def split: if_splits)

section \<open>Signing independently\<close>

text \<open>What the code relies on in the Ed25519 functions: a signature has 64 bytes and verifies under the
  public key of the private key that made it.\<close>

definition signatures_verify ::
  "('k \<Rightarrow> byte list) \<Rightarrow> ('k \<Rightarrow> byte list \<Rightarrow> byte list) \<Rightarrow> (byte list \<Rightarrow> byte list \<Rightarrow> byte list \<Rightarrow> bool) \<Rightarrow> bool" where
  "signatures_verify pub sign verify \<longleftrightarrow> (\<forall>k m. verify (pub k) (sign k m) m \<and> length (sign k m) = 64)"

lemma py_fromhex_bytes: "list_all (\<lambda>c. hex_value c \<noteq> None) s \<Longrightarrow> py_fromhex s = bytes_fromhex s"
proof (induction s rule: induct_list012)
  case (2 c)
  then show ?case using hex_value_not_space [of c] by auto
next
  case (3 c d r)
  then show ?case using hex_value_not_space [of c] by (auto split: option.split)
qed simp

lemma bytes_hex_digits: "list_all (\<lambda>c. hex_value c \<noteq> None) (bytes_hex bs)"
  using bytes_hex_lower [of bs] is_hex_lower_value by (auto simp: list_all_iff)

lemma py_fromhex_hexed [simp]: "py_fromhex (bytes_hex bs) = Some bs"
  using py_fromhex_bytes [OF bytes_hex_digits, of bs] by simp

lemma signature_hex: "length bs = 64 \<Longrightarrow> hex_lower_n 128 (bytes_hex bs)"
  by (simp add: hex_lower_n_def bytes_hex_lower)

lemma check_relation_independent:
  "check_relation r = Inr r \<Longrightarrow> check_relation (r\<lparr>rel_witness := w\<rparr>) = Inr (r\<lparr>rel_witness := w\<rparr>)"
  by (auto simp: check_relation_def)

definition both_signed :: "('k \<Rightarrow> byte list \<Rightarrow> byte list) \<Rightarrow> 'k \<Rightarrow> 'k \<Rightarrow> federation_relation \<Rightarrow> ed25519_witness" where
  "both_signed sign k1 k2 r = \<lparr>ew_scheme = ED25519_SCHEME, ew_payload_sha256 = payload_sha256 r,
     source_signature_hex = Some (bytes_hex (sign k1 (utf8 (ed25519_message (payload_sha256 r) ''source'')))),
     target_signature_hex = Some (bytes_hex (sign k2 (utf8 (ed25519_message (payload_sha256 r) ''target''))))\<rparr>"

lemma sign_both:
  assumes ok: "\<forall>k m. length (sign k m) = 64" and r: "check_relation r = Inr r" "witness_scheme r = ED25519_SCHEME" "rel_witness r = None"
  shows "res_bind (sign_source sign k1 r) (sign_target sign k2) = Inr (r\<lparr>rel_witness := Some (Ed25519 (both_signed sign k1 k2 r))\<rparr>)"
    and "res_bind (sign_target sign k2 r) (sign_source sign k1) = Inr (r\<lparr>rel_witness := Some (Ed25519 (both_signed sign k1 k2 r))\<rparr>)"
proof -
  note defs = sign_source_def sign_target_def witness_for_signing_def check_ed25519_witness_def digest_checks_agree
    require_signature_def signing_message_ok compare_digest_def payload_sha256_hex both_signed_def Let_def
  have checks: "check_relation (r\<lparr>rel_witness := w\<rparr>) = Inr (r\<lparr>rel_witness := w\<rparr>)" for w
    by (rule check_relation_independent [OF r(1)])
  show "res_bind (sign_source sign k1 r) (sign_target sign k2) = Inr (r\<lparr>rel_witness := Some (Ed25519 (both_signed sign k1 k2 r))\<rparr>)"
    using r(2,3) by (simp add: defs checks signature_hex ok)
  show "res_bind (sign_target sign k2 r) (sign_source sign k1) = Inr (r\<lparr>rel_witness := Some (Ed25519 (both_signed sign k1 k2 r))\<rparr>)"
    using r(2,3) by (simp add: defs checks signature_hex ok)
qed

text \<open>The two authorities sign independently: in either order, neither holding the other's private key,
  they arrive at the same witnessed relation, and a gate with their two distinct public keys
  admits every request in its scope.\<close>

theorem independent_signing:
  assumes "signatures_verify pub sign verify"
    and "check_relation r = Inr r" and "witness_scheme r = ED25519_SCHEME" and "rel_witness r = None"
    and "pub k1 \<noteq> pub k2" and "map_of ring (source_authority r) = Some (pub k1)"
    and "map_of ring (target_authority r) = Some (pub k2)" and "in_scope r q t"
  shows "\<exists>r'. res_bind (sign_source sign k1 r) (sign_target sign k2) = Inr r' \<and>
    res_bind (sign_target sign k2 r) (sign_source sign k1) = Inr r' \<and>
    evaluate_ed25519 verify ring t r' q = Inr (decision_of r' t [])"
proof -
  have len: "\<forall>k m. length (sign k m) = 64" and ver: "\<And>k m. verify (pub k) (sign k m) m"
    using assms(1) by (simp_all add: signatures_verify_def)
  let ?r = "r\<lparr>rel_witness := Some (Ed25519 (both_signed sign k1 k2 r))\<rparr>"
  have "hex_lower_n 64 (rel_contract_hash r)"
    using assms(2) by (auto simp: check_relation_def require_sha256_def)
  then have ascii: "is_ascii (rel_contract_hash ?r)" by (simp add: hex_lower_ascii)
  have "common_reasons ?r q t = Inr []"
    using assms(8) ascii by (simp add: common_reasons_Nil in_scope_def)
  moreover have "ed25519_witness_reasons verify ring ?r (both_signed sign k1 k2 r) = Inr []"
    using assms(3,5-7) ver
    by (simp add: ed25519_witness_reasons_def Let_def compare_digest_def payload_sha256_hex signature_reasons_def
        signing_message_ok both_signed_def reason_if_def)
  ultimately have "evaluate_ed25519 verify ring t ?r q = Inr (decision_of ?r t [])"
    using assms(3) by (simp add: evaluate_ed25519_def)
  then show ?thesis using sign_both [OF len assms(2-4)] by blast
qed

section \<open>Witnesses\<close>

definition ed25519_relation :: federation_relation where
  "ed25519_relation = sample_relation\<lparr>witness_scheme := ED25519_SCHEME\<rparr>"

text \<open>A scheme in which the signature is the key's bytes: it verifies what it signs.\<close>

definition toy_sign :: "byte \<Rightarrow> byte list \<Rightarrow> byte list" where
  "toy_sign k m = replicate 64 k"

definition toy_verify :: "byte list \<Rightarrow> byte list \<Rightarrow> byte list \<Rightarrow> bool" where
  "toy_verify k s m \<longleftrightarrow> k \<noteq> [] \<and> s = replicate 64 (hd k)"

definition toy_pub :: "byte \<Rightarrow> byte list" where
  "toy_pub k = replicate 32 k"

definition toy_ring :: "(string, byte list) dict" where
  "toy_ring = [(''auth-a'', toy_pub 1), (''auth-b'', toy_pub 2)]"

lemma toy_scheme: "signatures_verify toy_pub toy_sign toy_verify"
  by (simp add: signatures_verify_def toy_pub_def toy_sign_def toy_verify_def)

lemma ed25519_relation_checks: "check_relation ed25519_relation = Inr ed25519_relation"
  using sample_hash_ok
  by (simp add: check_relation_def ed25519_relation_def sample_relation_def require_text_def require_sha256_def blank_iff
      is_space_def ED25519_SCHEME_def)

lemma toy_pub_inj: "toy_pub 1 \<noteq> toy_pub 2"
  by (simp add: toy_pub_def)

theorem independent_signing_witness:
  "\<exists>r'. res_bind (sign_source toy_sign 1 ed25519_relation) (sign_target toy_sign 2) = Inr r' \<and>
     res_bind (sign_target toy_sign 2 ed25519_relation) (sign_source toy_sign 1) = Inr r' \<and>
     evaluate_ed25519 toy_verify toy_ring 15 r' sample_relation_request = Inr (decision_of r' 15 [])"
  by (rule independent_signing [OF toy_scheme ed25519_relation_checks _ _ toy_pub_inj])
    (simp_all add: ed25519_relation_def sample_relation_def toy_ring_def in_scope_def sample_relation_request_def)

theorem hybrid_gate_decides_witness:
  "\<exists>d. evaluate_hybrid toy_verify sample_secrets toy_ring 15 ed25519_relation sample_relation_request = Inr d \<and> \<not> admissible d"
proof -
  have ascii: "is_ascii (replicate 64 (CHR ''0''))" by (rule hex_lower_ascii [OF sample_hash_ok])
  obtain d where d: "evaluate_hybrid toy_verify sample_secrets toy_ring 15 ed25519_relation sample_relation_request = Inr d"
    using ascii scheme_names
    by (simp add: evaluate_hybrid_def evaluate_ed25519_def common_reasons_def compare_digest_def ed25519_relation_def
        sample_relation_def sample_relation_request_def)
  then show ?thesis
    using hybrid_gate_decides [OF d]
    by (simp add: hmac_admits_def ed25519_admits_def ed25519_relation_def sample_relation_def)
qed

end
