(* ===== verification/Key_Registry.thy ===== *)
theory Key_Registry
  imports Storage_Properties Ed25519_Properties
begin

text \<open>
  \<open>app/federation_key_registry.py\<close>: the registry of the authorities' Ed25519 keys and of the
  keys each relation is bound to, in two tables beside the ledger, and the gate that verifies
  relations through it. \<open>now\<close> are the two readings of \<open>storage._now()\<close>, for the event and for
  the ledger, \<open>build\<close> is the configured build commit, both as in \<open>Storage\<close>.
\<close>

definition ED25519_ALGORITHM :: string where
  "ED25519_ALGORITHM = ''Ed25519''"

definition is_key_id :: "string \<Rightarrow> bool" where
  "is_key_id s = (take 8 s = ''ed25519:'' \<and> hex_lower_n 64 (drop 8 s))"

definition authority_key_id :: "string \<Rightarrow> string res" where
  "authority_key_id pk =
     res_bind (raise_if (\<not> hex_lower_n 64 pk) (ValueError ''public_key_hex must be 32-byte lowercase Ed25519 raw hex'')) (\<lambda>_.
     case py_fromhex pk of
       None \<Rightarrow> Inl (ValueError ''non-hexadecimal number found in fromhex() arg'')
     | Some raw \<Rightarrow> Inr (''ed25519:'' @ bytes_hex (sha256 raw)))"

definition hash_payload :: "jobj \<Rightarrow> string" where
  "hash_payload payload = sha256_text (canonical_json (JObj payload))"

section \<open>Key records\<close>

record key_record =
  authority_id :: string
  key_id :: string
  public_key_hex :: string
  key_valid_from :: int
  key_valid_until :: int
  previous_key_id :: "string option"
  algorithm :: string
  revoked_at :: "int option"
  revocation_reason :: "string option"

definition check_key_record :: "key_record \<Rightarrow> key_record res" where
  "check_key_record k =
     res_bind (require_text (authority_id k) ''authority_id'') (\<lambda>_.
     res_bind (raise_if (\<not> is_key_id (key_id k)) (ValueError ''key_id must be ed25519:<sha256-public-key>'')) (\<lambda>_.
     res_bind (authority_key_id (public_key_hex k)) (\<lambda>derived.
     res_bind (raise_if (key_id k \<noteq> derived) (ValueError ''key_id does not match public_key_hex'')) (\<lambda>_.
     res_bind (raise_if (algorithm k \<noteq> ED25519_ALGORITHM) (ValueError ''algorithm must be Ed25519'')) (\<lambda>_.
     res_bind (raise_if (key_valid_until k \<le> key_valid_from k)
        (ValueError ''key valid_until must be greater than valid_from'')) (\<lambda>_.
     res_bind (case previous_key_id k of
         None \<Rightarrow> Inr ()
       | Some p \<Rightarrow>
           res_bind (raise_if (\<not> is_key_id p) (ValueError ''previous_key_id must be a canonical Ed25519 key id'')) (\<lambda>_.
           raise_if (p = key_id k) (ValueError ''key cannot rotate from itself''))) (\<lambda>_.
     res_bind (case revoked_at k of
         Some t \<Rightarrow>
           res_bind (raise_if (\<not> (key_valid_from k \<le> t \<and> t < key_valid_until k))
             (ValueError ''revoked_at must fall inside the key validity window'')) (\<lambda>_.
           require_text (case revocation_reason k of None \<Rightarrow> '''' | Some s \<Rightarrow> s) ''revocation_reason'')
       | None \<Rightarrow> raise_if (revocation_reason k \<noteq> None) (ValueError ''revocation_reason requires revoked_at'')) (\<lambda>_.
     Inr k))))))))"

definition key_status :: "key_record \<Rightarrow> relation_status" where
  "key_status k = (if revoked_at k \<noteq> None then REVOKED else ACTIVE)"

definition registration_payload :: "key_record \<Rightarrow> jobj" where
  "registration_payload k =
     [(''schema'', JStr ''matverse.federation-authority-key.v1''), (''authority_id'', JStr (authority_id k)),
      (''key_id'', JStr (key_id k)), (''algorithm'', JStr (algorithm k)), (''public_key_hex'', JStr (public_key_hex k)),
      (''valid_from'', JInt (key_valid_from k)), (''valid_until'', JInt (key_valid_until k)),
      (''previous_key_id'', jopt (previous_key_id k))]"

definition registration_sha256 :: "key_record \<Rightarrow> string" where
  "registration_sha256 k = hash_payload (registration_payload k)"

definition effective_at :: "key_record \<Rightarrow> int \<Rightarrow> bool" where
  "effective_at k t = (if \<not> (key_valid_from k \<le> t \<and> t < key_valid_until k) then False
     else case revoked_at k of None \<Rightarrow> True | Some u \<Rightarrow> t < u)"

section \<open>Bindings\<close>

record key_binding =
  kb_relation_id :: string
  kb_relation_sha256 :: string
  kb_source_authority :: string
  source_key_id :: string
  kb_target_authority :: string
  target_key_id :: string

definition check_binding :: "key_binding \<Rightarrow> key_binding res" where
  "check_binding b =
     res_bind (require_text (kb_relation_id b) ''relation_id'') (\<lambda>_.
     res_bind (require_sha256 (kb_relation_sha256 b) ''relation_sha256'') (\<lambda>_.
     res_bind (require_text (kb_source_authority b) ''source_authority'') (\<lambda>_.
     res_bind (require_text (kb_target_authority b) ''target_authority'') (\<lambda>_.
     res_bind (raise_if (kb_source_authority b = kb_target_authority b) (ValueError ''binding requires distinct authorities'')) (\<lambda>_.
     res_bind (raise_if (\<not> is_key_id (source_key_id b)) (ValueError ''source_key_id must be a canonical Ed25519 key id'')) (\<lambda>_.
     res_bind (raise_if (\<not> is_key_id (target_key_id b)) (ValueError ''target_key_id must be a canonical Ed25519 key id'')) (\<lambda>_.
     res_bind (raise_if (source_key_id b = target_key_id b) (ValueError ''binding requires distinct authority keys'')) (\<lambda>_.
     Inr b))))))))"

definition binding_payload :: "key_binding \<Rightarrow> jobj" where
  "binding_payload b =
     [(''schema'', JStr ''matverse.federation-relation-key-binding.v1''), (''relation_id'', JStr (kb_relation_id b)),
      (''relation_sha256'', JStr (kb_relation_sha256 b)), (''source_authority'', JStr (kb_source_authority b)),
      (''source_key_id'', JStr (source_key_id b)), (''target_authority'', JStr (kb_target_authority b)),
      (''target_key_id'', JStr (target_key_id b))]"

definition binding_sha256 :: "key_binding \<Rightarrow> string" where
  "binding_sha256 b = hash_payload (binding_payload b)"

section \<open>Tables\<close>

record key_row =
  row_key_id :: string
  row_authority_id :: string
  row_algorithm :: string
  row_public_key_hex :: string
  row_valid_from :: int
  row_valid_until :: int
  row_previous_key_id :: "string option"
  row_registration_sha256 :: string
  row_registered_by :: string
  row_registered_at :: string
  row_registration_receipt :: string
  row_revoked_at :: "int option"
  row_revocation_reason :: "string option"
  row_revoked_by :: "string option"
  row_revocation_receipt :: "string option"

record binding_row =
  row_binding :: key_binding
  row_binding_sha256 :: string
  row_bound_by :: string
  row_bound_at :: string
  row_receipt :: string

record registry_db =
  main_db :: db
  authority_keys :: "key_row list"
  key_bindings :: "binding_row list"

definition key_of :: "key_row \<Rightarrow> key_record" where
  "key_of row = \<lparr>authority_id = row_authority_id row, key_id = row_key_id row,
     public_key_hex = row_public_key_hex row, key_valid_from = row_valid_from row, key_valid_until = row_valid_until row,
     previous_key_id = row_previous_key_id row, algorithm = row_algorithm row, revoked_at = row_revoked_at row,
     revocation_reason = row_revocation_reason row\<rparr>"

definition row_to_key :: "key_row \<Rightarrow> key_record res" where
  "row_to_key row = check_key_record (key_of row)"

definition row_to_binding :: "binding_row \<Rightarrow> key_binding res" where
  "row_to_binding row = check_binding (row_binding row)"

definition find_key :: "registry_db \<Rightarrow> string \<Rightarrow> key_row option" where
  "find_key d k = find (\<lambda>row. row_key_id row = k) (authority_keys d)"

definition find_binding :: "registry_db \<Rightarrow> string \<Rightarrow> binding_row option" where
  "find_binding d r = find (\<lambda>row. kb_relation_id (row_binding row) = r) (key_bindings d)"

definition receipt_json :: "receipt \<Rightarrow> json" where
  "receipt_json rc = JObj [(''seq'', JInt (rc_seq rc)), (''prev_hash'', JStr (rc_prev_hash rc)),
     (''event_hash'', JStr (rc_event_hash rc)), (''decision'', JStr (rc_decision rc))]"

text \<open>\<open>storage._append_ledger_tx\<close> on the connection of the transaction.\<close>

definition append_ledger :: "string \<Rightarrow> string \<Rightarrow> jobj \<Rightarrow> string \<Rightarrow> registry_db \<Rightarrow> (receipt \<times> registry_db) res" where
  "append_ledger now build event dec d =
     res_bind (append_ledger_tx now build event dec (main_db d)) (\<lambda>(receipt, m). Inr (receipt, d\<lparr>main_db := m\<rparr>))"

section \<open>Registering a key\<close>

record mutation_result =
  mr_record :: key_record
  mr_sha256 :: string
  mr_receipt :: json
  mr_idempotent :: bool

text \<open>What a key that is not yet registered must satisfy: genesis, or the successor of an unrotated key.\<close>

definition check_succession :: "registry_db \<Rightarrow> key_record \<Rightarrow> unit res" where
  "check_succession d k =
    (if filter (\<lambda>row. row_authority_id row = authority_id k) (authority_keys d) = []
     then raise_if (previous_key_id k \<noteq> None) (ValueError ''genesis authority key cannot declare previous_key_id'')
     else case previous_key_id k of
         None \<Rightarrow> Inl (ValueError ''non-genesis authority key requires previous_key_id'')
       | Some p \<Rightarrow> (case find_key d p of
           None \<Rightarrow> Inl (ValueError ''previous_key_id is not registered'')
         | Some previous \<Rightarrow>
             res_bind (raise_if (row_authority_id previous \<noteq> authority_id k)
               (ValueError ''previous_key_id belongs to a different authority'')) (\<lambda>_.
             res_bind (raise_if (row_valid_until previous \<noteq> key_valid_from k)
               (ValueError ''rotation must continue exactly at previous valid_until'')) (\<lambda>_.
             raise_if (\<exists>row \<in> set (authority_keys d). row_previous_key_id row = Some p)
               (ValueError ''previous_key_id already has a rotation successor'')))))"

definition registered_event :: "string \<Rightarrow> string \<Rightarrow> key_record \<Rightarrow> jobj" where
  "registered_event now actor k =
     (''event_type'', JStr ''FEDERATION_AUTHORITY_KEY_REGISTERED'') # registration_payload k @
     [(''registration_sha256'', JStr (registration_sha256 k)), (''registered_by'', JStr actor), (''registered_at'', JStr now)]"

text \<open>The keys of the table: the key id, the public key, the registration digest and the one successor of a key.\<close>

definition insert_key :: "key_row \<Rightarrow> registry_db \<Rightarrow> registry_db res" where
  "insert_key row d =
    (if row_key_id row \<in> row_key_id ` set (authority_keys d) \<or>
        row_public_key_hex row \<in> row_public_key_hex ` set (authority_keys d) \<or>
        row_registration_sha256 row \<in> row_registration_sha256 ` set (authority_keys d) \<or>
        (row_previous_key_id row \<noteq> None \<and> row_previous_key_id row \<in> row_previous_key_id ` set (authority_keys d))
     then Inl (IntegrityError ''UNIQUE constraint failed'')
     else Inr (d\<lparr>authority_keys := authority_keys d @ [row]\<rparr>))"

definition key_row_of :: "string \<Rightarrow> string \<Rightarrow> key_record \<Rightarrow> receipt \<Rightarrow> key_row" where
  "key_row_of now actor k receipt =
     \<lparr>row_key_id = key_id k, row_authority_id = authority_id k, row_algorithm = algorithm k,
      row_public_key_hex = public_key_hex k, row_valid_from = key_valid_from k, row_valid_until = key_valid_until k,
      row_previous_key_id = previous_key_id k, row_registration_sha256 = registration_sha256 k,
      row_registered_by = actor, row_registered_at = now,
      row_registration_receipt = canonical_json (receipt_json receipt), row_revoked_at = None,
      row_revocation_reason = None, row_revoked_by = None, row_revocation_receipt = None\<rparr>"

definition register_key_body ::
  "string \<times> string \<Rightarrow> string \<Rightarrow> key_record \<Rightarrow> string \<Rightarrow> registry_db \<Rightarrow> (mutation_result \<times> registry_db) res" where
  "register_key_body now build k actor d = (case find_key d (key_id k) of
      Some existing \<Rightarrow>
        res_bind (row_to_key existing) (\<lambda>stored.
        res_bind (raise_if (registration_payload stored \<noteq> registration_payload k)
          (ValueError ''key_id collision or registration mismatch'')) (\<lambda>_.
        res_bind (json_loads (row_registration_receipt existing)) (\<lambda>receipt.
        Inr (\<lparr>mr_record = stored, mr_sha256 = registration_sha256 stored, mr_receipt = receipt, mr_idempotent = True\<rparr>, d))))
    | None \<Rightarrow>
        res_bind (check_succession d k) (\<lambda>_.
        res_bind (raise_if (\<exists>row \<in> set (authority_keys d). row_public_key_hex row = public_key_hex k)
          (ValueError ''public key is already registered'')) (\<lambda>_.
        res_bind (append_ledger (snd now) build (registered_event (fst now) actor k) ''PASS'' d) (\<lambda>(receipt, d1).
        res_bind (insert_key (key_row_of (fst now) actor k receipt) d1) (\<lambda>d2.
        Inr (\<lparr>mr_record = k, mr_sha256 = registration_sha256 k, mr_receipt = receipt_json receipt, mr_idempotent = False\<rparr>, d2))))))"

definition register_key ::
  "string \<times> string \<Rightarrow> string \<Rightarrow> key_record \<Rightarrow> string \<Rightarrow> registry_db \<Rightarrow> mutation_result res \<times> registry_db" where
  "register_key now build k actor d =
    (case res_bind (raise_if (revoked_at k \<noteq> None) (ValueError ''new key registration cannot start revoked''))
            (\<lambda>_. require_text actor ''actor_id'') of
       Inl e \<Rightarrow> (Inl e, d)
     | Inr _ \<Rightarrow> transaction (register_key_body now build k actor) d)"

section \<open>Revoking a key\<close>

definition get_key :: "registry_db \<Rightarrow> string \<Rightarrow> key_record option res" where
  "get_key d k = (case find_key d k of None \<Rightarrow> Inr None | Some row \<Rightarrow> res_bind (row_to_key row) (\<lambda>r. Inr (Some r)))"

definition list_authority_keys :: "registry_db \<Rightarrow> string \<Rightarrow> key_record list res" where
  "list_authority_keys d who =
     res_bind (require_text who ''authority_id'') (\<lambda>_.
     res_map row_to_key (sort_key row_valid_from (sort_key row_key_id
       (filter (\<lambda>row. row_authority_id row = who) (authority_keys d)))))"

definition revoked_event :: "string \<Rightarrow> string \<Rightarrow> string \<Rightarrow> key_row \<Rightarrow> int \<Rightarrow> string \<Rightarrow> jobj" where
  "revoked_event now actor who row at reason =
     [(''event_type'', JStr ''FEDERATION_AUTHORITY_KEY_REVOKED''), (''authority_id'', JStr who),
      (''key_id'', JStr (row_key_id row)), (''registration_sha256'', JStr (row_registration_sha256 row)),
      (''effective_at'', JInt at), (''reason'', JStr reason), (''revoked_by'', JStr actor),
      (''revoked_at_recorded'', JStr now)]"

definition set_revoked :: "string \<Rightarrow> int \<Rightarrow> string \<Rightarrow> string \<Rightarrow> receipt \<Rightarrow> registry_db \<Rightarrow> registry_db" where
  "set_revoked k at reason actor receipt d = d\<lparr>authority_keys := map (\<lambda>row. if row_key_id row = k
     then row\<lparr>row_revoked_at := Some at, row_revocation_reason := Some reason, row_revoked_by := Some actor,
              row_revocation_receipt := Some (canonical_json (receipt_json receipt))\<rparr> else row) (authority_keys d)\<rparr>"

text \<open>The transaction: \<open>Some\<close> the state an identical revocation already has, or \<open>None\<close> and the new receipt.\<close>

definition revoke_key_body ::
  "string \<times> string \<Rightarrow> string \<Rightarrow> string \<Rightarrow> string \<Rightarrow> int \<Rightarrow> string \<Rightarrow> string \<Rightarrow> registry_db \<Rightarrow>
   ((key_record option \<times> json) \<times> registry_db) res" where
  "revoke_key_body now build who k at reason actor d = (case find_key d k of
      None \<Rightarrow> Inl (LookupError ''authority key not found'')
    | Some row \<Rightarrow>
        res_bind (raise_if (row_authority_id row \<noteq> who) (PermissionError ''key does not belong to authority'')) (\<lambda>_.
        res_bind (raise_if (\<not> (row_valid_from row \<le> at \<and> at < row_valid_until row))
          (ValueError ''revocation effective_at must fall inside key validity window'')) (\<lambda>_.
        case row_revoked_at row of
          Some t \<Rightarrow>
            if t = at \<and> row_revocation_reason row = Some reason
            then res_bind (row_to_key row) (\<lambda>r.
                 res_bind (case row_revocation_receipt row of
                     None \<Rightarrow> Inl (TypeError ''the JSON object must be str, bytes or bytearray'')
                   | Some s \<Rightarrow> json_loads s) (\<lambda>receipt. Inr ((Some r, receipt), d)))
            else Inl (ValueError ''key is already revoked with different revocation state'')
        | None \<Rightarrow>
            res_bind (append_ledger (snd now) build (revoked_event (fst now) actor who row at reason) ''PASS'' d) (\<lambda>(receipt, d1).
            Inr ((None, receipt_json receipt), set_revoked k at reason actor receipt d1)))))"

definition revoke_key ::
  "string \<times> string \<Rightarrow> string \<Rightarrow> string \<Rightarrow> string \<Rightarrow> int \<Rightarrow> string \<Rightarrow> string \<Rightarrow> registry_db \<Rightarrow>
   (key_record \<times> json \<times> bool) res \<times> registry_db" where
  "revoke_key now build who k at reason actor d =
    (case res_bind (require_text who ''authority_id'') (\<lambda>_. res_bind (require_text reason ''reason'')
            (\<lambda>_. require_text actor ''actor_id'')) of
       Inl e \<Rightarrow> (Inl e, d)
     | Inr _ \<Rightarrow> (case transaction (revoke_key_body now build who k at reason actor) d of
         (Inl e, d') \<Rightarrow> (Inl e, d')
       | (Inr (Some r, receipt), d') \<Rightarrow> (Inr (r, receipt, True), d')
       | (Inr (None, receipt), d') \<Rightarrow>
           (res_bind (get_key d' k) (\<lambda>updated. case updated of
              None \<Rightarrow> Inl (AssertionError '''') | Some r \<Rightarrow> Inr (r, receipt, False)), d')))"

section \<open>Binding a relation to keys\<close>

text \<open>The limits a role's key puts on the validity of the relation.\<close>

definition check_role_window :: "federation_relation \<Rightarrow> string \<Rightarrow> key_record \<Rightarrow> unit res" where
  "check_role_window r role k =
     res_bind (raise_if (rel_valid_from r < key_valid_from k \<or> rel_valid_until r > key_valid_until k)
       (PermissionError (''relation validity exceeds '' @ role @ '' key validity''))) (\<lambda>_.
     raise_if (case revoked_at k of None \<Rightarrow> False | Some t \<Rightarrow> rel_valid_until r > t)
       (PermissionError (''relation validity exceeds '' @ role @ '' key revocation'')))"

definition bound_event :: "string \<Rightarrow> string \<Rightarrow> key_binding \<Rightarrow> jobj" where
  "bound_event now actor b =
     (''event_type'', JStr ''FEDERATION_RELATION_KEY_BOUND'') # binding_payload b @
     [(''binding_sha256'', JStr (binding_sha256 b)), (''bound_by'', JStr actor), (''bound_at'', JStr now)]"

definition insert_binding :: "binding_row \<Rightarrow> registry_db \<Rightarrow> registry_db res" where
  "insert_binding row d =
    (if kb_relation_id (row_binding row) \<in> (\<lambda>r. kb_relation_id (row_binding r)) ` set (key_bindings d) \<or>
        kb_relation_sha256 (row_binding row) \<in> (\<lambda>r. kb_relation_sha256 (row_binding r)) ` set (key_bindings d) \<or>
        row_binding_sha256 row \<in> row_binding_sha256 ` set (key_bindings d)
     then Inl (IntegrityError ''UNIQUE constraint failed'')
     else Inr (d\<lparr>key_bindings := key_bindings d @ [row]\<rparr>))"

text \<open>The verification of the witness under the keys, at the start of the relation's validity.\<close>

definition verify_witness ::
  "(byte list \<Rightarrow> byte list \<Rightarrow> byte list \<Rightarrow> bool) \<Rightarrow> federation_relation \<Rightarrow> key_record \<Rightarrow> key_record \<Rightarrow> unit res" where
  "verify_witness verify r source target =
     res_bind (new_key_ring [(source_authority r, KeyHex (public_key_hex source)),
        (target_authority r, KeyHex (public_key_hex target))] []) (\<lambda>ring.
     res_bind (check_request \<lparr>req_source_domain = source_domain r, req_target_domain = target_domain r,
        req_contract_hash = rel_contract_hash r, req_capability = hd (rel_capabilities r)\<rparr>) (\<lambda>q.
     res_bind (evaluate_ed25519 verify ring (rel_valid_from r) r q) (\<lambda>d.
     raise_if (\<not> admissible d)
       (PermissionError (''relation witness does not verify under bound keys: '' @ join '','' (reasons d))))))"

definition check_bound_keys ::
  "(byte list \<Rightarrow> byte list \<Rightarrow> byte list \<Rightarrow> bool) \<Rightarrow> registry_db \<Rightarrow> federation_relation \<Rightarrow> string \<Rightarrow> string \<Rightarrow> unit res" where
  "check_bound_keys verify d r sk tk = (case (find_key d sk, find_key d tk) of
      (None, _) \<Rightarrow> Inl (LookupError ''source authority key not found'')
    | (Some _, None) \<Rightarrow> Inl (LookupError ''target authority key not found'')
    | (Some source_row, Some target_row) \<Rightarrow>
        res_bind (row_to_key source_row) (\<lambda>source.
        res_bind (row_to_key target_row) (\<lambda>target.
        res_bind (raise_if (authority_id source \<noteq> source_authority r)
          (PermissionError ''source key authority does not match relation'')) (\<lambda>_.
        res_bind (raise_if (authority_id target \<noteq> target_authority r)
          (PermissionError ''target key authority does not match relation'')) (\<lambda>_.
        res_bind (raise_if (public_key_hex source = public_key_hex target)
          (PermissionError ''source and target authorities cannot share one public key'')) (\<lambda>_.
        res_bind (check_role_window r ''source'' source) (\<lambda>_.
        res_bind (check_role_window r ''target'' target) (\<lambda>_.
        verify_witness verify r source target))))))))"

definition binding_of :: "federation_relation \<Rightarrow> string \<Rightarrow> string \<Rightarrow> key_binding" where
  "binding_of r sk tk = \<lparr>kb_relation_id = relation_id r, kb_relation_sha256 = payload_sha256 r,
     kb_source_authority = source_authority r, source_key_id = sk, kb_target_authority = target_authority r,
     target_key_id = tk\<rparr>"

definition bind_relation_body ::
  "(byte list \<Rightarrow> byte list \<Rightarrow> byte list \<Rightarrow> bool) \<Rightarrow> string \<times> string \<Rightarrow> string \<Rightarrow> federation_relation \<Rightarrow> key_binding \<Rightarrow> string \<Rightarrow>
   registry_db \<Rightarrow> ((key_binding \<times> string \<times> json \<times> bool) \<times> registry_db) res" where
  "bind_relation_body verify now build r b actor d = (case find_binding d (relation_id r) of
      Some existing \<Rightarrow>
        res_bind (row_to_binding existing) (\<lambda>stored.
        res_bind (raise_if (stored \<noteq> b) (ValueError ''relation_id is already bound to different key material'')) (\<lambda>_.
        res_bind (json_loads (row_receipt existing)) (\<lambda>receipt.
        Inr ((stored, binding_sha256 stored, receipt, True), d))))
    | None \<Rightarrow>
        res_bind (check_bound_keys verify d r (source_key_id b) (target_key_id b)) (\<lambda>_.
        res_bind (append_ledger (snd now) build (bound_event (fst now) actor b) ''PASS'' d) (\<lambda>(receipt, d1).
        res_bind (insert_binding \<lparr>row_binding = b, row_binding_sha256 = binding_sha256 b, row_bound_by = actor,
           row_bound_at = fst now, row_receipt = canonical_json (receipt_json receipt)\<rparr> d1) (\<lambda>d2.
        Inr ((b, binding_sha256 b, receipt_json receipt, False), d2)))))"

definition register_relation_binding ::
  "(byte list \<Rightarrow> byte list \<Rightarrow> byte list \<Rightarrow> bool) \<Rightarrow> string \<times> string \<Rightarrow> string \<Rightarrow> federation_relation \<Rightarrow> string \<Rightarrow> string \<Rightarrow> string \<Rightarrow>
   registry_db \<Rightarrow> (key_binding \<times> string \<times> json \<times> bool) res \<times> registry_db" where
  "register_relation_binding verify now build r sk tk actor d =
    (case res_bind (require_text actor ''actor_id'') (\<lambda>_.
          res_bind (raise_if (witness_scheme r \<noteq> ED25519_SCHEME)
            (ValueError ''relation key binding requires ED25519-PUBLIC-KEY-V1'')) (\<lambda>_.
          check_binding (binding_of r sk tk))) of
       Inl e \<Rightarrow> (Inl e, d)
     | Inr b \<Rightarrow> transaction (bind_relation_body verify now build r b actor) d)"

definition get_relation_binding :: "registry_db \<Rightarrow> string \<Rightarrow> key_binding option res" where
  "get_relation_binding d r = (case find_binding d r of
      None \<Rightarrow> Inr None | Some row \<Rightarrow> res_bind (row_to_binding row) (\<lambda>b. Inr (Some b)))"

section \<open>The governed gate\<close>

definition key_state_reasons :: "key_record \<Rightarrow> int \<Rightarrow> string \<Rightarrow> string list" where
  "key_state_reasons k t role =
     reason_if (t < key_valid_from k) (role @ ''_key_not_yet_valid'') @
     reason_if (t \<ge> key_valid_until k) (role @ ''_key_expired'') @
     reason_if (case revoked_at k of None \<Rightarrow> False | Some u \<Rightarrow> t \<ge> u) (role @ ''_key_revoked'')"

text \<open>The reasons of one role, and the key it contributes to the ring.\<close>

definition role_key_reasons :: "key_record option \<Rightarrow> string \<Rightarrow> int \<Rightarrow> string \<Rightarrow> string list" where
  "role_key_reasons key bound t role = (case key of
      None \<Rightarrow> [''bound_'' @ role @ ''_key_missing'']
    | Some k \<Rightarrow> reason_if (authority_id k \<noteq> bound) (''bound_'' @ role @ ''_key_authority_mismatch'') @ key_state_reasons k t role)"

definition ring_entry :: "string \<Rightarrow> key_record option \<Rightarrow> (string, string) dict \<Rightarrow> (string, string) dict" where
  "ring_entry who key ring = (case key of None \<Rightarrow> ring | Some k \<Rightarrow> dict_set ring who (public_key_hex k))"

definition binding_reasons ::
  "registry_db \<Rightarrow> int \<Rightarrow> federation_relation \<Rightarrow> (string list \<times> (string, string) dict) res" where
  "binding_reasons d t r =
     res_bind (get_relation_binding d (relation_id r)) (\<lambda>binding. case binding of
       None \<Rightarrow> Inr ([''missing_key_binding''], [])
     | Some b \<Rightarrow>
         res_bind (get_key d (source_key_id b)) (\<lambda>source.
         res_bind (get_key d (target_key_id b)) (\<lambda>target.
         Inr (reason_if (kb_relation_sha256 b \<noteq> payload_sha256 r) ''binding_relation_hash_mismatch'' @
              reason_if (kb_source_authority b \<noteq> source_authority r) ''binding_source_authority_mismatch'' @
              reason_if (kb_target_authority b \<noteq> target_authority r) ''binding_target_authority_mismatch'' @
              role_key_reasons source (kb_source_authority b) t ''source'' @
              role_key_reasons target (kb_target_authority b) t ''target'' @
              reason_if (source \<noteq> None \<and> target \<noteq> None \<and>
                map_option public_key_hex source = map_option public_key_hex target) ''bound_shared_authority_public_key'',
              ring_entry (target_authority r) target (ring_entry (source_authority r) source [])))))"

text \<open>\<open>dict.fromkeys\<close> keeps the first of equal reasons.\<close>

definition first_of_each :: "string list \<Rightarrow> string list" where
  "first_of_each xs = rev (remdups (rev xs))"

definition evaluate_governed ::
  "(byte list \<Rightarrow> byte list \<Rightarrow> byte list \<Rightarrow> bool) \<Rightarrow> registry_db \<Rightarrow> int \<Rightarrow> federation_relation \<Rightarrow> relation_request \<Rightarrow>
   relation_decision res" where
  "evaluate_governed verify d t r q =
     res_bind (binding_reasons d t r) (\<lambda>(why, keys).
     res_bind (new_key_ring (map (\<lambda>(who, pk). (who, KeyHex pk)) keys) []) (\<lambda>ring.
     res_bind (evaluate_ed25519 verify ring t r q) (\<lambda>inner.
     let why' = first_of_each (why @ reasons inner) in
     Inr \<lparr>rd_relation_id = relation_id r, admissible = (why' = []), reasons = why',
          relation_sha256 = relation_sha256 inner, evaluated_at = t\<rparr>)))"

end
