(* ===== verification/Institutional_Store.thy ===== *)
theory Institutional_Store
  imports Institutional_Projection Key_Registry
begin

text \<open>
  \<open>app/institutional_store.py\<close> on the local database: the table of institutional intents and
  the transaction that accepts one. The acceptance is ledgered with the decision HOLD on its
  execution, bound to the projection of the same snapshot, and only the hash of the intent's
  parameters is kept. The environment and both readings of the clock are arguments; the
  remote state service is not modelled.
\<close>

record intent_row =
  in_id :: string
  in_principal :: string
  in_actor :: string
  in_operation :: string
  in_target_kind :: string
  in_target_id :: string
  in_parameters_hash :: string
  in_source_json :: string
  in_hash :: string
  in_status :: string
  in_created_at :: string
  in_receipt_json :: string

record intent_db =
  idb_main :: db
  idb_intents :: "intent_row list"

definition INTENT_STATUS :: string where "INTENT_STATUS = ''PENDING_EVALUATION''"
definition PARAMETER_PERSISTENCE :: string where "PARAMETER_PERSISTENCE = ''HASH_ONLY''"

text \<open>What the checks at the boundary find in an intent.\<close>

record intent_view =
  iv_id :: string
  iv_hash :: string
  iv_actor :: string
  iv_operation :: string
  iv_target :: jobj
  iv_target_kind :: string
  iv_target_id :: string
  iv_source :: jobj
  iv_created_at :: string
  iv_parameters_hash :: string

definition text_or :: "json \<Rightarrow> bool \<Rightarrow> string \<Rightarrow> string res" where
  "text_or v may_be_empty m = (case v of
      JStr s \<Rightarrow> if s = '''' \<and> \<not> may_be_empty then Inl (ValueError m) else Inr s
    | _ \<Rightarrow> Inl (ValueError m))"

definition object_or :: "json \<Rightarrow> string \<Rightarrow> jobj res" where
  "object_or v m = (case v of JObj d \<Rightarrow> Inr d | _ \<Rightarrow> Inl (ValueError m))"

definition verify_internal_boundary :: "jobj \<Rightarrow> string \<Rightarrow> bool \<Rightarrow> intent_view res" where
  "verify_internal_boundary intent who delegated =
     res_bind (text_or (jget intent ''actor_id'') False ''intent actor_id missing'') (\<lambda>actor.
     res_bind (raise_if (actor \<noteq> who \<and> \<not> delegated)
       (ValueError ''intent actor_id must match authenticated principal unless delegated submit is authorized'')) (\<lambda>_.
     res_bind (text_or (jget intent ''intent_id'') False ''intent_id missing'') (\<lambda>iid.
     res_bind (text_or (jget intent ''intent_hash'') True ''intent_hash missing'') (\<lambda>ihash.
     res_bind (text_or (jget intent ''requested_operation'') False ''requested_operation missing'') (\<lambda>operation.
     res_bind (object_or (jget intent ''target'') ''target invalid'') (\<lambda>target.
     res_bind (text_or (jget target ''kind'') True ''target invalid'') (\<lambda>kind.
     res_bind (text_or (jget target ''id'') True ''target invalid'') (\<lambda>tid.
     res_bind (object_or (jget_or intent ''parameters'' (JObj [])) ''parameters invalid'') (\<lambda>parameters.
     res_bind (object_or (jget intent ''source'') ''source binding invalid'') (\<lambda>source.
     res_bind (text_or (jget intent ''created_at'') True ''created_at invalid'') (\<lambda>created.
     res_bind (assert_transferable_state (JObj [(''metadata'', JObj parameters)])) (\<lambda>_.
     res_bind (jcs_subset_hash (JObj parameters)) (\<lambda>phash.
     res_bind (jcs_subset_hash (JObj (filter (\<lambda>p. fst p \<noteq> ''intent_hash'') intent))) (\<lambda>computed.
     res_bind (raise_if (computed \<noteq> ihash) (ValueError ''intent_hash mismatch'')) (\<lambda>_.
     Inr \<lparr>iv_id = iid, iv_hash = ihash, iv_actor = actor, iv_operation = operation, iv_target = target,
          iv_target_kind = kind, iv_target_id = tid, iv_source = source, iv_created_at = created,
          iv_parameters_hash = phash\<rparr>)))))))))))))))"

definition actor_of :: "intent_row \<Rightarrow> string" where
  "actor_of r = (if in_actor r = '''' then in_principal r else in_actor r)"

definition intent_entries :: "intent_row \<Rightarrow> jobj \<Rightarrow> json \<Rightarrow> json \<Rightarrow> jobj" where
  "intent_entries r target source receipt =
     [(''intent_id'', JStr (in_id r)), (''intent_hash'', JStr (in_hash r)), (''status'', JStr (in_status r)),
      (''principal_id'', JStr (in_principal r)), (''actor_id'', JStr (actor_of r)),
      (''requested_operation'', JStr (in_operation r)), (''target'', JObj target),
      (''parameters_hash'', JStr (in_parameters_hash r)), (''parameter_persistence'', JStr PARAMETER_PERSISTENCE),
      (''source'', source), (''created_at'', JStr (in_created_at r)), (''receipt'', receipt),
      (''execution_decision'', JStr ''HOLD'')]"

definition row_to_intent :: "intent_row \<Rightarrow> jobj res" where
  "row_to_intent r =
     res_bind (json_loads (in_source_json r)) (\<lambda>source.
     res_bind (json_loads (in_receipt_json r)) (\<lambda>receipt.
     Inr (intent_entries r [(''kind'', JStr (in_target_kind r)), (''id'', JStr (in_target_id r))] source receipt)))"

definition find_intent :: "intent_db \<Rightarrow> string \<Rightarrow> intent_row option" where
  "find_intent s iid = find (\<lambda>r. in_id r = iid) (idb_intents s)"

text \<open>\<open>{**projection["source"], "projection_hash": projection["projection"]["projection_hash"]}\<close>\<close>

definition expected_source :: "jobj \<Rightarrow> jobj \<times> json" where
  "expected_source projection =
    (let h = (case jget projection ''projection'' of JObj m \<Rightarrow> jget m ''projection_hash'' | _ \<Rightarrow> JNull)
     in (case jget projection ''source'' of JObj s \<Rightarrow> dict_set s ''projection_hash'' h | _ \<Rightarrow> [], h))"

text \<open>The environment of a call: the parser of dates, the guard functions, the variables, both clocks.\<close>

record store_env =
  se_fromiso :: "string \<Rightarrow> parsed_time"
  se_guards :: guard_env
  se_environ :: "(string, string) dict"
  se_accepted_at :: string
  se_ledger_at :: string

definition current_projection :: "store_env \<Rightarrow> db \<Rightarrow> jobj res" where
  "current_projection env d = build_projection_from_db (se_fromiso env) (se_guards env) (se_environ env) d"

definition acceptance_event :: "store_env \<Rightarrow> intent_view \<Rightarrow> string \<Rightarrow> jobj" where
  "acceptance_event env v who =
     [(''event_type'', JStr ''INSTITUTIONAL_INTENT_ACCEPTED''), (''intent_id'', JStr (iv_id v)),
      (''intent_hash'', JStr (iv_hash v)), (''requested_operation'', JStr (iv_operation v)),
      (''target_kind'', JStr (iv_target_kind v)), (''target_id'', JStr (iv_target_id v)),
      (''parameters_hash'', JStr (iv_parameters_hash v)), (''parameter_persistence'', JStr PARAMETER_PERSISTENCE),
      (''principal_id'', JStr who), (''actor_id'', JStr (iv_actor v)),
      (''projection_hash'', jget (iv_source v) ''projection_hash''), (''source_commit'', jget (iv_source v) ''commit_sha''),
      (''created_at'', JStr (iv_created_at v)), (''accepted_at'', JStr (se_accepted_at env)),
      (''execution_decision'', JStr ''HOLD''),
      (''execution_reason'', JStr ''intent commitment accepted; raw parameters require later authorized resubmission and evaluation'')]"

definition new_intent_row :: "intent_view \<Rightarrow> string \<Rightarrow> receipt \<Rightarrow> intent_row" where
  "new_intent_row v who receipt =
     \<lparr>in_id = iv_id v, in_principal = who, in_actor = iv_actor v, in_operation = iv_operation v,
      in_target_kind = iv_target_kind v, in_target_id = iv_target_id v, in_parameters_hash = iv_parameters_hash v,
      in_source_json = canonical_json (JObj (iv_source v)), in_hash = iv_hash v, in_status = INTENT_STATUS,
      in_created_at = iv_created_at v, in_receipt_json = canonical_json (receipt_json receipt)\<rparr>"

definition accepted_entries :: "intent_row \<Rightarrow> jobj \<Rightarrow> json \<Rightarrow> json \<Rightarrow> jobj" where
  "accepted_entries r target source receipt =
     butlast (intent_entries r target source receipt)
       @ [(''idempotent'', JBool False), (''execution_decision'', JStr ''HOLD'')]"

definition accept_new :: "store_env \<Rightarrow> intent_view \<Rightarrow> string \<Rightarrow> intent_db \<Rightarrow> (jobj \<times> intent_db) res" where
  "accept_new env v who s =
     res_bind (raise_if (\<exists>r \<in> set (idb_intents s). in_hash r = iv_hash v)
       (ValueError ''intent_hash already registered under a different intent_id'')) (\<lambda>_.
     res_bind (current_projection env (idb_main s)) (\<lambda>projection.
     let expected = expected_source projection in
     res_bind (raise_if (\<not> py_eq (JObj (iv_source v)) (JObj (fst expected)))
       (ValueError (''intent source binding became stale before persistence; current_projection_hash='' @ py_str (se_guards env) (snd expected)))) (\<lambda>_.
     res_bind (append_ledger_tx (se_ledger_at env) (getenv (se_environ env) ''MATVERSE_BUILD_COMMIT'' '''')
       (acceptance_event env v who) ''PASS'' (idb_main s)) (\<lambda>(receipt, d).
     let row = new_intent_row v who receipt in
     Inr (accepted_entries row (iv_target v) (JObj (iv_source v)) (receipt_json receipt),
          \<lparr>idb_main = d, idb_intents = idb_intents s @ [row]\<rparr>)))))"

definition accept_body :: "store_env \<Rightarrow> intent_view \<Rightarrow> string \<Rightarrow> intent_db \<Rightarrow> (jobj \<times> intent_db) res" where
  "accept_body env v who s = (case find_intent s (iv_id v) of
      None \<Rightarrow> accept_new env v who s
    | Some r \<Rightarrow>
        res_bind (raise_if (in_hash r \<noteq> iv_hash v \<or> in_principal r \<noteq> who \<or> actor_of r \<noteq> iv_actor v)
          (ValueError ''intent_id collision or principal/actor mismatch'')) (\<lambda>_.
        res_bind (row_to_intent r) (\<lambda>stored. Inr (stored @ [(''idempotent'', JBool True)], s))))"

definition persist_intent :: "store_env \<Rightarrow> jobj \<Rightarrow> string \<Rightarrow> bool \<Rightarrow> intent_db \<Rightarrow> jobj res \<times> intent_db" where
  "persist_intent env intent who delegated s =
     (case verify_internal_boundary intent who delegated of
        Inl e \<Rightarrow> (Inl e, s)
      | Inr v \<Rightarrow> transaction (accept_body env v who) s)"

definition get_intent :: "string \<Rightarrow> intent_db \<Rightarrow> jobj option res" where
  "get_intent iid s = (case find_intent s iid of
      None \<Rightarrow> Inr None
    | Some r \<Rightarrow> res_bind (row_to_intent r) (\<lambda>stored. Inr (Some stored)))"

text \<open>\<open>ORDER BY created_at, intent_id\<close>: a stable sort by the second key, then by the first.\<close>

definition list_intents_for_principal :: "string \<Rightarrow> int \<Rightarrow> int \<Rightarrow> intent_db \<Rightarrow> jobj list res" where
  "list_intents_for_principal who limit offset s =
     res_bind (raise_if (limit < 1 \<or> limit > 200) (ValueError ''limit must be between 1 and 200'')) (\<lambda>_.
     res_bind (raise_if (offset < 0) (ValueError ''offset must be >= 0'')) (\<lambda>_.
     res_map row_to_intent (take (nat limit) (drop (nat offset)
       (sort_key in_created_at (sort_key in_id
         (filter (\<lambda>r. in_principal r = who \<or> in_actor r = who) (idb_intents s))))))))"

end
