(* ===== verification/Institutional_Service.thy ===== *)
theory Institutional_Service
  imports Institutional_Store Auth
begin

text \<open>
  \<open>app/institutional_protocol.py\<close>, \<open>app/institutional_runtime_endpoint.py\<close> and
  \<open>app/institutional_service.py\<close>: the vocabulary of the institutional protocol and the HTTP endpoints
  over the projection and the store of intents. An endpoint authenticates first, which spends
  the request's nonce, then validates its parameters, then runs. No remote state service is
  configured. A body with characters above U+00FF, which no text of the model has, counts as no text,
  and the details of failed validations of query parameters, which FastAPI writes, are empty.
\<close>

section \<open>The protocol\<close>

definition PROTOCOL_VERSION :: string where "PROTOCOL_VERSION = ''matverse.institutional-http.v1''"
definition AUTH_METHOD :: string where "AUTH_METHOD = ''HMAC-SHA256''"
definition RUNTIME_SCHEMA_VERSION :: string where "RUNTIME_SCHEMA_VERSION = ''matverse.institutional-runtime.v1''"

definition INTENT_OPERATIONS :: "string list" where
  "INTENT_OPERATIONS = [''REGISTER_ARTIFACT'', ''REGISTER_CLAIM'', ''REGISTER_EVIDENCE'', ''VALIDATE_EVIDENCE'', ''REGISTER_RELATION'',
     ''REGISTER_ACTOR'', ''ASSIGN_AUTHORITY'', ''REGISTER_METRIC'', ''REGISTER_INVENTORY_ITEM'', ''REGISTER_GAP'',
     ''EVALUATE_MATURITY_GATE'', ''VERIFY_IDENTIFIER'', ''REGISTER_TWIN_FINDING'', ''REGISTER_COUNTEREXAMPLE'',
     ''REQUEST_REPRODUCTION'', ''REQUEST_POLICY_REVIEW'', ''REQUEST_REPLAY_CHECK'', ''REQUEST_REGRESSION_FORMALIZATION'',
     ''REQUEST_BENCHMARK'', ''RESOLVE_FINDING'', ''REQUEST_MATURITY_EVALUATION'', ''REQUEST_EXTERNAL_REPRODUCTION'',
     ''REQUEST_WORLD_REAL_EVALUATION'', ''REQUEST_PUBLICATION'', ''REQUEST_ANCHOR'', ''REQUEST_AUTHORIZATION'', ''OTHER'']"

definition TARGET_KINDS :: "string list" where
  "TARGET_KINDS = [''SYSTEM'', ''SUBJECT'', ''ACTOR'', ''ARTIFACT'', ''CLAIM'', ''EVIDENCE'', ''EXPERIMENT'', ''RELATION'', ''METRIC'',
     ''GAP'', ''TWIN'', ''LIVING_UNIT'', ''MATURITY'', ''OTHER'']"

section \<open>Answers\<close>

datatype service_exc = Refused nat json | Escaped exc

type_synonym 'a served = "service_exc + 'a"

definition served_bind :: "'a served \<Rightarrow> ('a \<Rightarrow> 'b served) \<Rightarrow> 'b served" where
  "served_bind m f = (case m of Inl e \<Rightarrow> Inl e | Inr x \<Rightarrow> f x)"

definition refuse_when :: "bool \<Rightarrow> nat \<Rightarrow> json \<Rightarrow> unit served" where
  "refuse_when bad code detail = (if bad then Inl (Refused code detail) else Inr ())"

definition of_auth :: "'a auth \<Rightarrow> 'a served" where
  "of_auth m = (case m of
      Inl (HTTPException code detail) \<Rightarrow> Inl (Refused code (JStr detail))
    | Inl (Raised e) \<Rightarrow> Inl (Escaped e)
    | Inr x \<Rightarrow> Inr x)"

definition uncaught :: "'a res \<Rightarrow> 'a served" where
  "uncaught m = (case m of Inl e \<Rightarrow> Inl (Escaped e) | Inr x \<Rightarrow> Inr x)"

text \<open>\<open>except ValueError as exc: raise HTTPException(422, detail=str(exc))\<close>\<close>

definition or_422 :: "'a res \<Rightarrow> 'a served" where
  "or_422 m = (case m of
      Inl (ValueError s) \<Rightarrow> Inl (Refused 422 (JStr s))
    | Inl e \<Rightarrow> Inl (Escaped e)
    | Inr x \<Rightarrow> Inr x)"

definition source_unavailable :: "string \<Rightarrow> service_exc" where
  "source_unavailable why = Refused 503 (JObj [(''decision'', JStr ''HOLD''), (''freshness'', JStr ''SOURCE_UNAVAILABLE''),
     (''reason'', JStr why)])"

definition or_503 :: "'a res \<Rightarrow> 'a served" where
  "or_503 m = (case m of
      Inl (ProjectionUnavailable s) \<Rightarrow> Inl (source_unavailable s)
    | Inl e \<Rightarrow> Inl (Escaped e)
    | Inr x \<Rightarrow> Inr x)"

section \<open>The shape of an intent\<close>

definition REQUIRED_INTENT_KEYS :: "string list" where
  "REQUIRED_INTENT_KEYS = [''schema_version'', ''intent_id'', ''requested_operation'', ''actor_id'', ''target'', ''parameters'',
     ''created_at'', ''source'', ''intent_hash'', ''hash_algorithm'', ''canonicalization'', ''hash_excludes'']"

definition REQUIRED_SOURCE_KEYS :: "string list" where
  "REQUIRED_SOURCE_KEYS = [''repository'', ''commit_sha'', ''ref'', ''frozen_contract_hash'', ''gate_fingerprint'',
     ''constitutional_contract_hash'', ''projection_hash'']"

definition requires :: "principal_rec \<Rightarrow> string \<Rightarrow> unit served" where
  "requires p capability = refuse_when (\<not> allows p capability) 403 (JStr (''principal lacks capability: '' @ capability))"

definition nonempty_string :: "json \<Rightarrow> string \<Rightarrow> string served" where
  "nonempty_string v field = (case v of
      JStr s \<Rightarrow> if s = '''' \<or> length s > 256
        then Inl (Refused 422 (JStr (field @ '' must be a non-empty string <= 256 characters''))) else Inr s
    | _ \<Rightarrow> Inl (Refused 422 (JStr (field @ '' must be a non-empty string <= 256 characters''))))"

text \<open>
  The regular expression of RFC 3339 times under \<open>fullmatch\<close>: the date and time of fixed width, an optional
  fraction, and \<open>Z\<close> or an offset. Of the characters up to U+00FF, \<open>\d\<close> matches \<open>0\<close> to \<open>9\<close>.
\<close>

fun matches_shape :: "string \<Rightarrow> string \<Rightarrow> bool" where
  "matches_shape [] s = (s = [])"
| "matches_shape (p # ps) [] = False"
| "matches_shape (p # ps) (c # cs) = ((if p = CHR ''d'' then is_digit c else p = c) \<and> matches_shape ps cs)"

definition is_offset :: "string \<Rightarrow> bool" where
  "is_offset s = (s = ''Z'' \<or> matches_shape ''+dd:dd'' s \<or> matches_shape ''-dd:dd'' s)"

definition is_rfc3339 :: "string \<Rightarrow> bool" where
  "is_rfc3339 s = (matches_shape ''dddd-dd-ddTdd:dd:dd'' (take 19 s) \<and>
     (let rest = drop 19 s in case rest of
        CHR ''.'' # r \<Rightarrow> takeWhile is_digit r \<noteq> [] \<and> is_offset (dropWhile is_digit r)
      | _ \<Rightarrow> is_offset rest))"

definition validate_rfc3339 :: "(string \<Rightarrow> parsed_time) \<Rightarrow> json \<Rightarrow> string \<Rightarrow> string served" where
  "validate_rfc3339 fromiso v field =
    (let bad = Inl (Refused 422 (JStr (field @ '' must be RFC 3339 date-time with explicit timezone''))) in case v of
      JStr s \<Rightarrow> if \<not> is_rfc3339 s then bad
        else (case fromiso (replace_Z s) of
            None \<Rightarrow> Inl (Refused 422 (JStr (field @ '' must be a valid RFC 3339 date-time'')))
          | Some (t, None) \<Rightarrow> Inl (Refused 422 (JStr (field @ '' must include an explicit timezone'')))
          | Some (t, Some offset) \<Rightarrow> Inr s)
    | _ \<Rightarrow> bad)"

text \<open>\<open>value not in frozenset\<close>: a list or a dictionary has no hash.\<close>

definition not_member :: "json \<Rightarrow> string list \<Rightarrow> bool served" where
  "not_member v allowed = (case v of
      JArr xs \<Rightarrow> Inl (Escaped (TypeError ''unhashable type''))
    | JObj d \<Rightarrow> Inl (Escaped (TypeError ''unhashable type''))
    | JStr s \<Rightarrow> Inr (s \<notin> set allowed)
    | _ \<Rightarrow> Inr True)"

definition same_keys :: "jobj \<Rightarrow> string list \<Rightarrow> bool" where
  "same_keys d ks = (set (map fst d) = set ks)"

definition key_report :: "jobj \<Rightarrow> json" where
  "key_report raw = JObj
     [(''missing'', JArr (map JStr (sort (filter (\<lambda>k. map_of raw k = None) REQUIRED_INTENT_KEYS)))),
      (''unexpected'', JArr (map JStr (sort (filter (\<lambda>k. k \<notin> set REQUIRED_INTENT_KEYS) (map fst raw)))))]"

definition check_parameters :: "json \<Rightarrow> unit served" where
  "check_parameters v = (case v of
      JObj parameters \<Rightarrow>
        served_bind (or_422 (assert_transferable_state (JObj [(''metadata'', JObj parameters)]))) (\<lambda>_.
        served_bind (or_422 (jcs_subset_hash (JObj parameters))) (\<lambda>_. Inr ()))
    | _ \<Rightarrow> Inl (Refused 422 (JStr ''parameters must be an object'')))"

definition check_target :: "json \<Rightarrow> unit served" where
  "check_target v = (case v of
      JObj target \<Rightarrow>
        served_bind (refuse_when (\<not> same_keys target [''kind'', ''id'']) 422 (JStr ''target must contain exactly kind and id'')) (\<lambda>_.
        served_bind (not_member (jget target ''kind'') TARGET_KINDS) (\<lambda>bad.
        served_bind (refuse_when bad 422 (JStr ''unsupported target kind'')) (\<lambda>_.
        served_bind (nonempty_string (jget target ''id'') ''target.id'') (\<lambda>_. Inr ()))))
    | _ \<Rightarrow> Inl (Refused 422 (JStr ''target must contain exactly kind and id'')))"

definition check_source_keys :: "json \<Rightarrow> unit served" where
  "check_source_keys v = (case v of
      JObj source \<Rightarrow> refuse_when (\<not> same_keys source REQUIRED_SOURCE_KEYS) 422
        (JStr ''source must contain the complete institutional source binding'')
    | _ \<Rightarrow> Inl (Refused 422 (JStr ''source must contain the complete institutional source binding'')))"

definition check_intent_hash :: "jobj \<Rightarrow> unit served" where
  "check_intent_hash raw = (case jget raw ''intent_hash'' of
      JStr h \<Rightarrow>
        served_bind (refuse_when (\<not> hex_lower_n 64 h) 422 (JStr ''intent_hash must be a lowercase SHA-256 digest'')) (\<lambda>_.
        served_bind (or_422 (jcs_subset_hash (JObj (filter (\<lambda>p. fst p \<noteq> ''intent_hash'') raw)))) (\<lambda>expected.
        refuse_when (h \<noteq> expected) 422 (JStr ''intent_hash mismatch'')))
    | _ \<Rightarrow> Inl (Refused 422 (JStr ''intent_hash must be a lowercase SHA-256 digest'')))"

definition check_fields :: "(string \<Rightarrow> parsed_time) \<Rightarrow> jobj \<Rightarrow> unit served" where
  "check_fields fromiso raw =
     served_bind (refuse_when (jget raw ''schema_version'' \<noteq> JStr ''matverse.institutional-intent.v1'') 422
       (JStr ''unsupported institutional intent schema_version'')) (\<lambda>_.
     served_bind (nonempty_string (jget raw ''intent_id'') ''intent_id'') (\<lambda>_.
     served_bind (nonempty_string (jget raw ''actor_id'') ''actor_id'') (\<lambda>_.
     served_bind (not_member (jget raw ''requested_operation'') INTENT_OPERATIONS) (\<lambda>bad.
     served_bind (refuse_when bad 422 (JStr ''unsupported requested_operation'')) (\<lambda>_.
     served_bind (check_target (jget raw ''target'')) (\<lambda>_.
     served_bind (check_parameters (jget raw ''parameters'')) (\<lambda>_.
     served_bind (validate_rfc3339 fromiso (jget raw ''created_at'') ''created_at'') (\<lambda>_.
     served_bind (check_source_keys (jget raw ''source'')) (\<lambda>_.
     served_bind (refuse_when (jget raw ''hash_algorithm'' \<noteq> JStr ''SHA-256'') 422 (JStr ''hash_algorithm must be SHA-256'')) (\<lambda>_.
     served_bind (refuse_when (jget raw ''canonicalization'' \<noteq> JStr ''RFC8785_JCS'') 422
       (JStr ''canonicalization must be RFC8785_JCS'')) (\<lambda>_.
     served_bind (refuse_when (jget raw ''hash_excludes'' \<noteq> JArr [JStr ''intent_hash'']) 422
       (JStr (''hash_excludes must equal '' @ py_repr (JArr [JStr ''intent_hash''])))) (\<lambda>_.
     check_intent_hash raw))))))))))))"

definition validate_intent_shape :: "(string \<Rightarrow> parsed_time) \<Rightarrow> json \<Rightarrow> jobj served" where
  "validate_intent_shape fromiso v = (case v of
      JObj raw \<Rightarrow>
        served_bind (refuse_when (\<not> same_keys raw REQUIRED_INTENT_KEYS) 422 (key_report raw)) (\<lambda>_.
        served_bind (check_fields fromiso raw) (\<lambda>_. Inr raw))
    | _ \<Rightarrow> Inl (Refused 422 (JStr ''intent payload must be an object'')))"

section \<open>Handlers\<close>

definition current_projection_or_503 :: "store_env \<Rightarrow> intent_db \<Rightarrow> jobj served" where
  "current_projection_or_503 env s = or_503 (current_projection env (idb_main s))"

definition assert_current_source :: "json \<Rightarrow> jobj \<Rightarrow> unit served" where
  "assert_current_source source projection =
    (let (expected, h) = expected_source projection in
     refuse_when (\<not> py_eq source (JObj expected)) 409
       (JObj [(''decision'', JStr ''HOLD''),
         (''reason'', JStr ''intent source binding is stale or does not match the current canonical projection''),
         (''current_projection_hash'', h)]))"

text \<open>\<open>{..., **stored}\<close>\<close>

definition accepted_response :: "jobj \<Rightarrow> json" where
  "accepted_response stored = JObj (foldl (\<lambda>d (k, v). dict_set d k v)
     [(''acceptance_decision'', JStr ''PASS''),
      (''acceptance_reason'', JStr ''authenticated, source-bound institutional intent accepted for canonical evaluation''),
      (''execution_decision'', JStr ''HOLD''),
      (''execution_reason'', JStr ''intent acceptance does not authorize or execute the requested operation'')] stored)"

text \<open>What \<open>persist_intent\<close> raises, as the endpoint answers it.\<close>

definition persist_error :: "exc \<Rightarrow> service_exc" where
  "persist_error e = (case e of
      ProjectionUnavailable s \<Rightarrow> source_unavailable s
    | ValueError s \<Rightarrow> Refused 409 (if occurs_in ''stale'' s then JObj [(''decision'', JStr ''HOLD''), (''reason'', JStr s)] else JStr s)
    | JSONDecodeError \<Rightarrow> Refused 409 (JStr '''')
    | _ \<Rightarrow> Escaped e)"

text \<open>What the handler reads before it calls the store: a recorded intent, or nothing and a current source.\<close>

definition admit_intent :: "store_env \<Rightarrow> jobj \<Rightarrow> principal_rec \<Rightarrow> intent_db \<Rightarrow> jobj option served" where
  "admit_intent env intent p s =
     served_bind (refuse_when (JStr (pr_id p) \<noteq> jget intent ''actor_id'' \<and> \<not> allows p ''institutional:intent:submit:any'') 403
       (JStr ''authenticated principal does not match intent actor_id'')) (\<lambda>_.
     served_bind (uncaught (get_intent (case jget intent ''intent_id'' of JStr i \<Rightarrow> i | _ \<Rightarrow> '''') s)) (\<lambda>existing. case existing of
         Some e \<Rightarrow>
           served_bind (refuse_when (jget e ''principal_id'' \<noteq> JStr (pr_id p) \<or> jget e ''actor_id'' \<noteq> jget intent ''actor_id'' \<or>
               jget e ''intent_hash'' \<noteq> jget intent ''intent_hash'') 409
             (JStr ''intent_id collision or principal/actor/content mismatch'')) (\<lambda>_.
           Inr (Some (dict_set e ''idempotent'' (JBool True))))
       | None \<Rightarrow>
           served_bind (current_projection_or_503 env s) (\<lambda>projection.
           served_bind (assert_current_source (jget intent ''source'') projection) (\<lambda>_. Inr None))))"

definition submit_intent :: "store_env \<Rightarrow> jobj \<Rightarrow> principal_rec \<Rightarrow> intent_db \<Rightarrow> json served \<times> intent_db" where
  "submit_intent env intent p s = (case admit_intent env intent p s of
      Inl e \<Rightarrow> (Inl e, s)
    | Inr (Some stored) \<Rightarrow> (Inr (accepted_response stored), s)
    | Inr None \<Rightarrow> (case persist_intent env intent (pr_id p) (allows p ''institutional:intent:submit:any'') s of
        (Inl e, s') \<Rightarrow> (Inl (persist_error e), s')
      | (Inr stored, s') \<Rightarrow> (Inr (accepted_response stored), s')))"

text \<open>\<open>await request.json()\<close>: the body's text, or a \<open>ValueError\<close> for bytes that are no text or no JSON.\<close>

definition request_json :: "request \<Rightarrow> json served" where
  "request_json rq = (case utf8_decode (rq_body rq) of
      None \<Rightarrow> Inl (Refused 422 (JStr ''request body must be valid JSON''))
    | Some t \<Rightarrow> (case json_loads t of
        Inl e \<Rightarrow> Inl (Refused 422 (JStr ''request body must be valid JSON''))
      | Inr v \<Rightarrow> Inr v))"

definition submit_institutional_intent :: "store_env \<Rightarrow> request \<Rightarrow> principal_rec \<Rightarrow> intent_db \<Rightarrow> json served \<times> intent_db" where
  "submit_institutional_intent env rq p s =
    (case served_bind (requires p ''institutional:intent:submit'') (\<lambda>_.
          served_bind (request_json rq) (validate_intent_shape (se_fromiso env))) of
       Inl e \<Rightarrow> (Inl e, s)
     | Inr intent \<Rightarrow> submit_intent env intent p s)"

definition institutional_projection :: "store_env \<Rightarrow> principal_rec \<Rightarrow> intent_db \<Rightarrow> json served" where
  "institutional_projection env p s =
     served_bind (requires p ''institutional:projection:read'') (\<lambda>_.
     served_bind (current_projection_or_503 env s) (\<lambda>projection. Inr (JObj projection)))"

definition read_institutional_intent :: "string \<Rightarrow> principal_rec \<Rightarrow> intent_db \<Rightarrow> json served" where
  "read_institutional_intent iid p s =
     served_bind (requires p ''institutional:intent:read'') (\<lambda>_.
     served_bind (uncaught (get_intent iid s)) (\<lambda>found. case found of
         None \<Rightarrow> Inl (Refused 404 (JStr ''institutional intent not found''))
       | Some item \<Rightarrow>
           served_bind (refuse_when (JStr (pr_id p) \<notin> {jget item ''principal_id'', jget item ''actor_id''} \<and>
               \<not> allows p ''institutional:intent:read:any'') 403
             (JStr ''principal may not read another actor's intent'')) (\<lambda>_. Inr (JObj item))))"

definition list_institutional_intents :: "int \<Rightarrow> int \<Rightarrow> principal_rec \<Rightarrow> intent_db \<Rightarrow> json served" where
  "list_institutional_intents limit offset p s =
     served_bind (requires p ''institutional:intent:read'') (\<lambda>_.
     served_bind (uncaught (list_intents_for_principal (pr_id p) limit offset s)) (\<lambda>items.
     Inr (JObj [(''principal_id'', JStr (pr_id p)), (''limit'', JInt limit), (''offset'', JInt offset),
       (''intents'', JArr (map JObj items))])))"

definition is_runtime_id :: "string \<Rightarrow> bool" where
  "is_runtime_id s = (3 \<le> length s \<and> length s \<le> 128 \<and> list_all (\<lambda>c. let n = of_char c :: nat in
     (65 \<le> n \<and> n \<le> 90) \<or> (97 \<le> n \<and> n \<le> 122) \<or> (48 \<le> n \<and> n \<le> 57) \<or> c \<in> set ''._:-'') s)"

definition runtime_id_or_503 :: "(string, string) dict \<Rightarrow> string served" where
  "runtime_id_or_503 environ =
    (let runtime_id = getenv environ ''MATVERSE_RUNTIME_ID'' '''' in
     if is_runtime_id runtime_id then Inr runtime_id
     else Inl (source_unavailable ''MATVERSE_RUNTIME_ID must be provisioned before external activation''))"

definition institutional_runtime :: "store_env \<Rightarrow> principal_rec \<Rightarrow> intent_db \<Rightarrow> json served" where
  "institutional_runtime env p s =
     served_bind (requires p ''institutional:projection:read'') (\<lambda>_.
     served_bind (current_projection_or_503 env s) (\<lambda>projection.
     served_bind (runtime_id_or_503 (se_environ env)) (\<lambda>runtime_id.
     Inr (JObj [(''schema_version'', JStr RUNTIME_SCHEMA_VERSION), (''protocol_version'', JStr PROTOCOL_VERSION),
       (''runtime_id'', JStr runtime_id), (''authentication'', JStr AUTH_METHOD),
       (''authenticated_principal_id'', JStr (pr_id p)), (''source'', jget projection ''source''),
       (''projection_hash'', snd (expected_source projection)), (''status'', JStr ''READY''),
       (''intent_execution'', JStr ''HOLD'')]))))"

section \<open>The router\<close>

datatype service_call =
    Health
  | ReadProjection
  | SubmitIntent
  | ReadIntent string
  | ListIntents int int
  | ReadRuntime

record service_env =
  sv_store :: store_env
  sv_principals :: string
  sv_wall_clock :: int
  sv_sqlite_clock :: int

fun query_valid :: "service_call \<Rightarrow> bool" where
  "query_valid (ListIntents limit offset) = (1 \<le> limit \<and> limit \<le> 200 \<and> 0 \<le> offset)"
| "query_valid _ = True"

fun answer_call :: "store_env \<Rightarrow> request \<Rightarrow> service_call \<Rightarrow> principal_rec \<Rightarrow> intent_db \<Rightarrow> json served \<times> intent_db" where
  "answer_call env rq SubmitIntent p s = submit_institutional_intent env rq p s"
| "answer_call env rq ReadProjection p s = (institutional_projection env p s, s)"
| "answer_call env rq (ReadIntent iid) p s = (read_institutional_intent iid p s, s)"
| "answer_call env rq (ListIntents limit offset) p s = (list_institutional_intents limit offset p s, s)"
| "answer_call env rq ReadRuntime p s = (institutional_runtime env p s, s)"
| "answer_call env rq Health p s =
     (Inr (JObj [(''status'', JStr ''ok''), (''service'', JStr ''matverse-institutional-adapter-v1'')]), s)"

definition identify :: "service_env \<Rightarrow> request \<Rightarrow> intent_db \<Rightarrow> principal_rec served \<times> intent_db" where
  "identify env rq s = (case authenticate (sv_principals env) None (sv_wall_clock env) (sv_sqlite_clock env) rq
      (idb_main s) of (p, d) \<Rightarrow> (of_auth p, s\<lparr>idb_main := d\<rparr>))"

definition serve_institutional :: "service_env \<Rightarrow> request \<Rightarrow> service_call \<Rightarrow> intent_db \<Rightarrow> json served \<times> intent_db" where
  "serve_institutional env rq call s =
    (if call = Health then answer_call (sv_store env) rq call \<lparr>pr_id = '''', capabilities = []\<rparr> s
     else case identify env rq s of
        (Inl e, s1) \<Rightarrow> (Inl e, s1)
      | (Inr p, s1) \<Rightarrow> if query_valid call then answer_call (sv_store env) rq call p s1 else (Inl (Refused 422 (JObj [])), s1))"

end
