(* ===== verification/Institutional_Properties.thy ===== *)
theory Institutional_Properties
  imports Institutional_Projection
begin

text \<open>
  The guarantees of the institutional projection: its canonical text determines the value,
  what is assembled is always admissible, so that the final validation never rejects it, and
  when a projection is available at all.
\<close>

section \<open>The canonical subset determines the value\<close>

text \<open>The value with its integral floats read as the integers they are.\<close>

primrec integers_of :: "json \<Rightarrow> json" where
  "integers_of JNull = JNull"
| "integers_of (JBool b) = JBool b"
| "integers_of (JInt i) = JInt i"
| "integers_of (JFloat t) = (case integral_float t of None \<Rightarrow> JFloat t | Some i \<Rightarrow> JInt i)"
| "integers_of (JStr s) = JStr s"
| "integers_of (JArr xs) = JArr (map integers_of xs)"
| "integers_of (JObj kvs) = JObj (map (map_prod id integers_of) kvs)"

lemma jcs_text_canonical: "jcs_subset_text v = canonical_json (integers_of v)"
proof (induction v)
  case (JFloat t)
  then show ?case by (simp add: canonical_json_def split: option.split)
next
  case (JArr xs)
  then have "map jcs_subset_text xs = map (dump_json False) (map integers_of xs)" by (simp add: canonical_json_def)
  then show ?case by (simp add: canonical_json_def del: map_map)
next
  case (JObj kvs)
  then have "map (map_prod id jcs_subset_text) kvs = map (map_prod id (dump_json False)) (map (map_prod id integers_of) kvs)"
    by (force simp: canonical_json_def)
  then show ?case by (simp add: canonical_json_def del: map_map)
qed (simp_all add: canonical_json_def)

lemma assert_jcs_items_all: "assert_jcs_items xs n path = Inr () \<Longrightarrow> x \<in> set xs \<Longrightarrow> \<exists>p. assert_jcs_subset x p = Inr ()"
  by (induction xs arbitrary: n) (auto simp: res_bind_eq_Inr)

lemma assert_jcs_fields_all: "assert_jcs_fields kvs path = Inr () \<Longrightarrow> (k, x) \<in> set kvs \<Longrightarrow> \<exists>p. assert_jcs_subset x p = Inr ()"
  by (induction kvs) (auto simp: res_bind_eq_Inr)

lemma jcs_wf: "assert_jcs_subset v path = Inr () \<Longrightarrow> wf_json v \<Longrightarrow> wf_json (integers_of v)"
proof (induction v arbitrary: path)
  case (JArr xs)
  have "wf_json (integers_of x)" if "x \<in> set xs" for x
    using JArr.IH [OF that] assert_jcs_items_all [OF _ that] JArr.prems that by (force simp: list_all_iff)
  then show ?case by (simp add: list_all_iff)
next
  case (JObj kvs)
  have "wf_json (integers_of x)" if kx: "(k, x) \<in> set kvs" for k x
  proof -
    have "assert_jcs_fields kvs path = Inr ()" using JObj.prems(1) by simp
    from assert_jcs_fields_all [OF this kx] obtain p where "assert_jcs_subset x p = Inr ()" by blast
    moreover have "wf_json x" using JObj.prems(2) kx by (auto simp: list_all_iff)
    ultimately show ?thesis using JObj.IH kx by (metis snds.intros snd_conv)
  qed
  then show ?case using JObj.prems(2) by (auto simp: list_all_iff o_def)
qed (auto split: option.split)

text \<open>Two accepted values with the same hash are the same value, up to the order of keys and integral floats
  written as integers, unless SHA-256 collides on their two canonical texts.\<close>

theorem jcs_hash_binds:
  assumes "jcs_subset_hash v = Inr h" and "jcs_subset_hash w = Inr h" and "wf_json v" and "wf_json w"
    and "inj_on sha256_text {jcs_subset_text v, jcs_subset_text w}"
  shows "sort_json (integers_of v) = sort_json (integers_of w)"
proof -
  have ok: "assert_jcs_subset v ''$'' = Inr ()" "assert_jcs_subset w ''$'' = Inr ()"
    and same: "sha256_text (jcs_subset_text v) = sha256_text (jcs_subset_text w)"
    using assms(1,2) by (auto simp: jcs_subset_hash_def res_bind_eq_Inr)
  have "jcs_subset_text v = jcs_subset_text w" using same assms(5) by (auto dest: inj_onD)
  then show ?thesis
    unfolding jcs_text_canonical using jcs_wf [OF ok(1) assms(3)] jcs_wf [OF ok(2) assms(4)]
    by (intro canonical_json_determines) simp_all
qed

theorem jcs_hash_binds_witness:
  "\<exists>h. jcs_subset_hash (JObj [(''a'', JInt 1), (''b'', JNull)]) = Inr h \<and>
     sort_json (integers_of (JObj [(''a'', JInt 1), (''b'', JNull)])) = sort_json (integers_of (JObj [(''b'', JNull), (''a'', JFloat ''1.0'')]))"
proof -
  let ?v = "JObj [(''a'', JInt 1), (''b'', JNull)]" and ?w = "JObj [(''b'', JNull), (''a'', JFloat ''1.0'')]"
  have same: "jcs_subset_text ?v = jcs_subset_text ?w" by code_simp
  have ok: "assert_jcs_subset ?v ''$'' = Inr ()" "assert_jcs_subset ?w ''$'' = Inr ()" "wf_json ?v" "wf_json ?w" by code_simp+
  have hashes: "jcs_subset_hash ?v = Inr (sha256_text (jcs_subset_text ?v))" "jcs_subset_hash ?w = Inr (sha256_text (jcs_subset_text ?v))"
    unfolding jcs_subset_hash_def ok(1,2) res_bind_Inr same by (rule refl)+
  have "inj_on sha256_text {jcs_subset_text ?v, jcs_subset_text ?w}" unfolding same by simp
  from jcs_hash_binds [OF hashes ok(3,4) this] show ?thesis using hashes(1) by blast
qed

section \<open>What is assembled is admissible\<close>

lemma verified_hashes:
  assumes "verify_rows prev entries = Inr head"
  shows "\<forall>row \<in> set entries. hex_lower_n 64 (event_hash row)"
  using assms by (induction entries arbitrary: prev)
    (auto simp: verify_rows_Cons row_ok_def sha256_text_hex entry_hash_def split: if_splits)

lemma source_commit_ok: "event_source_commit event seq = Inr c \<Longrightarrow> is_git_object_id c"
  by (auto simp: event_source_commit_def Let_def split: json.splits if_splits)

lemma git_object_json [simp]: "is_git_object (JStr c) = is_git_object_id c"
  by (simp add: is_git_object_id_def)

definition pointers :: "(string, jobj) dict \<Rightarrow> bool" where
  "pointers found \<longleftrightarrow> (\<forall>e \<in> ran (map_of found). is_evidence_pointer (JObj e) \<and> is_text (jget e ''source_commit''))"

lemma artifact_receipt_pointers:
  assumes "artifact_receipt row found = Inr found'" and "pointers found" and "hex_lower_n 64 (event_hash row)"
  shows "pointers found'"
proof -
  consider "found' = found" | h commit where "is_git_object_id commit" "found' = dict_set found h
      [(''evidence_id'', ledger_id row), (''receipt_hash'', JStr (event_hash row)), (''source_commit'', JStr commit)]"
    using assms(1) by (auto simp: artifact_receipt_def res_bind_eq_Inr dest: source_commit_ok split: sum.splits if_splits json.splits)
  then show ?thesis
  proof cases
    case 2
    then show ?thesis using assms(2,3) by (auto simp: pointers_def ran_def jget_def ledger_id_def is_git_object_id_def)
  qed (use assms(2) in simp)
qed

lemma receipts_pointers:
  "res_fold artifact_receipt entries found = Inr found' \<Longrightarrow> pointers found \<Longrightarrow>
     \<forall>row \<in> set entries. hex_lower_n 64 (event_hash row) \<Longrightarrow> pointers found'"
  by (induction entries arbitrary: found) (auto simp: res_bind_eq_Inr intro: artifact_receipt_pointers)

lemma project_artifact_evidenced:
  assumes "pointers found"
  shows "evidenced ''status'' has_evidence ''evidence'' (project_artifact commit found row)"
  using assms by (auto simp: evidenced_def project_artifact_def Let_def jget_def pointers_def ran_def)

lemma build_binding_bound: "build_binding env environ = Inr source \<Longrightarrow> bound_source (JObj source)"
  by (auto simp: build_binding_def Let_def res_bind_eq_Inr bound_source_def jget_def gate_fingerprint_of_def
      constitutional_contract_hash_of_def stable_hash_hex is_git_object_id_def)

lemma artifacts_evidenced:
  assumes "project_contract_artifacts rows commit entries = Inr artifacts" and "verify_rows ''GENESIS'' entries = Inr head"
  shows "\<forall>x \<in> set artifacts. evidenced ''status'' has_evidence ''evidence'' x"
proof -
  obtain found where "res_fold artifact_receipt entries [] = Inr found" "artifacts = map (project_artifact commit found) rows"
    using assms(1) by (auto simp: project_contract_artifacts_def res_bind_eq_Inr)
  moreover have "pointers []" by (simp add: pointers_def)
  ultimately show ?thesis
    using receipts_pointers verified_hashes [OF assms(2)] project_artifact_evidenced by auto
qed

lemma jcs_hash_hex: "jcs_subset_hash v = Inr h \<Longrightarrow> hex_lower_n 64 h"
  by (auto simp: jcs_subset_hash_def res_bind_eq_Inr sha256_text_hex)

lemma projection_with_admissible:
  assumes "bound_source (JObj source)" and "\<forall>x \<in> set artifacts. evidenced ''status'' has_evidence ''evidence'' x"
    and "hex_lower_n 64 h"
  shows "admissible_projection (projection_with source artifacts receipts (sealed_meta g h r))"
  using assms
  by (simp add: admissible_projection_def projection_with_def jget_def listed_def read_only_policy_def projection_bound_def
      projection_meta_def sealed_meta_def traces_good_def)

text \<open>A projection without the hash it carries: what is hashed.\<close>

definition unhashed :: "jobj \<Rightarrow> jobj" where
  "unhashed p = map (\<lambda>(k, v). (k, if k = ''projection'' then (case v of
      JObj m \<Rightarrow> JObj (filter (\<lambda>q. fst q \<noteq> ''projection_hash'') m) | w \<Rightarrow> w) else v)) p"

definition seals_itself :: "jobj \<Rightarrow> bool" where
  "seals_itself p \<longleftrightarrow> (\<exists>meta h. jget p ''projection'' = JObj meta \<and> jget meta ''projection_hash'' = JStr h \<and>
     jcs_subset_hash (JObj (unhashed p)) = Inr h)"

lemma projection_with_sealed:
  assumes "jcs_subset_hash (JObj (projection_with source artifacts receipts (projection_meta g r))) = Inr h"
  shows "seals_itself (projection_with source artifacts receipts (sealed_meta g h r))"
proof -
  have "unhashed (projection_with source artifacts receipts (sealed_meta g h r)) =
      projection_with source artifacts receipts (projection_meta g r)"
    by (simp add: unhashed_def projection_with_def projection_meta_def sealed_meta_def)
  moreover have "jget (sealed_meta g h r) ''projection_hash'' = JStr h"
    by (simp add: sealed_meta_def projection_meta_def jget_def)
  moreover have "jget (projection_with source artifacts receipts (sealed_meta g h r)) ''projection'' = JObj (sealed_meta g h r)"
    by (simp add: projection_with_def jget_def)
  ultimately show ?thesis using assms by (simp add: seals_itself_def)
qed

lemma assembled:
  assumes "assemble_projection fromiso env environ entries rows = Inr p"
  shows "admissible_projection p \<and> seals_itself p"
proof -
  obtain head where "verify_rows ''GENESIS'' entries = Inr head"
    using assms by (auto simp: assemble_projection_def verify_ledger_rows_def split: sum.splits)
  then show ?thesis
    using assms unfolding assemble_projection_def
    by (auto simp: verify_ledger_rows_def res_bind_eq_Inr Let_def
        intro!: projection_with_admissible projection_with_sealed dest: build_binding_bound artifacts_evidenced jcs_hash_hex)
qed

text \<open>C35: The validation that ends the building of a projection never rejects anything: a projection that is
  assembled is built, it is admissible, and the hash it carries is that of the rest of it; and if it
  cannot be assembled, the same exception comes out.\<close>

theorem projection_never_rejected:
  "case assemble_projection fromiso env environ entries rows of
     Inl e \<Rightarrow> build_projection fromiso env environ entries rows = Inl e
   | Inr p \<Rightarrow> build_projection fromiso env environ entries rows = Inr p \<and> admissible_projection p \<and> seals_itself p"
proof (cases "assemble_projection fromiso env environ entries rows")
  case (Inr p)
  from assembled [OF this] have p: "admissible_projection p" "seals_itself p" by simp_all
  then obtain v where "validate_projection_semantics p = Inr v" "validation_ok v" using projection_admitted by blast
  then show ?thesis using Inr p by (simp add: build_projection_def)
qed (simp add: build_projection_def)

section \<open>When a projection is available\<close>

fun texts_only :: "json \<Rightarrow> bool" where
  "texts_only (JInt i) = False"
| "texts_only (JFloat t) = False"
| "texts_only (JArr xs) = (\<forall>x \<in> set xs. texts_only x)"
| "texts_only (JObj kvs) = (dict_ok kvs \<and> (\<forall>p \<in> set kvs. texts_only (snd p)))"
| "texts_only v = True"

lemma texts_only_jcs: "texts_only v \<Longrightarrow> assert_jcs_subset v path = Inr ()"
  "\<forall>p \<in> set kvs. texts_only (snd p) \<Longrightarrow> assert_jcs_fields kvs path = Inr ()"
  "\<forall>x \<in> set xs. texts_only x \<Longrightarrow> assert_jcs_items xs n path = Inr ()"
  by (induction v path and kvs path and xs n path rule: assert_jcs_subset_assert_jcs_fields_assert_jcs_items.induct) simp_all

text \<open>A ledger row that the projection can cite.\<close>

definition citable :: "ledger_row \<Rightarrow> bool" where
  "citable row \<longleftrightarrow> (\<exists>e c. json_loads (event_json row) = Inr (JObj e) \<and> event_source_commit e (row_seq row) = Inr c)"

lemma artifact_receipts_return:
  assumes "list_all citable entries"
  shows "\<exists>found'. res_fold artifact_receipt entries found = Inr found'"
  using assms
proof (induction entries arbitrary: found)
  case (Cons row entries)
  then obtain e c where "json_loads (event_json row) = Inr (JObj e)" "event_source_commit e (row_seq row) = Inr c"
    by (auto simp: citable_def)
  then have "\<exists>found'. artifact_receipt row found = Inr found'"
    by (auto simp: artifact_receipt_def as_object_def split: json.split)
  then show ?case using Cons by auto
qed simp

lemma project_receipt_returns: "(\<exists>r. project_receipt row = Inr r) \<longleftrightarrow> citable row"
  by (auto simp: project_receipt_def citable_def as_object_def res_bind_eq_Inr split: sum.split json.splits)

lemma res_map_returns: "(\<exists>ys. res_map f xs = Inr ys) \<longleftrightarrow> list_all (\<lambda>x. \<exists>y. f x = Inr y) xs"
  by (induction xs) (auto simp: res_bind_eq_Inr)

lemma genesis_returns: "\<exists>g. genesis_commitment = Inr g"
  by (simp add: genesis_commitment_def jcs_subset_hash_def SAFE_INTEGER_def)

lemma project_receipts_return: "(\<exists>rs. project_receipts commit entries = Inr rs) \<longleftrightarrow> list_all citable entries"
proof (cases "entries = []")
  case True
  obtain g where g: "genesis_commitment = Inr g" using genesis_returns by blast
  show ?thesis unfolding project_receipts_def g True by simp
next
  case False
  then show ?thesis by (simp add: project_receipts_def res_map_returns project_receipt_returns)
qed

definition only_texts :: "jobj \<Rightarrow> bool" where
  "only_texts d \<longleftrightarrow> dict_ok d \<and> (\<forall>p \<in> set d. \<exists>s. snd p = JStr s)"

lemma artifact_receipt_texts:
  assumes "artifact_receipt row found = Inr found'" and "\<forall>e \<in> ran (map_of found). only_texts e"
  shows "\<forall>e \<in> ran (map_of found'). only_texts e"
proof -
  consider "found' = found" | h commit where "found' = dict_set found h
      [(''evidence_id'', ledger_id row), (''receipt_hash'', JStr (event_hash row)), (''source_commit'', JStr commit)]"
    using assms(1) by (auto simp: artifact_receipt_def res_bind_eq_Inr split: sum.splits if_splits json.splits)
  then show ?thesis
  proof cases
    case (2 h commit)
    have "only_texts [(''evidence_id'', ledger_id row), (''receipt_hash'', JStr (event_hash row)), (''source_commit'', JStr commit)]"
      by (simp add: only_texts_def ledger_id_def dict_ok_def)
    then show ?thesis using assms(2) 2 by (auto simp: ran_def)
  qed (use assms(2) in simp)
qed

lemma receipts_texts: "res_fold artifact_receipt entries found = Inr found' \<Longrightarrow> \<forall>e \<in> ran (map_of found). only_texts e \<Longrightarrow>
    \<forall>e \<in> ran (map_of found'). only_texts e"
proof (induction entries arbitrary: found)
  case (Cons row entries)
  then show ?case using artifact_receipt_texts by (auto simp: res_bind_eq_Inr)
qed simp

lemma only_texts_get: "only_texts e \<Longrightarrow> texts_only (JObj e) \<and> texts_only (jget e k)"
  by (force simp: only_texts_def jget_def split: option.split dest: map_of_SomeD)

lemma artifacts_texts:
  assumes "project_contract_artifacts rows commit entries = Inr artifacts"
  shows "\<forall>x \<in> set artifacts. texts_only x"
proof -
  obtain found where f: "res_fold artifact_receipt entries [] = Inr found" "artifacts = map (project_artifact commit found) rows"
    using assms by (auto simp: project_contract_artifacts_def res_bind_eq_Inr)
  have found: "only_texts e" if "map_of found h = Some e" for h e
    using receipts_texts [OF f(1)] that by (auto simp: ran_def)
  have "texts_only (project_artifact commit found row)" for row
    using only_texts_get found by (auto simp: project_artifact_def Let_def dict_ok_def split: option.split)
  then show ?thesis using f(2) by simp
qed

lemma receipts_are_texts:
  assumes "project_receipts commit entries = Inr receipts"
  shows "\<forall>x \<in> set receipts. texts_only x"
proof -
  have type_text: "texts_only (case v of JStr s \<Rightarrow> JStr s | _ \<Rightarrow> JStr x)" for v x by (cases v) simp_all
  have one: "texts_only r" if "project_receipt row = Inr r" for row r
    using that by (auto simp: project_receipt_def res_bind_eq_Inr ledger_id_def type_text dict_ok_def split: sum.splits)
  have "\<forall>x \<in> set rs. texts_only x" if "res_map project_receipt es = Inr rs" for es rs
    using that one by (induction es arbitrary: rs) (auto simp: res_bind_eq_Inr)
  then show ?thesis using assms by (auto simp: project_receipts_def res_bind_eq_Inr dict_ok_def split: if_splits)
qed

lemma binding_texts: "build_binding env environ = Inr source \<Longrightarrow> only_texts source"
  by (auto simp: build_binding_def Let_def res_bind_eq_Inr only_texts_def dict_ok_def)

lemma projection_texts:
  assumes "only_texts source" and "\<forall>x \<in> set artifacts. texts_only x" and "\<forall>x \<in> set receipts. texts_only x"
  shows "texts_only (JObj (projection_with source artifacts receipts (projection_meta g r)))"
proof -
  have "texts_only (JObj source)" using assms(1) only_texts_get by blast
  then show ?thesis using assms(2,3) by (simp add: projection_with_def projection_meta_def dict_ok_def)
qed

lemma projection_hashable:
  assumes "only_texts source" and "\<forall>x \<in> set artifacts. texts_only x" and "\<forall>x \<in> set receipts. texts_only x"
  shows "\<exists>h. jcs_subset_hash (JObj (projection_with source artifacts receipts (projection_meta g r))) = Inr h"
  by (simp only: jcs_subset_hash_def texts_only_jcs(1) [OF projection_texts [OF assms]] res_bind_Inr) blast

text \<open>Values of texts are what they are for the canonical subset.\<close>

lemma texts_only_wf: "texts_only v \<Longrightarrow> wf_json v"
proof (induction v rule: texts_only.induct)
  case (4 kvs)
  then show ?case by (auto simp: dict_ok_def list_all_iff)
qed (simp_all add: list_all_iff)

lemma texts_only_integers: "texts_only v \<Longrightarrow> integers_of v = v"
proof (induction v rule: texts_only.induct)
  case (3 xs)
  then show ?case by (simp add: map_idI)
next
  case (4 kvs)
  then show ?case by (force intro: map_idI)
qed simp_all

lemma projection_exists:
  "(\<exists>p. build_projection fromiso env environ entries rows = Inr p) \<longleftrightarrow>
     (\<exists>head. verify_rows ''GENESIS'' entries = Inr head) \<and> (\<exists>source. build_binding env environ = Inr source) \<and>
     list_all citable entries \<and> (\<exists>t. projection_time fromiso environ entries = Inr t)"
  (is "?left \<longleftrightarrow> ?right")
proof
  assume ?left
  then obtain p where "assemble_projection fromiso env environ entries rows = Inr p"
    by (auto simp: build_projection_def res_bind_eq_Inr)
  then show ?right
    using project_receipts_return
    by (auto simp: assemble_projection_def verify_ledger_rows_def res_bind_eq_Inr Let_def split: sum.splits)
next
  assume right: ?right
  then obtain head source t where h: "verify_rows ''GENESIS'' entries = Inr head" and s: "build_binding env environ = Inr source"
    and t: "projection_time fromiso environ entries = Inr t" by blast
  obtain found where found: "res_fold artifact_receipt entries [] = Inr found" using artifact_receipts_return right by blast
  obtain receipt where receipt: "(if hex_lower_n 64 head then Inr head else genesis_commitment) = Inr receipt"
    using genesis_returns by metis
  define commit where "commit = (case jget source ''commit_sha'' of JStr s \<Rightarrow> s | _ \<Rightarrow> '''')"
  obtain artifacts where a: "project_contract_artifacts rows commit entries = Inr artifacts"
    using found by (simp add: project_contract_artifacts_def)
  obtain receipts where r: "project_receipts commit entries = Inr receipts" using project_receipts_return right by blast
  obtain hash where "jcs_subset_hash (JObj (projection_with source artifacts receipts (projection_meta t receipt))) = Inr hash"
    using projection_hashable [OF binding_texts [OF s] artifacts_texts [OF a] receipts_are_texts [OF r]] by blast
  then have "\<exists>p. assemble_projection fromiso env environ entries rows = Inr p"
    using h s t receipt a r by (simp add: assemble_projection_def verify_ledger_rows_def Let_def commit_def)
  then obtain p where p: "assemble_projection fromiso env environ entries rows = Inr p" by blast
  then obtain v where "validate_projection_semantics p = Inr v" "validation_ok v"
    using assembled projection_admitted by blast
  then show ?left using p by (simp add: build_projection_def)
qed

text \<open>C36: A projection is available exactly when the ledger's hash chain verifies, the build binding is configured,
  every event of the ledger is a JSON object that names the commit it came from, and a time can be found.
  Nothing else about the ledger or the artifacts can make it fail.\<close>

theorem projection_available:
  "(\<exists>p. build_projection fromiso env environ entries rows = Inr p) \<longleftrightarrow>
     (\<exists>head. verify_rows ''GENESIS'' entries = Inr head) \<and> (\<exists>source. build_binding env environ = Inr source) \<and>
     list_all citable entries \<and> (\<exists>t. projection_time fromiso environ entries = Inr t)"
  by (rule projection_exists)

end
