(* ===== verification/Intent_Properties.thy ===== *)
theory Intent_Properties
  imports Institutional_Store Institutional_Properties Storage_Properties Organism_Properties
begin

text \<open>
  What the acceptance of institutional intents promises: every intent of the table has its event
  on the ledger, with the decision HOLD on its execution; an intent once accepted is returned,
  unchanged, for ever; and an acceptance moves the projection, so that no second intent
  can be bound to the projection an intent was accepted on.
\<close>

section \<open>What the boundary lets through\<close>

lemma text_or_Inr [simp]: "text_or v b m = Inr s \<longleftrightarrow> v = JStr s \<and> (s = '''' \<longrightarrow> b)"
  by (auto simp: text_or_def split: json.split)

lemma object_or_Inr [simp]: "object_or v m = Inr d \<longleftrightarrow> v = JObj d"
  by (auto simp: object_or_def split: json.split)

lemma boundary_fields:
  assumes "verify_internal_boundary intent who delegated = Inr v"
  shows "jget intent ''source'' = JObj (iv_source v)" and "jget intent ''intent_id'' = JStr (iv_id v)"
    and "jget intent ''actor_id'' = JStr (iv_actor v)" and "iv_actor v \<noteq> ''''" and "jget intent ''intent_hash'' = JStr (iv_hash v)"
    and "iv_actor v = who \<or> delegated"
  using assms by (auto simp: verify_internal_boundary_def res_bind_eq_Inr)

section \<open>A new acceptance\<close>

text \<open>The current hash of a projection, and the text it is the digest of.\<close>

definition projection_text :: "store_env \<Rightarrow> db \<Rightarrow> string" where
  "projection_text env d = (case current_projection env d of
      Inr p \<Rightarrow> jcs_subset_text (JObj (unhashed p)) | Inl _ \<Rightarrow> '''')"

lemma assembled_source:
  assumes "assemble_projection fromiso env environ entries rows = Inr p"
  obtains src where "build_binding env environ = Inr src" and "jget p ''source'' = JObj src"
proof -
  obtain head where "verify_rows ''GENESIS'' entries = Inr head"
    using assms by (auto simp: assemble_projection_def verify_ledger_rows_def split: sum.splits)
  then have "\<exists>src. build_binding env environ = Inr src \<and> jget p ''source'' = JObj src"
    using assms unfolding assemble_projection_def
    by (auto simp: verify_ledger_rows_def res_bind_eq_Inr Let_def projection_with_def jget_def)
  then show ?thesis using that by blast
qed

lemma binding_dict: "build_binding env environ = Inr src \<Longrightarrow>
    dict_ok src \<and> (\<exists>c. map_of src ''commit_sha'' = Some (JStr c) \<and> is_git_object_id c)"
  by (auto simp: build_binding_def Let_def res_bind_eq_Inr dict_ok_def)

lemma lower_idem [simp]: "lower (lower s) = lower s"
proof -
  have "lower_char (lower_char x) = lower_char x" for x by (auto simp: lower_char_def Let_def of_char_of)
  then show ?thesis by (simp add: lower_def comp_def)
qed

lemma binding_commit: "build_binding env environ = Inr src \<Longrightarrow> map_of src ''commit_sha'' = Some (JStr c) \<Longrightarrow> is_git_object_id (lower c)"
  by (auto simp: build_binding_def Let_def res_bind_eq_Inr)

lemma current_source:
  assumes "current_projection env d = Inr p"
  obtains src c where "build_binding (se_guards env) (se_environ env) = Inr src" and "expected_source p =
      (dict_set src ''projection_hash'' (JStr (sha256_text (projection_text env d))), JStr (sha256_text (projection_text env d)))"
    and "dict_ok src" and "map_of src ''commit_sha'' = Some (JStr c)" and "is_git_object_id c"
proof -
  have a: "assemble_projection (se_fromiso env) (se_guards env) (se_environ env)
      (read_ledger d) (sort_key artifact_hash (contract_artifacts d)) = Inr p"
    using assms unfolding current_projection_def build_projection_from_db_def build_projection_def by (auto simp: res_bind_eq_Inr)
  obtain src where src: "build_binding (se_guards env) (se_environ env) = Inr src" "jget p ''source'' = JObj src"
    using assembled_source [OF a] by blast
  have "seals_itself p" using assembled [OF a] by blast
  then have "expected_source p = (dict_set src ''projection_hash'' (JStr (sha256_text (projection_text env d))),
      JStr (sha256_text (projection_text env d)))"
    using assms src(2) by (auto simp: seals_itself_def expected_source_def projection_text_def Let_def jcs_subset_hash_def res_bind_eq_Inr)
  then show ?thesis using that src(1) binding_dict [OF src(1)] by blast
qed

lemma py_key_text: "py_key v = JStr s \<longleftrightarrow> v = JStr s"
  by (cases v) (auto simp: float_key_def Let_def split: option.splits json.splits list.splits)

lemma py_eq_text:
  assumes "py_eq (JObj d) (JObj d')" and "dict_ok d" and "dict_ok d'" and "map_of d' k = Some (JStr s)"
  shows "map_of d k = Some (JStr s)"
proof -
  have one: "map_of (sort_key fst (map (map_prod id py_key) x)) k = map_option py_key (map_of x k)" if "dict_ok x" for x
    using that by (simp add: map_of_sort_key dict_ok_def map_of_map_prod_snd)
  have "map_option py_key (map_of d k) = Some (JStr s)"
    using assms(1) one [OF assms(2)] one [OF assms(3)] assms(4) by (simp add: py_eq_def)
  then show ?thesis by (auto simp: py_key_text)
qed

text \<open>What a new acceptance did.\<close>

lemma accept_newE:
  assumes "accept_new env v who s = Inr (r, s')" and "dict_ok (iv_source v)"
  obtains p receipt d c where "current_projection env (idb_main s) = Inr p"
    and "map_of (iv_source v) ''projection_hash'' = Some (JStr (sha256_text (projection_text env (idb_main s))))"
    and "map_of (iv_source v) ''commit_sha'' = Some (JStr c)" and "is_git_object_id c"
    and "append_ledger_tx (se_ledger_at env) (getenv (se_environ env) ''MATVERSE_BUILD_COMMIT'' '''')
       (acceptance_event env v who) ''PASS'' (idb_main s) = Inr (receipt, d)"
    and "s' = \<lparr>idb_main = d, idb_intents = idb_intents s @ [new_intent_row v who receipt]\<rparr>"
    and "r = accepted_entries (new_intent_row v who receipt) (iv_target v) (JObj (iv_source v)) (receipt_json receipt)"
    and "\<forall>r \<in> set (idb_intents s). in_hash r \<noteq> iv_hash v"
proof -
  obtain p receipt d where p: "current_projection env (idb_main s) = Inr p"
    and eq: "py_eq (JObj (iv_source v)) (JObj (fst (expected_source p)))"
    and rest: "append_ledger_tx (se_ledger_at env) (getenv (se_environ env) ''MATVERSE_BUILD_COMMIT'' '''')
       (acceptance_event env v who) ''PASS'' (idb_main s) = Inr (receipt, d)"
      "s' = \<lparr>idb_main = d, idb_intents = idb_intents s @ [new_intent_row v who receipt]\<rparr>"
      "r = accepted_entries (new_intent_row v who receipt) (iv_target v) (JObj (iv_source v)) (receipt_json receipt)"
      "\<forall>r \<in> set (idb_intents s). in_hash r \<noteq> iv_hash v"
    using assms(1) by (auto simp: accept_new_def res_bind_eq_Inr Let_def split: prod.splits)
  obtain src c where src: "expected_source p =
      (dict_set src ''projection_hash'' (JStr (sha256_text (projection_text env (idb_main s)))),
       JStr (sha256_text (projection_text env (idb_main s))))"
    "dict_ok src" "map_of src ''commit_sha'' = Some (JStr c)" "is_git_object_id c"
    using current_source [OF p] by blast
  have field: "map_of (iv_source v) k = Some (JStr t)" if "map_of (fst (expected_source p)) k = Some (JStr t)" for k t
    by (rule py_eq_text [OF eq assms(2) _ that]) (simp add: src(1,2))
  show ?thesis
    by (rule that [OF p _ _ src(4) rest(1,2,3,4)]) (rule field, simp add: src(1,3) map_of_dict_set)+
qed

section \<open>The table and the ledger\<close>

definition receipt_of_row :: "ledger_row \<Rightarrow> receipt" where
  "receipt_of_row row = \<lparr>rc_seq = row_seq row, rc_prev_hash = prev_hash row, rc_event_hash = event_hash row,
     rc_decision = row_decision row\<rparr>"

definition intent_facts :: "intent_row \<Rightarrow> (string \<times> string) list" where
  "intent_facts r = [(''event_type'', ''INSTITUTIONAL_INTENT_ACCEPTED''), (''intent_id'', in_id r), (''intent_hash'', in_hash r),
     (''requested_operation'', in_operation r), (''parameters_hash'', in_parameters_hash r),
     (''principal_id'', in_principal r), (''actor_id'', in_actor r), (''execution_decision'', ''HOLD'')]"

text \<open>A row of the ledger records an intent: it says all of this of it, and the intent's receipt is that row's.\<close>

definition records_intent :: "intent_row \<Rightarrow> ledger_row \<Rightarrow> bool" where
  "records_intent r row \<longleftrightarrow> row_decision row = ''PASS'' \<and> in_receipt_json r = canonical_json (receipt_json (receipt_of_row row)) \<and>
     (\<exists>e. json_loads (event_json row) = Inr (JObj e) \<and> list_all (\<lambda>(k, t). jget e k = JStr t) (intent_facts r))"

definition intent_ok :: "intent_row \<Rightarrow> bool" where
  "intent_ok r \<longleftrightarrow> in_actor r \<noteq> '''' \<and> in_status r = INTENT_STATUS \<and>
     (\<exists>src. wf_json (JObj src) \<and> in_source_json r = canonical_json (JObj src))"

definition intents_ok :: "intent_db \<Rightarrow> bool" where
  "intents_ok s \<longleftrightarrow> db_ok (idb_main s) \<and> distinct (map in_id (idb_intents s)) \<and> distinct (map in_hash (idb_intents s)) \<and>
     (\<forall>r \<in> set (idb_intents s). intent_ok r \<and> (\<exists>row \<in> set (ledger (idb_main s)). records_intent r row))"

lemma stored_field:
  assumes "event_to_store now bc e = Inr stored" and "k \<noteq> ''ledger_at''" and "k \<noteq> ''source_commit''"
  shows "map_of stored k = map_of e k"
  using assms by (auto simp: event_to_store_def Let_def map_of_dict_set split: json.splits if_splits)

lemma stored_commit:
  assumes "event_to_store now bc e = Inr stored" and "map_of e ''source_commit'' = Some (JStr c)"
  shows "map_of stored ''source_commit'' = Some (JStr (lower c)) \<and> is_git_object_id (lower c)"
  using assms by (auto simp: event_to_store_def Let_def map_of_dict_set jget_def split: json.splits if_splits)

lemma loaded_field:
  assumes "wf_json (JObj d)"
  obtains e where "json_loads (canonical_json (JObj d)) = Inr (JObj e)"
    and "\<And>k t. map_of d k = Some (JStr t) \<Longrightarrow> jget e k = JStr t"
proof -
  obtain e where e: "sort_json (JObj d) = JObj e" by simp
  have "jget e k = JStr t" if "map_of d k = Some (JStr t)" for k t
    using jget_sort_json [OF wf_JObj_dict_ok [OF assms] e, of k] that by (simp add: jget_def)
  then show ?thesis using that e assms by simp
qed

lemma acceptance_event_wf:
  assumes "wf_json (JObj (iv_source v))"
  shows "wf_json (JObj (acceptance_event env v who))"
  using wf_jget [OF assms] by (simp add: acceptance_event_def)

lemma boundary_wf: "verify_internal_boundary intent who delegated = Inr v \<Longrightarrow> wf_json (JObj intent) \<Longrightarrow> wf_json (JObj (iv_source v))"
  using wf_jget [of intent "''source''"] boundary_fields(1) by metis

text \<open>The row the acceptance appends to the ledger records the intent and can be cited by later projections.\<close>

lemma acceptance_recorded:
  assumes "append_ledger_tx now bc (acceptance_event env v who) ''PASS'' d = Inr (receipt, d')"
    and "wf_json (JObj (iv_source v))" and "map_of (iv_source v) ''commit_sha'' = Some (JStr c)"
  obtains row where "ledger d' = ledger d @ [row]" and "records_intent (new_intent_row v who receipt) row" and "citable row"
  using assms(1)
proof (rule append_ledger_txE)
  fix stored row
  assume st: "event_to_store now bc (acceptance_event env v who) = Inr stored"
    and row: "row = \<lparr>row_seq = next_seq (ledger d), prev_hash = last_hash (ledger d),
        event_hash = entry_hash (last_hash (ledger d)) (canonical_json (JObj stored), ''PASS''),
        event_json = canonical_json (JObj stored), row_decision = ''PASS''\<rparr>"
    and d': "d' = d\<lparr>ledger := ledger d @ [row]\<rparr>"
    and rc: "receipt = \<lparr>rc_seq = row_seq row, rc_prev_hash = prev_hash row, rc_event_hash = event_hash row, rc_decision = ''PASS''\<rparr>"
  have "wf_json (JObj stored)" using wf_event_to_store [OF st acceptance_event_wf [OF assms(2)]] .
  then obtain e where e: "json_loads (event_json row) = Inr (JObj e)"
    and field: "\<And>k t. map_of stored k = Some (JStr t) \<Longrightarrow> jget e k = JStr t"
    using loaded_field row by (metis ledger_row.select_convs(4))
  have same: "jget e k = JStr t" if "map_of (acceptance_event env v who) k = Some (JStr t)" "k \<noteq> ''ledger_at''" "k \<noteq> ''source_commit''" for k t
    using field stored_field [OF st] that by simp
  have "records_intent (new_intent_row v who receipt) row"
    unfolding records_intent_def using e
    by (auto simp: row rc receipt_of_row_def intent_facts_def new_intent_row_def acceptance_event_def intro!: same)
  moreover have "citable row"
  proof -
    have "map_of (acceptance_event env v who) ''source_commit'' = Some (JStr c)"
      using assms(3) by (simp add: acceptance_event_def jget_def)
    then have "jget e ''source_commit'' = JStr (lower c)" "is_git_object_id (lower c)"
      using stored_commit [OF st] field by auto
    then show ?thesis using e by (auto simp: citable_def event_source_commit_def Let_def)
  qed
  ultimately show ?thesis using that d' by simp
qed

section \<open>Steps\<close>

text \<open>One call of the intents' interface, or one of the storage's on the same database.\<close>

inductive intent_step :: "intent_db \<Rightarrow> intent_db \<Rightarrow> bool" where
  persist: "wf_json (JObj intent) \<Longrightarrow> intent_step s (snd (persist_intent env intent who delegated s))"
| storage: "db_step (idb_main s) d \<Longrightarrow> intent_step s (s\<lparr>idb_main := d\<rparr>)"

inductive_cases intent_stepE: "intent_step s s'"

definition empty_intent_db :: intent_db where
  "empty_intent_db = \<lparr>idb_main = empty_db, idb_intents = []\<rparr>"

definition intents_reachable :: "intent_db \<Rightarrow> bool" where
  "intents_reachable s = intent_step\<^sup>*\<^sup>* empty_intent_db s"

text \<open>What changes at all: the ledger and the table of intents grow at their ends.\<close>

definition grows :: "intent_db \<Rightarrow> intent_db \<Rightarrow> bool" where
  "grows s s' \<longleftrightarrow> (\<exists>rows new. ledger (idb_main s') = ledger (idb_main s) @ rows \<and> idb_intents s' = idb_intents s @ new)"

lemma grows_refl [simp]: "grows s s"
  by (simp add: grows_def)

lemma grows_trans: "grows s t \<Longrightarrow> grows t u \<Longrightarrow> grows s u"
  by (auto simp: grows_def)

lemma persist_cases:
  obtains (same) "snd (persist_intent env intent who delegated s) = s"
  | (new) v r where "verify_internal_boundary intent who delegated = Inr v" and "find_intent s (iv_id v) = None"
      and "accept_new env v who s = Inr (r, snd (persist_intent env intent who delegated s))"
      and "fst (persist_intent env intent who delegated s) = Inr r"
  by (cases "verify_internal_boundary intent who delegated"; cases "accept_body env (projr (verify_internal_boundary intent who delegated)) who s")
    (auto simp: persist_intent_def transaction_def accept_body_def res_bind_eq_Inr split: option.splits)

lemma accept_new_keeps:
  assumes "accept_new env v who s = Inr (r, s')" and wf: "wf_json (JObj (iv_source v))" and "iv_actor v \<noteq> ''''"
    and fresh: "find_intent s (iv_id v) = None" and ok: "intents_ok s"
  shows "intents_ok s' \<and> grows s s'"
proof -
  from assms(1) wf_JObj_dict_ok [OF wf] obtain receipt d c where
    commit: "map_of (iv_source v) ''commit_sha'' = Some (JStr c)"
    and a: "append_ledger_tx (se_ledger_at env) (getenv (se_environ env) ''MATVERSE_BUILD_COMMIT'' '''')
       (acceptance_event env v who) ''PASS'' (idb_main s) = Inr (receipt, d)"
    and s': "s' = \<lparr>idb_main = d, idb_intents = idb_intents s @ [new_intent_row v who receipt]\<rparr>"
    and hash: "\<forall>r \<in> set (idb_intents s). in_hash r \<noteq> iv_hash v"
    by (rule accept_newE) blast
  obtain row where row: "ledger d = ledger (idb_main s) @ [row]" "records_intent (new_intent_row v who receipt) row"
    using acceptance_recorded [OF a wf commit] by blast
  have "db_ok d" using append_keeps_db_ok [OF a acceptance_event_wf [OF wf]] ok by (simp add: intents_ok_def)
  moreover have "intent_ok (new_intent_row v who receipt)" using assms(3) wf by (auto simp: intent_ok_def new_intent_row_def)
  moreover have "\<forall>r \<in> set (idb_intents s). in_id r \<noteq> iv_id v" using fresh by (simp add: find_intent_def find_None_iff)
  ultimately show ?thesis using ok row hash unfolding intents_ok_def s' grows_def
    by (auto simp: new_intent_row_def)
qed

lemma intent_step_keeps:
  assumes "intent_step s s'" and ok: "intents_ok s"
  shows "intents_ok s' \<and> grows s s'"
  using assms(1)
proof (cases rule: intent_step.cases)
  case (persist intent env who delegated)
  show ?thesis
  proof (cases rule: persist_cases [of env intent who delegated s])
    case (new v r)
    then show ?thesis
      using accept_new_keeps boundary_wf boundary_fields(4) persist ok by metis
  qed (simp add: persist ok)
next
  case (storage d)
  have "db_ok d" using step_keeps [OF storage(2)] ok by (simp add: intents_ok_def)
  moreover obtain rows where "ledger d = ledger (idb_main s) @ rows" using ledger_append_only [OF storage(2)] by auto
  ultimately show ?thesis using ok unfolding storage(1) intents_ok_def grows_def by auto
qed

lemma intent_steps_keep: "intent_step\<^sup>*\<^sup>* s s' \<Longrightarrow> intents_ok s \<Longrightarrow> intents_ok s' \<and> grows s s'"
proof (induction rule: rtranclp_induct)
  case (step t u)
  then show ?case using intent_step_keeps grows_trans by blast
qed simp

lemma intents_reachable_ok: "intents_reachable s \<Longrightarrow> intents_ok s"
  using intent_steps_keep [of empty_intent_db s]
  by (simp add: intents_reachable_def intents_ok_def empty_intent_db_def empty_db_ok)

text \<open>In every reachable database the ledger's chain is intact with its other tables, no two intents share an
  id or a hash, and every intent has a row of the ledger that records it, with the decision HOLD on its
  execution, and whose receipt is the intent's.\<close>

theorem intents_on_ledger:
  assumes "intents_reachable s"
  shows "db_ok (idb_main s) \<and> distinct (map in_id (idb_intents s)) \<and> distinct (map in_hash (idb_intents s)) \<and>
    list_all (\<lambda>r. list_ex (records_intent r) (ledger (idb_main s))) (idb_intents s)"
  using intents_reachable_ok [OF assms] by (auto simp: intents_ok_def list_all_iff list_ex_iff)

section \<open>An acceptance moves the projection\<close>

lemma unhashed_projection: "unhashed (projection_with source artifacts receipts (sealed_meta g h r)) =
    projection_with source artifacts receipts (projection_meta g r)"
  by (simp add: unhashed_def projection_with_def projection_meta_def sealed_meta_def)

lemma projection_parts:
  assumes "assemble_projection fromiso env environ entries rows = Inr p"
  obtains source artifacts receipts meta commit where "unhashed p = projection_with source artifacts receipts meta"
    and "texts_only (JObj (projection_with source artifacts receipts meta))" and "project_receipts commit entries = Inr receipts"
proof -
  obtain head where "verify_rows ''GENESIS'' entries = Inr head"
    using assms by (auto simp: assemble_projection_def verify_ledger_rows_def split: sum.splits)
  with assms obtain source artifacts receipts g r h commit where
    "build_binding env environ = Inr source" "project_contract_artifacts rows commit entries = Inr artifacts"
    "project_receipts commit entries = Inr receipts"
    "p = projection_with source artifacts receipts (sealed_meta g h r)"
    unfolding assemble_projection_def by (auto simp: verify_ledger_rows_def res_bind_eq_Inr Let_def)
  then show ?thesis
    using that unhashed_projection projection_texts binding_texts artifacts_texts receipts_are_texts by metis
qed

text \<open>Projections with the same text cite the same receipts.\<close>

lemma text_receipts:
  assumes "jcs_subset_text (JObj (projection_with s a rs m)) = jcs_subset_text (JObj (projection_with s' a' rs' m'))"
    and "texts_only (JObj (projection_with s a rs m))" and "texts_only (JObj (projection_with s' a' rs' m'))"
  shows "map sort_json rs = map sort_json rs'"
proof -
  have wf: "wf_json (JObj (projection_with s a rs m))" "wf_json (JObj (projection_with s' a' rs' m'))"
    using assms(2,3) texts_only_wf by blast+
  have "canonical_json (JObj (projection_with s a rs m)) = canonical_json (JObj (projection_with s' a' rs' m'))"
    using assms(1) unfolding jcs_text_canonical texts_only_integers [OF assms(2)] texts_only_integers [OF assms(3)] .
  from sorted_field_eq [OF canonical_json_determines [OF wf this] wf, of "''receipts''"] show ?thesis
    by (simp add: projection_with_def)
qed

lemma project_receipts_length: "project_receipts commit entries = Inr rs \<Longrightarrow> length rs = max 1 (length entries)"
  by (cases entries) (auto simp: project_receipts_def res_bind_eq_Inr dest!: res_map_length)

lemma genesis_receipt:
  assumes "project_receipts commit [] = Inr rs" and "project_receipts commit' [row] = Inr rs'" and "row_seq row = 1"
  shows "map sort_json rs \<noteq> map sort_json rs'"
proof
  assume eq: "map sort_json rs = map sort_json rs'"
  have one: "nat_text (Suc 0) = ''1''" by (simp add: nat_text.simps digit_char_def)
  have type_wf: "wf_json (case v of JStr s \<Rightarrow> JStr s | _ \<Rightarrow> JStr t)" for v t by (cases v) simp_all
  obtain d where d: "rs = [JObj ((''receipt_id'', JStr ''ledger:GENESIS'') # d)]" "wf_json (JObj ((''receipt_id'', JStr ''ledger:GENESIS'') # d))"
    using assms(1) by (auto simp: project_receipts_def res_bind_eq_Inr)
  obtain d' where d': "rs' = [JObj ((''receipt_id'', JStr ''ledger:1'') # d')]" "wf_json (JObj ((''receipt_id'', JStr ''ledger:1'') # d'))"
    using assms(2,3) by (auto simp: project_receipts_def project_receipt_def res_bind_eq_Inr ledger_id_def int_text_def one type_wf
        split: sum.splits)
  have "sort_json (JObj ((''receipt_id'', JStr ''ledger:GENESIS'') # d)) = sort_json (JObj ((''receipt_id'', JStr ''ledger:1'') # d'))"
    using eq unfolding d(1) d'(1) by simp
  from sorted_field_eq [OF this d(2) d'(2), of "''receipt_id''"] show False by simp
qed

lemma receipts_grow:
  assumes "project_receipts commit entries = Inr rs" and "project_receipts commit' (entries @ row # more_rows) = Inr rs'"
    and "entries = [] \<Longrightarrow> row_seq row = 1"
  shows "map sort_json rs \<noteq> map sort_json rs'"
proof
  assume eq: "map sort_json rs = map sort_json rs'"
  then have "length rs = length rs'" by (rule map_eq_imp_length_eq)
  then have "entries = []" "more_rows = []"
    using project_receipts_length [OF assms(1)] project_receipts_length [OF assms(2)] by (cases entries; simp)+
  then show False using genesis_receipt assms eq by simp
qed

lemma persist_new:
  assumes "persist_intent env intent who delegated s = (Inr r, s')" and "jget r ''idempotent'' = JBool False"
  obtains v where "verify_internal_boundary intent who delegated = Inr v" and "find_intent s (iv_id v) = None"
    and "accept_new env v who s = Inr (r, s')"
  using assms
  by (cases "verify_internal_boundary intent who delegated")
    (auto simp: persist_intent_def transaction_Inr accept_body_def res_bind_eq_Inr row_to_intent_def intent_entries_def jget_def
      split: option.splits)

lemma current_assembled: "current_projection env d = Inr p \<Longrightarrow> assemble_projection (se_fromiso env) (se_guards env) (se_environ env)
      (read_ledger d) (sort_key artifact_hash (contract_artifacts d)) = Inr p"
  unfolding current_projection_def build_projection_from_db_def build_projection_def by (auto simp: res_bind_eq_Inr)

lemma later_projection_differs:
  assumes "current_projection env d = Inr p" and "current_projection env' d' = Inr p'"
    and "ledger d' = ledger d @ row # more_rows" and "ledger_ok (ledger d)" and ok: "ledger_ok (ledger d')"
  shows "projection_text env d \<noteq> projection_text env' d'"
proof
  assume same: "projection_text env d = projection_text env' d'"
  obtain s a rs m c where p: "unhashed p = projection_with s a rs m" "texts_only (JObj (projection_with s a rs m))"
    "project_receipts c (ledger d) = Inr rs"
    using projection_parts [OF current_assembled [OF assms(1)]] by_seq_ok [OF assms(4)] by (metis read_ledger_def)
  obtain s' a' rs' m' c' where p': "unhashed p' = projection_with s' a' rs' m'" "texts_only (JObj (projection_with s' a' rs' m'))"
    "project_receipts c' (ledger d @ row # more_rows) = Inr rs'"
    using projection_parts [OF current_assembled [OF assms(2)]] by_seq_ok [OF ok] assms(3) by (metis read_ledger_def)
  have "row_seq row = 1" if "ledger d = []" using ok assms(3) that by (auto simp: ledger_ok_def upt_rec)
  then have "map sort_json rs \<noteq> map sort_json rs'" using receipts_grow [OF p(3) p'(3)] by blast
  moreover have "map sort_json rs = map sort_json rs'"
    using text_receipts [OF _ p(2) p'(2)] same assms(1,2) p(1) p'(1) by (simp add: projection_text_def)
  ultimately show False by simp
qed

text \<open>C38: An acceptance uses its projection up. The hash the source of a newly accepted intent names is the digest of the
  text of the projection at that moment, and after any later calls the current projection has another
  text; so another new intent can be accepted on the same source only if SHA-256 collides on the two.\<close>

theorem acceptance_moves_projection:
  assumes "intents_reachable s" and "wf_json (JObj intent)" and "persist_intent env intent who delegated s = (Inr r, s')"
    and "jget r ''idempotent'' = JBool False" and "intent_step\<^sup>*\<^sup>* s' t" and "current_projection env' (idb_main t) = Inr p"
  shows "\<exists>src. jget intent ''source'' = JObj src \<and>
    jget src ''projection_hash'' = JStr (sha256_text (projection_text env (idb_main s))) \<and>
    snd (expected_source p) = JStr (sha256_text (projection_text env' (idb_main t))) \<and>
    projection_text env (idb_main s) \<noteq> projection_text env' (idb_main t)"
proof -
  obtain v where v: "verify_internal_boundary intent who delegated = Inr v" "find_intent s (iv_id v) = None"
    "accept_new env v who s = Inr (r, s')"
    using persist_new [OF assms(3,4)] by blast
  note wf = boundary_wf [OF v(1) assms(2)] and ok = intents_reachable_ok [OF assms(1)]
  from v(3) wf_JObj_dict_ok [OF wf] obtain p0 receipt d c where p0: "current_projection env (idb_main s) = Inr p0"
    and h: "map_of (iv_source v) ''projection_hash'' = Some (JStr (sha256_text (projection_text env (idb_main s))))"
    and commit: "map_of (iv_source v) ''commit_sha'' = Some (JStr c)"
    and a: "append_ledger_tx (se_ledger_at env) (getenv (se_environ env) ''MATVERSE_BUILD_COMMIT'' '''')
       (acceptance_event env v who) ''PASS'' (idb_main s) = Inr (receipt, d)" and s': "idb_main s' = d"
    by (rule accept_newE) simp
  obtain row where row: "ledger d = ledger (idb_main s) @ [row]" using acceptance_recorded [OF a wf commit] by blast
  have "intents_ok s'" using accept_new_keeps [OF v(3) wf boundary_fields(4) [OF v(1)] v(2) ok] by blast
  then have t: "intents_ok t" "grows s' t" using intent_steps_keep [OF assms(5)] by blast+
  obtain more_rows where "ledger (idb_main t) = ledger (idb_main s) @ row # more_rows"
    using t(2) row by (auto simp: grows_def s')
  then have "projection_text env (idb_main s) \<noteq> projection_text env' (idb_main t)"
    using later_projection_differs [OF p0 assms(6)] ok t(1) by (auto simp: intents_ok_def db_ok_def)
  moreover have "snd (expected_source p) = JStr (sha256_text (projection_text env' (idb_main t)))"
    using current_source [OF assms(6)] by (metis snd_conv)
  ultimately show ?thesis using boundary_fields(1) [OF v(1)] h by (simp add: jget_def)
qed

section \<open>An accepted intent is kept\<close>

text \<open>How the answer to a repeated call relates to the first: the same fields, the nested ones in canonical order.\<close>

definition RECORDED :: "string list" where
  "RECORDED = [''intent_id'', ''intent_hash'', ''status'', ''principal_id'', ''actor_id'', ''requested_operation'', ''parameters_hash'',
     ''parameter_persistence'', ''source'', ''created_at'', ''receipt'', ''execution_decision'']"

definition same_answer :: "jobj \<Rightarrow> jobj \<Rightarrow> bool" where
  "same_answer r stored \<longleftrightarrow> list_all (\<lambda>k. jget stored k = sort_json (jget r k)) RECORDED"

definition stored_answer :: "intent_row \<Rightarrow> jobj \<Rightarrow> receipt \<Rightarrow> jobj" where
  "stored_answer row src rc = intent_entries row [(''kind'', JStr (in_target_kind row)), (''id'', JStr (in_target_id row))]
     (sort_json (JObj src)) (sort_json (receipt_json rc))"

lemma receipt_wf [simp]: "wf_json (receipt_json rc)"
  by (simp add: receipt_json_def)

lemma row_answers: "in_source_json row = canonical_json (JObj src) \<Longrightarrow> wf_json (JObj src) \<Longrightarrow>
    in_receipt_json row = canonical_json (receipt_json rc) \<Longrightarrow> row_to_intent row = Inr (stored_answer row src rc)"
  by (simp add: row_to_intent_def stored_answer_def)

text \<open>A row that answers for an intent that passed the boundary.\<close>

definition answers_for :: "intent_view \<Rightarrow> string \<Rightarrow> intent_row \<Rightarrow> bool" where
  "answers_for v who row \<longleftrightarrow> in_id row = iv_id v \<and> in_hash row = iv_hash v \<and> in_principal row = who \<and> actor_of row = iv_actor v"

lemma again_entries: "sort_json src = src \<Longrightarrow> sort_json receipt = receipt \<Longrightarrow>
    same_answer (intent_entries row target src receipt @ [(''idempotent'', b)]) (intent_entries row target src receipt)"
  by (simp add: same_answer_def RECORDED_def intent_entries_def jget_def)

lemma again: "same_answer (stored_answer row src rc @ [(''idempotent'', b)]) (stored_answer row src rc)"
  unfolding stored_answer_def by (intro again_entries sort_json_idem)

lemma find_intent_Some: "find_intent s i = Some row \<Longrightarrow> row \<in> set (idb_intents s) \<and> in_id row = i"
  by (auto simp: find_intent_def find_Some_iff)

lemma persist_leaves_row:
  assumes "persist_intent env intent who delegated s = (Inr r, s')" and "wf_json (JObj intent)" and "intents_ok s"
  obtains v row src rc where "verify_internal_boundary intent who delegated = Inr v" and "row \<in> set (idb_intents s')"
    and "answers_for v who row" and "row_to_intent row = Inr (stored_answer row src rc)" and "same_answer r (stored_answer row src rc)"
    and "dict_ok r" and "map_of r ''acceptance_decision'' = None"
proof -
  obtain v where v: "verify_internal_boundary intent who delegated = Inr v" "accept_body env v who s = Inr (r, s')"
    using assms(1) by (auto simp: persist_intent_def transaction_Inr split: sum.splits)
  note wf = boundary_wf [OF v(1) assms(2)]
  show ?thesis
  proof (cases "find_intent s (iv_id v)")
    case None
    then have new: "accept_new env v who s = Inr (r, s')" using v(2) by (simp add: accept_body_def)
    then obtain receipt d where s': "s' = \<lparr>idb_main = d, idb_intents = idb_intents s @ [new_intent_row v who receipt]\<rparr>"
      and r: "r = accepted_entries (new_intent_row v who receipt) (iv_target v) (JObj (iv_source v)) (receipt_json receipt)"
      using accept_newE [OF new wf_JObj_dict_ok [OF wf]] by metis
    have "row_to_intent (new_intent_row v who receipt) = Inr (stored_answer (new_intent_row v who receipt) (iv_source v) receipt)"
      by (rule row_answers [OF _ wf]) (simp_all add: new_intent_row_def)
    moreover have "same_answer r (stored_answer (new_intent_row v who receipt) (iv_source v) receipt)"
      unfolding r same_answer_def stored_answer_def RECORDED_def accepted_entries_def intent_entries_def
      by (simp add: jget_def)
    moreover have "answers_for v who (new_intent_row v who receipt)"
      using boundary_fields(4) [OF v(1)] by (simp add: answers_for_def new_intent_row_def actor_of_def)
    moreover have "new_intent_row v who receipt \<in> set (idb_intents s')" by (simp add: s')
    moreover have "dict_ok r" "map_of r ''acceptance_decision'' = None"
      by (simp_all add: r accepted_entries_def intent_entries_def dict_ok_def)
    ultimately show ?thesis by (intro that [OF v(1)])
  next
    case (Some row)
    from find_intent_Some [OF this] have row: "row \<in> set (idb_intents s)" "in_id row = iv_id v" by simp_all
    have s': "s' = s" and a: "answers_for v who row" and r: "\<exists>e. row_to_intent row = Inr e \<and> r = e @ [(''idempotent'', JBool True)]"
      using v(2) Some row(2) by (auto simp: accept_body_def res_bind_eq_Inr answers_for_def)
    obtain src rc where e: "row_to_intent row = Inr (stored_answer row src rc)"
      using assms(3) row(1) row_answers by (fastforce simp: intents_ok_def intent_ok_def records_intent_def)
    have "same_answer r (stored_answer row src rc)"
      using r e again by auto
    moreover have "dict_ok r" "map_of r ''acceptance_decision'' = None"
      using r e by (auto simp: stored_answer_def intent_entries_def dict_ok_def)
    ultimately show ?thesis by (intro that [OF v(1) _ a e]) (simp_all add: row(1) s')
  qed
qed

lemma find_kept:
  assumes "intents_ok t" and "row \<in> set (idb_intents t)"
  shows "find_intent t (in_id row) = Some row"
proof -
  have "find_intent t (in_id row) \<noteq> None" using assms(2) by (auto simp: find_intent_def find_None_iff)
  then obtain row' where row': "find_intent t (in_id row) = Some row'" by blast
  note found = find_intent_Some [OF row']
  from row' found show ?thesis using assms by (auto simp: intents_ok_def dest: inj_onD simp: distinct_map)
qed

text \<open>C37: An accepted intent is kept. After any later calls, reading it by its id returns its record, and submitting it
  again, under any clock and environment, returns the record marked idempotent and changes nothing; the
  record says what the first answer said.\<close>

theorem accepted_intent_kept:
  assumes "intents_reachable s" and "wf_json (JObj intent)" and "persist_intent env intent who delegated s = (Inr r, s')"
    and "intent_step\<^sup>*\<^sup>* s' t" and "jget intent ''intent_id'' = JStr iid"
  shows "\<exists>stored. get_intent iid t = Inr (Some stored) \<and> same_answer r stored \<and>
    persist_intent env' intent who delegated t = (Inr (stored @ [(''idempotent'', JBool True)]), t)"
proof -
  note ok = intents_reachable_ok [OF assms(1)]
  obtain v row src rc where v: "verify_internal_boundary intent who delegated = Inr v" "answers_for v who row"
    and row: "row \<in> set (idb_intents s')" "row_to_intent row = Inr (stored_answer row src rc)" "same_answer r (stored_answer row src rc)"
    by (rule persist_leaves_row [OF assms(3,2) ok])
  have "intents_ok s'" using intent_step_keeps [OF persist [OF assms(2), of s env who delegated] ok] assms(3) by simp
  then have t: "intents_ok t" "grows s' t" using intent_steps_keep [OF assms(4)] by blast+
  have "row \<in> set (idb_intents t)" using t(2) row(1) by (auto simp: grows_def)
  then have f: "find_intent t (iv_id v) = Some row" using find_kept [OF t(1)] v(2) by (metis answers_for_def)
  have i: "iv_id v = iid" using boundary_fields(2) [OF v(1)] assms(5) by simp
  have "get_intent iid t = Inr (Some (stored_answer row src rc))"
    by (simp only: get_intent_def f [unfolded i] option.case row(2) res_bind_Inr)
  moreover have "accept_body env' v who t = Inr (stored_answer row src rc @ [(''idempotent'', JBool True)], t)"
    using v(2) unfolding accept_body_def f option.case row(2) answers_for_def by simp
  ultimately show ?thesis using row(3) v(1) by (auto simp: persist_intent_def transaction_def)
qed

section \<open>Witnesses\<close>

definition sample_store_env :: store_env where
  "sample_store_env = \<lparr>se_fromiso = (\<lambda>_. None), se_guards = sample_env,
     se_environ = [(''MATVERSE_BUILD_COMMIT'', replicate 40 (CHR ''a'')), (''MATVERSE_FROZEN_CONTRACT_HASH'', replicate 64 (CHR ''b''))],
     se_accepted_at = ''2026-01-01T00:00:00+00:00'', se_ledger_at = ''2026-01-01T00:00:00+00:00''\<rparr>"

definition sample_body :: "jobj \<Rightarrow> jobj" where
  "sample_body src = [(''intent_id'', JStr ''intent-1''), (''actor_id'', JStr ''alice''), (''requested_operation'', JStr ''REQUEST_EVALUATION''),
     (''target'', JObj [(''kind'', JStr ''artifact''), (''id'', JStr ''a-1'')]), (''source'', JObj src),
     (''created_at'', JStr ''2026-01-01T00:00:00+00:00'')]"

definition sample_intent :: "jobj \<Rightarrow> jobj" where
  "sample_intent src = (''intent_hash'', JStr (sha256_text (jcs_subset_text (JObj (sample_body src))))) # sample_body src"

lemma sample_build_binding: "\<exists>src. build_binding (se_guards sample_store_env) (se_environ sample_store_env) = Inr src"
  by (simp add: build_binding_def sample_store_env_def getenv_def lower_def lower_char_def is_git_object_id_def hex_lower_n_def
      is_hex_lower_def gate_fingerprint_of_def canonical_guard_bindings_def core_artifact_fingerprint_def function_fingerprint_of_def
      constitutional_contract_hash_of_def sample_env_def list_all_iff is_hex_any_def Let_def)

lemma no_latest_time: "list_all citable entries \<Longrightarrow> latest_time (\<lambda>_. None) entries = Inr None"
  by (induction entries) (auto simp: citable_def as_object_def parsed_times_def TIME_FIELDS_def split: json.split)

lemma sample_projection_available:
  assumes "ledger_ok (ledger d)" and "list_all citable (ledger d)"
  shows "\<exists>p. current_projection sample_store_env d = Inr p"
proof -
  have "\<exists>head. verify_rows ''GENESIS'' (read_ledger d) = Inr head"
    using assms(1) unfolding verify_rows_iff read_ledger_def by_seq_ok [OF assms(1)] by (simp add: ledger_ok_def)
  moreover have "\<exists>t. projection_time (se_fromiso sample_store_env) (se_environ sample_store_env) (read_ledger d) = Inr t"
    using no_latest_time [of "rev (ledger d)"] assms(2) unfolding read_ledger_def by_seq_ok [OF assms(1)]
    by (simp add: projection_time_def sample_store_env_def getenv_def)
  ultimately show ?thesis
    using sample_build_binding assms(2) unfolding current_projection_def build_projection_from_db_def projection_exists
    by (simp add: read_ledger_def by_seq_ok [OF assms(1)])
qed

lemma sample_intent_passes:
  assumes "texts_only (JObj src)"
  obtains v where "verify_internal_boundary (sample_intent src) ''alice'' False = Inr v" and "iv_source v = src"
proof -
  have "filter (\<lambda>p. fst p \<noteq> ''intent_hash'') (sample_intent src) = sample_body src"
    by (simp add: sample_intent_def sample_body_def)
  moreover have "texts_only (JObj (sample_body src))" using assms by (simp add: sample_body_def dict_ok_def)
  then have "jcs_subset_hash (JObj (sample_body src)) = Inr (sha256_text (jcs_subset_text (JObj (sample_body src))))"
    by (simp only: jcs_subset_hash_def texts_only_jcs(1) res_bind_Inr)
  moreover have "assert_transferable_state (JObj [(''metadata'', JObj [])]) = Inr ()" by code_simp
  moreover have "jcs_subset_hash (JObj []) = Inr (sha256_text (jcs_subset_text (JObj [])))" by (simp add: jcs_subset_hash_def)
  moreover have "jget_or (sample_intent src) ''parameters'' (JObj []) = JObj []"
    by (simp add: sample_intent_def sample_body_def jget_or_def)
  ultimately show ?thesis using that
    by (simp add: verify_internal_boundary_def text_or_def object_or_def) (simp add: sample_intent_def sample_body_def jget_def)
qed

lemma source_texts:
  assumes "build_binding env environ = Inr src"
  shows "texts_only (JObj (dict_set src k (JStr t)))"
proof -
  have "only_texts src" by (rule binding_texts [OF assms])
  then show ?thesis using set_dict_set [of src k "JStr t"] by (fastforce simp: only_texts_def)
qed

lemma fresh_append: "event_to_store now bc e = Inr stored \<Longrightarrow> \<exists>rd. append_ledger_tx now bc e dec empty_db = Inr rd"
  by (simp add: append_ledger_tx_def Let_def empty_db_def)

text \<open>An intent that passes the boundary and is bound to the projection of the empty database is accepted there.\<close>

lemma accepted_when_empty:
  assumes p: "current_projection env empty_db = Inr p" and v: "verify_internal_boundary intent who delegated = Inr v"
    and wf: "wf_json (JObj (iv_source v))" and eq: "py_eq (JObj (iv_source v)) (JObj (fst (expected_source p)))"
  obtains r s' where "persist_intent env intent who delegated empty_intent_db = (Inr r, s')"
    and "jget r ''idempotent'' = JBool False" and "list_all citable (ledger (idb_main s'))"
proof -
  obtain src c where b: "build_binding (se_guards env) (se_environ env) = Inr src"
    and e: "fst (expected_source p) = dict_set src ''projection_hash'' (JStr (sha256_text (projection_text env empty_db)))"
    and c: "dict_ok src" "map_of src ''commit_sha'' = Some (JStr c)"
    using current_source [OF p] by (metis fst_conv)
  have commit: "map_of (iv_source v) ''commit_sha'' = Some (JStr c)"
    by (rule py_eq_text [OF eq wf_JObj_dict_ok [OF wf]]) (simp_all add: e c map_of_dict_set)
  have git: "is_git_object_id (lower c)" using binding_commit [OF b] c(2) by auto
  have "\<exists>stored. event_to_store now bc (acceptance_event env v who) = Inr stored" for now bc
    using commit git by (simp add: event_to_store_def Let_def map_of_dict_set jget_def acceptance_event_def)
  then obtain rd where a: "append_ledger_tx (se_ledger_at env)
      (getenv (se_environ env) ''MATVERSE_BUILD_COMMIT'' '''') (acceptance_event env v who) ''PASS'' empty_db = Inr rd"
    by (meson fresh_append)
  obtain receipt d where rd: "rd = (receipt, d)" by fastforce
  obtain row where row: "ledger d = ledger empty_db @ [row]" "citable row"
    using acceptance_recorded [OF a [unfolded rd] wf commit] by blast
  define r where "r = accepted_entries (new_intent_row v who receipt) (iv_target v) (JObj (iv_source v)) (receipt_json receipt)"
  define s' where "s' = \<lparr>idb_main = d, idb_intents = [new_intent_row v who receipt]\<rparr>"
  have "accept_new env v who empty_intent_db = Inr (r, s')"
    using a eq by (simp add: accept_new_def empty_intent_db_def p rd Let_def r_def s'_def)
  then have "persist_intent env intent who delegated empty_intent_db = (Inr r, s')"
    by (simp add: persist_intent_def v transaction_def accept_body_def find_intent_def empty_intent_db_def)
  moreover have "jget r ''idempotent'' = JBool False" by (simp add: r_def accepted_entries_def intent_entries_def jget_def)
  moreover have "list_all citable (ledger (idb_main s'))" using row by (simp add: s'_def empty_db_def)
  ultimately show ?thesis using that by blast
qed

lemma sample_accepted:
  obtains intent r s' where "wf_json (JObj intent)" and "jget intent ''intent_id'' = JStr ''intent-1''"
    and "persist_intent sample_store_env intent ''alice'' False empty_intent_db = (Inr r, s')"
    and "jget r ''idempotent'' = JBool False" and "list_all citable (ledger (idb_main s'))"
proof -
  obtain p where p: "current_projection sample_store_env empty_db = Inr p"
    using sample_projection_available [of empty_db] empty_db_ok by (auto simp: db_ok_def empty_db_def)
  define src where "src = fst (expected_source p)"
  have texts: "texts_only (JObj src)"
    using current_source [OF p] source_texts unfolding src_def by (metis fst_conv)
  obtain v where v: "verify_internal_boundary (sample_intent src) ''alice'' False = Inr v" "iv_source v = src"
    using sample_intent_passes [OF texts] by blast
  obtain r s' where r: "persist_intent sample_store_env (sample_intent src) ''alice'' False empty_intent_db = (Inr r, s')"
    "jget r ''idempotent'' = JBool False" "list_all citable (ledger (idb_main s'))"
    by (rule accepted_when_empty [OF p v(1), unfolded v(2), OF texts_only_wf [OF texts]]) (simp add: src_def)
  have "texts_only (JObj (sample_intent src))" using texts by (simp add: sample_intent_def sample_body_def dict_ok_def)
  then have "wf_json (JObj (sample_intent src))" by (rule texts_only_wf)
  moreover have "jget (sample_intent src) ''intent_id'' = JStr ''intent-1''" by (simp add: sample_intent_def sample_body_def jget_def)
  ultimately show ?thesis using that r by blast
qed

lemma empty_intents_reachable: "intents_reachable empty_intent_db"
  by (simp add: intents_reachable_def)

theorem intents_on_ledger_witness:
  "\<exists>s. intents_reachable s \<and> idb_intents s \<noteq> [] \<and> list_all (\<lambda>r. list_ex (records_intent r) (ledger (idb_main s))) (idb_intents s)"
proof -
  obtain intent r s' where a: "wf_json (JObj intent)" "persist_intent sample_store_env intent ''alice'' False empty_intent_db = (Inr r, s')"
    "jget r ''idempotent'' = JBool False"
    by (rule sample_accepted)
  have "intent_step empty_intent_db s'" using intent_step.persist [OF a(1)] a(2) by (metis snd_conv)
  then have s': "intents_reachable s'" by (auto simp: intents_reachable_def)
  obtain v where v: "verify_internal_boundary intent ''alice'' False = Inr v" "accept_new sample_store_env v ''alice'' empty_intent_db = Inr (r, s')"
    using persist_new [OF a(2,3)] by blast
  have "idb_intents s' \<noteq> []" by (rule accept_newE [OF v(2) wf_JObj_dict_ok [OF boundary_wf [OF v(1) a(1)]]]) simp
  then show ?thesis using s' intents_on_ledger [OF s'] by blast
qed

theorem accepted_intent_kept_witness:
  "\<exists>s' stored. intents_reachable s' \<and> get_intent ''intent-1'' s' = Inr (Some stored)"
proof -
  obtain intent r s' where a: "wf_json (JObj intent)" "jget intent ''intent_id'' = JStr ''intent-1''"
    "persist_intent sample_store_env intent ''alice'' False empty_intent_db = (Inr r, s')"
    by (rule sample_accepted)
  have "intent_step empty_intent_db s'" using intent_step.persist [OF a(1)] a(3) by (metis snd_conv)
  then have "intents_reachable s'" by (auto simp: intents_reachable_def)
  then show ?thesis
    using accepted_intent_kept [OF empty_intents_reachable a(1,3) rtranclp.rtrancl_refl a(2), of sample_store_env] by blast
qed

theorem acceptance_moves_projection_witness:
  "\<exists>s'. intents_reachable s' \<and> projection_text sample_store_env empty_db \<noteq> projection_text sample_store_env (idb_main s')"
proof -
  obtain intent r s' where a: "wf_json (JObj intent)" "persist_intent sample_store_env intent ''alice'' False empty_intent_db = (Inr r, s')"
    "jget r ''idempotent'' = JBool False" "list_all citable (ledger (idb_main s'))"
    by (rule sample_accepted)
  have "intent_step empty_intent_db s'" using intent_step.persist [OF a(1)] a(2) by (metis snd_conv)
  then have s': "intents_reachable s'" by (auto simp: intents_reachable_def)
  then have "ledger_ok (ledger (idb_main s'))" using intents_reachable_ok by (auto simp: intents_ok_def db_ok_def)
  then obtain p where "current_projection sample_store_env (idb_main s') = Inr p" using sample_projection_available a(4) by blast
  from acceptance_moves_projection [OF empty_intents_reachable a(1,2,3) rtranclp.rtrancl_refl this] show ?thesis
    using s' by (auto simp: empty_intent_db_def)
qed

end
