(* ===== verification/Json_Loaded.thy ===== *)
theory Json_Loaded
  imports Json_Roundtrip
begin

text \<open>
  What \<open>json.loads\<close> can return: values whose objects have distinct keys and whose float tokens read as
  themselves, but for the three words \<open>NaN\<close>, \<open>Infinity\<close> and \<open>-Infinity\<close> that Python's scanner
  accepts beyond JSON. A loaded value without those is well-formed in the sense of the round trip.
\<close>

definition FLOAT_WORDS :: "string list" where
  "FLOAT_WORDS = [''NaN'', ''Infinity'', ''-Infinity'']"

primrec loaded_json :: "json \<Rightarrow> bool" where
  "loaded_json JNull = True"
| "loaded_json (JBool b) = True"
| "loaded_json (JInt i) = True"
| "loaded_json (JFloat t) = (parse_number t = Some (JFloat t, '''') \<or> t \<in> set FLOAT_WORDS)"
| "loaded_json (JStr s) = True"
| "loaded_json (JArr xs) = list_all id (map loaded_json xs)"
| "loaded_json (JObj kvs) = (distinct (map fst kvs) \<and> list_all snd (map (map_prod id loaded_json) kvs))"

section \<open>Numbers\<close>

lemma minus_split: "scan_minus s = (a, b) \<Longrightarrow> a = '''' \<or> a = ''-''"
  by (auto simp: scan_minus_def split: list.splits if_splits)

lemma int_shape: "scan_int s = Some (a, b) \<Longrightarrow> a = ''0'' \<or> (\<exists>c r. a = c # r \<and> c \<noteq> CHR ''0'' \<and> list_all is_digit a)"
  by (auto simp: scan_int_def list_all_iff dest: set_takeWhileD split: list.splits if_splits)

lemma taken: "takeWhile p s = xs \<Longrightarrow> list_all p xs"
  by (auto simp: list_all_iff dest: set_takeWhileD)

lemma frac_shape: "scan_frac s = (a, b) \<Longrightarrow> a = '''' \<or> (\<exists>d ds. a = CHR ''.'' # d # ds \<and> list_all is_digit (d # ds))"
proof (cases s)
  case (Cons c r)
  assume a: "scan_frac s = (a, b)"
  show ?thesis
  proof (cases "a = ''''")
    case False
    then obtain d ds where "takeWhile is_digit r = d # ds" "a = CHR ''.'' # d # ds"
      using a Cons by (cases "takeWhile is_digit r") (auto simp: scan_frac_def split: if_splits)
    then show ?thesis using taken by blast
  qed simp
qed (simp add: scan_frac_def)

lemma exp_shape: "scan_exp s = (a, b) \<Longrightarrow> a = '''' \<or>
    (\<exists>c sg d ds. a = c # sg @ d # ds \<and> (c = CHR ''e'' \<or> c = CHR ''E'') \<and> (sg = '''' \<or> sg = ''+'' \<or> sg = ''-'') \<and> list_all is_digit (d # ds))"
proof (cases s)
  case (Cons c r)
  assume a: "scan_exp s = (a, b)"
  obtain sg r' where sg: "scan_sign r = (sg, r')" by fastforce
  have "sg = '''' \<or> sg = ''+'' \<or> sg = ''-''" using sg by (auto simp: scan_sign_def split: list.splits if_splits)
  moreover have "\<exists>d ds. takeWhile is_digit r' = d # ds \<and> a = c # sg @ d # ds \<and> (c = CHR ''e'' \<or> c = CHR ''E'')" if "a \<noteq> ''''"
    using a Cons sg that by (cases "takeWhile is_digit r'") (auto simp: scan_exp_def split: if_splits)
  ultimately consider "a = ''''" | d ds where "takeWhile is_digit r' = d # ds" "a = c # sg @ d # ds" "c = CHR ''e'' \<or> c = CHR ''E''"
      "sg = '''' \<or> sg = ''+'' \<or> sg = ''-''" by blast
  then show ?thesis
  proof cases
    case (2 d ds)
    have "list_all is_digit (d # ds)" by (rule taken [OF 2(1)])
    then show ?thesis using 2 by blast
  qed simp
qed (simp add: scan_exp_def)

lemma not_digits [simp]: "\<not> is_digit (CHR ''.'')" "\<not> is_digit (CHR ''e'')" "\<not> is_digit (CHR ''E'')" "\<not> is_digit (CHR ''+'')"
  by (simp_all add: is_digit_def)

lemma take_digits: "list_all is_digit ds \<Longrightarrow> (\<And>c r. rest = c # r \<Longrightarrow> \<not> is_digit c) \<Longrightarrow>
    takeWhile is_digit (ds @ rest) = ds \<and> dropWhile is_digit (ds @ rest) = rest"
  by (induction ds) (cases rest; auto)+

text \<open>The token of a float reads as itself.\<close>

lemma float_token:
  assumes "parse_number s = Some (JFloat t, r)"
  shows "parse_number t = Some (JFloat t, '''')"
proof -
  obtain sg r0 where m: "scan_minus s = (sg, r0)" by fastforce
  obtain ip r1 where i: "scan_int r0 = Some (ip, r1)" using assms m by (auto simp: parse_number_def split: option.splits)
  obtain fp r2 where f: "scan_frac r1 = (fp, r2)" by fastforce
  obtain ep r3 where e: "scan_exp r2 = (ep, r3)" by fastforce
  have t: "t = sg @ ip @ fp @ ep" "fp \<noteq> '''' \<or> ep \<noteq> ''''"
    using assms m i f e by (auto simp: parse_number_def Let_def split: if_splits)
  note shapes = int_shape [OF i] frac_shape [OF f] exp_shape [OF e]
  have after_int: "\<not> is_digit c" if "fp @ ep = c # x" for c x using that shapes(2,3) by auto
  have after_frac: "\<not> is_digit c \<and> c \<noteq> CHR ''.''" if "ep = c # x" for c x using that shapes(3) by auto
  have "scan_minus (sg @ ip @ fp @ ep) = (sg, ip @ fp @ ep)"
    using minus_split [OF m] shapes(1) by (auto simp: scan_minus_def)
  moreover have "scan_int (ip @ fp @ ep) = Some (ip, fp @ ep)"
    using shapes(1) take_digits [of ip "fp @ ep"] after_int by (auto simp: scan_int_def simp del: takeWhile.simps dropWhile.simps)
  moreover have "scan_frac (fp @ ep) = (fp, ep)"
  proof (cases "fp = ''''")
    case True
    then show ?thesis using after_frac by (cases ep) (auto simp: scan_frac_def)
  next
    case False
    then obtain d ds where "fp = CHR ''.'' # d # ds" "list_all is_digit (d # ds)" using shapes(2) by blast
    then show ?thesis using take_digits [of "d # ds" ep] after_frac by (auto simp: scan_frac_def)
  qed
  moreover have "scan_exp ep = (ep, '''')"
  proof (cases "ep = ''''")
    case False
    then obtain c sg2 d ds where ep: "ep = c # sg2 @ d # ds" "c = CHR ''e'' \<or> c = CHR ''E''" "sg2 = '''' \<or> sg2 = ''+'' \<or> sg2 = ''-''"
      "list_all is_digit (d # ds)"
      using shapes(3) by blast
    have "scan_sign (sg2 @ d # ds) = (sg2, d # ds)" using ep(3,4) by (auto simp: scan_sign_def)
    then show ?thesis using ep take_digits [of "d # ds" "''''"] by (auto simp: scan_exp_def)
  qed (simp add: scan_exp_def)
  ultimately show ?thesis using t(2) unfolding t(1) by (auto simp: parse_number_def Let_def)
qed

section \<open>Values\<close>

lemma loaded_JObj: "loaded_json (JObj kvs) \<longleftrightarrow> dict_ok kvs \<and> (\<forall>v \<in> snd ` set kvs. loaded_json v)"
  by (auto simp: dict_ok_def list_all_iff)

lemma loaded_JArr: "loaded_json (JArr xs) \<longleftrightarrow> (\<forall>x \<in> set xs. loaded_json x)"
  by (auto simp: list_all_iff)

declare loaded_json.simps(6,7) [simp del]

lemma parse_atom_loaded:
  assumes "parse_atom s = Some (v, r)"
  shows "loaded_json v"
proof -
  have word: "v = w" if "scan_word t w s = Some (v, r)" for t w using that by (simp add: scan_word_def split: if_splits)
  have number: "loaded_json v" if p: "parse_number s = Some (v, r)"
  proof -
    obtain i t where "v = JInt i \<or> v = JFloat t"
      using p by (auto simp: parse_number_def Let_def split: prod.splits option.splits if_splits)
    then show ?thesis using float_token p by auto
  qed
  show ?thesis
    using first_some_mem [OF assms [unfolded parse_atom_def]] number by (auto simp: FLOAT_WORDS_def dest!: word [OF sym])
qed

lemma dict_of_pairs_loaded:
  assumes "\<forall>v \<in> snd ` set ps. loaded_json v"
  shows "loaded_json (JObj (dict_of_pairs ps))"
proof -
  have "loaded_json (JObj d) \<Longrightarrow> \<forall>v \<in> snd ` set ps. loaded_json v \<Longrightarrow>
      loaded_json (JObj (foldl (\<lambda>d (k, v). dict_set d k v) d ps))" for d
  proof (induction ps arbitrary: d)
    case (Cons p ps)
    have "loaded_json (JObj (dict_set d (fst p) (snd p)))"
      using Cons.prems set_dict_set [of d "fst p" "snd p"] by (fastforce simp: loaded_JObj)
    then show ?case using Cons by (simp add: case_prod_beta)
  qed simp
  from this [of "[]"] show ?thesis using assms by (simp add: dict_of_pairs_def loaded_JObj dict_ok_def)
qed

lemma parse_loaded:
  "parse_value f s = Some (v, r) \<Longrightarrow> loaded_json v"
  "parse_items f s = Some (vs, r) \<Longrightarrow> \<forall>v \<in> set vs. loaded_json v"
  "parse_pairs f s = Some (ps, r) \<Longrightarrow> \<forall>v \<in> snd ` set ps. loaded_json v"
proof (induction f s and f s and f s arbitrary: v r and vs r and ps r rule: parse_value_parse_items_parse_pairs.induct)
  case (2 f s)
  note IH = 2
  show ?case
  proof (cases s)
    case (Cons c t)
    consider "c = quote_char" | "c = CHR ''{''" | "c = CHR ''[''" | "c \<noteq> quote_char" "c \<noteq> CHR ''{''" "c \<noteq> CHR ''[''" by blast
    then show ?thesis
    proof cases
      case 1
      then show ?thesis using IH(3) Cons by (auto simp: parse_value.simps)
    next
      case brace: 2
      show ?thesis
      proof (cases "skip_ws t")
        case (Cons d u)
        then consider "d = CHR ''}''" "v = JObj []" | ps where "d \<noteq> CHR ''}''" "parse_pairs f (d # u) = Some (ps, r)" "v = JObj (dict_of_pairs ps)"
          using IH(3) brace \<open>s = c # t\<close> by (auto simp: parse_value.simps split: if_splits)
        then show ?thesis
        proof cases
          case (2 ps)
          have "\<forall>v \<in> snd ` set ps. loaded_json v"
            by (rule IH(1) [OF \<open>s = c # t\<close> _ _ Cons _ 2(2)]) (use brace 2(1) in simp_all)
          then show ?thesis using 2(3) dict_of_pairs_loaded by blast
        qed (simp add: loaded_JObj dict_ok_def)
      qed (use IH(3) brace \<open>s = c # t\<close> in \<open>simp add: parse_value.simps\<close>)
    next
      case bracket: 3
      show ?thesis
      proof (cases "skip_ws t")
        case (Cons d u)
        then consider "d = CHR '']''" "v = JArr []" | vs where "d \<noteq> CHR '']''" "parse_items f (d # u) = Some (vs, r)" "v = JArr vs"
          using IH(3) bracket \<open>s = c # t\<close> by (auto simp: parse_value.simps split: if_splits)
        then show ?thesis
        proof cases
          case (2 vs)
          have "\<forall>v \<in> set vs. loaded_json v"
            by (rule IH(2) [OF \<open>s = c # t\<close> _ _ _ Cons _ 2(2)]) (use bracket 2(1) in simp_all)
          then show ?thesis using 2(3) by (simp add: loaded_JArr)
        qed (simp add: loaded_JArr)
      qed (use IH(3) bracket \<open>s = c # t\<close> in \<open>simp add: parse_value.simps\<close>)
    next
      case 4
      then show ?thesis using IH(3) Cons parse_atom_loaded by (simp add: parse_value.simps)
    qed
  qed (use IH(3) in \<open>simp add: parse_value.simps\<close>)
next
  case (4 f s)
  then show ?case by (auto simp: parse_items.simps split: option.splits list.splits if_splits)
next
  case (6 f s)
  then show ?case by (fastforce simp: parse_pairs.simps split: option.splits list.splits if_splits)
qed (simp_all add: parse_value.simps parse_items.simps parse_pairs.simps)

lemma json_loads_loaded: "json_loads s = Inr v \<Longrightarrow> loaded_json v"
  by (auto simp: json_loads_def split: option.splits if_splits dest: parse_loaded(1))

end
