(* ===== verification/Service_Properties.thy ===== *)
theory Service_Properties
  imports Institutional_Service Intent_Properties Json_Loaded
begin

text \<open>
  What the institutional endpoints promise: whatever they answer, they leave the database in a reachable
  state; a submission that is answered with an acceptance is recorded, in the table and on the
  ledger, with its execution on HOLD; and what passes the validation of the endpoint passes the
  boundary of the store.
\<close>

section \<open>Answers\<close>

lemma served_bind_simps [simp]: "served_bind (Inl e) f = Inl e" "served_bind (Inr x) f = f x"
  by (simp_all add: served_bind_def)

lemma served_bind_Inr: "served_bind m f = Inr y \<longleftrightarrow> (\<exists>x. m = Inr x \<and> f x = Inr y)"
  by (cases m) auto

lemma refuse_when_Inr [simp]: "refuse_when bad code detail = Inr u \<longleftrightarrow> \<not> bad"
  by (auto simp: refuse_when_def)

lemma uncaught_Inr [simp]: "uncaught m = Inr x \<longleftrightarrow> m = Inr x"
  by (auto simp: uncaught_def split: sum.split)

lemma or_422_Inr [simp]: "or_422 m = Inr x \<longleftrightarrow> m = Inr x"
  by (auto simp: or_422_def split: sum.split exc.split)

lemma or_503_Inr [simp]: "or_503 m = Inr x \<longleftrightarrow> m = Inr x"
  by (auto simp: or_503_def split: sum.split exc.split)

lemma nonempty_string_Inr [simp]: "nonempty_string v f = Inr s \<longleftrightarrow> v = JStr s \<and> s \<noteq> '''' \<and> length s \<le> 256"
  by (auto simp: nonempty_string_def split: json.split)

lemma not_member_Inr: "not_member v ks = Inr False \<longleftrightarrow> (\<exists>s. v = JStr s \<and> s \<in> set ks)"
  by (auto simp: not_member_def split: json.split)

section \<open>The endpoints take steps of the database\<close>

lemma identify_steps: "intent_step\<^sup>*\<^sup>* s (snd (identify env rq s))"
proof -
  have lift: "intent_step\<^sup>*\<^sup>* (s\<lparr>idb_main := d\<rparr>) (s\<lparr>idb_main := d'\<rparr>)" if "db_step\<^sup>*\<^sup>* d d'" for d d'
    using that
  proof (induction rule: rtranclp_induct)
    case (step a b)
    have "intent_step (s\<lparr>idb_main := a\<rparr>) (s\<lparr>idb_main := a\<rparr>\<lparr>idb_main := b\<rparr>)"
      using step.hyps(2) by (intro intent_step.storage) simp
    then show ?case using step.IH by (simp add: rtranclp.rtrancl_into_rtrancl)
  qed simp
  show ?thesis
    using lift [OF authenticate_steps [of "idb_main s" "sv_principals env" None "sv_wall_clock env" "sv_sqlite_clock env" rq]]
    by (simp add: identify_def case_prod_beta)
qed

text \<open>What was read from a body and passed the canonical subset is well-formed.\<close>

lemma words_not_integral: "t \<in> set FLOAT_WORDS \<Longrightarrow> integral_float t = None"
  by (auto simp: FLOAT_WORDS_def integral_float_def float_key_def)

lemma loaded_jcs_wf: "assert_jcs_subset v path = Inr () \<Longrightarrow> loaded_json v \<Longrightarrow> wf_json v"
proof (induction v arbitrary: path)
  case (JFloat t)
  then show ?case using words_not_integral by auto
next
  case (JArr xs)
  have "wf_json x" if "x \<in> set xs" for x
    using JArr.IH [OF that] assert_jcs_items_all [OF _ that] JArr.prems that by (force simp: loaded_JArr)
  then show ?case by (simp add: list_all_iff)
next
  case (JObj kvs)
  have "wf_json x" if kx: "(k, x) \<in> set kvs" for k x
  proof -
    have "assert_jcs_fields kvs path = Inr ()" using JObj.prems(1) by simp
    from assert_jcs_fields_all [OF this kx] obtain p where "assert_jcs_subset x p = Inr ()" by blast
    moreover have "loaded_json x" using JObj.prems(2) kx by (force simp: loaded_JObj)
    ultimately show ?thesis using JObj.IH kx by (metis snds.intros snd_conv)
  qed
  then show ?case using JObj.prems(2) by (auto simp: loaded_JObj dict_ok_def list_all_iff o_def)
qed simp_all

lemma request_json_loaded: "request_json rq = Inr v \<Longrightarrow> loaded_json v"
  by (auto simp: request_json_def dest: json_loads_loaded split: option.splits sum.splits)

text \<open>An intent that the endpoint accepts as valid.\<close>

lemma shape_fields:
  assumes "validate_intent_shape fromiso v = Inr intent"
  shows "v = JObj intent" and "same_keys intent REQUIRED_INTENT_KEYS" and "check_fields fromiso intent = Inr ()"
  using assms by (auto simp: validate_intent_shape_def served_bind_Inr split: json.splits)

lemma shape_wf:
  assumes "validate_intent_shape fromiso v = Inr intent" and "loaded_json v"
  shows "wf_json (JObj intent)"
proof -
  note f = shape_fields [OF assms(1)]
  obtain h where h: "jget intent ''intent_hash'' = JStr h"
    and "assert_jcs_subset (JObj (filter (\<lambda>p. fst p \<noteq> ''intent_hash'') intent)) ''$'' = Inr ()"
    using f(3) by (auto simp: check_fields_def check_intent_hash_def served_bind_Inr jcs_subset_hash_def res_bind_eq_Inr split: json.splits)
  moreover have loaded: "loaded_json (JObj intent)" using assms(2) f(1) by simp
  then have "loaded_json (JObj (filter (\<lambda>p. fst p \<noteq> ''intent_hash'') intent))"
    by (auto simp: loaded_JObj dict_ok_def distinct_map_filter)
  ultimately have rest: "wf_json (JObj (filter (\<lambda>p. fst p \<noteq> ''intent_hash'') intent))" using loaded_jcs_wf by blast
  have "wf_json x" if "(k, x) \<in> set intent" for k x
  proof (cases "k = ''intent_hash''")
    case True
    then have "x = JStr h" using that h loaded by (auto simp: jget_def loaded_JObj dict_ok_def split: option.splits)
    then show ?thesis by simp
  next
    case False
    then have "x \<in> snd ` set (filter (\<lambda>p. fst p \<noteq> ''intent_hash'') intent)" using that by force
    then show ?thesis using rest by (auto simp: wf_JObj simp del: wf_json.simps)
  qed
  then show ?thesis using loaded by (auto simp: wf_JObj loaded_JObj simp del: wf_json.simps)
qed

lemma submit_steps:
  assumes "intent_step\<^sup>*\<^sup>* s0 s"
  shows "intent_step\<^sup>*\<^sup>* s0 (snd (submit_institutional_intent env rq p s))"
proof (cases "served_bind (requires p ''institutional:intent:submit'') (\<lambda>_.
          served_bind (request_json rq) (validate_intent_shape (se_fromiso env)))")
  case (Inl e)
  then show ?thesis using assms by (simp add: submit_institutional_intent_def)
next
  case (Inr intent)
  then have "wf_json (JObj intent)" using shape_wf request_json_loaded by (auto simp: served_bind_Inr)
  then have "intent_step s (snd (persist_intent env intent (pr_id p) (allows p ''institutional:intent:submit:any'') s))"
    by (rule intent_step.persist)
  then show ?thesis using assms Inr
    by (auto simp: submit_institutional_intent_def submit_intent_def split: sum.split option.split prod.splits)
qed

lemma serve_institutional_steps: "intent_step\<^sup>*\<^sup>* s (snd (serve_institutional env rq call s))"
proof -
  obtain a s1 where a: "identify env rq s = (a, s1)" by fastforce
  have "intent_step\<^sup>*\<^sup>* s s1" using identify_steps [of s env rq] a by simp
  then show ?thesis using submit_steps by (cases call) (auto simp: serve_institutional_def a split: sum.split)
qed


section \<open>An accepted submission is recorded\<close>

lemma map_of_merged: "dict_ok xs \<Longrightarrow> map_of (foldl (\<lambda>d (k, v). dict_set d k v) base xs) k =
    (case map_of xs k of None \<Rightarrow> map_of base k | Some v \<Rightarrow> Some v)"
proof (induction xs arbitrary: base)
  case (Cons p xs)
  have "map_of xs (fst p) = None" using Cons.prems by (simp add: dict_ok_def map_of_eq_None_iff)
  then show ?case using Cons by (cases p) (auto simp: dict_ok_def map_of_dict_set split: option.split)
qed simp

lemma accepted_fields:
  assumes "dict_ok stored" and "jget stored ''execution_decision'' = JStr ''HOLD''" and "map_of stored ''acceptance_decision'' = None"
  obtains r where "accepted_response stored = JObj r" and "jget r ''acceptance_decision'' = JStr ''PASS''"
    and "jget r ''execution_decision'' = JStr ''HOLD''"
  using assms(2,3) map_of_merged [OF assms(1)] by (simp add: accepted_response_def jget_def split: option.splits)

text \<open>The intent as its row has it, and where it is recorded.\<close>

definition recorded_for :: "jobj \<Rightarrow> principal_rec \<Rightarrow> intent_db \<Rightarrow> intent_row \<Rightarrow> bool" where
  "recorded_for intent p s row \<longleftrightarrow> row \<in> set (idb_intents s) \<and> JStr (in_id row) = jget intent ''intent_id'' \<and>
     JStr (in_hash row) = jget intent ''intent_hash'' \<and> JStr (in_actor row) = jget intent ''actor_id'' \<and> in_principal row = pr_id p \<and>
     (in_actor row = pr_id p \<or> allows p ''institutional:intent:submit:any'') \<and> list_ex (records_intent row) (ledger (idb_main s))"

lemma stored_fields:
  "dict_ok (stored_answer row src rc)" "jget (stored_answer row src rc) ''execution_decision'' = JStr ''HOLD''"
  "map_of (stored_answer row src rc) ''acceptance_decision'' = None"
  "jget (stored_answer row src rc) ''principal_id'' = JStr (in_principal row)" "jget (stored_answer row src rc) ''actor_id'' = JStr (actor_of row)"
  "jget (stored_answer row src rc) ''intent_hash'' = JStr (in_hash row)"
  by (simp_all add: stored_answer_def intent_entries_def dict_ok_def jget_def)

lemma row_recorded:
  assumes "intents_ok s" and "row \<in> set (idb_intents s)"
  shows "actor_of row = in_actor row" and "list_ex (records_intent row) (ledger (idb_main s))"
    and "\<exists>src rc. row_to_intent row = Inr (stored_answer row src rc)"
proof -
  have row: "intent_ok row" and led: "\<exists>l \<in> set (ledger (idb_main s)). records_intent row l"
    using assms by (simp_all add: intents_ok_def)
  show "actor_of row = in_actor row" using row by (simp add: intent_ok_def actor_of_def)
  show "list_ex (records_intent row) (ledger (idb_main s))" using led by (simp add: list_ex_iff)
  obtain src where "wf_json (JObj src)" "in_source_json row = canonical_json (JObj src)" using row unfolding intent_ok_def by blast
  moreover obtain rc where "in_receipt_json row = canonical_json (receipt_json rc)" using led unfolding records_intent_def by blast
  ultimately show "\<exists>src rc. row_to_intent row = Inr (stored_answer row src rc)" using row_answers by blast
qed

lemma persisted_submission:
  assumes ok: "intents_ok s" and wf: "wf_json (JObj intent)" and "persist_intent env intent (pr_id p) delegated s = (Inr stored, s')"
    and "delegated \<longrightarrow> allows p ''institutional:intent:submit:any''"
  shows "\<exists>r row. accepted_response stored = JObj r \<and> jget r ''acceptance_decision'' = JStr ''PASS'' \<and>
    jget r ''execution_decision'' = JStr ''HOLD'' \<and> recorded_for intent p s' row"
proof (rule persist_leaves_row [OF assms(3) wf ok])
  fix v row src rc
  assume v: "verify_internal_boundary intent (pr_id p) delegated = Inr v" and row: "row \<in> set (idb_intents s')" "answers_for v (pr_id p) row"
    and same: "same_answer stored (stored_answer row src rc)" and d: "dict_ok stored" and none: "map_of stored ''acceptance_decision'' = None"
  have "sort_json (jget stored ''execution_decision'') = JStr ''HOLD''"
    using same stored_fields(2) by (simp add: same_answer_def RECORDED_def)
  then have "jget stored ''execution_decision'' = JStr ''HOLD''" by (cases "jget stored ''execution_decision''") auto
  then obtain r where r: "accepted_response stored = JObj r" "jget r ''acceptance_decision'' = JStr ''PASS''"
    "jget r ''execution_decision'' = JStr ''HOLD''"
    using accepted_fields [OF d _ none] by blast
  have "intents_ok s'" using intent_step_keeps [OF intent_step.persist [OF wf, of s env "pr_id p" delegated] ok] assms(3) by simp
  note rec = row_recorded [OF this row(1)]
  have "recorded_for intent p s' row"
    using boundary_fields [OF v] row rec assms(4) unfolding recorded_for_def answers_for_def by auto
  then show ?thesis using r by blast
qed

lemma repeated_submission:
  assumes ok: "intents_ok s" and "admit_intent env intent p s = Inr (Some stored)" and "jget intent ''intent_id'' = JStr iid"
  shows "\<exists>r row. accepted_response stored = JObj r \<and> jget r ''acceptance_decision'' = JStr ''PASS'' \<and>
    jget r ''execution_decision'' = JStr ''HOLD'' \<and> recorded_for intent p s row"
proof -
  obtain e where e: "get_intent iid s = Inr (Some e)" "stored = dict_set e ''idempotent'' (JBool True)"
    and fits: "jget e ''principal_id'' = JStr (pr_id p)" "jget e ''actor_id'' = jget intent ''actor_id''"
      "jget e ''intent_hash'' = jget intent ''intent_hash''"
    and who: "JStr (pr_id p) = jget intent ''actor_id'' \<or> allows p ''institutional:intent:submit:any''"
    using assms(2,3) by (auto simp: admit_intent_def served_bind_Inr split: option.splits)
  obtain row where row: "find_intent s iid = Some row" "row_to_intent row = Inr e"
    using e(1) by (auto simp: get_intent_def res_bind_eq_Inr split: option.splits)
  note member = find_intent_Some [OF row(1)]
  obtain src rc where "row_to_intent row = Inr (stored_answer row src rc)" using row_recorded(3) [OF ok] member by blast
  then have e': "e = stored_answer row src rc" using row(2) by simp
  have "dict_ok stored" "jget stored ''execution_decision'' = JStr ''HOLD''" "map_of stored ''acceptance_decision'' = None"
    using stored_fields [of row src rc] unfolding e(2) e' by (simp_all add: jget_def map_of_dict_set)
  then obtain r where r: "accepted_response stored = JObj r" "jget r ''acceptance_decision'' = JStr ''PASS''"
    "jget r ''execution_decision'' = JStr ''HOLD''"
    by (rule accepted_fields)
  have act: "jget intent ''actor_id'' = JStr (in_actor row)"
    using fits(2) row_recorded(1) [OF ok] member stored_fields(5) [of row src rc] unfolding e' by simp
  have "recorded_for intent p s row"
    using fits who member row_recorded(2) [OF ok] stored_fields(4,6) [of row src rc] assms(3)
    unfolding recorded_for_def e' act by auto
  then show ?thesis using r by blast
qed

text \<open>C40: A submission that the endpoint accepts was a valid intent of a principal with the capability, it is in the table
  under its id, its hash, its actor and its principal, who is the actor or may submit for others, and a row of the
  ledger records it with that principal and its execution on HOLD. The answer says so too.\<close>

theorem submission_recorded:
  assumes "intents_reachable s" and "submit_institutional_intent env rq p s = (Inr v, s')"
  shows "\<exists>intent r row. request_json rq = Inr (JObj intent) \<and> validate_intent_shape (se_fromiso env) (JObj intent) = Inr intent \<and>
    allows p ''institutional:intent:submit'' \<and> v = JObj r \<and> jget r ''acceptance_decision'' = JStr ''PASS'' \<and>
    jget r ''execution_decision'' = JStr ''HOLD'' \<and> recorded_for intent p s' row"
proof -
  note ok = intents_reachable_ok [OF assms(1)]
  obtain intent where checked: "served_bind (requires p ''institutional:intent:submit'') (\<lambda>_.
          served_bind (request_json rq) (validate_intent_shape (se_fromiso env))) = Inr intent"
    and sub: "submit_intent env intent p s = (Inr v, s')"
    using assms(2) by (simp add: submit_institutional_intent_def split: sum.splits)
  then obtain raw where raw: "request_json rq = Inr raw" "validate_intent_shape (se_fromiso env) raw = Inr intent"
    and cap: "allows p ''institutional:intent:submit''"
    unfolding requires_def served_bind_Inr refuse_when_Inr by blast
  have body: "request_json rq = Inr (JObj intent)" and valid: "validate_intent_shape (se_fromiso env) (JObj intent) = Inr intent"
    using raw shape_fields(1) [OF raw(2)] by simp_all
  have wf: "wf_json (JObj intent)" using shape_wf [OF valid] request_json_loaded [OF body] by blast
  obtain iid where iid: "jget intent ''intent_id'' = JStr iid"
    using shape_fields(3) [OF valid] by (auto simp: check_fields_def served_bind_Inr)
  consider stored where "admit_intent env intent p s = Inr (Some stored)" "v = accepted_response stored" "s' = s"
    | stored where "persist_intent env intent (pr_id p) (allows p ''institutional:intent:submit:any'') s = (Inr stored, s')" "v = accepted_response stored"
    using sub by (auto simp: submit_intent_def split: sum.splits option.splits prod.splits)
  then show ?thesis
  proof cases
    case (1 stored)
    then show ?thesis using repeated_submission [OF ok 1(1) iid] body valid cap by metis
  next
    case (2 stored)
    then show ?thesis using persisted_submission [OF ok wf 2(1)] body valid cap by metis
  qed
qed

section \<open>A defect of the validation\<close>

text \<open>An operation that is a list or an object is not refused: looking it up in the set of operations raises
  \<open>TypeError\<close>, which no handler catches.\<close>

lemma unhashable_operation_escapes:
  assumes "same_keys raw REQUIRED_INTENT_KEYS" and "jget raw ''schema_version'' = JStr ''matverse.institutional-intent.v1''"
    and "nonempty_string (jget raw ''intent_id'') ''intent_id'' = Inr i" and "nonempty_string (jget raw ''actor_id'') ''actor_id'' = Inr a"
    and "jget raw ''requested_operation'' = JArr xs"
  shows "validate_intent_shape fromiso (JObj raw) = Inl (Escaped (TypeError ''unhashable type''))"
  using assms by (simp add: validate_intent_shape_def check_fields_def refuse_when_def not_member_def del: nonempty_string_Inr)

section \<open>Witnesses\<close>


definition service_store_env :: store_env where
  "service_store_env = sample_store_env\<lparr>se_fromiso := (\<lambda>_. Some (0, Some 0))\<rparr>"

definition service_fields :: "jobj \<Rightarrow> jobj" where
  "service_fields src = [(''schema_version'', JStr ''matverse.institutional-intent.v1''), (''intent_id'', JStr ''intent-1''),
     (''requested_operation'', JStr ''REQUEST_PUBLICATION''), (''actor_id'', JStr ''alice''),
     (''target'', JObj [(''kind'', JStr ''ARTIFACT''), (''id'', JStr ''a-1'')]), (''parameters'', JObj []),
     (''created_at'', JStr ''2026-01-01T00:00:00Z''), (''source'', JObj src), (''hash_algorithm'', JStr ''SHA-256''),
     (''canonicalization'', JStr ''RFC8785_JCS''), (''hash_excludes'', JArr [JStr ''intent_hash''])]"

definition service_hash :: "jobj \<Rightarrow> string" where
  "service_hash src = sha256_text (jcs_subset_text (JObj (service_fields src)))"

definition service_intent :: "jobj \<Rightarrow> jobj" where
  "service_intent src = (''intent_hash'', JStr (service_hash src)) # service_fields src"

definition service_request :: "jobj \<Rightarrow> request" where
  "service_request src = \<lparr>rq_method = ''POST'', rq_path = ''/institutional/intents'',
     rq_body = utf8 (canonical_json (JObj (service_intent src))), h_principal = ''alice'', h_timestamp = '''', h_nonce = '''',
     h_content_sha256 = '''', h_signature = ''''\<rparr>"

lemma service_texts:
  assumes "texts_only (JObj src)"
  shows "texts_only (JObj (service_fields src))" and "texts_only (JObj (service_intent src))"
  using assms by (simp_all add: service_fields_def service_intent_def dict_ok_def)

text \<open>The loaded intent: the same fields, sorted.\<close>

lemma loaded_fields:
  assumes "texts_only (JObj src)"
  shows "jget (clone_obj (service_intent src)) k = sort_json (jget (service_intent src) k)"
    and "map_of (clone_obj (service_intent src)) k = map_option sort_json (map_of (service_intent src) k)"
  using service_texts(2) [OF assms] by (simp_all add: jget_clone map_of_clone)

lemma filter_clone:
  assumes "\<And>k v. P (k, sort_json v) = P (k, v)"
  shows "filter P (clone_obj d) = clone_obj (filter P d)"
proof -
  have "filter P (map (map_prod id sort_json) d) = map (map_prod id sort_json) (filter P d)"
    using assms by (induction d) (auto simp: map_prod_def)
  then show ?thesis by (simp add: clone_obj_def filter_sort)
qed

lemma texts_only_sorted: "texts_only v \<Longrightarrow> texts_only (sort_json v)"
proof (induction v rule: texts_only.induct)
  case (4 kvs)
  have "dict_ok (clone_obj kvs)" using 4(2) dict_ok_sort_json [of kvs] clone_obj_sort [of kvs] by simp
  moreover have "texts_only x" if "x \<in> snd ` set (clone_obj kvs)" for x
    using that 4 unfolding clone_values by auto
  ultimately show ?case unfolding clone_obj_sort [symmetric] by simp
qed simp_all

lemma loaded_hash:
  assumes "texts_only (JObj src)"
  shows "jcs_subset_hash (JObj (filter (\<lambda>p. fst p \<noteq> ''intent_hash'') (clone_obj (service_intent src)))) = Inr (service_hash src)"
proof -
  note t = service_texts(1) [OF assms]
  have f: "filter (\<lambda>p. fst p \<noteq> ''intent_hash'') (service_intent src) = service_fields src"
    by (simp add: service_intent_def service_fields_def)
  have eq: "JObj (filter (\<lambda>p. fst p \<noteq> ''intent_hash'') (clone_obj (service_intent src))) = sort_json (JObj (service_fields src))"
    by (subst filter_clone) (simp_all only: f clone_obj_sort fst_conv)
  have s: "texts_only (sort_json (JObj (service_fields src)))" by (rule texts_only_sorted [OF t])
  have "jcs_subset_text (sort_json (JObj (service_fields src))) = jcs_subset_text (JObj (service_fields src))"
    unfolding jcs_text_canonical texts_only_integers [OF t] texts_only_integers [OF s] by (rule canonical_sort_json)
  then show ?thesis unfolding eq jcs_subset_hash_def texts_only_jcs(1) [OF s] res_bind_Inr by (simp add: service_hash_def)
qed

lemma binding_keys: "build_binding env environ = Inr src \<Longrightarrow>
    set (map fst (dict_set src ''projection_hash'' v)) = set REQUIRED_SOURCE_KEYS"
  by (auto simp: build_binding_def Let_def res_bind_eq_Inr dict_set_def REQUIRED_SOURCE_KEYS_def)

lemma service_valid:
  assumes texts: "texts_only (JObj src)" and keys: "set (map fst src) = set REQUIRED_SOURCE_KEYS"
  shows "validate_intent_shape (\<lambda>_. Some (0, Some 0)) (JObj (clone_obj (service_intent src))) = Inr (clone_obj (service_intent src))"
proof -
  let ?i = "clone_obj (service_intent src)" and ?t = "[(''kind'', JStr ''ARTIFACT''), (''id'', JStr ''a-1'')]"
  have shape: "same_keys ?i REQUIRED_INTENT_KEYS"
    unfolding same_keys_def clone_keys by (auto simp: service_intent_def service_fields_def REQUIRED_INTENT_KEYS_def)
  have "jget ?i ''target'' = JObj (clone_obj ?t)" "jget ?i ''source'' = JObj (clone_obj src)" "jget ?i ''parameters'' = JObj []"
    "jget ?i ''hash_excludes'' = JArr [JStr ''intent_hash'']" "jget ?i ''intent_hash'' = JStr (service_hash src)"
    "jget ?i ''schema_version'' = JStr ''matverse.institutional-intent.v1''" "jget ?i ''intent_id'' = JStr ''intent-1''"
    "jget ?i ''actor_id'' = JStr ''alice''" "jget ?i ''requested_operation'' = JStr ''REQUEST_PUBLICATION''"
    "jget ?i ''created_at'' = JStr ''2026-01-01T00:00:00Z''" "jget ?i ''hash_algorithm'' = JStr ''SHA-256''"
    "jget ?i ''canonicalization'' = JStr ''RFC8785_JCS''"
    unfolding loaded_fields(1) [OF texts]
    by (simp_all add: service_intent_def service_fields_def jget_def clone_obj_sort [symmetric] clone_obj_def [of "[]"] del: sort_json.simps(7))
  note fields = this
  have t: "dict_ok ?t" by (simp add: dict_ok_def)
  have target: "check_target (JObj (clone_obj ?t)) = Inr ()"
    by (simp add: check_target_def same_keys_def clone_keys jget_clone [OF t] del: set_map)
      (simp add: jget_def refuse_when_def not_member_def TARGET_KINDS_def nonempty_string_def)
  have "assert_transferable_state (JObj [(''metadata'', JObj [])]) = Inr ()" by code_simp
  then have parameters: "check_parameters (JObj []) = Inr ()"
    by (simp add: check_parameters_def or_422_def jcs_subset_hash_def)
  have time: "is_rfc3339 ''2026-01-01T00:00:00Z''" by code_simp
  have source: "check_source_keys (JObj (clone_obj src)) = Inr ()"
    using keys by (simp add: check_source_keys_def same_keys_def clone_keys refuse_when_def del: set_map)
  have hash: "check_intent_hash ?i = Inr ()"
    by (simp add: check_intent_hash_def fields(5) loaded_hash [OF texts] refuse_when_def or_422_def service_hash_def sha256_text_hex)
  show ?thesis
    by (simp add: validate_intent_shape_def shape check_fields_def fields target parameters source hash refuse_when_def
        nonempty_string_def not_member_def INTENT_OPERATIONS_def validate_rfc3339_def time)
qed

lemma empty_projection_available:
  assumes "build_binding guards environ = Inr src" and "getenv environ ''MATVERSE_BUILD_TIMESTAMP'' '''' = ''''"
  shows "\<exists>p. build_projection fromiso guards environ (read_ledger empty_db) (sort_key artifact_hash (contract_artifacts empty_db)) = Inr p"
  unfolding projection_exists using assms by (simp add: read_ledger_def by_seq_def empty_db_def projection_time_def)

lemma service_boundary:
  assumes texts: "texts_only (JObj src)"
  obtains v where "verify_internal_boundary (clone_obj (service_intent src)) ''alice'' b = Inr v" and "iv_source v = clone_obj src"
proof -
  let ?i = "clone_obj (service_intent src)" and ?t = "[(''kind'', JStr ''ARTIFACT''), (''id'', JStr ''a-1'')]"
  have "jget ?i ''target'' = JObj (clone_obj ?t)" "jget ?i ''source'' = JObj (clone_obj src)"
    "jget ?i ''intent_hash'' = JStr (service_hash src)" "jget ?i ''intent_id'' = JStr ''intent-1''" "jget ?i ''actor_id'' = JStr ''alice''"
    "jget ?i ''requested_operation'' = JStr ''REQUEST_PUBLICATION''" "jget ?i ''created_at'' = JStr ''2026-01-01T00:00:00Z''"
    unfolding loaded_fields(1) [OF texts]
    by (simp_all add: service_intent_def service_fields_def jget_def clone_obj_sort [symmetric] del: sort_json.simps(7))
  note fields = this
  have t: "dict_ok ?t" by (simp add: dict_ok_def)
  have target: "jget (clone_obj ?t) ''kind'' = JStr ''ARTIFACT''" "jget (clone_obj ?t) ''id'' = JStr ''a-1''"
    unfolding jget_clone [OF t] by (simp_all add: jget_def)
  have "map_of ?i ''parameters'' = Some (JObj [])"
    unfolding loaded_fields(2) [OF texts] by (simp add: service_intent_def service_fields_def)
  then have parameters: "jget_or ?i ''parameters'' (JObj []) = JObj []" by simp
  have transferable: "assert_transferable_state (JObj [(''metadata'', JObj [])]) = Inr ()" by code_simp
  have phash: "jcs_subset_hash (JObj []) = Inr (sha256_text (jcs_subset_text (JObj [])))" by (simp add: jcs_subset_hash_def)
  show ?thesis using that
    unfolding verify_internal_boundary_def fields parameters
    by (simp add: text_or_def object_or_def target transferable phash loaded_hash [OF texts])
qed

theorem submission_recorded_witness:
  "\<exists>rq p v s' row intent. submit_institutional_intent service_store_env rq p empty_intent_db = (Inr v, s') \<and> recorded_for intent p s' row"
proof -
  let ?p = "\<lparr>pr_id = ''alice'', capabilities = [''institutional:intent:submit'']\<rparr>"
  have env: "se_guards service_store_env = se_guards sample_store_env" "se_environ service_store_env = se_environ sample_store_env"
    "se_fromiso service_store_env = (\<lambda>_. Some (0, Some 0))" by (simp_all add: service_store_env_def)
  obtain proj where proj: "current_projection service_store_env empty_db = Inr proj"
  proof -
    have "getenv (se_environ sample_store_env) ''MATVERSE_BUILD_TIMESTAMP'' '''' = ''''" by (simp add: sample_store_env_def getenv_def)
    then show ?thesis
      using that sample_build_binding empty_projection_available
      unfolding current_projection_def build_projection_from_db_def env by blast
  qed
  obtain src0 where b: "build_binding (se_guards service_store_env) (se_environ service_store_env) = Inr src0"
    and e: "fst (expected_source proj) = dict_set src0 ''projection_hash'' (JStr (sha256_text (projection_text service_store_env empty_db)))"
    using current_source [OF proj] by (metis fst_conv)
  define src where "src = fst (expected_source proj)"
  have texts: "texts_only (JObj src)" unfolding src_def e by (rule source_texts [OF b])
  have keys: "set (map fst src) = set REQUIRED_SOURCE_KEYS" unfolding src_def e by (rule binding_keys [OF b])
  let ?i = "clone_obj (service_intent src)" and ?rq = "service_request src"
  have "wf_json (JObj (service_intent src))" using service_texts(2) [OF texts] texts_only_wf by blast
  then have body: "request_json ?rq = Inr (JObj ?i)"
    by (simp add: request_json_def service_request_def utf8_decode_encode clone_obj_sort del: sort_json.simps(7))
  have valid: "validate_intent_shape (se_fromiso service_store_env) (JObj ?i) = Inr ?i"
    unfolding env by (rule service_valid [OF texts keys])
  have cap: "requires ?p ''institutional:intent:submit'' = Inr ()" by (simp add: requires_def allows_def refuse_when_def)
  have current: "py_eq (JObj (clone_obj src)) (JObj (fst (expected_source proj)))"
    unfolding clone_obj_sort by (simp add: py_eq_def src_def del: sort_json.simps(7))
  have fields: "jget ?i ''actor_id'' = JStr ''alice''" "jget ?i ''source'' = JObj (clone_obj src)"
    unfolding loaded_fields(1) [OF texts]
    by (simp_all add: service_intent_def service_fields_def jget_def clone_obj_sort [symmetric] del: sort_json.simps(7))
  have admitted: "admit_intent service_store_env ?i ?p empty_intent_db = Inr None"
    using proj current
    by (simp add: admit_intent_def fields refuse_when_def get_intent_def find_intent_def empty_intent_db_def uncaught_def
        current_projection_or_503_def or_503_def assert_current_source_def case_prod_beta)
  obtain v where v: "verify_internal_boundary ?i ''alice'' False = Inr v" "iv_source v = clone_obj src"
    by (rule service_boundary [OF texts])
  have "wf_json (JObj (clone_obj src))" by (rule wf_clone [OF texts_only_wf [OF texts]])
  then obtain r s' where r: "persist_intent service_store_env ?i ''alice'' False empty_intent_db = (Inr r, s')"
    using accepted_when_empty [OF proj v(1)] v(2) current by metis
  have "submit_institutional_intent service_store_env ?rq ?p empty_intent_db = (Inr (accepted_response r), s')"
    using r by (simp add: submit_institutional_intent_def cap body valid submit_intent_def admitted allows_def)
  from this submission_recorded [OF empty_intents_reachable this] show ?thesis by blast
qed

end
