(* ===== verification/Double.thy ===== *)
theory Double
  imports Prelude Complex_Main
begin

text \<open>
  Python's \<open>float\<close>: IEEE 754 double precision. A finite double is the rational number it is; an
  operation rounds the exact result to the nearest double, ties to even, and overflows to an
  infinity. The two zeros are one value here, so a text or the sign of a division by \<open>-0.0\<close> is
  outside the model.
\<close>

datatype double = Fin rat | PInf | NInf | NaN

section \<open>Rounding\<close>

fun bits :: "nat \<Rightarrow> nat" where
  "bits n = (if n = 0 then 0 else Suc (bits (n div 2)))"

declare bits.simps [simp del]

text \<open>The exponent of a positive number: \<open>2 ^ e \<le> x < 2 ^ (e + 1)\<close>.\<close>

definition exponent :: "rat \<Rightarrow> int" where
  "exponent x = (let (p, q) = quotient_of x; e = int (bits (nat p)) - int (bits (nat q)) in
     if 2 powi e \<le> x then e else e - 1)"

text \<open>The exponent of the distance between the doubles around \<open>x\<close>: 53 digits, and never below \<open>2 ^ (-1074)\<close>.\<close>

definition ulp_exponent :: "rat \<Rightarrow> int" where
  "ulp_exponent x = max (exponent \<bar>x\<bar> - 52) (- 1074)"

definition round_half_even :: "rat \<Rightarrow> int" where
  "round_half_even x = (let n = \<lfloor>x\<rfloor>; d = x - of_int n in
     if d < 1 / 2 then n else if d > 1 / 2 then n + 1 else if even n then n else n + 1)"

definition rnd :: "rat \<Rightarrow> rat" where
  "rnd x = (if x = 0 then 0 else
     (let u = 2 powi ulp_exponent x in of_int (round_half_even (x / u)) * u))"

definition overflow_bound :: rat where
  "overflow_bound = 2 ^ 1024"

definition double_of :: "rat \<Rightarrow> double" where
  "double_of x = (let v = rnd x in
     if overflow_bound \<le> v then PInf else if v \<le> - overflow_bound then NInf else Fin v)"

section \<open>Order and comparison\<close>

text \<open>A total order, with NaN above everything, for the library; Python's comparisons are below.\<close>

instantiation double :: linorder
begin

fun less_eq_double :: "double \<Rightarrow> double \<Rightarrow> bool" where
  "less_eq_double NInf b \<longleftrightarrow> True"
| "less_eq_double a NaN \<longleftrightarrow> True"
| "less_eq_double NaN b \<longleftrightarrow> b = NaN"
| "less_eq_double a PInf \<longleftrightarrow> True"
| "less_eq_double PInf b \<longleftrightarrow> b = PInf \<or> b = NaN"
| "less_eq_double (Fin a) (Fin b) \<longleftrightarrow> a \<le> b"
| "less_eq_double (Fin a) NInf \<longleftrightarrow> False"

definition less_double :: "double \<Rightarrow> double \<Rightarrow> bool" where
  "less_double a b \<longleftrightarrow> a \<le> b \<and> \<not> b \<le> (a :: double)"

instance
proof
  fix a b c :: double
  show "(a < b) = (a \<le> b \<and> \<not> b \<le> a)" by (simp add: less_double_def)
  show "a \<le> a" by (cases a) auto
  show "a \<le> b \<Longrightarrow> b \<le> c \<Longrightarrow> a \<le> c" by (cases a; cases b; cases c) auto
  show "a \<le> b \<Longrightarrow> b \<le> a \<Longrightarrow> a = b" by (cases a; cases b) auto
  show "a \<le> b \<or> b \<le> a" by (cases a; cases b) auto
qed

end

lemma double_less_simps [simp]:
  "Fin a < Fin b \<longleftrightarrow> a < b" "Fin a < PInf" "Fin a < NaN" "PInf < NaN" "\<not> NaN < x" "\<not> PInf < Fin a" "\<not> PInf < PInf"
  "\<not> x < NInf" "NInf < Fin a" "NInf < PInf" "NInf < NaN"
  by (cases x; auto simp: less_double_def)+

lemma double_le_top [simp]: "x \<le> NaN" "NInf \<le> x" "NaN \<le> x \<longleftrightarrow> x = NaN" "Fin a \<le> PInf"
  "x \<le> NInf \<longleftrightarrow> x = NInf"
  by (cases x; simp)+

lemma less_PInf_iff: "x < PInf \<longleftrightarrow> x = NInf \<or> (\<exists>a. x = Fin a)"
  by (cases x) auto

text \<open>\<open><\<close>, \<open><=\<close>, \<open>==\<close>: always false with a NaN.\<close>

definition py_lt :: "double \<Rightarrow> double \<Rightarrow> bool" where
  "py_lt a b \<longleftrightarrow> a \<noteq> NaN \<and> b \<noteq> NaN \<and> a < b"

definition py_le :: "double \<Rightarrow> double \<Rightarrow> bool" where
  "py_le a b \<longleftrightarrow> a \<noteq> NaN \<and> b \<noteq> NaN \<and> a \<le> b"

definition float_eq :: "double \<Rightarrow> double \<Rightarrow> bool" where
  "float_eq a b \<longleftrightarrow> a \<noteq> NaN \<and> a = b"

text \<open>\<open>max(a, b)\<close> and \<open>min(a, b)\<close> keep the first argument unless the second compares better.\<close>

definition py_max :: "double \<Rightarrow> double \<Rightarrow> double" where
  "py_max a b = (if py_lt a b then b else a)"

definition py_min :: "double \<Rightarrow> double \<Rightarrow> double" where
  "py_min a b = (if py_lt b a then b else a)"

definition is_finite :: "double \<Rightarrow> bool" where
  "is_finite a = (case a of Fin _ \<Rightarrow> True | _ \<Rightarrow> False)"

section \<open>Arithmetic\<close>

fun dneg :: "double \<Rightarrow> double" where
  "dneg (Fin a) = Fin (- a)"
| "dneg PInf = NInf"
| "dneg NInf = PInf"
| "dneg NaN = NaN"

fun dabs :: "double \<Rightarrow> double" where
  "dabs (Fin a) = Fin \<bar>a\<bar>"
| "dabs PInf = PInf"
| "dabs NInf = PInf"
| "dabs NaN = NaN"

definition dadd :: "double \<Rightarrow> double \<Rightarrow> double" where
  "dadd a b = (case (a, b) of
      (Fin x, Fin y) \<Rightarrow> double_of (x + y)
    | (NaN, _) \<Rightarrow> NaN | (_, NaN) \<Rightarrow> NaN
    | (PInf, NInf) \<Rightarrow> NaN | (NInf, PInf) \<Rightarrow> NaN
    | (Fin _, _) \<Rightarrow> b | _ \<Rightarrow> a)"

definition dsub :: "double \<Rightarrow> double \<Rightarrow> double" where
  "dsub a b = dadd a (dneg b)"

text \<open>The infinity with a sign, or NaN for an undefined product with zero.\<close>

definition signed_inf :: "rat \<Rightarrow> double" where
  "signed_inf s = (if s = 0 then NaN else if s < 0 then NInf else PInf)"

definition sign_of :: "double \<Rightarrow> rat" where
  "sign_of a = (case a of Fin x \<Rightarrow> (if x = 0 then 0 else if x < 0 then - 1 else 1) | PInf \<Rightarrow> 1 | NInf \<Rightarrow> - 1 | NaN \<Rightarrow> 0)"

definition dmul :: "double \<Rightarrow> double \<Rightarrow> double" where
  "dmul a b = (case (a, b) of (Fin x, Fin y) \<Rightarrow> double_of (x * y)
    | _ \<Rightarrow> if a = NaN \<or> b = NaN then NaN else signed_inf (sign_of a * sign_of b))"

definition ddiv :: "double \<Rightarrow> double \<Rightarrow> double res" where
  "ddiv a b = (if b = Fin 0 then Inl (ZeroDivisionError ''float division by zero'') else
     Inr (case (a, b) of (Fin x, Fin y) \<Rightarrow> double_of (x / y)
       | (NaN, _) \<Rightarrow> NaN | (_, NaN) \<Rightarrow> NaN
       | (Fin _, _) \<Rightarrow> Fin 0
       | (_, Fin _) \<Rightarrow> signed_inf (sign_of a * sign_of b)
       | _ \<Rightarrow> NaN))"

text \<open>\<open>round(x, n)\<close>.\<close>

definition round_digits :: "nat \<Rightarrow> double \<Rightarrow> double" where
  "round_digits n a = (case a of Fin x \<Rightarrow> double_of (of_int (round_half_even (x * 10 ^ n)) / 10 ^ n) | _ \<Rightarrow> a)"

text \<open>\<open>sum\<close> over floats, with the compensation CPython 3.12 carries along.\<close>

definition sum_step :: "double \<Rightarrow> double \<times> double \<Rightarrow> double \<times> double" where
  "sum_step x s = (case s of (acc, c) \<Rightarrow>
     let t = dadd acc x in
     (t, if py_le (dabs x) (dabs acc) then dadd c (dadd (dsub acc t) x) else dadd c (dadd (dsub x t) acc)))"

definition float_sum :: "double list \<Rightarrow> double" where
  "float_sum xs = (case xs of [] \<Rightarrow> Fin 0
    | x # rest \<Rightarrow> (case fold sum_step rest (x, Fin 0) of (acc, c) \<Rightarrow>
        if c \<noteq> Fin 0 \<and> is_finite c then dadd acc c else acc))"

section \<open>What rounding keeps\<close>

lemma bits_0 [simp]: "bits 0 = 0"
  by (simp add: bits.simps)

lemma bits_bounds: "0 < n \<Longrightarrow> 2 ^ (bits n - 1) \<le> n \<and> n < 2 ^ bits n"
proof (induction n rule: bits.induct)
  case (1 n)
  show ?case
  proof (cases "n div 2 = 0")
    case True
    then have "n = 1" using 1 by auto
    then show ?thesis by (simp add: bits.simps [of "Suc 0"])
  next
    case False
    then have IH: "2 ^ (bits (n div 2) - 1) \<le> n div 2" "n div 2 < 2 ^ bits (n div 2)" using 1 by auto
    have b: "bits n = Suc (bits (n div 2))" using 1 by (simp add: bits.simps [of n])
    have "bits (n div 2) \<noteq> 0" using False by (simp add: bits.simps [of "n div 2"])
    then obtain k where k: "bits (n div 2) = Suc k" by (cases "bits (n div 2)") auto
    have "2 * 2 ^ k \<le> n" "n < 2 * (2 * 2 ^ k)" using IH unfolding k by simp_all
    then show ?thesis unfolding b k by simp
  qed
qed

lemma powi_less_iff: "(2 :: rat) powi a < 2 powi b \<longleftrightarrow> a < b"
  using power_int_strict_increasing [of a b "2 :: rat"] power_int_increasing [of b a "2 :: rat"]
  by (cases "a < b") auto

lemma powi_le_iff: "(2 :: rat) powi a \<le> 2 powi b \<longleftrightarrow> a \<le> b"
  using powi_less_iff [of b a] by auto

lemma powi_nat: "(2 :: rat) powi int n = 2 ^ n"
  by simp

lemma powi_pos [simp]: "0 < (2 :: rat) powi a"
  by simp

lemma bits_int_bounds:
  assumes "0 < p"
  shows "(2 :: rat) powi (int (bits (nat p)) - 1) \<le> of_int p" and "of_int p < (2 :: rat) powi int (bits (nat p))"
proof -
  have n: "0 < nat p" using assms by simp
  then have pos: "0 < bits (nat p)" by (simp add: bits.simps [of "nat p"])
  have "(2 :: rat) powi (int (bits (nat p)) - 1) = 2 ^ (bits (nat p) - 1)"
    using pos powi_nat [of "bits (nat p) - 1"] by (simp add: of_nat_diff)
  also have "\<dots> = of_nat (2 ^ (bits (nat p) - 1))" by simp
  also have "\<dots> \<le> of_nat (nat p)" using bits_bounds [OF n] by (subst of_nat_le_iff) simp
  finally show "(2 :: rat) powi (int (bits (nat p)) - 1) \<le> of_int p" using assms by simp
  have "(of_nat (nat p) :: rat) < of_nat (2 ^ bits (nat p))" using bits_bounds [OF n] by (subst of_nat_less_iff) simp
  then show "of_int p < (2 :: rat) powi int (bits (nat p))" using assms by simp
qed

lemma exponent_bounds:
  assumes "0 < x"
  shows "2 powi exponent x \<le> x" and "x < 2 powi (exponent x + 1)"
proof -
  obtain p q where pq: "quotient_of x = (p, q)" by (cases "quotient_of x")
  have q: "0 < q" using quotient_of_denom_pos [OF pq] .
  have x: "x = of_int p / of_int q" using quotient_of_div [OF pq] .
  have p: "0 < p" using assms q by (simp add: x zero_less_divide_iff)
  define b c where "b = int (bits (nat p))" and "c = int (bits (nat q))"
  have pb: "2 powi (b - 1) \<le> (of_int p :: rat)" "of_int p < (2 :: rat) powi b"
    using bits_int_bounds [OF p] by (simp_all add: b_def)
  have qb: "2 powi (c - 1) \<le> (of_int q :: rat)" "of_int q < (2 :: rat) powi c"
    using bits_int_bounds [OF q] by (simp_all add: c_def)
  have q0: "(0 :: rat) < of_int q" using q by simp
  have up: "x < 2 powi (b - c + 1)"
  proof -
    have "of_int p < (2 :: rat) powi (b - c + 1) * 2 powi (c - 1)"
      using pb(2) by (simp flip: power_int_add)
    also have "\<dots> \<le> 2 powi (b - c + 1) * of_int q" using qb(1) by (intro mult_left_mono) simp_all
    finally show ?thesis using q0 by (simp add: x pos_divide_less_eq)
  qed
  have low: "2 powi (b - c - 1) \<le> x"
  proof -
    have "(2 :: rat) powi (b - c - 1) * of_int q \<le> 2 powi (b - c - 1) * 2 powi c"
      using qb(2) by (intro mult_left_mono) simp_all
    also have "\<dots> = 2 powi (b - 1)" by (simp flip: power_int_add)
    finally show ?thesis using pb(1) q0 by (simp add: x pos_le_divide_eq)
  qed
  show "2 powi exponent x \<le> x" "x < 2 powi (exponent x + 1)"
    using up low by (auto simp: exponent_def pq Let_def simp flip: b_def c_def)
qed

lemma exponent_ge_iff: "0 < x \<Longrightarrow> e \<le> exponent x \<longleftrightarrow> 2 powi e \<le> x"
  by (metis exponent_bounds add_le_cancel_right linorder_not_le order.strict_trans1 order_less_le_trans powi_le_iff zless_add1_eq zle_add1_eq_le not_less powi_less_iff)

lemma exponent_mono: "0 < x \<Longrightarrow> x \<le> y \<Longrightarrow> exponent x \<le> exponent y"
  using exponent_ge_iff [of y "exponent x"] exponent_bounds(1) [of x] by force

lemma ulp_exponent_mono: "0 < x \<Longrightarrow> x \<le> y \<Longrightarrow> ulp_exponent x \<le> ulp_exponent y"
  using exponent_mono [of x y] by (simp add: ulp_exponent_def)

lemma round_half_even_int [simp]: "round_half_even (of_int n) = n"
  by (simp add: round_half_even_def)

lemma round_half_even_mono: "x \<le> y \<Longrightarrow> round_half_even x \<le> round_half_even y"
proof (cases "\<lfloor>x\<rfloor> = \<lfloor>y\<rfloor>")
  case False
  assume "x \<le> y"
  then have "\<lfloor>x\<rfloor> + 1 \<le> \<lfloor>y\<rfloor>" using False floor_mono [of x y] by simp
  moreover have "round_half_even x \<le> \<lfloor>x\<rfloor> + 1" by (simp add: round_half_even_def Let_def)
  moreover have "\<lfloor>y\<rfloor> \<le> round_half_even y" by (simp add: round_half_even_def Let_def)
  ultimately show ?thesis by simp
qed (auto simp: round_half_even_def Let_def)

lemma rnd_pos: "0 < x \<Longrightarrow> rnd x = of_int (round_half_even (x / 2 powi ulp_exponent x)) * 2 powi ulp_exponent x"
  by (simp add: rnd_def Let_def)

lemma rnd_0 [simp]: "rnd 0 = 0"
  by (simp add: rnd_def)

text \<open>A power of two at or above the unit of the last place is not crossed by rounding.\<close>

lemma powi_split:
  assumes "ulp_exponent x \<le> k"
  shows "(2 :: rat) powi k / 2 powi ulp_exponent x = of_int (2 ^ nat (k - ulp_exponent x))"
    and "of_int (2 ^ nat (k - ulp_exponent x)) * 2 powi ulp_exponent x = (2 :: rat) powi k"
proof -
  have "(2 :: rat) powi (k - ulp_exponent x) = of_int (2 ^ nat (k - ulp_exponent x))"
    using assms by (simp add: power_int_def)
  moreover have "(2 :: rat) powi k = 2 powi (k - ulp_exponent x) * 2 powi ulp_exponent x"
    by (simp flip: power_int_add)
  ultimately show "(2 :: rat) powi k / 2 powi ulp_exponent x = of_int (2 ^ nat (k - ulp_exponent x))"
    and "of_int (2 ^ nat (k - ulp_exponent x)) * 2 powi ulp_exponent x = (2 :: rat) powi k" by simp_all
qed

lemma rnd_le_powi:
  assumes "0 < x" and "x \<le> 2 powi k" and "ulp_exponent x \<le> k"
  shows "rnd x \<le> 2 powi k"
proof -
  have "x / 2 powi ulp_exponent x \<le> 2 powi k / 2 powi ulp_exponent x"
    using assms(2) by (intro divide_right_mono) simp_all
  then have "round_half_even (x / 2 powi ulp_exponent x) \<le> 2 ^ nat (k - ulp_exponent x)"
    using round_half_even_mono round_half_even_int unfolding powi_split(1) [OF assms(3)] by metis
  then have "rnd x \<le> of_int (2 ^ nat (k - ulp_exponent x)) * 2 powi ulp_exponent x"
    unfolding rnd_pos [OF assms(1)] by (intro mult_right_mono) (simp_all del: of_int_power)
  also have "\<dots> = 2 powi k" by (rule powi_split(2) [OF assms(3)])
  finally show ?thesis .
qed

lemma rnd_ge_powi:
  assumes "2 powi k \<le> x" and "ulp_exponent x \<le> k"
  shows "2 powi k \<le> rnd x"
proof -
  have x: "0 < x" using assms(1) powi_pos [of k] by linarith
  have "2 powi k / 2 powi ulp_exponent x \<le> x / 2 powi ulp_exponent x"
    using assms(1) by (intro divide_right_mono) simp_all
  then have "2 ^ nat (k - ulp_exponent x) \<le> round_half_even (x / 2 powi ulp_exponent x)"
    using round_half_even_mono round_half_even_int unfolding powi_split(1) [OF assms(2)] by metis
  then have "of_int (2 ^ nat (k - ulp_exponent x)) * 2 powi ulp_exponent x \<le> rnd x"
    unfolding rnd_pos [OF x] by (intro mult_right_mono) (simp_all del: of_int_power)
  moreover have "of_int (2 ^ nat (k - ulp_exponent x)) * 2 powi ulp_exponent x = (2 powi k :: rat)"
    by (rule powi_split(2) [OF assms(2)])
  ultimately show ?thesis by simp
qed

lemma rnd_nonneg:
  assumes "0 \<le> x"
  shows "0 \<le> rnd x"
proof (cases "x = 0")
  case False
  then have "0 \<le> x / 2 powi ulp_exponent x" using assms by simp
  then have "0 \<le> round_half_even (x / 2 powi ulp_exponent x)"
    using round_half_even_mono [of "of_int 0" "x / 2 powi ulp_exponent x"] unfolding round_half_even_int by simp
  then show ?thesis using False assms by (simp add: rnd_pos)
qed simp

lemma rnd_mono:
  assumes "0 \<le> x" and "x \<le> y"
  shows "rnd x \<le> rnd y"
proof (cases "x = 0")
  case True
  then show ?thesis using rnd_nonneg assms by simp
next
  case False
  then have x: "0 < x" and y: "0 < y" using assms by auto
  show ?thesis
  proof (cases "ulp_exponent x = ulp_exponent y")
    case True
    have "x / 2 powi ulp_exponent y \<le> y / 2 powi ulp_exponent y" using assms(2) by (intro divide_right_mono) simp_all
    then have "round_half_even (x / 2 powi ulp_exponent y) \<le> round_half_even (y / 2 powi ulp_exponent y)"
      by (rule round_half_even_mono)
    then show ?thesis unfolding rnd_pos [OF x] rnd_pos [OF y] True
      by (intro mult_right_mono) simp_all
  next
    case False
    then have "ulp_exponent x < ulp_exponent y" using ulp_exponent_mono [OF x assms(2)] by simp
    then have e: "exponent x < exponent y" "ulp_exponent x \<le> exponent y" "ulp_exponent y \<le> exponent y"
      using x y by (auto simp: ulp_exponent_def)
    have "(2 :: rat) powi (exponent x + 1) \<le> 2 powi exponent y" using e(1) by (simp add: powi_le_iff)
    then have "x \<le> 2 powi exponent y" using exponent_bounds(2) [OF x] by linarith
    then have "rnd x \<le> 2 powi exponent y" using e(2) by (rule rnd_le_powi [OF x])
    also have "\<dots> \<le> rnd y" using exponent_bounds(1) [OF y] e(3) by (rule rnd_ge_powi)
    finally show ?thesis .
  qed
qed

text \<open>A multiple of its own unit in the last place is a double already.\<close>

lemma rnd_fixed: "0 < v \<Longrightarrow> v = of_int i * 2 powi ulp_exponent v \<Longrightarrow> rnd v = v"
proof -
  assume v: "0 < v" and eq: "v = of_int i * 2 powi ulp_exponent v"
  have "v / 2 powi ulp_exponent v = of_int i" using eq by (metis nonzero_mult_div_cancel_right power_int_eq_0_iff zero_neq_numeral)
  then have "rnd v = of_int i * 2 powi ulp_exponent v" using rnd_pos [OF v] by simp
  then show ?thesis using eq by simp
qed

lemma powi_multiple: "k \<le> e \<Longrightarrow> \<exists>i. (2 :: rat) powi e = of_int i * 2 powi k"
proof -
  assume "k \<le> e"
  then have "(2 :: rat) powi (e - k) = of_int (2 ^ nat (e - k))" by (simp add: power_int_def)
  moreover have "(2 :: rat) powi e = 2 powi (e - k) * 2 powi k" by (simp flip: power_int_add)
  ultimately show ?thesis by metis
qed

lemma rnd_idem:
  assumes "0 \<le> x"
  shows "rnd (rnd x) = rnd x"
proof (cases "rnd x = 0")
  case False
  then have x: "0 < x" and v: "0 < rnd x" using assms rnd_nonneg [OF assms] by (auto simp: less_le)
  define v where "v = rnd x"
  define u where "u = ulp_exponent x"
  define i where "i = round_half_even (x / 2 powi u)"
  have vi: "v = of_int i * 2 powi u" using rnd_pos [OF x] by (simp add: v_def u_def i_def)
  have v0: "0 < v" using v by (simp add: v_def)
  have "\<exists>j. v = of_int j * 2 powi ulp_exponent v"
  proof (cases "ulp_exponent v \<le> u")
    case True
    then obtain j where "(2 :: rat) powi u = of_int j * 2 powi ulp_exponent v" using powi_multiple by blast
    then have "v = of_int (i * j) * 2 powi ulp_exponent v" by (simp add: vi)
    then show ?thesis by blast
  next
    case False
    then have e: "exponent x < exponent v" "ulp_exponent v = exponent v - 52"
      using x v0 by (auto simp: ulp_exponent_def u_def)
    have bound: "v \<le> 2 powi max (exponent x + 1) u"
    proof -
      have "(2 :: rat) powi (exponent x + 1) \<le> 2 powi max (exponent x + 1) u" by (simp add: powi_le_iff)
      then have "x \<le> 2 powi max (exponent x + 1) u" using exponent_bounds(2) [OF x] by linarith
      then show ?thesis unfolding v_def by (rule rnd_le_powi [OF x]) (simp add: u_def)
    qed
    have "2 powi exponent v \<le> v" using v0 by (rule exponent_bounds(1))
    then have "exponent v \<le> max (exponent x + 1) u" using bound powi_le_iff by (meson order_trans)
    moreover have "u < exponent v" using False e(2) by simp
    ultimately have "exponent v = exponent x + 1" "max (exponent x + 1) u = exponent v" using e(1) by auto
    then have "v = 2 powi exponent v"
      using bound \<open>2 powi exponent v \<le> v\<close> by (metis order_antisym)
    moreover obtain j where "(2 :: rat) powi exponent v = of_int j * 2 powi ulp_exponent v"
      using powi_multiple [of "ulp_exponent v" "exponent v"] e(2) by auto
    ultimately show ?thesis by auto
  qed
  then show ?thesis using rnd_fixed [OF v0] by (auto simp: v_def)
qed simp

section \<open>Adding a cost\<close>

text \<open>A finite double that is not negative, as the costs of a path are.\<close>

definition distance_value :: "double \<Rightarrow> bool" where
  "distance_value a \<longleftrightarrow> (case a of Fin x \<Rightarrow> 0 \<le> x \<and> rnd x = x | PInf \<Rightarrow> True | NaN \<Rightarrow> True | NInf \<Rightarrow> False)"

lemma distance_value_0 [simp]: "distance_value (Fin 0)"
  by (simp add: distance_value_def)

lemma double_of_cases:
  "0 \<le> x \<Longrightarrow> double_of x = (if overflow_bound \<le> rnd x then PInf else Fin (rnd x))"
  using rnd_nonneg [of x] by (auto simp: double_of_def Let_def overflow_bound_def)

lemma double_of_le [simp]: "double_of x \<le> PInf" "double_of x \<noteq> NaN"
  by (simp_all add: double_of_def Let_def)

lemma double_of_mono: "0 \<le> x \<Longrightarrow> x \<le> y \<Longrightarrow> double_of x \<le> double_of y"
  using rnd_mono [of x y] by (auto simp: double_of_cases)

lemma rnd_grows: "0 \<le> x \<Longrightarrow> rnd x = x \<Longrightarrow> 0 \<le> y \<Longrightarrow> x \<le> rnd (x + y)"
  using rnd_mono [of x "x + y"] by simp

text \<open>Adding what is not below zero keeps the order, and never goes down.\<close>

lemma dadd_mono: "0 \<le> a \<Longrightarrow> Fin a \<le> b \<Longrightarrow> \<not> py_lt c (Fin 0) \<Longrightarrow> dadd (Fin a) c \<le> dadd b c"
  using double_of_mono [of "a + x" "y + x" for x y]
  by (cases b; cases c) (auto simp: dadd_def py_lt_def)

lemma dadd_distance: "distance_value a \<Longrightarrow> \<not> py_lt c (Fin 0) \<Longrightarrow> distance_value (dadd a c)"
  by (cases a; cases c)
    (auto simp: dadd_def py_lt_def distance_value_def double_of_cases rnd_nonneg rnd_idem)

lemma dadd_grows: "distance_value a \<Longrightarrow> \<not> py_lt c (Fin 0) \<Longrightarrow> a \<le> dadd a c"
  by (cases a; cases c)
    (auto simp: dadd_def py_lt_def distance_value_def double_of_cases rnd_grows)

section \<open>Negative numbers and small integers\<close>

lemma round_half_even_minus: "round_half_even (- x) = - round_half_even x"
proof (cases "x = of_int \<lfloor>x\<rfloor>")
  case True
  then show ?thesis by (metis of_int_minus round_half_even_int)
next
  case False
  have "of_int \<lfloor>x\<rfloor> < x" using of_int_floor_le [of x] False by linarith
  have "\<lfloor>- x\<rfloor> = - \<lfloor>x\<rfloor> - 1" unfolding floor_minus ceiling_altdef if_not_P [OF False] by simp
  then show ?thesis by (auto simp: round_half_even_def Let_def)
qed

lemma rnd_minus [simp]: "rnd (- x) = - rnd x"
  by (simp add: rnd_def Let_def ulp_exponent_def round_half_even_minus)

lemma rnd_mono_all: "x \<le> y \<Longrightarrow> rnd x \<le> rnd y"
  using rnd_mono [of x y] rnd_mono [of "- y" "- x"] rnd_nonneg [of y] rnd_nonneg [of "- x"]
  by (cases "0 \<le> x"; cases "0 \<le> y") auto

lemma overflow_bound_pos [simp]: "0 < overflow_bound" "- overflow_bound < overflow_bound"
  by (simp_all add: overflow_bound_def)

lemma double_of_mono_all: "x \<le> y \<Longrightarrow> double_of x \<le> double_of y"
  using rnd_mono_all [of x y] overflow_bound_pos by (auto simp: double_of_def Let_def)

lemma dadd_mono_all: "Fin a \<le> b \<Longrightarrow> dadd (Fin a) c \<le> dadd b c"
  using double_of_mono_all [of "a + x" "y + x" for x y]
  by (cases b; cases c) (auto simp: dadd_def)

lemma powi_one: "(2 :: rat) powi 0 = 1"
  by simp

text \<open>Integers of up to 53 bits are doubles.\<close>

lemma rnd_int:
  assumes "\<bar>k\<bar> < 2 ^ 53"
  shows "rnd (of_int k) = of_int k"
proof -
  have pos: "rnd (of_int n) = of_int n" if n: "0 < n" "n < 2 ^ 53" for n
  proof -
    have "(of_int n :: rat) < 2 powi 53" using n by simp
    then have "\<not> 53 \<le> exponent (of_int n)" using exponent_ge_iff [of "of_int n" 53] n by simp
    then have "ulp_exponent (of_int n) \<le> 0" using n by (simp add: ulp_exponent_def)
    then obtain i where "(2 :: rat) powi 0 = of_int i * 2 powi ulp_exponent (of_int n)" using powi_multiple by blast
    then have "(of_int n :: rat) = of_int (n * i) * 2 powi ulp_exponent (of_int n)" by simp
    then show ?thesis using rnd_fixed n by (metis of_int_0_less_iff)
  qed
  consider "k = 0" | "0 < k" | "k < 0" by linarith
  then show ?thesis
  proof cases
    case 3
    then show ?thesis using pos [of "- k"] assms rnd_minus [of "of_int k"] by simp
  qed (use pos assms in auto)
qed

lemma double_of_int: "\<bar>k\<bar> < 2 ^ 53 \<Longrightarrow> double_of (of_int k) = Fin (of_int k)"
proof -
  assume k: "\<bar>k\<bar> < 2 ^ 53"
  then have "(of_int \<bar>k\<bar> :: rat) < of_int (2 ^ 53)" by (simp only: of_int_less_iff)
  moreover have "(of_int (2 ^ 53) :: rat) \<le> overflow_bound" by (simp add: overflow_bound_def)
  ultimately have "(of_int k :: rat) < overflow_bound \<and> - overflow_bound < of_int k" by auto
  then show ?thesis using rnd_int [OF k] by (simp add: double_of_def)
qed

lemma double_of_small [simp]:
  "double_of 0 = Fin 0" "double_of 1 = Fin 1" "double_of (numeral n) = (if (numeral n :: int) < 2 ^ 53 then Fin (numeral n) else double_of (numeral n))"
  using double_of_int [of 0] double_of_int [of 1] double_of_int [of "numeral n"] by auto

end
