(* ===== verification/Federation_Routing.thy ===== *)
theory Federation_Routing
  imports Double Evidence "HOL-Library.Product_Lexorder"
begin

text \<open>
  \<open>app/federation_routing.py\<close>: admissibility constraints, the preference model and constrained
  shortest-path routing. A dictionary from names to nodes or numbers is an ordered association
  list, the heap queue of the search is the sorted list of its entries, and the order in which a
  Python \<open>set\<close> is iterated is the argument \<open>iter\<close>. Texts of numbers and values in messages come
  from a \<open>text_format\<close>; \<open>math.log10\<close>, \<open>math.sqrt\<close> and the normal distribution are arguments.
\<close>

record text_format =
  fmt_6g :: "double \<Rightarrow> string"
  fmt_12f :: "double \<Rightarrow> string"
  float_repr :: "double \<Rightarrow> string"
  value_repr :: "json \<Rightarrow> string"

section \<open>Criteria\<close>

datatype direction = HIGHER_IS_BETTER | LOWER_IS_BETTER

record criterion =
  c_name :: string
  c_direction :: direction
  c_lo :: double
  c_hi :: double
  c_scale :: string

definition check_criterion :: "text_format \<Rightarrow> criterion \<Rightarrow> criterion res" where
  "check_criterion fmt c =
     res_bind (raise_if (py_le (c_hi c) (c_lo c)) (ValueError (c_name c @ '': hi must be > lo''))) (\<lambda>_.
     res_bind (raise_if (c_scale c \<notin> {''linear'', ''log''})
       (ValueError (c_name c @ '': unsupported scale '' @ value_repr fmt (JStr (c_scale c))))) (\<lambda>_.
     res_bind (raise_if (c_scale c = ''log'' \<and> py_le (c_lo c) (Fin 0))
       (ValueError (c_name c @ '': log scale requires lo > 0''))) (\<lambda>_.
     Inr c)))"

definition clamp :: "double \<Rightarrow> double" where
  "clamp x = py_min (Fin 1) (py_max (Fin 0) x)"

definition goodness :: "(double \<Rightarrow> double) \<Rightarrow> criterion \<Rightarrow> double \<Rightarrow> double res" where
  "goodness log10 c x =
    (let (lo, hi, v) = (if c_scale c = ''log''
       then (log10 (c_lo c), log10 (c_hi c), log10 (py_max x (double_of (1 / 10 ^ 12))))
       else (c_lo c, c_hi c, x)) in
     res_bind (ddiv (dsub v lo) (dsub hi lo)) (\<lambda>q.
     Inr (if c_direction c = HIGHER_IS_BETTER then clamp q else dsub (Fin 1) (clamp q))))"

section \<open>Nodes and the admissibility gate\<close>

record capability_node =
  node_id :: string
  layer :: string
  node_raw :: "(string, double) dict"
  attrs :: "(string, json) dict"

type_synonym hard_constraint = "capability_node \<Rightarrow> string option"

definition metric_floor :: "text_format \<Rightarrow> string \<Rightarrow> double \<Rightarrow> hard_constraint" where
  "metric_floor fmt metric minimum node = (case map_of (node_raw node) metric of
      None \<Rightarrow> Some (''missing:'' @ metric)
    | Some v \<Rightarrow> if py_le minimum v then None else Some (metric @ ''='' @ fmt_6g fmt v @ ''<'' @ fmt_6g fmt minimum))"

definition metric_ceiling :: "text_format \<Rightarrow> string \<Rightarrow> double \<Rightarrow> hard_constraint" where
  "metric_ceiling fmt metric maximum node = (case map_of (node_raw node) metric of
      None \<Rightarrow> Some (''missing:'' @ metric)
    | Some v \<Rightarrow> if py_le v maximum then None else Some (metric @ ''='' @ fmt_6g fmt v @ ''>'' @ fmt_6g fmt maximum))"

definition requires_attr :: "text_format \<Rightarrow> string \<Rightarrow> json \<Rightarrow> hard_constraint" where
  "requires_attr fmt key expected node =
    (let actual = (case map_of (attrs node) key of None \<Rightarrow> JNull | Some v \<Rightarrow> v) in
     if py_eq actual expected then None
     else Some (key @ ''='' @ value_repr fmt actual @ ''!='' @ value_repr fmt expected))"

record gate_decision =
  gd_node_id :: string
  gd_admissible :: bool
  gd_reasons :: "string list"

definition evaluate_node :: "hard_constraint list \<Rightarrow> capability_node \<Rightarrow> gate_decision" where
  "evaluate_node constraints node = (let rs = List.map_filter (\<lambda>check. check node) constraints in
     \<lparr>gd_node_id = node_id node, gd_admissible = (rs = []), gd_reasons = rs\<rparr>)"

definition filter_nodes ::
  "hard_constraint list \<Rightarrow> capability_node list \<Rightarrow> capability_node list \<times> (string, string list) dict" where
  "filter_nodes constraints nodes = fold (\<lambda>node (admissible, blocked).
     let d = evaluate_node constraints node in
     if gd_admissible d then (admissible @ [node], blocked)
     else (admissible, dict_set blocked (node_id node) (gd_reasons d))) nodes ([], [])"

section \<open>Preferences\<close>

record preference =
  criteria :: "(string, criterion) dict"
  weights :: "(string, double) dict"

definition check_preference :: "text_format \<Rightarrow> preference \<Rightarrow> preference res" where
  "check_preference fmt p =
     res_bind (raise_if (\<not> set (map fst (weights p)) \<subseteq> set (map fst (criteria p)))
       (ValueError ''every weight must have a criterion'')) (\<lambda>_.
     res_bind (raise_if (\<exists>w \<in> set (map snd (weights p)). py_lt w (Fin 0))
       (ValueError ''negative weights are forbidden'')) (\<lambda>_.
     let s = float_sum (map snd (weights p)) in
     res_bind (raise_if (py_lt (double_of (1 / 10 ^ 9)) (dabs (dsub s (Fin 1))))
       (ValueError (''weights must sum to 1.0, got '' @ fmt_12f fmt s))) (\<lambda>_.
     Inr p)))"

text \<open>\<open>weights\<close>, \<open>criteria\<close> and \<open>raw\<close> at one name; the first two lookups cannot fail in a checked model.\<close>

definition weighted_goodness :: "(double \<Rightarrow> double) \<Rightarrow> preference \<Rightarrow> capability_node \<Rightarrow> string \<Rightarrow> double res" where
  "weighted_goodness log10 p node k = (case (map_of (criteria p) k, map_of (node_raw node) k) of
      (Some c, Some v) \<Rightarrow> goodness log10 c v | _ \<Rightarrow> Inl (KeyError k))"

definition goodness_vector ::
  "text_format \<Rightarrow> (double \<Rightarrow> double) \<Rightarrow> preference \<Rightarrow> capability_node \<Rightarrow> (string, double) dict res" where
  "goodness_vector fmt log10 p node =
    (let missing = filter (\<lambda>k. k \<notin> set (map fst (node_raw node))) (map fst (weights p)) in
     res_bind (raise_if (missing \<noteq> [])
       (KeyError (node_id node @ '': missing criteria '' @ value_repr fmt (JArr (map JStr (sort missing)))))) (\<lambda>_.
     res_map (\<lambda>k. res_bind (weighted_goodness log10 p node k) (\<lambda>g. Inr (k, g))) (map fst (weights p))))"

definition score :: "text_format \<Rightarrow> (double \<Rightarrow> double) \<Rightarrow> preference \<Rightarrow> capability_node \<Rightarrow> double res" where
  "score fmt log10 p node = res_bind (goodness_vector fmt log10 p node) (\<lambda>v.
     Inr (float_sum (map (\<lambda>(k, w). dmul w (the (map_of v k))) (weights p))))"

definition potential :: "text_format \<Rightarrow> (double \<Rightarrow> double) \<Rightarrow> preference \<Rightarrow> capability_node \<Rightarrow> double res" where
  "potential fmt log10 p node = res_bind (score fmt log10 p node) (\<lambda>s. Inr (dsub (Fin 1) s))"

text \<open>\<open>min\<close> and \<open>max\<close> with a key: the first element no later one is better than.\<close>

fun best_from :: "(double \<Rightarrow> double \<Rightarrow> bool) \<Rightarrow> double \<times> 'a \<Rightarrow> (double \<times> 'a) list \<Rightarrow> double \<times> 'a" where
  "best_from better b [] = b"
| "best_from better b (x # xs) = best_from better (if better (fst x) (fst b) then x else b) xs"

definition best_by :: "(double \<Rightarrow> double \<Rightarrow> bool) \<Rightarrow> ('a \<Rightarrow> double res) \<Rightarrow> 'a list \<Rightarrow> 'a res" where
  "best_by better key xs =
     res_bind (res_map (\<lambda>x. res_bind (key x) (\<lambda>k. Inr (k, x))) xs) (\<lambda>ks. case ks of
       [] \<Rightarrow> Inl (ValueError ''iterable argument is empty'')
     | b # rest \<Rightarrow> Inr (snd (best_from better b rest)))"

record sensitivity_report =
  baseline_winner :: string
  trials :: nat
  flips :: "(string \<times> double \<times> string) list"
  fragility :: double

text \<open>One shifted weight vector: skipped when nothing is left of it, and a flip when another node wins.\<close>

definition try_shift ::
  "text_format \<Rightarrow> (double \<Rightarrow> double) \<Rightarrow> preference \<Rightarrow> capability_node list \<Rightarrow> double \<Rightarrow> string \<Rightarrow>
   string \<times> double \<times> double \<Rightarrow> nat \<times> (string \<times> double \<times> string) list \<Rightarrow>
   (nat \<times> (string \<times> double \<times> string) list) res" where
  "try_shift fmt log10 p nodes delta baseline shift st = (case shift of (k, w, sign) \<Rightarrow>
     let candidate = dict_set (weights p) k (py_max (Fin 0) (dadd w (dmul sign delta)));
         s = float_sum (map snd candidate) in
     if py_le s (Fin 0) then Inr st else
     res_bind (res_map (\<lambda>(n, v). res_bind (ddiv v s) (\<lambda>x. Inr (n, x))) candidate) (\<lambda>ws.
     res_bind (check_preference fmt (p\<lparr>weights := ws\<rparr>)) (\<lambda>p'.
     res_bind (best_by (\<lambda>a b. py_lt b a) (score fmt log10 p') nodes) (\<lambda>winner.
     Inr (fst st + 1,
          if node_id winner \<noteq> baseline then snd st @ [(k, dmul sign delta, node_id winner)] else snd st)))))"

definition sensitivity ::
  "text_format \<Rightarrow> (double \<Rightarrow> double) \<Rightarrow> preference \<Rightarrow> capability_node list \<Rightarrow> double \<Rightarrow> sensitivity_report res" where
  "sensitivity fmt log10 p nodes delta =
     res_bind (raise_if (nodes = []) (ValueError ''sensitivity requires at least one admissible node'')) (\<lambda>_.
     res_bind (best_by (\<lambda>a b. py_lt b a) (score fmt log10 p) nodes) (\<lambda>base.
     res_bind (res_fold (try_shift fmt log10 p nodes delta (node_id base))
        (concat (map (\<lambda>(k, w). [(k, w, Fin 1), (k, w, Fin (- 1))]) (weights p))) (0, [])) (\<lambda>(n, fs).
     Inr \<lparr>baseline_winner = node_id base, trials = n, flips = fs,
          fragility = (if n = 0 then Fin 0 else double_of (of_nat (length fs) / of_nat n))\<rparr>)))"

section \<open>The graph\<close>

record crossing =
  cr_src :: string
  cr_dst :: string
  cr_cost :: double
  cr_reason :: string

definition check_crossing :: "crossing \<Rightarrow> crossing res" where
  "check_crossing c = res_bind (raise_if (py_lt (cr_cost c) (Fin 0))
     (ValueError ''crossing cost must be non-negative'')) (\<lambda>_. Inr c)"

record capability_graph =
  g_nodes :: "(string, capability_node) dict"
  g_crossings :: "crossing list"
  g_preference :: preference
  g_admissible :: "capability_node list"
  g_blocked :: "(string, string list) dict"

definition admissible_ids :: "capability_graph \<Rightarrow> string list" where
  "admissible_ids g = remdups (map node_id (g_admissible g))"

definition adjacent :: "capability_graph \<Rightarrow> string \<Rightarrow> crossing list" where
  "adjacent g u = filter (\<lambda>c. cr_src c = u \<and> u \<in> set (admissible_ids g) \<and> cr_dst c \<in> set (admissible_ids g))
     (g_crossings g)"

definition new_graph ::
  "capability_node list \<Rightarrow> crossing list \<Rightarrow> hard_constraint list \<Rightarrow> preference \<Rightarrow> capability_graph" where
  "new_graph nodes cs constraints p = (case filter_nodes constraints nodes of (admissible, blocked) \<Rightarrow>
     \<lparr>g_nodes = fold (\<lambda>n d. dict_set d (node_id n) n) nodes [], g_crossings = cs, g_preference = p,
      g_admissible = admissible, g_blocked = blocked\<rparr>)"

section \<open>The search\<close>

record search_state =
  distance :: "(string, double) dict"
  previous :: "(string, string) dict"
  queue :: "(double \<times> string) list"

definition start_search :: "string \<Rightarrow> search_state" where
  "start_search origin = \<lparr>distance = [(origin, Fin 0)], previous = [], queue = [(Fin 0, origin)]\<rparr>"

definition distance_to :: "search_state \<Rightarrow> string \<Rightarrow> double" where
  "distance_to s v = (case map_of (distance s) v of None \<Rightarrow> PInf | Some d \<Rightarrow> d)"

definition relax :: "double \<Rightarrow> string \<Rightarrow> crossing \<Rightarrow> search_state \<Rightarrow> search_state" where
  "relax d u c s = (let candidate = dadd d (cr_cost c); v = cr_dst c in
     if py_lt candidate (distance_to s v)
     then s\<lparr>distance := dict_set (distance s) v candidate, previous := dict_set (previous s) v u,
            queue := insort (candidate, v) (queue s)\<rparr>
     else s)"

definition is_current :: "search_state \<Rightarrow> double \<Rightarrow> string \<Rightarrow> bool" where
  "is_current s d u = (case map_of (distance s) u of None \<Rightarrow> False | Some x \<Rightarrow> float_eq d x)"

definition expand :: "capability_graph \<Rightarrow> double \<Rightarrow> string \<Rightarrow> search_state \<Rightarrow> search_state" where
  "expand g d u s = (if is_current s d u then fold (relax d u) (adjacent g u) s else s)"

text \<open>The loop over the queue; \<open>None\<close> would be a loop that never ends.\<close>

partial_function (option) search :: "capability_graph \<Rightarrow> search_state \<Rightarrow> search_state option" where
  "search g s = (case queue s of
      [] \<Rightarrow> Some s
    | (d, u) # rest \<Rightarrow> search g (expand g d u (s\<lparr>queue := rest\<rparr>)))"

text \<open>The path back along \<open>previous\<close>, in order from the origin.\<close>

partial_function (option) trace :: "(string, string) dict \<Rightarrow> string list \<Rightarrow> string list option" where
  "trace prev path = (case map_of prev (hd path) of None \<Rightarrow> Some path | Some u \<Rightarrow> trace prev (u # path))"

section \<open>Routing\<close>

record routing_result =
  rr_path :: "string list"
  total_cost :: double
  crossing_cost :: double
  terminal_potential :: double
  rr_blocked :: "(string, string list) dict"
  receipt_sha256 :: string

definition route_payload ::
  "text_format \<Rightarrow> string list \<Rightarrow> double \<Rightarrow> double \<Rightarrow> double \<Rightarrow> (string, string list) dict \<Rightarrow> json" where
  "route_payload fmt path cost pot all blocked = JObj
     [(''path'', JArr (map JStr path)),
      (''crossing_cost'', JFloat (float_repr fmt (round_digits 12 cost))),
      (''terminal_potential'', JFloat (float_repr fmt (round_digits 12 pot))),
      (''total_cost'', JFloat (float_repr fmt (round_digits 12 all))),
      (''blocked'', JObj (map (\<lambda>(k, rs). (k, JArr (map JStr (sort rs)))) (sort_key fst blocked)))]"

definition node_potential ::
  "text_format \<Rightarrow> (double \<Rightarrow> double) \<Rightarrow> capability_graph \<Rightarrow> string \<Rightarrow> double res" where
  "node_potential fmt log10 g v = (case map_of (g_nodes g) v of
      None \<Rightarrow> Inl (KeyError v) | Some n \<Rightarrow> potential fmt log10 (g_preference g) n)"

definition route_candidates :: "(string list \<Rightarrow> string list) \<Rightarrow> capability_graph \<Rightarrow> string list option \<Rightarrow> string list" where
  "route_candidates iter g targets = iter (case targets of
      None \<Rightarrow> admissible_ids g | Some ts \<Rightarrow> filter (\<lambda>v. v \<in> set ts) (admissible_ids g))"

text \<open>After the search: the best reachable candidate, its path and the receipt.\<close>

definition route_result ::
  "text_format \<Rightarrow> (double \<Rightarrow> double) \<Rightarrow> capability_graph \<Rightarrow> string list \<Rightarrow> search_state \<Rightarrow> routing_result res option" where
  "route_result fmt log10 g candidates s =
    (case res_bind (raise_if (filter (\<lambda>v. v \<in> set (map fst (distance s))) candidates = [])
            (ValueError ''no admissible target is reachable'')) (\<lambda>_.
          res_bind (best_by py_lt (\<lambda>v. res_bind (node_potential fmt log10 g v) (\<lambda>x. Inr (dadd (distance_to s v) x)))
            (filter (\<lambda>v. v \<in> set (map fst (distance s))) candidates)) (\<lambda>terminal.
          res_bind (node_potential fmt log10 g terminal) (\<lambda>pot. Inr (terminal, pot)))) of
       Inl e \<Rightarrow> Some (Inl e)
     | Inr (terminal, pot) \<Rightarrow> (case trace (previous s) [terminal] of
         None \<Rightarrow> None
       | Some path \<Rightarrow>
           let cost = distance_to s terminal; all = dadd cost pot in
           Some (Inr \<lparr>rr_path = path, total_cost = all, crossing_cost = cost, terminal_potential = pot,
             rr_blocked = g_blocked g,
             receipt_sha256 = sha256_text (ascii_json (route_payload fmt path cost pot all (g_blocked g)))\<rparr>)))"

definition route ::
  "text_format \<Rightarrow> (double \<Rightarrow> double) \<Rightarrow> (string list \<Rightarrow> string list) \<Rightarrow> capability_graph \<Rightarrow> string \<Rightarrow> string list option \<Rightarrow>
   routing_result res option" where
  "route fmt log10 iter g origin targets =
    (case res_bind (raise_if (origin \<notin> set (admissible_ids g))
            (ValueError (''origin '' @ value_repr fmt (JStr origin) @ '' is missing or inadmissible''))) (\<lambda>_.
          raise_if (route_candidates iter g targets = []) (ValueError ''no admissible targets'')) of
       Inl e \<Rightarrow> Some (Inl e)
     | Inr _ \<Rightarrow> (case search g (start_search origin) of
         None \<Rightarrow> None | Some s \<Rightarrow> route_result fmt log10 g (route_candidates iter g targets) s))"

section \<open>Conservativity\<close>

text \<open>One pop of the depth-first walk: the new neighbours get a potential and go on the stack (its top first).\<close>

definition spread_step ::
  "string \<Rightarrow> crossing \<Rightarrow> (string, double) dict \<times> string list \<Rightarrow> (string, double) dict \<times> string list" where
  "spread_step u c st = (case st of (phi, stack) \<Rightarrow>
     if cr_dst c \<in> set (map fst phi) then (phi, stack)
     else (dict_set phi (cr_dst c) (dadd (the (map_of phi u)) (cr_cost c)), cr_dst c # stack))"

definition spread :: "capability_graph \<Rightarrow> string \<Rightarrow> (string, double) dict \<times> string list \<Rightarrow> (string, double) dict \<times> string list" where
  "spread g u = fold (spread_step u) (adjacent g u)"

partial_function (option) explore ::
  "capability_graph \<Rightarrow> (string, double) dict \<Rightarrow> string list \<Rightarrow> (string, double) dict option" where
  "explore g phi stack = (case stack of
      [] \<Rightarrow> Some phi
    | u # rest \<Rightarrow> explore g (fst (spread g u (phi, rest))) (snd (spread g u (phi, rest))))"

fun potentials :: "capability_graph \<Rightarrow> string list \<Rightarrow> (string, double) dict \<Rightarrow> (string, double) dict option" where
  "potentials g [] phi = Some phi"
| "potentials g (v # vs) phi =
    (if v \<in> set (map fst phi) then potentials g vs phi
     else (case explore g (dict_set phi v (Fin 0)) [v] of None \<Rightarrow> None | Some phi' \<Rightarrow> potentials g vs phi'))"

definition residual :: "(string, double) dict \<Rightarrow> crossing \<Rightarrow> double" where
  "residual phi c = dsub (cr_cost c) (dsub (the (map_of phi (cr_dst c))) (the (map_of phi (cr_src c))))"

definition violations :: "double \<Rightarrow> (string, double) dict \<Rightarrow> crossing list \<Rightarrow> (string \<times> double) list" where
  "violations tolerance phi cs = map (\<lambda>c. (cr_src c @ ''->'' @ cr_dst c, residual phi c))
     (filter (\<lambda>c. cr_src c \<in> set (map fst phi) \<and> cr_dst c \<in> set (map fst phi) \<and> py_lt tolerance (dabs (residual phi c))) cs)"

definition conservativity_report :: "capability_graph \<Rightarrow> double \<Rightarrow> (bool \<times> (string \<times> double) list) option" where
  "conservativity_report g tolerance = (case potentials g (sort (admissible_ids g)) [] of
      None \<Rightarrow> None
    | Some phi \<Rightarrow> (let vs = violations tolerance phi (g_crossings g) in Some (vs = [], vs)))"

section \<open>Evidence mass and equivalence tests\<close>

record mass_report =
  mass_artifact :: string
  decisions_total :: nat
  decisions_flipped :: "nat list"
  mass :: double

definition informational_mass ::
  "text_format \<Rightarrow> string \<Rightarrow> (string set \<Rightarrow> string) list \<Rightarrow> string set \<Rightarrow> mass_report res" where
  "informational_mass fmt artifact decisions evidence =
     res_bind (raise_if (artifact \<notin> evidence)
       (ValueError (value_repr fmt (JStr artifact) @ '' not present in evidence set''))) (\<lambda>_.
     let flipped = filter (\<lambda>i. (decisions ! i) evidence \<noteq> (decisions ! i) (evidence - {artifact})) [0..<length decisions] in
     Inr \<lparr>mass_artifact = artifact, decisions_total = length decisions, decisions_flipped = flipped,
          mass = (if decisions = [] then Fin 0 else double_of (of_nat (length flipped) / of_nat (length decisions)))\<rparr>)"

datatype equivalence_verdict = EQUIVALENT | INCONCLUSIVE | DIVERGENT

text \<open>\<open>x**2\<close> and \<open>math.sqrt\<close>, and \<open>NormalDist().cdf\<close> and \<open>inv_cdf\<close>.\<close>

record normal_env =
  square :: "double \<Rightarrow> double res"
  square_root :: "double \<Rightarrow> double"
  cdf :: "double \<Rightarrow> double"
  inv_cdf :: "double \<Rightarrow> double res"

record tost_report =
  t_diff :: double
  t_se :: double
  t_p_value :: double
  t_ci90 :: "(double \<times> double) option"
  t_margin :: double
  t_verdict :: equivalence_verdict

definition standard_error :: "normal_env \<Rightarrow> double \<Rightarrow> int \<Rightarrow> double \<Rightarrow> int \<Rightarrow> double res" where
  "standard_error env sd_a n_a sd_b n_b =
     res_bind (square env sd_a) (\<lambda>va. res_bind (ddiv va (double_of (of_int n_a))) (\<lambda>qa.
     res_bind (square env sd_b) (\<lambda>vb. res_bind (ddiv vb (double_of (of_int n_b))) (\<lambda>qb.
     Inr (square_root env (dadd qa qb))))))"

definition tost_verdict :: "double \<Rightarrow> double \<Rightarrow> double \<times> double \<Rightarrow> double \<Rightarrow> equivalence_verdict" where
  "tost_verdict p alpha ci margin =
    (if py_lt p alpha then EQUIVALENT
     else if py_lt margin (fst ci) \<or> py_lt (snd ci) (dneg margin) then DIVERGENT
     else INCONCLUSIVE)"

definition tost_equivalence ::
  "normal_env \<Rightarrow> double \<Rightarrow> double \<Rightarrow> int \<Rightarrow> double \<Rightarrow> double \<Rightarrow> int \<Rightarrow> double \<Rightarrow> double \<Rightarrow> tost_report res" where
  "tost_equivalence env mean_a sd_a n_a mean_b sd_b n_b margin alpha =
     res_bind (raise_if (py_le margin (Fin 0)) (ValueError ''equivalence margin must be > 0'')) (\<lambda>_.
     res_bind (raise_if (n_a < 2 \<or> n_b < 2) (ValueError ''n_a and n_b must be >= 2'')) (\<lambda>_.
     res_bind (standard_error env sd_a n_a sd_b n_b) (\<lambda>se.
     let diff = dsub mean_a mean_b in
     if float_eq se (Fin 0)
     then (let equivalent = py_lt (dabs diff) margin in
       Inr \<lparr>t_diff = diff, t_se = Fin 0, t_p_value = (if equivalent then Fin 0 else Fin 1), t_ci90 = None,
            t_margin = margin, t_verdict = (if equivalent then EQUIVALENT else DIVERGENT)\<rparr>)
     else
       res_bind (ddiv (dadd diff margin) se) (\<lambda>l. res_bind (ddiv (dsub diff margin) se) (\<lambda>u.
       res_bind (inv_cdf env (dsub (Fin 1) alpha)) (\<lambda>z.
       let p = py_max (dsub (Fin 1) (cdf env l)) (cdf env u);
           ci = (dsub diff (dmul z se), dadd diff (dmul z se)) in
       Inr \<lparr>t_diff = diff, t_se = se, t_p_value = p, t_ci90 = Some ci, t_margin = margin,
            t_verdict = tost_verdict p alpha ci margin\<rparr>))))))"

end
