(* ===== verification/Shortest_Paths.thy ===== *)
theory Shortest_Paths
  imports Federation_Routing
begin

text \<open>
  The search of \<open>CapabilityGraph.route\<close>: it ends on every graph, the distances it leaves are the
  least costs of walks (in double arithmetic, rounding included), and \<open>previous\<close> leads back along
  such a walk. The argument keeps a ghost list of the settled nodes.
\<close>

section \<open>Walks\<close>

definition graph_ok :: "capability_graph \<Rightarrow> bool" where
  "graph_ok g \<longleftrightarrow> (\<forall>c \<in> set (g_crossings g). \<not> py_lt (cr_cost c) (Fin 0))"

fun walk :: "capability_graph \<Rightarrow> string \<Rightarrow> crossing list \<Rightarrow> string \<Rightarrow> bool" where
  "walk g u [] v \<longleftrightarrow> u = v"
| "walk g u (c # cs) v \<longleftrightarrow> c \<in> set (adjacent g u) \<and> walk g (cr_dst c) cs v"

definition walk_cost :: "crossing list \<Rightarrow> double" where
  "walk_cost cs = foldl (\<lambda>d c. dadd d (cr_cost c)) (Fin 0) cs"

definition walk_nodes :: "string \<Rightarrow> crossing list \<Rightarrow> string list" where
  "walk_nodes u cs = u # map cr_dst cs"

lemma walk_snoc: "walk g u (cs @ [c]) v \<longleftrightarrow> (\<exists>w. walk g u cs w \<and> c \<in> set (adjacent g w) \<and> cr_dst c = v)"
  by (induction cs arbitrary: u) auto

lemma walk_cost_snoc [simp]: "walk_cost (cs @ [c]) = dadd (walk_cost cs) (cr_cost c)"
  by (simp add: walk_cost_def)

lemma walk_cost_Nil [simp]: "walk_cost [] = Fin 0"
  by (simp add: walk_cost_def)

lemma adjacent_cost: "graph_ok g \<Longrightarrow> c \<in> set (adjacent g u) \<Longrightarrow> \<not> py_lt (cr_cost c) (Fin 0)"
  by (simp add: graph_ok_def adjacent_def)

lemma adjacent_ids: "c \<in> set (adjacent g u) \<Longrightarrow> cr_src c = u \<and> u \<in> set (admissible_ids g) \<and> cr_dst c \<in> set (admissible_ids g)"
  by (auto simp: adjacent_def)

lemma walk_admissible: "walk g u cs v \<Longrightarrow> u \<in> set (admissible_ids g) \<Longrightarrow> set (walk_nodes u cs) \<subseteq> set (admissible_ids g)"
  by (induction cs arbitrary: u) (auto simp: walk_nodes_def dest: adjacent_ids)

section \<open>Doubles as distances\<close>

lemma distance_value_PInf [simp]: "distance_value PInf"
  by (simp add: distance_value_def)

lemma distance_value_ge: "distance_value a \<Longrightarrow> Fin 0 \<le> a"
  by (cases a) (auto simp: distance_value_def)

lemma dadd_le: "distance_value a \<Longrightarrow> a \<le> b \<Longrightarrow> \<not> py_lt c (Fin 0) \<Longrightarrow> dadd a c \<le> dadd b c"
  using dadd_mono [of _ b c]
  by (cases a; cases b; cases c) (auto simp: distance_value_def dadd_def py_lt_def)

lemma not_py_lt: "\<not> py_lt a b \<Longrightarrow> b \<noteq> NaN \<Longrightarrow> b \<le> a"
  by (auto simp: py_lt_def not_less)

lemma dadd_PInf: "\<not> py_lt c (Fin 0) \<Longrightarrow> PInf \<le> dadd PInf c"
  by (cases c) (auto simp: dadd_def py_lt_def)

section \<open>The invariant\<close>

text \<open>\<open>settled\<close>: the expanded nodes, the last one first; \<open>m\<close>: the distance last taken from the queue;
  \<open>done u c\<close>: the crossings of \<open>u\<close> that have been relaxed.\<close>

definition search_inv ::
  "capability_graph \<Rightarrow> string \<Rightarrow> (string \<Rightarrow> crossing \<Rightarrow> bool) \<Rightarrow> string list \<Rightarrow> double \<Rightarrow> search_state \<Rightarrow> bool" where
  "search_inv g origin relaxed settled m s \<longleftrightarrow>
     sorted (queue s) \<and> distinct (queue s) \<and> distinct settled \<and>
     (\<forall>d v. (d, v) \<in> set (queue s) \<longrightarrow> m \<le> d \<and> d < PInf \<and> distance_to s v \<le> d \<and> distance_to s v < PInf) \<and>
     (\<forall>v. distance_value (distance_to s v) \<and> distance_to s v \<le> PInf \<and> (v \<in> fst ` set (distance s) \<longrightarrow> distance_to s v < PInf)) \<and>
     (\<forall>v \<in> set settled. distance_to s v < PInf \<and> distance_to s v \<le> m \<and> (distance_to s v, v) \<notin> set (queue s)) \<and>
     (\<forall>v. distance_to s v < PInf \<and> v \<notin> set settled \<longrightarrow> (distance_to s v, v) \<in> set (queue s)) \<and>
     (\<forall>v \<in> set settled. \<forall>c \<in> set (adjacent g v). relaxed v c \<longrightarrow> distance_to s (cr_dst c) \<le> dadd (distance_to s v) (cr_cost c)) \<and>
     distance_to s origin = Fin 0 \<and> map_of (previous s) origin = None \<and>
     (\<forall>v. distance_to s v < PInf \<and> v \<noteq> origin \<longrightarrow> (\<exists>u c. map_of (previous s) v = Some u \<and> u \<in> set settled \<and>
        c \<in> set (adjacent g u) \<and> cr_dst c = v \<and> distance_to s v = dadd (distance_to s u) (cr_cost c))) \<and>
     (\<forall>A v B. settled = A @ v # B \<and> v \<noteq> origin \<longrightarrow> (\<exists>u \<in> set B. map_of (previous s) v = Some u))"

lemma search_inv_less: "search_inv g origin r L m s \<Longrightarrow> distance_to s v \<noteq> PInf \<Longrightarrow> distance_to s v < PInf"
  by (auto simp: search_inv_def less_le)

lemma distance_to_relax:
  "distance_to (s\<lparr>distance := dict_set (distance s) v d, previous := p, queue := q\<rparr>) w =
     (if w = v then d else distance_to s w)"
  by (simp add: distance_to_def)

lemma relax_inv:
  assumes inv: "search_inv g origin r L m s" and g: "graph_ok g" and u: "u \<in> set L" "distance_to s u = m"
    and c: "c \<in> set (adjacent g u)"
  shows "search_inv g origin (\<lambda>v e. r v e \<or> (v = u \<and> e = c)) L m (relax m u c s) \<and>
     distance_to (relax m u c s) u = m \<and> length (queue (relax m u c s)) \<le> length (queue s) + 1"
proof -
  define v where "v = cr_dst c"
  define cand where "cand = dadd m (cr_cost c)"
  have cost: "\<not> py_lt (cr_cost c) (Fin 0)" using g c by (rule adjacent_cost)
  have val: "distance_value m" "distance_value (distance_to s v)" "distance_to s v \<le> PInf"
    using inv u by (auto simp: search_inv_def)
  have grows: "m \<le> cand" "distance_value cand"
    using dadd_grows dadd_distance val cost by (simp_all add: cand_def)
  show ?thesis
  proof (cases "py_lt cand (distance_to s v)")
    case False
    have "distance_to s v \<noteq> NaN" using val(3) by auto
    then have "distance_to s v \<le> cand" using False not_py_lt by blast
    then have "search_inv g origin (\<lambda>v e. r v e \<or> (v = u \<and> e = c)) L m s"
      using inv u unfolding search_inv_def by (auto simp: cand_def v_def)
    moreover have "relax m u c s = s" using False by (simp add: relax_def Let_def cand_def v_def)
    ultimately show ?thesis using u by simp
  next
    case True
    then have less: "cand < distance_to s v" by (simp add: py_lt_def)
    define s' where "s' = relax m u c s"
    have s': "s' = s\<lparr>distance := dict_set (distance s) v cand, previous := dict_set (previous s) v u,
        queue := insort (cand, v) (queue s)\<rparr>"
      using True by (simp add: s'_def relax_def Let_def cand_def v_def)
    have d': "distance_to s' w = (if w = v then cand else distance_to s w)" for w
      by (simp add: s' distance_to_relax)
    have fin: "cand < PInf" using less val(3) by order
    have new: "v \<notin> set L" using less grows(1) inv by (force simp: search_inv_def)
    have nu: "u \<noteq> v" using new u by auto
    have no: "v \<noteq> origin" using less distance_value_ge [OF grows(2)] inv by (force simp: search_inv_def)
    have fresh: "(cand, v) \<notin> set (queue s)" using less inv by (force simp: search_inv_def)
    have q: "set (queue s') = insert (cand, v) (set (queue s))" by (simp add: s' set_insort_key)
    have le: "distance_to s' w \<le> distance_to s w" for w using less_imp_le [OF less] by (simp add: d')
    have "search_inv g origin (\<lambda>v e. r v e \<or> (v = u \<and> e = c)) L m s'"
      unfolding search_inv_def
    proof (intro conjI allI impI ballI)
      show "sorted (queue s')" using inv by (simp add: s' search_inv_def sorted_insort)
      show "distinct (queue s')" using inv fresh by (simp add: s' search_inv_def distinct_insort)
      show "distinct L" using inv by (simp add: search_inv_def)
      show "distance_to s' origin = Fin 0" using inv no by (simp add: d' search_inv_def)
      show "map_of (previous s') origin = None" using inv no by (simp add: s' search_inv_def)
    next
      fix d w assume "(d, w) \<in> set (queue s')"
      then show "m \<le> d" "d < PInf" "distance_to s' w \<le> d" "distance_to s' w < PInf"
        using inv grows(1) fin less unfolding search_inv_def q d' by (force, force, force, force)
    next
      fix w show "distance_value (distance_to s' w)" "distance_to s' w \<le> PInf"
        using inv grows fin by (auto simp: d' search_inv_def)
      assume "w \<in> fst ` set (distance s')"
      then have "w = v \<or> w \<in> fst ` set (distance s)" using dict_keys_set [of "distance s" v cand] by (simp add: s')
      then show "distance_to s' w < PInf" using inv fin by (auto simp: d' search_inv_def)
    next
      fix w assume "w \<in> set L"
      then show "distance_to s' w < PInf" "distance_to s' w \<le> m" "(distance_to s' w, w) \<notin> set (queue s')"
        using inv new by (auto simp: d' q search_inv_def)
    next
      fix w assume "distance_to s' w < PInf \<and> w \<notin> set L"
      then show "(distance_to s' w, w) \<in> set (queue s')" using inv by (auto simp: d' q search_inv_def)
    next
      fix w e assume w: "w \<in> set L" "e \<in> set (adjacent g w)" "r w e \<or> (w = u \<and> e = c)"
      have "distance_to s' w = distance_to s w" using w new by (auto simp: d')
      moreover have "distance_to s' (cr_dst e) \<le> dadd (distance_to s w) (cr_cost e)"
        using w(3)
      proof
        assume "r w e"
        then have "distance_to s (cr_dst e) \<le> dadd (distance_to s w) (cr_cost e)"
          using inv w by (auto simp: search_inv_def)
        then show ?thesis using le [of "cr_dst e"] by order
      next
        assume "w = u \<and> e = c"
        then show ?thesis using u by (simp add: d' cand_def v_def)
      qed
      ultimately show "distance_to s' (cr_dst e) \<le> dadd (distance_to s' w) (cr_cost e)" by simp
    next
      fix w assume w: "distance_to s' w < PInf \<and> w \<noteq> origin"
      show "\<exists>x e. map_of (previous s') w = Some x \<and> x \<in> set L \<and> e \<in> set (adjacent g x) \<and> cr_dst e = w \<and>
          distance_to s' w = dadd (distance_to s' x) (cr_cost e)"
      proof (cases "w = v")
        case True
        then show ?thesis using u c nu
          by (intro exI [of _ u] exI [of _ c]) (simp add: s' distance_to_relax cand_def v_def)
      next
        case False
        then obtain x e where "map_of (previous s) w = Some x \<and> x \<in> set L \<and> e \<in> set (adjacent g x) \<and> cr_dst e = w \<and>
            distance_to s w = dadd (distance_to s x) (cr_cost e)"
          using inv w by (auto simp: d' search_inv_def)
        then show ?thesis using False new
          by (intro exI [of _ x] exI [of _ e]) (auto simp: s' distance_to_relax)
      qed
    next
      fix A w B assume w: "L = A @ w # B \<and> w \<noteq> origin"
      then have "w \<noteq> v" using new by auto
      then show "\<exists>x \<in> set B. map_of (previous s') w = Some x" using inv w by (auto simp: s' search_inv_def)
    qed
    moreover have "distance_to s' u = m" using nu u by (simp add: d')
    moreover have "length (queue s') \<le> length (queue s) + 1" by (simp add: s')
    ultimately show ?thesis unfolding s'_def by simp
  qed
qed

text \<open>Relaxing all crossings of the node just taken.\<close>

lemma relax_all:
  assumes "search_inv g origin r L m s" and "graph_ok g" and "u \<in> set L" and "distance_to s u = m"
    and "set cs \<subseteq> set (adjacent g u)"
  shows "search_inv g origin (\<lambda>v e. r v e \<or> (v = u \<and> e \<in> set cs)) L m (fold (relax m u) cs s) \<and>
     length (queue (fold (relax m u) cs s)) \<le> length (queue s) + length cs"
  using assms
proof (induction cs arbitrary: s r)
  case (Cons c cs)
  have step: "search_inv g origin (\<lambda>v e. r v e \<or> (v = u \<and> e = c)) L m (relax m u c s)"
    "distance_to (relax m u c s) u = m" "length (queue (relax m u c s)) \<le> length (queue s) + 1"
    using relax_inv [OF Cons.prems(1-4), of c] Cons.prems(5) by auto
  have "(\<lambda>v e. (r v e \<or> (v = u \<and> e = c)) \<or> (v = u \<and> e \<in> set cs)) = (\<lambda>v e. r v e \<or> (v = u \<and> e \<in> set (c # cs)))"
    by (intro ext) auto
  then show ?case
    using Cons.IH [OF step(1) Cons.prems(2,3) step(2)] Cons.prems(5) step(3) by auto
qed simp

text \<open>One turn of the loop. What is left to do, entries to take and crossings to relax, gets less.\<close>

definition work :: "capability_graph \<Rightarrow> string list \<Rightarrow> search_state \<Rightarrow> nat" where
  "work g L s = length (queue s) + (\<Sum>v \<in> set (admissible_ids g) - set L. length (adjacent g v))"

abbreviation all_relaxed :: "string \<Rightarrow> crossing \<Rightarrow> bool" where
  "all_relaxed \<equiv> (\<lambda>_ _. True)"

lemma is_current_iff:
  "search_inv g origin r L m s \<Longrightarrow> d < PInf \<Longrightarrow> is_current s d u \<longleftrightarrow> distance_to s u = d"
  by (auto simp: is_current_def distance_to_def float_eq_def search_inv_def split: option.splits)

lemma sorted_least: "sorted ((d, u) # rest) \<Longrightarrow> (e, v) \<in> set rest \<Longrightarrow> d \<le> e"
  by (auto simp: less_eq_prod_def)

lemma queue_least:
  "search_inv g origin r L m s \<Longrightarrow> queue s = (d, u) # rest \<Longrightarrow> (e, v) \<in> set rest \<Longrightarrow> d \<le> e"
  by (rule sorted_least [of d u rest e v]) (auto simp: search_inv_def)

lemma pop_stale:
  assumes inv: "search_inv g origin all_relaxed L m s" and q: "queue s = (d, u) # rest" and stale: "distance_to s u \<noteq> d"
  shows "search_inv g origin all_relaxed L d (s\<lparr>queue := rest\<rparr>)"
proof -
  have "m \<le> d" using inv q by (auto simp: search_inv_def)
  moreover have "\<forall>e v. (e, v) \<in> set rest \<longrightarrow> d \<le> e" using queue_least [OF inv q] by blast
  moreover have "distance_to (s\<lparr>queue := rest\<rparr>) = distance_to s" by (simp add: distance_to_def fun_eq_iff)
  ultimately show ?thesis using inv stale q unfolding search_inv_def by (auto intro: order_trans)
qed

lemma pop_current:
  assumes inv: "search_inv g origin all_relaxed L m s" and q: "queue s = (d, u) # rest" and cur: "distance_to s u = d"
  shows "search_inv g origin (\<lambda>v e. v \<noteq> u) (u # L) d (s\<lparr>queue := rest\<rparr>)" and "u \<notin> set L"
proof -
  show new: "u \<notin> set L" using inv q cur by (auto simp: search_inv_def)
  have m: "m \<le> d" and d: "d < PInf" using inv q cur by (auto simp: search_inv_def)
  have low: "\<forall>e v. (e, v) \<in> set rest \<longrightarrow> d \<le> e" using queue_least [OF inv q] by blast
  have dist: "(d, u) \<notin> set rest" using inv q by (auto simp: search_inv_def)
  have same: "distance_to (s\<lparr>queue := rest\<rparr>) = distance_to s" by (simp add: distance_to_def fun_eq_iff)
  have order: "\<exists>x \<in> set B. map_of (previous s) w = Some x" if "u # L = A @ w # B \<and> w \<noteq> origin" for A w B
  proof (cases A)
    case Nil
    then show ?thesis using that inv cur d by (auto simp: search_inv_def)
  next
    case (Cons a A')
    then show ?thesis using that inv by (auto simp: search_inv_def)
  qed
  have parent: "\<exists>x e. map_of (previous s) w = Some x \<and> x \<in> set (u # L) \<and> e \<in> set (adjacent g x) \<and> cr_dst e = w \<and>
      distance_to s w = dadd (distance_to s x) (cr_cost e)" if "distance_to s w < PInf \<and> w \<noteq> origin" for w
    using inv that by (fastforce simp: search_inv_def)
  show "search_inv g origin (\<lambda>v e. v \<noteq> u) (u # L) d (s\<lparr>queue := rest\<rparr>)"
    unfolding search_inv_def same
    using inv q cur new m d low dist order parent
    by (intro conjI allI impI ballI) (auto simp: search_inv_def intro: order_trans)
qed

lemma search_inv_weaken:
  assumes "search_inv g origin r L m s"
    and "\<And>v c. c \<in> set (adjacent g v) \<Longrightarrow> r' v c \<Longrightarrow> r v c"
  shows "search_inv g origin r' L m s"
proof -
  have "\<forall>v \<in> set L. \<forall>c \<in> set (adjacent g v). r' v c \<longrightarrow> distance_to s (cr_dst c) \<le> dadd (distance_to s v) (cr_cost c)"
    using assms by (simp add: search_inv_def)
  then show ?thesis using assms(1) unfolding search_inv_def by (elim conjE) (intro conjI; assumption)
qed

lemma expand_inv:
  assumes inv: "search_inv g origin all_relaxed L m s" and g: "graph_ok g" and q: "queue s = (d, u) # rest"
    and ids: "set L \<subseteq> set (admissible_ids g)" "u \<in> set (admissible_ids g)"
  shows "\<exists>L'. search_inv g origin all_relaxed L' d (expand g d u (s\<lparr>queue := rest\<rparr>)) \<and>
     set L' \<subseteq> set (admissible_ids g) \<and> work g L' (expand g d u (s\<lparr>queue := rest\<rparr>)) < work g L s"
proof -
  let ?s = "s\<lparr>queue := rest\<rparr>"
  have "d < PInf" using inv q by (auto simp: search_inv_def)
  then have d: "d \<noteq> NaN" "d \<noteq> PInf" by auto
  have cur: "is_current ?s d u \<longleftrightarrow> distance_to s u = d \<and> d < PInf"
    using \<open>d < PInf\<close> d by (auto simp: is_current_def distance_to_def float_eq_def split: option.splits)
  show ?thesis
  proof (cases "is_current ?s d u")
    case False
    then have "distance_to s u \<noteq> d" using cur inv q by (auto simp: search_inv_def)
    then show ?thesis using pop_stale [OF inv q] ids False q
      by (intro exI [of _ L]) (simp add: expand_def work_def)
  next
    case True
    then have same: "distance_to s u = d" using cur by simp
    note pop = pop_current [OF inv q same]
    have "search_inv g origin (\<lambda>v e. v \<noteq> u \<or> (v = u \<and> e \<in> set (adjacent g u))) (u # L) d (fold (relax d u) (adjacent g u) ?s) \<and>
        length (queue (fold (relax d u) (adjacent g u) ?s)) \<le> length (queue ?s) + length (adjacent g u)"
      using relax_all [OF pop(1) g, of u "adjacent g u"] same by (simp add: distance_to_def)
    then have step: "search_inv g origin (\<lambda>v e. v \<noteq> u \<or> (v = u \<and> e \<in> set (adjacent g u))) (u # L) d (expand g d u ?s)"
      "length (queue (expand g d u ?s)) \<le> length rest + length (adjacent g u)"
      using True by (simp_all add: expand_def)
    have "search_inv g origin all_relaxed (u # L) d (expand g d u ?s)"
      using step(1) by (rule search_inv_weaken) auto
    moreover have "work g (u # L) (expand g d u ?s) < work g L s"
    proof -
      have rest: "set (admissible_ids g) - set (u # L) = set (admissible_ids g) - set L - {u}" by auto
      have "(\<Sum>v \<in> set (admissible_ids g) - set L. length (adjacent g v)) =
          length (adjacent g u) + (\<Sum>v \<in> set (admissible_ids g) - set (u # L). length (adjacent g v))"
        unfolding rest using ids(2) pop(2) by (intro sum.remove) simp_all
      then show ?thesis using step(2) q by (simp add: work_def)
    qed
    ultimately show ?thesis using ids by (intro exI [of _ "u # L"]) simp
  qed
qed

lemma parent_admissible:
  assumes "search_inv g origin r L m s" and "origin \<in> set (admissible_ids g)" and "distance_to s v < PInf"
  shows "v \<in> set (admissible_ids g)"
proof (cases "v = origin")
  case False
  then have "\<exists>u c. c \<in> set (adjacent g u) \<and> cr_dst c = v"
    using assms(1,3) unfolding search_inv_def by metis
  then show ?thesis using adjacent_ids by blast
qed (simp add: assms)

lemma search_ends:
  assumes "search_inv g origin all_relaxed L m s" and "graph_ok g" and "origin \<in> set (admissible_ids g)"
    and "set L \<subseteq> set (admissible_ids g)"
  shows "\<exists>s' L' m'. search g s = Some s' \<and> queue s' = [] \<and> search_inv g origin all_relaxed L' m' s'"
  using assms(1,4)
proof (induction "work g L s" arbitrary: L m s rule: less_induct)
  case less
  show ?case
  proof (cases "queue s")
    case Nil
    then show ?thesis using less.prems by (subst search.simps) auto
  next
    case (Cons entry rest)
    obtain d u where entry: "entry = (d, u)" by (cases entry)
    then have q: "queue s = (d, u) # rest" using Cons by simp
    have "distance_to s u < PInf" using less.prems q by (auto simp: search_inv_def)
    then have u: "u \<in> set (admissible_ids g)" by (rule parent_admissible [OF less.prems(1) assms(3)])
    obtain L' where "search_inv g origin all_relaxed L' d (expand g d u (s\<lparr>queue := rest\<rparr>))"
      "set L' \<subseteq> set (admissible_ids g)" "work g L' (expand g d u (s\<lparr>queue := rest\<rparr>)) < work g L s"
      using expand_inv [OF less.prems(1) assms(2) q less.prems(2) u] by blast
    then show ?thesis using less.hyps [of L' _ d] by (subst search.simps) (simp add: q)
  qed
qed

lemma start_inv: "search_inv g origin all_relaxed [] (Fin 0) (start_search origin)"
  by (auto simp: search_inv_def start_search_def distance_to_def)

section \<open>What the distances are\<close>

definition search_result :: "capability_graph \<Rightarrow> string \<Rightarrow> string list \<Rightarrow> search_state \<Rightarrow> bool" where
  "search_result g origin L s \<longleftrightarrow> (\<exists>m. search_inv g origin all_relaxed L m s) \<and> queue s = []"

lemma search_returns:
  assumes "graph_ok g" and "origin \<in> set (admissible_ids g)"
  obtains s L where "search g (start_search origin) = Some s" and "search_result g origin L s"
  using search_ends [OF start_inv assms] by (auto simp: search_result_def)

lemma result_settled: "search_result g origin L s \<Longrightarrow> distance_to s v < PInf \<longleftrightarrow> v \<in> set L"
  by (auto simp: search_result_def search_inv_def)

text \<open>No walk is cheaper than the distance found.\<close>

lemma search_optimal:
  assumes res: "search_result g origin L s" and g: "graph_ok g" and "walk g origin cs v"
  shows "distance_to s v \<le> walk_cost cs"
  using assms(3)
proof (induction cs arbitrary: v rule: rev_induct)
  case Nil
  then show ?case using res by (auto simp: search_result_def search_inv_def)
next
  case (snoc c cs)
  then obtain w where w: "walk g origin cs w" "c \<in> set (adjacent g w)" "cr_dst c = v" by (auto simp: walk_snoc)
  have cost: "\<not> py_lt (cr_cost c) (Fin 0)" using g w(2) by (rule adjacent_cost)
  have IH: "distance_to s w \<le> walk_cost cs" using snoc.IH w(1) by blast
  have val: "distance_value (distance_to s w)" "distance_to s w \<le> PInf" "distance_to s v \<le> PInf"
    using res by (auto simp: search_result_def search_inv_def)
  have "distance_to s v \<le> dadd (distance_to s w) (cr_cost c)"
  proof (cases "w \<in> set L")
    case True
    then show ?thesis using res w by (auto simp: search_result_def search_inv_def)
  next
    case False
    then have "distance_to s w = PInf" using result_settled [OF res, of w] val(2) by auto
    then show ?thesis using val(3) dadd_PInf [OF cost] by simp
  qed
  also have "\<dots> \<le> dadd (walk_cost cs) (cr_cost c)" using dadd_le [OF val(1) IH cost] .
  finally show ?case by simp
qed

lemma result_parent:
  "search_result g origin L s \<Longrightarrow> distance_to s v < PInf \<Longrightarrow> v \<noteq> origin \<Longrightarrow>
     \<exists>u c. map_of (previous s) v = Some u \<and> u \<in> set L \<and> c \<in> set (adjacent g u) \<and> cr_dst c = v \<and>
       distance_to s v = dadd (distance_to s u) (cr_cost c)"
  unfolding search_result_def search_inv_def by (elim conjE exE) simp

text \<open>Following \<open>previous\<close> back from a reached node gives a walk of exactly its distance.\<close>

lemma traced:
  assumes res: "search_result g origin L s"
  shows "v \<in> set L \<Longrightarrow> \<exists>cs. walk g origin cs v \<and> walk_cost cs = distance_to s v \<and>
     (\<forall>acc. trace (previous s) (v # acc) = Some (walk_nodes origin cs @ acc))"
proof -
  have "\<exists>cs. walk g origin cs v \<and> walk_cost cs = distance_to s v \<and>
     (\<forall>acc. trace (previous s) (v # acc) = Some (walk_nodes origin cs @ acc))" if "L = A @ B" "v \<in> set B" for A B v
    using that
  proof (induction B arbitrary: A v)
    case (Cons w B)
    show ?case
    proof (cases "v = w")
      case False
      then show ?thesis using Cons.IH [of "A @ [w]" v] Cons.prems by simp
    next
      case True
      show ?thesis
      proof (cases "v = origin")
        case True
        then have "map_of (previous s) v = None" "distance_to s v = Fin 0"
          using res by (auto simp: search_result_def search_inv_def)
        then show ?thesis using True
          by (intro exI [of _ "[]"]) (simp add: walk_nodes_def trace.simps)
      next
        case False
        have "\<exists>u \<in> set B. map_of (previous s) v = Some u"
          using res Cons.prems(1) True False by (auto simp: search_result_def search_inv_def)
        moreover have "distance_to s v < PInf" using result_settled [OF res] Cons.prems by auto
        ultimately obtain u c where u: "map_of (previous s) v = Some u" "u \<in> set B" "c \<in> set (adjacent g u)" "cr_dst c = v"
          "distance_to s v = dadd (distance_to s u) (cr_cost c)"
          using result_parent [OF res _ False] by auto
        obtain cs where cs: "walk g origin cs u" "walk_cost cs = distance_to s u"
          "\<forall>acc. trace (previous s) (u # acc) = Some (walk_nodes origin cs @ acc)"
          using Cons.IH [of "A @ [w]" u] Cons.prems u(2) by auto
        have "trace (previous s) (v # acc) = Some (walk_nodes origin (cs @ [c]) @ acc)" for acc
          using u(1,4) cs(3) by (subst trace.simps) (simp add: walk_nodes_def)
        then show ?thesis using cs u by (intro exI [of _ "cs @ [c]"]) (auto simp: walk_snoc)
      qed
    qed
  qed simp
  from this [of "[]" L] show "v \<in> set L \<Longrightarrow> \<exists>cs. walk g origin cs v \<and> walk_cost cs = distance_to s v \<and>
     (\<forall>acc. trace (previous s) (v # acc) = Some (walk_nodes origin cs @ acc))" by simp
qed

end
