(* ===== verification/Routing_Properties.thy ===== *)
theory Routing_Properties
  imports Shortest_Paths
begin

text \<open>
  What a route is: it ends, its nodes are admissible, and no admissible target is cheaper to reach.
  The gate refuses a missing or undefined metric; the weights' check does not.
\<close>

section \<open>The gate\<close>

lemma filter_nodes_from:
  "fold (\<lambda>node (admissible, blocked).
     let d = evaluate_node constraints node in
     if gd_admissible d then (admissible @ [node], blocked)
     else (admissible, dict_set blocked (node_id node) (gd_reasons d))) nodes (as, bs) =
   (as @ filter (\<lambda>n. gd_admissible (evaluate_node constraints n)) nodes,
    fold (\<lambda>n b. dict_set b (node_id n) (gd_reasons (evaluate_node constraints n)))
      (filter (\<lambda>n. \<not> gd_admissible (evaluate_node constraints n)) nodes) bs)"
  by (induction nodes arbitrary: as bs) (auto simp: Let_def)

lemma filter_nodes_eq:
  "filter_nodes constraints nodes = (filter (\<lambda>n. gd_admissible (evaluate_node constraints n)) nodes,
    fold (\<lambda>n b. dict_set b (node_id n) (gd_reasons (evaluate_node constraints n)))
      (filter (\<lambda>n. \<not> gd_admissible (evaluate_node constraints n)) nodes) [])"
  by (simp add: filter_nodes_def filter_nodes_from)

lemma gate_admits_iff: "gd_admissible (evaluate_node constraints n) \<longleftrightarrow> (\<forall>check \<in> set constraints. check n = None)"
  by (induction constraints) (auto simp: evaluate_node_def Let_def map_filter_simps split: option.splits)

lemma new_graph_ids:
  "set (admissible_ids (new_graph nodes cs constraints p)) =
     node_id ` {n \<in> set nodes. \<forall>check \<in> set constraints. check n = None}"
  by (simp add: new_graph_def filter_nodes_eq admissible_ids_def gate_admits_iff)

lemma new_graph_ok: "\<forall>c \<in> set cs. check_crossing c = Inr c \<Longrightarrow> graph_ok (new_graph nodes cs constraints p)"
  by (auto simp: graph_ok_def new_graph_def filter_nodes_eq check_crossing_def)

lemma metric_floor_None: "metric_floor fmt k minimum n = None \<longleftrightarrow> (\<exists>v. map_of (node_raw n) k = Some v \<and> py_le minimum v)"
  by (auto simp: metric_floor_def split: option.splits if_splits)

section \<open>The best of a list\<close>

lemma best_from_in: "best_from better b xs \<in> insert b (set xs)"
proof (induction xs arbitrary: b)
  case (Cons x xs)
  show ?case using Cons.IH [of x] Cons.IH [of b] by (cases "better (fst x) (fst b)") auto
qed simp

lemma best_from_NaN: "fst b = NaN \<Longrightarrow> fst (best_from py_lt b xs) = NaN"
  by (induction xs arbitrary: b) (auto simp: py_lt_def)

text \<open>Unless it is a NaN, the result is the least.\<close>

lemma best_from_least:
  "fst (best_from py_lt b xs) \<noteq> NaN \<Longrightarrow> \<forall>x \<in> insert b (set xs). fst (best_from py_lt b xs) \<le> fst x"
proof (induction xs arbitrary: b)
  case (Cons x xs)
  define b' where "b' = (if py_lt (fst x) (fst b) then x else b)"
  have eq: "best_from py_lt b (x # xs) = best_from py_lt b' xs" by (simp add: b'_def)
  have least: "\<forall>y \<in> insert b' (set xs). fst (best_from py_lt b' xs) \<le> fst y" "fst b' \<noteq> NaN"
    using Cons best_from_NaN unfolding eq by blast+
  have "fst b' \<le> fst b" "fst b' \<le> fst x" using least(2) by (auto simp: b'_def py_lt_def split: if_splits)
  then show ?case using least(1) unfolding eq by auto
qed simp

lemma keyed_members:
  "res_map (\<lambda>x. res_bind (key x) (\<lambda>k. Inr (k, x))) xs = Inr ks \<Longrightarrow>
     set ks = {(k, x). x \<in> set xs \<and> key x = Inr k} \<and> (\<forall>x \<in> set xs. \<exists>k. key x = Inr k)"
  by (induction xs arbitrary: ks) auto

lemma best_by_least:
  assumes "best_by py_lt key xs = Inr x"
  shows "\<exists>k. x \<in> set xs \<and> key x = Inr k \<and> (k \<noteq> NaN \<longrightarrow> (\<forall>y \<in> set xs. \<exists>k'. key y = Inr k' \<and> k \<le> k'))"
proof -
  obtain ks where ks: "res_map (\<lambda>x. res_bind (key x) (\<lambda>k. Inr (k, x))) xs = Inr ks" and "ks \<noteq> []"
    using assms by (auto simp: best_by_def split: list.splits)
  then obtain b rest where b: "ks = b # rest" by (cases ks) auto
  define w where "w = best_from py_lt b rest"
  have x: "x = snd w" using assms ks b by (simp add: best_by_def w_def)
  have "w \<in> set ks" using best_from_in [of py_lt b rest] by (simp add: w_def b)
  then have "x \<in> set xs" "key x = Inr (fst w)" using keyed_members [OF ks] x by auto
  moreover have "\<exists>k'. key y = Inr k' \<and> fst w \<le> k'" if nn: "fst w \<noteq> NaN" and y: "y \<in> set xs" for y
  proof -
    obtain k' where k': "key y = Inr k'" using keyed_members [OF ks] y by blast
    then have "(k', y) \<in> set ks" using keyed_members [OF ks] y by simp
    then show ?thesis using best_from_least [of b rest] nn k' by (auto simp: w_def b)
  qed
  ultimately show ?thesis by blast
qed

section \<open>Routes\<close>

lemma distance_keys: "search_result g origin L s \<Longrightarrow> v \<in> set (map fst (distance s)) \<longleftrightarrow> v \<in> set L"
proof -
  assume res: "search_result g origin L s"
  have "v \<in> fst ` set (distance s) \<longrightarrow> distance_to s v < PInf" using res by (auto simp: search_result_def search_inv_def)
  moreover have "v \<notin> fst ` set (distance s) \<longrightarrow> \<not> distance_to s v < PInf"
    by (simp add: distance_to_def map_of_eq_None_iff [THEN iffD2])
  ultimately show ?thesis using result_settled [OF res, of v] by auto
qed

text \<open>What \<open>route_result\<close> makes of a finished search.\<close>

lemma route_result_returns:
  assumes res: "search_result g origin L s"
  shows "route_result fmt log10 g candidates s \<noteq> None"
proof (cases "res_bind (raise_if (filter (\<lambda>v. v \<in> set (map fst (distance s))) candidates = [])
            (ValueError ''no admissible target is reachable'')) (\<lambda>_.
          res_bind (best_by py_lt (\<lambda>v. res_bind (node_potential fmt log10 g v) (\<lambda>x. Inr (dadd (distance_to s v) x)))
            (filter (\<lambda>v. v \<in> set (map fst (distance s))) candidates)) (\<lambda>terminal.
          res_bind (node_potential fmt log10 g terminal) (\<lambda>pot. Inr (terminal, pot))))")
  case (Inl e)
  then show ?thesis by (simp only: route_result_def sum.case) simp
next
  case (Inr tp)
  obtain terminal pot where tp: "tp = (terminal, pot)" by (cases tp)
  have best: "best_by py_lt (\<lambda>v. res_bind (node_potential fmt log10 g v) (\<lambda>x. Inr (dadd (distance_to s v) x)))
      (filter (\<lambda>v. v \<in> set (map fst (distance s))) candidates) = Inr terminal"
    using Inr tp by auto
  have "terminal \<in> set (filter (\<lambda>v. v \<in> set (map fst (distance s))) candidates)"
    using best_by_least [OF best] by blast
  then have "terminal \<in> set L" using distance_keys [OF res] by simp
  then obtain cs where "trace (previous s) [terminal] = Some (walk_nodes origin cs)" using traced [OF res] by fastforce
  then show ?thesis using Inr tp by (simp only: route_result_def sum.case prod.case option.case Let_def) simp
qed

text \<open>C31: Routing always ends. On a graph whose crossings passed their constructor's check (no cost below zero; infinite
  and undefined costs included), the search of \<open>route\<close> empties its queue and the walk back along \<open>previous\<close>
  reaches the origin: \<open>route\<close> returns a result or an exception for every origin and targets.\<close>

theorem route_returns:
  assumes "graph_ok g"
  shows "route fmt log10 iter g origin targets \<noteq> None"
proof (cases "res_bind (raise_if (origin \<notin> set (admissible_ids g))
            (ValueError (''origin '' @ value_repr fmt (JStr origin) @ '' is missing or inadmissible''))) (\<lambda>_.
          raise_if (route_candidates iter g targets = []) (ValueError ''no admissible targets''))")
  case (Inl e)
  then show ?thesis by (simp only: route_def sum.case) simp
next
  case (Inr u)
  then have "origin \<in> set (admissible_ids g)" by auto
  then obtain s L where "search g (start_search origin) = Some s" "search_result g origin L s"
    using search_returns [OF assms] by blast
  then show ?thesis using route_result_returns Inr by (simp only: route_def sum.case option.case) blast
qed

definition least_route ::
  "text_format \<Rightarrow> (double \<Rightarrow> double) \<Rightarrow> capability_graph \<Rightarrow> string \<Rightarrow> string set \<Rightarrow> routing_result \<Rightarrow> bool" where
  "least_route fmt log10 g origin candidates res \<longleftrightarrow>
     (\<exists>cs v. walk g origin cs v \<and> rr_path res = walk_nodes origin cs \<and> v \<in> candidates \<and>
        crossing_cost res = walk_cost cs \<and> node_potential fmt log10 g v = Inr (terminal_potential res) \<and>
        total_cost res = dadd (crossing_cost res) (terminal_potential res)) \<and>
     (total_cost res \<noteq> NaN \<longrightarrow> (\<forall>v \<in> candidates. \<forall>cs. walk g origin cs v \<and> walk_cost cs < PInf \<longrightarrow>
        (\<exists>pot. node_potential fmt log10 g v = Inr pot \<and> total_cost res \<le> dadd (walk_cost cs) pot)))"

lemma route_result_least:
  assumes res: "search_result g origin L s" and g: "graph_ok g"
    and run: "route_result fmt log10 g candidates s = Some (Inr r)"
  shows "least_route fmt log10 g origin (set candidates) r"
proof -
  let ?key = "\<lambda>v. res_bind (node_potential fmt log10 g v) (\<lambda>x. Inr (dadd (distance_to s v) x))"
  let ?reached = "filter (\<lambda>v. v \<in> set (map fst (distance s))) candidates"
  obtain terminal pot path where steps: "best_by py_lt ?key ?reached = Inr terminal" "node_potential fmt log10 g terminal = Inr pot"
    "trace (previous s) [terminal] = Some path"
    and r: "rr_path r = path" "crossing_cost r = distance_to s terminal" "terminal_potential r = pot"
      "total_cost r = dadd (distance_to s terminal) pot"
    using run unfolding route_result_def by (auto simp: Let_def split: sum.splits option.splits)
  obtain k where best: "terminal \<in> set ?reached \<and> ?key terminal = Inr k \<and>
      (k \<noteq> NaN \<longrightarrow> (\<forall>y \<in> set ?reached. \<exists>k'. ?key y = Inr k' \<and> k \<le> k'))"
    by (rule exE [OF best_by_least [OF steps(1)]])
  note k = best [THEN conjunct1] best [THEN conjunct2, THEN conjunct1] best [THEN conjunct2, THEN conjunct2]
  have total: "k = total_cost r" using k(2) steps(2) r by simp
  have in_L: "terminal \<in> set L" using k(1) distance_keys [OF res] by simp
  obtain cs where cs: "walk g origin cs terminal" "walk_cost cs = distance_to s terminal" "path = walk_nodes origin cs"
    using traced [OF res in_L] steps(3) by (metis append_Nil2 option.inject)
  have other: "\<exists>pot. node_potential fmt log10 g v = Inr pot \<and> total_cost r \<le> dadd (walk_cost cs') pot"
    if nn: "total_cost r \<noteq> NaN" and v: "v \<in> set candidates" and w: "walk g origin cs' v" "walk_cost cs' < PInf" for v cs'
  proof -
    have le: "distance_to s v \<le> walk_cost cs'" by (rule search_optimal [OF res g w(1)])
    then have fin: "distance_to s v < PInf" using w(2) by order
    then have "v \<in> set ?reached" using v distance_keys [OF res] result_settled [OF res] by simp
    then have "\<exists>k'. ?key v = Inr k' \<and> k \<le> k'" using k(3) nn total by simp
    then obtain k' where k': "?key v = Inr k'" "k \<le> k'" by (elim exE conjE)
    then obtain p where p: "node_potential fmt log10 g v = Inr p" "k' = dadd (distance_to s v) p" by auto
    have "distance_value (distance_to s v)" using res by (auto simp: search_result_def search_inv_def)
    then obtain a where "distance_to s v = Fin a" using fin by (cases "distance_to s v") (auto simp: distance_value_def)
    then have "dadd (distance_to s v) p \<le> dadd (walk_cost cs') p" using le dadd_mono_all by simp
    then show ?thesis using k'(2) p total by (metis order_trans)
  qed
  have "terminal \<in> set candidates" using k(1) by simp
  then have "\<exists>cs v. walk g origin cs v \<and> rr_path r = walk_nodes origin cs \<and> v \<in> set candidates \<and>
        crossing_cost r = walk_cost cs \<and> node_potential fmt log10 g v = Inr (terminal_potential r) \<and>
        total_cost r = dadd (crossing_cost r) (terminal_potential r)"
    using cs steps(2) r by (intro exI [of _ cs] exI [of _ terminal]) simp
  then show ?thesis unfolding least_route_def using other by blast
qed

lemma routeE:
  assumes "route fmt log10 iter g origin targets = Some (Inr r)"
  obtains s where "origin \<in> set (admissible_ids g)" and "search g (start_search origin) = Some s"
    and "route_result fmt log10 g (route_candidates iter g targets) s = Some (Inr r)"
  using assms by (auto simp: route_def split: sum.splits option.splits)

lemma route_walk:
  assumes "graph_ok g" and "route fmt log10 iter g origin targets = Some (Inr r)"
  shows "\<exists>ws w. walk g origin ws w \<and> rr_path r = walk_nodes origin ws \<and> origin \<in> set (admissible_ids g)"
proof -
  obtain s where s: "origin \<in> set (admissible_ids g)" "search g (start_search origin) = Some s"
    "route_result fmt log10 g (route_candidates iter g targets) s = Some (Inr r)"
    using assms(2) by (rule routeE)
  obtain s' L where "search g (start_search origin) = Some s'" "search_result g origin L s'"
    using search_returns [OF assms(1) s(1)] by blast
  then have "search_result g origin L s" using s(2) by simp
  then have "least_route fmt log10 g origin (set (route_candidates iter g targets)) r"
    using assms(1) s(3) by (rule route_result_least)
  then show ?thesis using s(1) by (auto simp: least_route_def)
qed

text \<open>C32: A route is the cheapest. What \<open>route\<close> returns is a walk over admissible crossings from the origin to one of the
  admissible targets; its crossing cost is the sum of its crossings in order, in double arithmetic; and its
  total with the target's potential is not above that of any walk with finite cost to any admissible target
  (all of whose potentials are then defined), unless the total is undefined.\<close>

theorem route_least:
  assumes "graph_ok g" and "\<forall>xs. set (iter xs) = set xs"
    and "route fmt log10 iter g origin targets = Some (Inr r)"
  shows "least_route fmt log10 g origin
     {v \<in> set (admissible_ids g). case targets of None \<Rightarrow> True | Some ts \<Rightarrow> v \<in> set ts} r"
proof -
  obtain s where s: "origin \<in> set (admissible_ids g)" "search g (start_search origin) = Some s"
    "route_result fmt log10 g (route_candidates iter g targets) s = Some (Inr r)"
    using assms(3) by (rule routeE)
  obtain s' L where "search g (start_search origin) = Some s'" "search_result g origin L s'"
    using search_returns [OF assms(1) s(1)] by blast
  then have "search_result g origin L s" using s(2) by simp
  then have "least_route fmt log10 g origin (set (route_candidates iter g targets)) r"
    using assms(1) s(3) by (rule route_result_least)
  moreover have "set (route_candidates iter g targets) =
      {v \<in> set (admissible_ids g). case targets of None \<Rightarrow> True | Some ts \<Rightarrow> v \<in> set ts}"
    using assms(2) by (auto simp: route_candidates_def split: option.splits)
  ultimately show ?thesis by simp
qed

text \<open>Constraints are never traded against cost. Every node on a route in a graph built from checked crossings is
  the id of a node that satisfies all hard constraints, whatever its cost or potential.\<close>

theorem route_admissible:
  assumes "\<forall>c \<in> set cs. check_crossing c = Inr c"
    and "route fmt log10 iter (new_graph nodes cs constraints p) origin targets = Some (Inr r)"
    and "v \<in> set (rr_path r)"
  shows "\<exists>n \<in> set nodes. node_id n = v \<and> (\<forall>check \<in> set constraints. check n = None)"
proof -
  let ?g = "new_graph nodes cs constraints p"
  obtain ws w where "walk ?g origin ws w" "rr_path r = walk_nodes origin ws" "origin \<in> set (admissible_ids ?g)"
    using route_walk [OF new_graph_ok [OF assms(1)] assms(2)] by blast
  then have "v \<in> set (admissible_ids ?g)" using walk_admissible assms(3) by fastforce
  then show ?thesis unfolding new_graph_ids by auto
qed

text \<open>A floor on a metric is only met by a number: a missing or undefined metric is refused.\<close>

lemma floor_met:
  assumes "metric_floor fmt k minimum \<in> set constraints" and "gd_admissible (evaluate_node constraints n)"
  shows "\<exists>v. map_of (node_raw n) k = Some v \<and> v \<noteq> NaN \<and> minimum \<le> v"
  using assms metric_floor_None [of fmt k minimum n] by (auto simp: gate_admits_iff py_le_def)

text \<open>The check of the weights is met by an undefined weight.\<close>

lemma nan_weights_pass:
  "check_preference fmt \<lparr>criteria = [(k, c)], weights = [(k, NaN)]\<rparr> = Inr \<lparr>criteria = [(k, c)], weights = [(k, NaN)]\<rparr>"
  by (simp add: check_preference_def py_lt_def float_sum_def dsub_def dadd_def)

text \<open>Of two nodes with one id, the gate can admit the first while the potential is that of the second.\<close>

lemma duplicate_node_id:
  assumes "node_id a = node_id b" and "check a = None" and "check b \<noteq> None"
  shows "node_id a \<in> set (admissible_ids (new_graph [a, b] cs [check] p)) \<and>
     map_of (g_nodes (new_graph [a, b] cs [check] p)) (node_id a) = Some b"
proof
  show "node_id a \<in> set (admissible_ids (new_graph [a, b] cs [check] p))"
    unfolding new_graph_ids using assms by (intro image_eqI [of _ _ a]) auto
  show "map_of (g_nodes (new_graph [a, b] cs [check] p)) (node_id a) = Some b"
    using assms(1) by (simp add: new_graph_def filter_nodes_eq)
qed

section \<open>Conservativity\<close>

definition keys_of :: "('k \<times> 'v) list \<Rightarrow> 'k set" where
  "keys_of d = set (map fst d)"

lemma keys_of_set [simp]: "keys_of (dict_set d k v) = insert k (keys_of d)"
  using dict_keys_set [of d k v] by (simp add: keys_of_def)

text \<open>Each new potential is one more node on the stack and one less without a potential.\<close>

lemma spread_from:
  assumes "set cs \<subseteq> set (adjacent g u)" and "keys_of phi \<subseteq> set (admissible_ids g)"
  shows "\<exists>phi' stack'. fold (spread_step u) cs (phi, stack) = (phi', stack') \<and> keys_of phi \<subseteq> keys_of phi' \<and>
     keys_of phi' \<subseteq> set (admissible_ids g) \<and>
     length stack' + card (set (admissible_ids g) - keys_of phi') = length stack + card (set (admissible_ids g) - keys_of phi)"
  using assms
proof (induction cs arbitrary: phi stack)
  case (Cons c cs)
  show ?case
  proof (cases "cr_dst c \<in> keys_of phi")
    case True
    then have "fold (spread_step u) (c # cs) (phi, stack) = fold (spread_step u) cs (phi, stack)"
      by (simp add: spread_step_def keys_of_def)
    then show ?thesis using Cons by simp
  next
    case False
    have dst: "cr_dst c \<in> set (admissible_ids g)" using Cons.prems(1) adjacent_ids [of c g u] by simp
    have "set (admissible_ids g) - keys_of (dict_set phi (cr_dst c) x) = set (admissible_ids g) - keys_of phi - {cr_dst c}" for x
      by auto
    then have card: "Suc (card (set (admissible_ids g) - keys_of (dict_set phi (cr_dst c) x))) = card (set (admissible_ids g) - keys_of phi)" for x
      using dst False card_Suc_Diff1 [of "set (admissible_ids g) - keys_of phi" "cr_dst c"] by simp
    define phi1 where "phi1 = dict_set phi (cr_dst c) (dadd (the (map_of phi u)) (cr_cost c))"
    have "fold (spread_step u) (c # cs) (phi, stack) = fold (spread_step u) cs (phi1, cr_dst c # stack)"
      using False by (simp add: spread_step_def keys_of_def phi1_def)
    moreover obtain phi' stack' where IH: "fold (spread_step u) cs (phi1, cr_dst c # stack) = (phi', stack')"
      "keys_of phi1 \<subseteq> keys_of phi'" "keys_of phi' \<subseteq> set (admissible_ids g)"
      "length stack' + card (set (admissible_ids g) - keys_of phi') =
         Suc (length stack) + card (set (admissible_ids g) - keys_of phi1)"
      using Cons.IH [of phi1 "cr_dst c # stack"] Cons.prems dst by (auto simp: phi1_def)
    moreover have "keys_of phi \<subseteq> keys_of phi1" by (auto simp: phi1_def)
    ultimately show ?thesis using card by (intro exI [of _ phi'] exI [of _ stack']) (auto simp: phi1_def)
  qed
qed simp

lemma explore_returns:
  assumes "keys_of phi \<subseteq> set (admissible_ids g)"
  shows "\<exists>phi'. explore g phi stack = Some phi' \<and> keys_of phi \<subseteq> keys_of phi' \<and> keys_of phi' \<subseteq> set (admissible_ids g)"
  using assms
proof (induction "length stack + card (set (admissible_ids g) - keys_of phi)" arbitrary: phi stack rule: less_induct)
  case less
  show ?case
  proof (cases stack)
    case Nil
    then show ?thesis using less.prems by (subst explore.simps) simp
  next
    case (Cons u rest)
    obtain phi' stack' where s: "spread g u (phi, rest) = (phi', stack')" by fastforce
    have step: "keys_of phi \<subseteq> keys_of phi'" "keys_of phi' \<subseteq> set (admissible_ids g)"
      "length stack' + card (set (admissible_ids g) - keys_of phi') = length rest + card (set (admissible_ids g) - keys_of phi)"
      using spread_from [where cs = "adjacent g u" and u = u and stack = rest, OF subset_refl less.prems] s
      by (auto simp: spread_def)
    then obtain phi2 where "explore g phi' stack' = Some phi2" "keys_of phi' \<subseteq> keys_of phi2" "keys_of phi2 \<subseteq> set (admissible_ids g)"
      using less.hyps [OF _ step(2), of stack'] Cons by auto
    moreover have "explore g phi stack = explore g phi' stack'" using Cons s by (subst explore.simps) simp
    ultimately show ?thesis using step(1) by auto
  qed
qed

lemma potentials_return:
  "keys_of phi \<subseteq> set (admissible_ids g) \<Longrightarrow> set vs \<subseteq> set (admissible_ids g) \<Longrightarrow>
     \<exists>phi'. potentials g vs phi = Some phi' \<and> keys_of phi \<union> set vs \<subseteq> keys_of phi'"
proof (induction vs arbitrary: phi)
  case (Cons v vs)
  show ?case
  proof (cases "v \<in> keys_of phi")
    case True
    then have "potentials g (v # vs) phi = potentials g vs phi" by (simp add: keys_of_def)
    moreover obtain phi' where "potentials g vs phi = Some phi'" "keys_of phi \<union> set vs \<subseteq> keys_of phi'"
      using Cons.IH [OF Cons.prems(1)] Cons.prems(2) by auto
    ultimately show ?thesis using True by auto
  next
    case False
    obtain phi' where phi': "explore g (dict_set phi v (Fin 0)) [v] = Some phi'"
      "keys_of (dict_set phi v (Fin 0)) \<subseteq> keys_of phi'" "keys_of phi' \<subseteq> set (admissible_ids g)"
      using explore_returns [of "dict_set phi v (Fin 0)" g "[v]"] Cons.prems by auto
    obtain phi2 where "potentials g vs phi' = Some phi2" "keys_of phi' \<union> set vs \<subseteq> keys_of phi2"
      using Cons.IH [OF phi'(3)] Cons.prems(2) by auto
    moreover have "potentials g (v # vs) phi = potentials g vs phi'" using False phi'(1) by (simp add: keys_of_def)
    ultimately show ?thesis using phi'(2) by auto
  qed
qed auto

text \<open>The conservativity report always returns, and a positive one is evidence: there is a potential on the nodes
  from which the cost of every crossing between admissible nodes differs by no more than the tolerance.\<close>

theorem conservativity_sound:
  "\<exists>ok vs. conservativity_report g tolerance = Some (ok, vs) \<and>
     (ok \<longrightarrow> (\<exists>phi. \<forall>c \<in> set (g_crossings g). cr_src c \<in> set (admissible_ids g) \<and> cr_dst c \<in> set (admissible_ids g) \<longrightarrow>
        \<not> py_lt tolerance (dabs (residual phi c))))"
proof -
  obtain phi where phi: "potentials g (sort (admissible_ids g)) [] = Some phi" "set (admissible_ids g) \<subseteq> keys_of phi"
    using potentials_return [of "[]" g "sort (admissible_ids g)"] by (auto simp: keys_of_def)
  have "\<not> py_lt tolerance (dabs (residual phi c))"
    if "violations tolerance phi (g_crossings g) = []" "c \<in> set (g_crossings g)"
      "cr_src c \<in> set (admissible_ids g) \<and> cr_dst c \<in> set (admissible_ids g)" for c
    using that phi(2) by (auto simp: violations_def filter_empty_conv keys_of_def)
  then show ?thesis using phi(1) by (auto simp: conservativity_report_def Let_def)
qed

section \<open>A graph with a detour\<close>

definition sample_format :: text_format where
  "sample_format = \<lparr>fmt_6g = (\<lambda>_. ''''), fmt_12f = (\<lambda>_. ''''), float_repr = (\<lambda>_. ''0.0''), value_repr = (\<lambda>_. '''')\<rparr>"

definition sample_node :: "string \<Rightarrow> capability_node" where
  "sample_node v = \<lparr>node_id = v, layer = ''l'', node_raw = [(''q'', Fin 1)], attrs = []\<rparr>"

definition sample_crossings :: "crossing list" where
  "sample_crossings = map (\<lambda>(u, v, c). \<lparr>cr_src = u, cr_dst = v, cr_cost = c, cr_reason = ''''\<rparr>)
     [(''a'', ''c'', Fin 3), (''a'', ''b'', Fin 1), (''b'', ''c'', Fin 1), (''c'', ''a'', NaN)]"

definition sample_preference :: preference where
  "sample_preference = \<lparr>criteria = [(''q'', \<lparr>c_name = ''q'', c_direction = HIGHER_IS_BETTER, c_lo = Fin 0, c_hi = Fin 1, c_scale = ''linear''\<rparr>)],
     weights = [(''q'', Fin 1)]\<rparr>"

definition sample_graph :: capability_graph where
  "sample_graph = new_graph (map sample_node [''a'', ''b'', ''c'']) sample_crossings
     [metric_floor sample_format ''q'' (Fin 0)] sample_preference"

lemma sample_checked: "\<forall>c \<in> set sample_crossings. check_crossing c = Inr c"
  by (simp add: sample_crossings_def check_crossing_def py_lt_def)

lemma sample_graph_ok: "graph_ok sample_graph"
  unfolding sample_graph_def by (rule new_graph_ok [OF sample_checked])

lemma sample_graph_eq:
  "sample_graph = \<lparr>g_nodes = map (\<lambda>v. (v, sample_node v)) [''a'', ''b'', ''c''], g_crossings = sample_crossings,
     g_preference = sample_preference, g_admissible = map sample_node [''a'', ''b'', ''c''], g_blocked = []\<rparr>"
  by (simp add: sample_graph_def new_graph_def filter_nodes_eq gate_admits_iff metric_floor_def sample_node_def py_le_def dict_set_def)

lemma sample_potential: "v \<in> {''a'', ''b'', ''c''} \<Longrightarrow> node_potential fmt log10 sample_graph v = Inr (Fin 0)"
  by (auto simp: node_potential_def sample_graph_eq potential_def score_def goodness_vector_def weighted_goodness_def
      sample_preference_def sample_node_def goodness_def clamp_def py_min_def py_max_def py_lt_def ddiv_def dsub_def
      dadd_def dmul_def float_sum_def)

lemma sample_adjacent:
  "adjacent sample_graph ''a'' = [sample_crossings ! 0, sample_crossings ! 1]"
  "adjacent sample_graph ''b'' = [sample_crossings ! 2]"
  "adjacent sample_graph ''c'' = [sample_crossings ! 3]"
  by (simp_all add: adjacent_def sample_graph_eq sample_crossings_def admissible_ids_def sample_node_def)

lemma sample_search:
  "search sample_graph (start_search ''a'') =
     Some \<lparr>distance = [(''a'', Fin 0), (''c'', Fin 2), (''b'', Fin 1)], previous = [(''c'', ''b''), (''b'', ''a'')], queue = []\<rparr>"
  by (simp add: search.simps start_search_def expand_def is_current_def float_eq_def sample_adjacent sample_crossings_def
      relax_def distance_to_def dadd_def py_lt_def dict_set_def Let_def less_eq_prod_def less_prod_def)

lemma sample_route:
  "\<exists>r. route sample_format log10 id sample_graph ''a'' (Some [''c'']) = Some (Inr r) \<and> rr_path r = [''a'', ''b'', ''c'']"
proof -
  have cand: "route_candidates id sample_graph (Some [''c'']) = [''c'']" "''a'' \<in> set (admissible_ids sample_graph)"
    by (simp_all add: route_candidates_def admissible_ids_def sample_graph_eq sample_node_def)
  show ?thesis
    using sample_potential [of "''c''" sample_format log10]
    by (simp add: route_def cand sample_search route_result_def best_by_def trace.simps Let_def)
qed

theorem route_returns_witness:
  "graph_ok sample_graph \<and> route sample_format id id sample_graph ''b'' None \<noteq> None"
  using sample_graph_ok route_returns [OF sample_graph_ok] by blast

theorem route_least_witness:
  "\<exists>r. route sample_format id id sample_graph ''a'' (Some [''c'']) = Some (Inr r) \<and> rr_path r = [''a'', ''b'', ''c''] \<and>
     least_route sample_format id sample_graph ''a''
       {v \<in> set (admissible_ids sample_graph). case Some [''c''] of None \<Rightarrow> True | Some ts \<Rightarrow> v \<in> set ts} r"
proof -
  obtain r where r: "route sample_format id id sample_graph ''a'' (Some [''c'']) = Some (Inr r)" "rr_path r = [''a'', ''b'', ''c'']"
    using sample_route by blast
  have "\<forall>xs. set (id xs) = set (xs :: string list)" by simp
  then show ?thesis using route_least [OF sample_graph_ok _ r(1)] r by blast
qed

theorem route_admissible_witness:
  "\<exists>r :: routing_result. rr_path r = [''a'', ''b'', ''c''] \<and> (\<exists>n \<in> set (map sample_node [''a'', ''b'', ''c'']). node_id n = ''b'' \<and>
     (\<forall>check \<in> set [metric_floor sample_format ''q'' (Fin 0)]. check n = None))"
proof -
  obtain r where r: "route sample_format id id sample_graph ''a'' (Some [''c'']) = Some (Inr r)" "rr_path r = [''a'', ''b'', ''c'']"
    using sample_route by blast
  have "\<exists>n \<in> set (map sample_node [''a'', ''b'', ''c'']). node_id n = ''b'' \<and>
     (\<forall>check \<in> set [metric_floor sample_format ''q'' (Fin 0)]. check n = None)"
    by (rule route_admissible [OF sample_checked r(1) [unfolded sample_graph_def]]) (simp add: r(2))
  with r(2) show ?thesis by (intro exI [of _ r] conjI)
qed

section \<open>A conservative graph\<close>

definition chain_graph :: capability_graph where
  "chain_graph = \<lparr>g_nodes = map (\<lambda>v. (v, sample_node v)) [''a'', ''b''],
     g_crossings = [\<lparr>cr_src = ''a'', cr_dst = ''b'', cr_cost = Fin 1, cr_reason = ''''\<rparr>],
     g_preference = sample_preference, g_admissible = map sample_node [''a'', ''b''], g_blocked = []\<rparr>"

lemma chain_ids: "admissible_ids chain_graph = [''a'', ''b'']"
  by (simp add: admissible_ids_def chain_graph_def sample_node_def)

lemma chain_adjacent:
  "adjacent chain_graph ''a'' = [\<lparr>cr_src = ''a'', cr_dst = ''b'', cr_cost = Fin 1, cr_reason = ''''\<rparr>]"
  "adjacent chain_graph ''b'' = []"
  by (simp_all add: adjacent_def chain_ids) (simp_all add: chain_graph_def)

lemma chain_report: "conservativity_report chain_graph (Fin 0) = Some (True, [])"
proof -
  have "potentials chain_graph (sort (admissible_ids chain_graph)) [] = Some [(''a'', Fin 0), (''b'', Fin 1)]"
    by (simp add: chain_ids chain_adjacent explore.simps spread_def spread_step_def dict_set_def dadd_def)
  then show ?thesis
    by (simp add: conservativity_report_def violations_def)
      (simp add: chain_graph_def residual_def dsub_def dadd_def py_lt_def)
qed

theorem conservativity_sound_witness:
  "conservativity_report chain_graph (Fin 0) = Some (True, []) \<and>
     (\<exists>phi. \<not> py_lt (Fin 0) (dabs (residual phi (hd (g_crossings chain_graph)))))"
proof -
  have c: "hd (g_crossings chain_graph) \<in> set (g_crossings chain_graph)"
    "cr_src (hd (g_crossings chain_graph)) \<in> set (admissible_ids chain_graph)"
    "cr_dst (hd (g_crossings chain_graph)) \<in> set (admissible_ids chain_graph)"
    by (simp_all add: chain_ids) (simp_all add: chain_graph_def)
  show ?thesis using conservativity_sound [of chain_graph "Fin 0"] chain_report c by fastforce
qed

end
