(* ===== verification/Registry_Properties.thy ===== *)
theory Registry_Properties
  imports Key_Registry
begin

text \<open>
  The invariant of the key registry and what follows from it: the keys of an authority form one
  chain of rotations whose windows never overlap, a revocation and a binding are final, and the
  governed gate admits a request only through keys that are in force at that time.
\<close>

section \<open>The invariant\<close>

definition key_row_ok :: "key_row \<Rightarrow> bool" where
  "key_row_ok row \<longleftrightarrow> row_to_key row = Inr (key_of row) \<and> row_registration_sha256 row = registration_sha256 (key_of row)"

definition authority_rows :: "registry_db \<Rightarrow> string \<Rightarrow> key_row list" where
  "authority_rows d who = filter (\<lambda>row. row_authority_id row = who) (authority_keys d)"

definition rotates :: "key_row \<Rightarrow> key_row \<Rightarrow> bool" where
  "rotates a b \<longleftrightarrow> row_previous_key_id b = Some (row_key_id a) \<and> row_valid_from b = row_valid_until a"

text \<open>The keys of an authority in order of registration: a genesis key, then each the successor of the one before.\<close>

definition rotation_chain :: "key_row list \<Rightarrow> bool" where
  "rotation_chain ks \<longleftrightarrow> (ks \<noteq> [] \<longrightarrow> row_previous_key_id (hd ks) = None) \<and> successively rotates ks"

definition binding_ok :: "registry_db \<Rightarrow> binding_row \<Rightarrow> bool" where
  "binding_ok d row \<longleftrightarrow> row_to_binding row = Inr (row_binding row) \<and>
     (\<exists>a b. find_key d (source_key_id (row_binding row)) = Some a \<and> find_key d (target_key_id (row_binding row)) = Some b \<and>
        row_authority_id a = kb_source_authority (row_binding row) \<and>
        row_authority_id b = kb_target_authority (row_binding row) \<and> row_public_key_hex a \<noteq> row_public_key_hex b)"

definition registry_ok :: "registry_db \<Rightarrow> bool" where
  "registry_ok d \<longleftrightarrow> db_ok (main_db d) \<and>
     distinct (map row_key_id (authority_keys d)) \<and> distinct (map row_public_key_hex (authority_keys d)) \<and>
     (\<forall>row \<in> set (authority_keys d). key_row_ok row) \<and> (\<forall>who. rotation_chain (authority_rows d who)) \<and>
     distinct (map (\<lambda>row. kb_relation_id (row_binding row)) (key_bindings d)) \<and>
     (\<forall>row \<in> set (key_bindings d). binding_ok d row)"

definition empty_registry :: registry_db where
  "empty_registry = \<lparr>main_db = empty_db, authority_keys = [], key_bindings = []\<rparr>"

lemma empty_registry_ok: "registry_ok empty_registry"
  by (simp add: registry_ok_def empty_registry_def empty_db_ok authority_rows_def rotation_chain_def)

section \<open>Lookups\<close>

lemma check_key_record_same: "check_key_record k = Inr k' \<Longrightarrow> k' = k"
  by (auto simp: check_key_record_def)

lemma row_to_key_same: "row_to_key row = Inr k \<Longrightarrow> k = key_of row"
  by (auto simp: row_to_key_def dest: check_key_record_same)

lemma row_to_binding_same: "row_to_binding row = Inr b \<Longrightarrow> b = row_binding row"
  by (auto simp: row_to_binding_def check_binding_def)

lemma find_Some: "find P xs = Some x \<Longrightarrow> x \<in> set xs \<and> P x"
  by (induction xs) (auto split: if_splits)

lemma find_key_Some: "find_key d k = Some row \<Longrightarrow> row \<in> set (authority_keys d) \<and> row_key_id row = k"
  unfolding find_key_def by (drule find_Some) auto

lemma find_binding_Some:
  "find_binding d r = Some row \<Longrightarrow> row \<in> set (key_bindings d) \<and> kb_relation_id (row_binding row) = r"
  unfolding find_binding_def by (drule find_Some) auto

lemma find_distinct:
  "distinct (map f xs) \<Longrightarrow> x \<in> set xs \<Longrightarrow> find (\<lambda>y. f y = f x) xs = Some x"
  by (induction xs) (auto simp: image_iff)

lemma find_key_row:
  "registry_ok d \<Longrightarrow> row \<in> set (authority_keys d) \<Longrightarrow> find_key d (row_key_id row) = Some row"
  unfolding find_key_def registry_ok_def by (auto intro: find_distinct [of row_key_id])

lemma get_key_result:
  assumes "registry_ok d"
  shows "get_key d k = Inr (map_option key_of (find_key d k))"
proof (cases "find_key d k")
  case (Some row)
  then have "row_to_key row = Inr (key_of row)"
    using assms find_key_Some [OF Some] by (auto simp: registry_ok_def key_row_ok_def)
  then show ?thesis using Some by (simp add: get_key_def)
qed (simp add: get_key_def)

section \<open>Appending to the tables\<close>

lemma append_ledgerE:
  assumes "append_ledger now build event dec d = Inr (rc, d')"
  obtains m where "append_ledger_tx now build event dec (main_db d) = Inr (rc, m)" and "d' = d\<lparr>main_db := m\<rparr>"
  using assms by (auto simp: append_ledger_def)

lemma append_ledger_keeps:
  assumes "append_ledger now build event dec d = Inr (rc, d')" and "wf_json (JObj event)" and "registry_ok d"
  shows "registry_ok d'" and "authority_keys d' = authority_keys d" and "key_bindings d' = key_bindings d"
proof -
  obtain m where m: "append_ledger_tx now build event dec (main_db d) = Inr (rc, m)" and d': "d' = d\<lparr>main_db := m\<rparr>"
    using assms(1) by (rule append_ledgerE)
  have "db_ok m" using append_keeps_db_ok [OF m assms(2)] assms(3) by (simp add: registry_ok_def)
  then show "registry_ok d'" using assms(3)
    by (simp add: d' registry_ok_def authority_rows_def binding_ok_def find_key_def)
  show "authority_keys d' = authority_keys d" "key_bindings d' = key_bindings d" by (simp_all add: d')
qed

lemma registration_payload_wf: "wf_json (JObj (registration_payload k))"
  by (cases "previous_key_id k") (simp_all add: registration_payload_def)

lemma registered_event_wf: "wf_json (JObj (registered_event now actor k))"
  by (cases "previous_key_id k") (simp_all add: registered_event_def registration_payload_def)

lemma revoked_event_wf: "wf_json (JObj (revoked_event now actor who row at reason))"
  by (simp add: revoked_event_def)

lemma bound_event_wf: "wf_json (JObj (bound_event now actor b))"
  by (simp add: bound_event_def binding_payload_def)

lemma find_key_append:
  "find_key (d\<lparr>authority_keys := authority_keys d @ [row]\<rparr>) k =
     (case find_key d k of Some r \<Rightarrow> Some r | None \<Rightarrow> if row_key_id row = k then Some row else None)"
  by (simp add: find_key_def find_append split: option.split)

text \<open>A successor of an unrotated key is a successor of the last one.\<close>

lemma unrotated_is_last:
  assumes "rotation_chain ks" and "row \<in> set ks" and "\<forall>r \<in> set ks. row_previous_key_id r \<noteq> Some (row_key_id row)"
  shows "row = last ks"
proof (rule ccontr)
  assume not_last: "row \<noteq> last ks"
  obtain xs ys where ks: "ks = xs @ row # ys" using assms(2) by (meson split_list)
  then obtain b bs where ys: "ys = b # bs" using not_last by (cases ys) auto
  have "rotates row b"
    using assms(1) by (simp add: rotation_chain_def ks ys successively_append_iff)
  then show False using assms(3) by (simp add: rotates_def ks ys)
qed

lemma rotation_chain_snoc:
  assumes "rotation_chain ks" and "if ks = [] then row_previous_key_id row = None else rotates (last ks) row"
  shows "rotation_chain (ks @ [row])"
  using assms by (auto simp: rotation_chain_def successively_append_iff split: if_splits)

lemma check_succession_rotates:
  assumes ok: "registry_ok d" and c: "check_succession d k = Inr u"
  shows "if authority_rows d (authority_id k) = [] then previous_key_id k = None
    else rotates (last (authority_rows d (authority_id k))) (key_row_of now actor k rc)"
proof (cases "authority_rows d (authority_id k) = []")
  case True
  then show ?thesis using c by (simp add: check_succession_def authority_rows_def)
next
  case False
  then obtain p previous where p: "previous_key_id k = Some p" "find_key d p = Some previous"
    "row_authority_id previous = authority_id k" "row_valid_until previous = key_valid_from k"
    "\<forall>row \<in> set (authority_keys d). row_previous_key_id row \<noteq> Some p"
    using c by (auto simp: check_succession_def authority_rows_def split: option.splits)
  have "previous \<in> set (authority_rows d (authority_id k))" and key: "row_key_id previous = p"
    using find_key_Some [OF p(2)] p(3) by (auto simp: authority_rows_def)
  moreover have "rotation_chain (authority_rows d (authority_id k))" using ok by (simp add: registry_ok_def)
  ultimately have "previous = last (authority_rows d (authority_id k))"
    using p(5) by (intro unrotated_is_last) (auto simp: authority_rows_def)
  then show ?thesis using False p key by (simp add: rotates_def key_row_of_def)
qed

lemma key_row_of_facts:
  "key_of (key_row_of now actor k rc) = k\<lparr>revoked_at := None, revocation_reason := None\<rparr>"
  "row_key_id (key_row_of now actor k rc) = key_id k" "row_authority_id (key_row_of now actor k rc) = authority_id k"
  "row_public_key_hex (key_row_of now actor k rc) = public_key_hex k"
  "row_previous_key_id (key_row_of now actor k rc) = previous_key_id k"
  "row_registration_sha256 (key_row_of now actor k rc) = registration_sha256 k"
  by (simp_all add: key_of_def key_row_of_def)

lemma authority_rows_append:
  "authority_rows (d\<lparr>authority_keys := authority_keys d @ [row]\<rparr>) who =
     authority_rows d who @ (if row_authority_id row = who then [row] else [])"
  by (simp add: authority_rows_def)

text \<open>A new key keeps the invariant.\<close>

lemma new_key_keeps:
  assumes ok: "registry_ok d" and succ: "check_succession d k = Inr u" and new: "find_key d (key_id k) = None"
    and pk: "\<not> (\<exists>row \<in> set (authority_keys d). row_public_key_hex row = public_key_hex k)"
    and valid: "check_key_record k = Inr k" and fresh: "revoked_at k = None"
  shows "registry_ok (d\<lparr>authority_keys := authority_keys d @ [key_row_of now actor k rc]\<rparr>)"
proof -
  let ?row = "key_row_of now actor k rc"
  let ?d = "d\<lparr>authority_keys := authority_keys d @ [?row]\<rparr>"
  have same: "k\<lparr>revoked_at := None, revocation_reason := None\<rparr> = k"
    using valid fresh by (auto simp: check_key_record_def)
  have "key_row_ok ?row" using valid by (simp add: key_row_ok_def row_to_key_def key_row_of_facts same)
  moreover have "key_id k \<notin> row_key_id ` set (authority_keys d)"
    using new by (auto simp: find_key_def find_None_iff)
  moreover have "rotation_chain (authority_rows ?d who)" for who
  proof -
    have "rotation_chain (authority_rows d who)" using ok by (simp add: registry_ok_def)
    then show ?thesis
      using check_succession_rotates [OF ok succ, of now actor rc] rotation_chain_snoc [of "authority_rows d who" ?row]
      by (auto simp: authority_rows_append key_row_of_facts)
  qed
  moreover have "binding_ok ?d b" if "b \<in> set (key_bindings d)" for b
    using ok that by (auto simp: registry_ok_def binding_ok_def find_key_append)
  ultimately show ?thesis
    using ok pk by (auto simp: registry_ok_def key_row_of_facts)
qed

section \<open>Every operation keeps the invariant\<close>

lemma register_key_body_keeps:
  assumes body: "register_key_body now build k actor d = Inr (res, d')" and ok: "registry_ok d"
    and valid: "check_key_record k = Inr k" and fresh: "revoked_at k = None"
  shows "registry_ok d'"
proof (cases "find_key d (key_id k)")
  case (Some existing)
  then show ?thesis using body ok by (auto simp: register_key_body_def)
next
  case None
  obtain receipt d1 u where steps: "check_succession d k = Inr u"
    "\<not> (\<exists>row \<in> set (authority_keys d). row_public_key_hex row = public_key_hex k)"
    "append_ledger (snd now) build (registered_event (fst now) actor k) ''PASS'' d = Inr (receipt, d1)"
    "insert_key (key_row_of (fst now) actor k receipt) d1 = Inr d'"
    using body None by (auto simp: register_key_body_def)
  note keep = append_ledger_keeps [OF steps(3) registered_event_wf ok]
  have d': "d' = d1\<lparr>authority_keys := authority_keys d1 @ [key_row_of (fst now) actor k receipt]\<rparr>"
    using steps(4) by (auto simp: insert_key_def split: if_splits)
  have fk: "find_key d1 x = find_key d x" for x using keep(2) by (simp add: find_key_def)
  have "check_succession d1 k = Inr u" "find_key d1 (key_id k) = None"
    using steps(1) None unfolding check_succession_def fk keep(2) .
  moreover have "\<not> (\<exists>row \<in> set (authority_keys d1). row_public_key_hex row = public_key_hex k)"
    using steps(2) unfolding keep(2) .
  ultimately show ?thesis unfolding d' using valid fresh by (intro new_key_keeps [OF keep(1)])
qed

lemma register_key_keeps:
  assumes "registry_ok d" and "check_key_record k = Inr k"
  shows "registry_ok (snd (register_key now build k actor d))"
proof (cases "revoked_at k = None \<and> \<not> blank actor")
  case True
  then have "register_key now build k actor d = transaction (register_key_body now build k actor) d"
    by (simp add: register_key_def require_text_def)
  moreover have "registry_ok (snd (transaction (register_key_body now build k actor) d))"
    by (rule transaction_keeps [where P = registry_ok, OF assms(1)])
      (rule register_key_body_keeps [OF _ assms], use True in auto)
  ultimately show ?thesis by simp
next
  case False
  then have "\<exists>e. register_key now build k actor d = (Inl e, d)"
    by (cases "revoked_at k = None") (auto simp: register_key_def require_text_def)
  then show ?thesis using assms(1) by auto
qed

text \<open>What a revocation changes of a row.\<close>

definition revoked_row :: "int \<Rightarrow> string \<Rightarrow> string \<Rightarrow> string \<Rightarrow> key_row \<Rightarrow> key_row" where
  "revoked_row at reason actor receipt row = row\<lparr>row_revoked_at := Some at, row_revocation_reason := Some reason,
     row_revoked_by := Some actor, row_revocation_receipt := Some receipt\<rparr>"

lemma revoked_row_fields [simp]:
  "row_key_id (revoked_row at reason actor rc row) = row_key_id row"
  "row_authority_id (revoked_row at reason actor rc row) = row_authority_id row"
  "row_public_key_hex (revoked_row at reason actor rc row) = row_public_key_hex row"
  "row_previous_key_id (revoked_row at reason actor rc row) = row_previous_key_id row"
  "row_valid_from (revoked_row at reason actor rc row) = row_valid_from row"
  "row_valid_until (revoked_row at reason actor rc row) = row_valid_until row"
  "row_revoked_at (revoked_row at reason actor rc row) = Some at"
  by (simp_all add: revoked_row_def)

lemma revoked_row_ok:
  assumes "key_row_ok row" and "row_revoked_at row = None" and "row_valid_from row \<le> at" and "at < row_valid_until row"
    and "\<not> blank reason"
  shows "key_row_ok (revoked_row at reason actor rc row)"
  using assms
  by (cases "row_previous_key_id row")
    (auto simp: key_row_ok_def row_to_key_def check_key_record_def key_of_def revoked_row_def require_text_def
      registration_sha256_def registration_payload_def)

definition revoke_rows :: "string \<Rightarrow> (key_row \<Rightarrow> key_row) \<Rightarrow> key_row list \<Rightarrow> key_row list" where
  "revoke_rows k f rows = map (\<lambda>row. if row_key_id row = k then f row else row) rows"

lemma set_revoked_rows:
  "set_revoked k at reason actor receipt d =
     d\<lparr>authority_keys := revoke_rows k (revoked_row at reason actor (canonical_json (receipt_json receipt))) (authority_keys d)\<rparr>"
  by (simp add: set_revoked_def revoke_rows_def revoked_row_def cong: if_cong)

lemma successively_map_cong:
  assumes "\<And>a b. P (f a) (f b) = P a b"
  shows "successively P (map f xs) = successively P xs"
  using assms by (simp add: successively_map)

lemma find_map_key:
  assumes "\<And>x. g (f x) = g x"
  shows "find (\<lambda>y. g y = v) (map f xs) = map_option f (find (\<lambda>y. g y = v) xs)"
  using assms by (induction xs) auto

lemma revoked_keeps:
  assumes ok: "registry_ok d" and row: "find_key d k = Some row" and open_row: "row_revoked_at row = None"
    and "row_valid_from row \<le> at" and "at < row_valid_until row" and "\<not> blank reason"
  shows "registry_ok (set_revoked k at reason actor receipt d)"
proof -
  define f where "f = revoked_row at reason actor (canonical_json (receipt_json receipt))"
  define h where "h = (\<lambda>row. if row_key_id row = k then f row else row)"
  have f [simp]: "row_key_id (f r) = row_key_id r" "row_authority_id (f r) = row_authority_id r"
    "row_public_key_hex (f r) = row_public_key_hex r" "row_previous_key_id (f r) = row_previous_key_id r"
    "row_valid_from (f r) = row_valid_from r" "row_valid_until (f r) = row_valid_until r" for r
    by (simp_all add: f_def)
  have h [simp]: "row_key_id (h r) = row_key_id r" "row_authority_id (h r) = row_authority_id r"
    "row_public_key_hex (h r) = row_public_key_hex r" "row_previous_key_id (h r) = row_previous_key_id r"
    "row_valid_from (h r) = row_valid_from r" "row_valid_until (h r) = row_valid_until r" for r
    by (simp_all add: h_def)
  let ?d = "set_revoked k at reason actor receipt d"
  have keys: "authority_keys ?d = map h (authority_keys d)"
    by (simp add: set_revoked_rows revoke_rows_def h_def f_def)
  have other: "main_db ?d = main_db d" "key_bindings ?d = key_bindings d" by (simp_all add: set_revoked_def)
  have find: "find_key ?d x = map_option h (find_key d x)" for x
    by (simp add: find_key_def keys find_map_key)
  have "key_row_ok (h r)" if r: "r \<in> set (authority_keys d)" for r
  proof (cases "row_key_id r = k")
    case True
    then have "r = row" using find_key_row [OF ok r] row by simp
    then show ?thesis using assms r True by (auto simp: h_def f_def registry_ok_def intro: revoked_row_ok)
  next
    case False
    then show ?thesis using ok r by (simp add: h_def registry_ok_def)
  qed
  moreover have "rotation_chain (authority_rows ?d who)" for who
  proof -
    have rows: "authority_rows ?d who = map h (authority_rows d who)"
      by (simp add: authority_rows_def keys filter_map comp_def)
    have "rotates (h a) (h b) = rotates a b" for a b by (simp add: rotates_def)
    then have "successively rotates (map h (authority_rows d who)) = successively rotates (authority_rows d who)"
      by (rule successively_map_cong)
    moreover have "rotation_chain (authority_rows d who)" using ok by (simp add: registry_ok_def)
    ultimately show ?thesis by (auto simp: rows rotation_chain_def hd_map)
  qed
  moreover have "binding_ok ?d b" if "b \<in> set (key_bindings d)" for b
    using ok that by (auto simp: registry_ok_def binding_ok_def find)
  ultimately show ?thesis
    using ok by (auto simp: registry_ok_def keys comp_def other)
qed

lemma revoke_key_body_keeps:
  assumes body: "revoke_key_body now build who k at reason actor d = Inr (res, d')" and ok: "registry_ok d"
    and "\<not> blank reason"
  shows "registry_ok d'"
proof -
  obtain row where row: "find_key d k = Some row" and win: "row_valid_from row \<le> at" "at < row_valid_until row"
    using body by (auto simp: revoke_key_body_def split: option.splits)
  show ?thesis
  proof (cases "row_revoked_at row")
    case None
    then obtain receipt d1 where app: "append_ledger (snd now) build (revoked_event (fst now) actor who row at reason) ''PASS'' d = Inr (receipt, d1)"
      and d': "d' = set_revoked k at reason actor receipt d1"
      using body row by (auto simp: revoke_key_body_def)
    note keep = append_ledger_keeps [OF app revoked_event_wf ok]
    have "find_key d1 k = Some row" using row keep(2) by (simp add: find_key_def)
    then show ?thesis unfolding d' using revoked_keeps [OF keep(1) _ None win assms(3)] by simp
  next
    case (Some t)
    then show ?thesis using body row ok by (auto simp: revoke_key_body_def split: if_splits option.splits)
  qed
qed

lemma revoke_key_db:
  "\<not> (blank who \<or> blank reason \<or> blank actor) \<Longrightarrow>
     snd (revoke_key now build who k at reason actor d) = snd (transaction (revoke_key_body now build who k at reason actor) d)"
  by (auto simp: revoke_key_def require_text_def split: sum.splits prod.splits option.splits)

lemma revoke_key_keeps:
  assumes "registry_ok d"
  shows "registry_ok (snd (revoke_key now build who k at reason actor d))"
proof (cases "blank who \<or> blank reason \<or> blank actor")
  case True
  then have "\<exists>e. revoke_key now build who k at reason actor d = (Inl e, d)"
    by (cases "blank who"; cases "blank reason") (auto simp: revoke_key_def require_text_def)
  then show ?thesis using assms by auto
next
  case False
  then show ?thesis
    unfolding revoke_key_db [OF False]
    by (intro transaction_keeps [where P = registry_ok, OF assms])
      (rule revoke_key_body_keeps [OF _ assms], use False in auto)
qed

lemma check_bound_keysE:
  assumes "check_bound_keys verify d r sk tk = Inr u" and ok: "registry_ok d"
  obtains a b where "find_key d sk = Some a" "find_key d tk = Some b"
    "row_authority_id a = source_authority r" "row_authority_id b = target_authority r"
    "row_public_key_hex a \<noteq> row_public_key_hex b"
    "check_role_window r ''source'' (key_of a) = Inr ()" "check_role_window r ''target'' (key_of b) = Inr ()"
    "verify_witness verify r (key_of a) (key_of b) = Inr ()"
proof -
  obtain a b where rows: "find_key d sk = Some a" "find_key d tk = Some b"
    using assms(1) by (auto simp: check_bound_keys_def split: option.splits)
  have "row_to_key a = Inr (key_of a)" "row_to_key b = Inr (key_of b)"
    using ok find_key_Some rows by (auto simp: registry_ok_def key_row_ok_def)
  then show ?thesis
    using assms(1) rows that [of a b] by (auto simp: check_bound_keys_def key_of_def)
qed

lemma bind_relation_body_keeps:
  assumes body: "bind_relation_body verify now build r b actor d = Inr (res, d')" and ok: "registry_ok d"
    and valid: "check_binding b = Inr b" and b: "b = binding_of r sk tk"
  shows "registry_ok d'"
proof (cases "find_binding d (relation_id r)")
  case (Some existing)
  then show ?thesis using body ok by (auto simp: bind_relation_body_def)
next
  case None
  obtain receipt d1 u row where steps: "check_bound_keys verify d r sk tk = Inr u"
    "append_ledger (snd now) build (bound_event (fst now) actor b) ''PASS'' d = Inr (receipt, d1)"
    "insert_binding row d1 = Inr d'" "row_binding row = b"
    using body None by (auto simp: bind_relation_body_def b binding_of_def)
  note keep = append_ledger_keeps [OF steps(2) bound_event_wf ok]
  have d': "d' = d1\<lparr>key_bindings := key_bindings d1 @ [row]\<rparr>"
    using steps(3) by (auto simp: insert_binding_def split: if_splits)
  have fk: "find_key d' x = find_key d x" for x by (simp add: find_key_def d' keep(2))
  obtain x y where rows: "find_key d sk = Some x" "find_key d tk = Some y"
    "row_authority_id x = source_authority r" "row_authority_id y = target_authority r"
    "row_public_key_hex x \<noteq> row_public_key_hex y"
    using steps(1) ok by (rule check_bound_keysE)
  have "binding_ok d' row"
    using rows valid by (auto simp: binding_ok_def row_to_binding_def steps(4) fk b binding_of_def)
  moreover have "binding_ok d' q" if "q \<in> set (key_bindings d)" for q
    using that ok by (auto simp: registry_ok_def binding_ok_def fk)
  moreover have "kb_relation_id b \<notin> (\<lambda>row. kb_relation_id (row_binding row)) ` set (key_bindings d)"
    using None by (auto simp: find_binding_def find_None_iff b binding_of_def)
  ultimately show ?thesis
    using keep(1) by (auto simp: registry_ok_def d' keep(3) steps(4) authority_rows_def)
qed

lemma register_relation_binding_cases:
  "(\<exists>e. register_relation_binding verify now build r sk tk actor d = (Inl e, d)) \<or>
   (check_binding (binding_of r sk tk) = Inr (binding_of r sk tk) \<and> witness_scheme r = ED25519_SCHEME \<and>
    register_relation_binding verify now build r sk tk actor d =
      transaction (bind_relation_body verify now build r (binding_of r sk tk) actor) d)"
proof (cases "blank actor \<or> witness_scheme r \<noteq> ED25519_SCHEME")
  case True
  then show ?thesis by (cases "blank actor") (auto simp: register_relation_binding_def require_text_def)
next
  case False
  then show ?thesis
    by (cases "check_binding (binding_of r sk tk)")
      (auto simp: register_relation_binding_def require_text_def dest: row_to_binding_same [unfolded row_to_binding_def, of "\<lparr>row_binding = binding_of r sk tk, row_binding_sha256 = '''', row_bound_by = '''', row_bound_at = '''', row_receipt = ''''\<rparr>", simplified])
qed

lemma register_relation_binding_keeps:
  assumes "registry_ok d"
  shows "registry_ok (snd (register_relation_binding verify now build r sk tk actor d))"
  using register_relation_binding_cases [of verify now build r sk tk actor d]
proof
  assume "\<exists>e. register_relation_binding verify now build r sk tk actor d = (Inl e, d)"
  then show ?thesis using assms by auto
next
  assume run: "check_binding (binding_of r sk tk) = Inr (binding_of r sk tk) \<and> witness_scheme r = ED25519_SCHEME \<and>
    register_relation_binding verify now build r sk tk actor d =
      transaction (bind_relation_body verify now build r (binding_of r sk tk) actor) d"
  have "registry_ok (snd (transaction (bind_relation_body verify now build r (binding_of r sk tk) actor) d))"
    by (rule transaction_keeps [where P = registry_ok, OF assms])
      (rule bind_relation_body_keeps [OF _ assms], use run in auto)
  then show ?thesis using run by simp
qed

section \<open>Steps\<close>

text \<open>One call of the registry, or any operation of the storage it shares the database with.\<close>

inductive registry_step :: "(byte list \<Rightarrow> byte list \<Rightarrow> byte list \<Rightarrow> bool) \<Rightarrow> registry_db \<Rightarrow> registry_db \<Rightarrow> bool"
  for verify where
  register: "check_key_record k = Inr k \<Longrightarrow> registry_step verify d (snd (register_key now build k actor d))"
| revoke: "registry_step verify d (snd (revoke_key now build who k at reason actor d))"
| bind: "registry_step verify d (snd (register_relation_binding verify now build r sk tk actor d))"
| storage: "db_step (main_db d) m \<Longrightarrow> registry_step verify d (d\<lparr>main_db := m\<rparr>)"

definition registry_reachable :: "(byte list \<Rightarrow> byte list \<Rightarrow> byte list \<Rightarrow> bool) \<Rightarrow> registry_db \<Rightarrow> bool" where
  "registry_reachable verify d = (registry_step verify)\<^sup>*\<^sup>* empty_registry d"

lemma registry_step_keeps: "registry_step verify d d' \<Longrightarrow> registry_ok d \<Longrightarrow> registry_ok d'"
proof (induction rule: registry_step.induct)
  case (storage d m)
  then have "db_ok m" using step_keeps by (auto simp: registry_ok_def)
  then show ?case using storage.prems
    by (simp add: registry_ok_def authority_rows_def binding_ok_def find_key_def)
qed (simp_all add: register_key_keeps revoke_key_keeps register_relation_binding_keeps)

lemma registry_reachable_ok: "registry_reachable verify d \<Longrightarrow> registry_ok d"
  unfolding registry_reachable_def
  by (induction rule: rtranclp_induct) (auto simp: empty_registry_ok registry_step_keeps)

section \<open>Rotation\<close>

lemma key_row_window: "key_row_ok row \<Longrightarrow> row_valid_from row < row_valid_until row"
  by (auto simp: key_row_ok_def row_to_key_def check_key_record_def key_of_def)

lemma chain_windows:
  assumes "successively rotates ks" and "\<forall>row \<in> set ks. row_valid_from row < row_valid_until row"
    and "i < j" and "j < length ks"
  shows "row_valid_until (ks ! i) \<le> row_valid_from (ks ! j)"
  using assms(3,4)
proof (induction j)
  case (Suc j)
  have "rotates (ks ! j) (ks ! Suc j)"
    using assms(1) Suc.prems by (simp add: successively_conv_nth)
  then have next_from: "row_valid_from (ks ! Suc j) = row_valid_until (ks ! j)" by (simp add: rotates_def)
  show ?case
  proof (cases "i = j")
    case False
    then have "row_valid_until (ks ! i) \<le> row_valid_from (ks ! j)" using Suc by simp
    also have "\<dots> < row_valid_until (ks ! j)" using assms(2) Suc.prems by simp
    finally show ?thesis using next_from by simp
  qed (simp add: next_from)
qed simp

text \<open>C12: At any time at most one key of an authority is in force. In every reachable registry, two keys of the
  same authority whose validity windows contain the same instant are the same key, however
  often the authority has rotated.\<close>

theorem one_key_in_force:
  assumes "registry_reachable verify d"
    and "a \<in> set (authority_keys d)" and "b \<in> set (authority_keys d)" and "row_authority_id a = row_authority_id b"
    and "row_valid_from a \<le> t" and "t < row_valid_until a" and "row_valid_from b \<le> t" and "t < row_valid_until b"
  shows "a = b"
proof -
  have ok: "registry_ok d" using assms(1) by (rule registry_reachable_ok)
  define ks where "ks = authority_rows d (row_authority_id a)"
  have chain: "successively rotates ks" using ok by (simp add: registry_ok_def rotation_chain_def ks_def)
  have win: "\<forall>row \<in> set ks. row_valid_from row < row_valid_until row"
    using ok key_row_window by (auto simp: ks_def authority_rows_def registry_ok_def)
  have "a \<in> set ks" "b \<in> set ks" using assms(2-4) by (simp_all add: ks_def authority_rows_def)
  then obtain i j where ij: "i < length ks" "ks ! i = a" "j < length ks" "ks ! j = b" by (metis in_set_conv_nth)
  have "\<not> i < j" using chain_windows [OF chain win _ ij(3), of i] ij assms(5-8) by auto
  moreover have "\<not> j < i" using chain_windows [OF chain win _ ij(1), of j] ij assms(5-8) by auto
  ultimately show ?thesis using ij by (metis linorder_neqE_nat)
qed

section \<open>Finality\<close>

text \<open>How a row may evolve: not at all, or from open to revoked, once.\<close>

definition evolves :: "key_row \<Rightarrow> key_row \<Rightarrow> bool" where
  "evolves row row' \<longleftrightarrow> row' = row \<or>
     (row_revoked_at row = None \<and> (\<exists>at reason actor rc. row' = revoked_row at reason actor rc row))"

lemma evolves_refl [simp]: "evolves row row"
  by (simp add: evolves_def)

lemma evolves_trans: "evolves a b \<Longrightarrow> evolves b c \<Longrightarrow> evolves a c"
  by (auto simp: evolves_def)

definition preserved :: "registry_db \<Rightarrow> registry_db \<Rightarrow> bool" where
  "preserved d d' \<longleftrightarrow> (\<forall>row \<in> set (authority_keys d). \<exists>row' \<in> set (authority_keys d'). evolves row row') \<and>
     set (key_bindings d) \<subseteq> set (key_bindings d')"

lemma preserved_growth:
  "set (authority_keys d) \<subseteq> set (authority_keys d') \<Longrightarrow> set (key_bindings d) \<subseteq> set (key_bindings d') \<Longrightarrow> preserved d d'"
  unfolding preserved_def using evolves_refl by blast

lemma preserved_refl [simp]: "preserved d d"
  by (simp add: preserved_growth)

lemma preserved_trans: "preserved d d1 \<Longrightarrow> preserved d1 d2 \<Longrightarrow> preserved d d2"
  unfolding preserved_def using evolves_trans by (meson subset_trans)

lemma append_ledger_tables:
  assumes "append_ledger now build event dec d = Inr (rc, d')"
  shows "authority_keys d' = authority_keys d \<and> key_bindings d' = key_bindings d"
  using assms by (auto elim!: append_ledgerE)

lemma insert_key_tables:
  "insert_key row d = Inr d' \<Longrightarrow> authority_keys d' = authority_keys d @ [row] \<and> key_bindings d' = key_bindings d"
  by (auto simp: insert_key_def split: if_splits)

lemma insert_binding_tables:
  "insert_binding row d = Inr d' \<Longrightarrow> authority_keys d' = authority_keys d \<and> key_bindings d' = key_bindings d @ [row]"
  by (auto simp: insert_binding_def split: if_splits)

lemma register_body_preserved: "register_key_body now build k actor d = Inr (res, d') \<Longrightarrow> preserved d d'"
  by (rule preserved_growth)
    (auto simp: register_key_body_def dest!: append_ledger_tables insert_key_tables split: option.splits)

lemma bind_body_preserved: "bind_relation_body verify now build r b actor d = Inr (res, d') \<Longrightarrow> preserved d d'"
  by (rule preserved_growth)
    (auto simp: bind_relation_body_def dest!: append_ledger_tables insert_binding_tables split: option.splits)

lemma revoke_body_preserved:
  assumes body: "revoke_key_body now build who k at reason actor d = Inr (res, d')" and ok: "registry_ok d"
  shows "preserved d d'"
proof -
  obtain row where row: "find_key d k = Some row"
    using body by (auto simp: revoke_key_body_def split: option.splits)
  show ?thesis
  proof (cases "row_revoked_at row")
    case None
    then obtain receipt d1 where app: "append_ledger (snd now) build (revoked_event (fst now) actor who row at reason) ''PASS'' d = Inr (receipt, d1)"
      and d': "d' = set_revoked k at reason actor receipt d1"
      using body row by (auto simp: revoke_key_body_def)
    define f where "f = revoked_row at reason actor (canonical_json (receipt_json receipt))"
    have keys: "authority_keys d' = map (\<lambda>row. if row_key_id row = k then f row else row) (authority_keys d)"
      using append_ledger_tables [OF app] by (simp add: d' set_revoked_rows revoke_rows_def f_def)
    have "\<exists>row' \<in> set (authority_keys d'). evolves r row'" if r: "r \<in> set (authority_keys d)" for r
    proof (cases "row_key_id r = k")
      case True
      then have "r = row" using find_key_row [OF ok r] row by simp
      then have "evolves r (f r)" using None by (auto simp: evolves_def f_def)
      then show ?thesis using r True unfolding keys by force
    next
      case False
      then show ?thesis using r unfolding keys by force
    qed
    then show ?thesis using append_ledger_tables [OF app] by (simp add: preserved_def d' set_revoked_def)
  next
    case (Some t)
    then have "d' = d" using body row by (auto simp: revoke_key_body_def split: if_splits option.splits)
    then show ?thesis by simp
  qed
qed

lemma transaction_preserved:
  "(\<And>a d'. body d = Inr (a, d') \<Longrightarrow> preserved d d') \<Longrightarrow> preserved d (snd (transaction body d))"
  by (rule transaction_keeps) simp_all

lemma registry_step_preserved: "registry_step verify d d' \<Longrightarrow> registry_ok d \<Longrightarrow> preserved d d'"
proof (induction rule: registry_step.induct)
  case (register k d now build actor)
  show ?case
  proof (cases "revoked_at k = None \<and> \<not> blank actor")
    case True
    then show ?thesis
      by (simp add: register_key_def require_text_def transaction_preserved register_body_preserved)
  next
    case False
    then have "\<exists>e. register_key now build k actor d = (Inl e, d)"
      by (cases "revoked_at k = None") (auto simp: register_key_def require_text_def)
    then show ?thesis by auto
  qed
next
  case (revoke d now build who k at reason actor)
  show ?case
  proof (cases "blank who \<or> blank reason \<or> blank actor")
    case True
    then have "\<exists>e. revoke_key now build who k at reason actor d = (Inl e, d)"
      by (cases "blank who"; cases "blank reason") (auto simp: revoke_key_def require_text_def)
    then show ?thesis by auto
  next
    case False
    show ?thesis unfolding revoke_key_db [OF False]
      using revoke_body_preserved [OF _ revoke] by (rule transaction_preserved)
  qed
next
  case (bind d now build r sk tk actor)
  show ?case
    using register_relation_binding_cases [of verify now build r sk tk actor d]
      transaction_preserved [OF bind_body_preserved]
    by (auto simp: transaction_preserved bind_body_preserved)
next
  case (storage d m)
  show ?case by (rule preserved_growth) simp_all
qed

lemma registry_steps_preserved:
  "(registry_step verify)\<^sup>*\<^sup>* d d' \<Longrightarrow> registry_ok d \<Longrightarrow> preserved d d' \<and> registry_ok d'"
proof (induction rule: rtranclp_induct)
  case (step d1 d2)
  then show ?case using registry_step_preserved registry_step_keeps preserved_trans by blast
qed simp

text \<open>C13: The registry forgets nothing and a revocation is final. Whatever is called later, a registered key keeps its
  authority, its public key, its window and its predecessor; an open key can only become
  revoked; a revoked key's row, with its time and reason, and every binding stay as they are.\<close>

theorem revocation_is_final:
  assumes "registry_reachable verify d" and "(registry_step verify)\<^sup>*\<^sup>* d d'" and "find_key d k = Some row"
  shows "\<exists>row'. find_key d' k = Some row' \<and> row_authority_id row' = row_authority_id row \<and>
      row_public_key_hex row' = row_public_key_hex row \<and> row_valid_from row' = row_valid_from row \<and>
      row_valid_until row' = row_valid_until row \<and> row_previous_key_id row' = row_previous_key_id row \<and>
      (row_revoked_at row \<noteq> None \<longrightarrow> row' = row) \<and> set (key_bindings d) \<subseteq> set (key_bindings d')"
proof -
  have ok: "registry_ok d" using assms(1) by (rule registry_reachable_ok)
  have steps: "preserved d d'" "registry_ok d'" using registry_steps_preserved [OF assms(2) ok] by simp_all
  obtain row' where row': "row' \<in> set (authority_keys d')" "evolves row row'"
    using steps(1) find_key_Some [OF assms(3)] by (auto simp: preserved_def)
  have "row_key_id row' = k" using row'(2) find_key_Some [OF assms(3)] by (auto simp: evolves_def)
  then have "find_key d' k = Some row'" using find_key_row [OF steps(2) row'(1)] by simp
  then show ?thesis using row'(2) steps(1) by (auto simp: evolves_def preserved_def)
qed

end
