(* ===== verification/Sample_Digests.thy ===== *)
theory Sample_Digests
  imports Sha256
begin

text \<open>Two digests of one block each, computed as \<open>sha256_abc\<close> is: the sample keys of the registry.\<close>

lemma sha256_sample1: "sha256 (replicate 32 1) =
  [114, 205, 110, 132, 34, 196, 7, 251, 109, 9, 134, 144, 241, 19, 11, 125, 237, 126, 194, 247, 245, 225, 211, 11, 217, 213, 33, 240, 21, 54, 55, 147]"
  by (simp add: sha256_eval)

lemma sha256_sample2: "sha256 (replicate 32 2) =
  [117, 135, 123, 180, 29, 57, 59, 95, 184, 69, 92, 230, 14, 205, 141, 218, 0, 29, 6, 49, 100, 150, 177, 77, 250, 127, 137, 86, 86, 238, 202, 74]"
  by (simp add: sha256_eval)

lemma sample_digests_differ: "sha256 (replicate 32 1) \<noteq> sha256 (replicate 32 2)"
  unfolding sha256_sample1 sha256_sample2 by simp

end
