(* ===== verification/Governed_Gate.thy ===== *)
theory Governed_Gate
  imports Registry_Properties Sample_Digests
begin

text \<open>
  What the governed gate of \<open>app/federation_key_registry.py\<close> admits: exactly the requests in scope
  of a relation that is bound, unchanged, to two keys in force whose signatures verify. It meets
  the contract of a relation gate, and a relation bound once stays admissible until it expires
  or one of its keys is revoked.
\<close>

lemma first_of_each_Nil [simp]: "first_of_each xs = [] \<longleftrightarrow> xs = []"
  by (simp add: first_of_each_def)

lemma evaluate_governedE:
  assumes "evaluate_governed verify d t r q = Inr dec"
  obtains why keys ring inner where "binding_reasons d t r = Inr (why, keys)"
    "new_key_ring (map (\<lambda>(who, pk). (who, KeyHex pk)) keys) [] = Inr ring"
    "evaluate_ed25519 verify ring t r q = Inr inner"
    "dec = decision_of r t (first_of_each (why @ reasons inner))"
  using assms evaluate_ed25519_decision
  by (auto simp: evaluate_governed_def Let_def decision_of_def)
    (metis relation_decision.select_convs(4))

interpretation governed_gate: relation_gate "evaluate_governed verify d"
proof unfold_locales
  show "dec = decision_of r t (reasons dec)" if "evaluate_governed verify d t r q = Inr dec" for t r q dec
    using that by (auto elim!: evaluate_governedE simp: decision_of_def)
  show "in_scope r q t" if "evaluate_governed verify d t r q = Inr dec" "reasons dec = []" for t r q dec
    using that ed25519_gate.admits_in_scope by (auto elim!: evaluate_governedE simp: decision_of_def)
  show "witnessed r" if "evaluate_governed verify d t r q = Inr dec" "reasons dec = []" for t r q dec
    using that ed25519_gate.admits_witnessed by (auto elim!: evaluate_governedE simp: decision_of_def)
qed

section \<open>What it decides\<close>

lemma key_state_reasons_Nil [simp]: "key_state_reasons k t role = [] \<longleftrightarrow> effective_at k t"
  by (auto simp: key_state_reasons_def effective_at_def split: option.splits)

text \<open>The two keys of a role binding are registered, belong to the bound authorities and are in force.\<close>

definition keys_in_force :: "registry_db \<Rightarrow> int \<Rightarrow> key_binding \<Rightarrow> key_row \<Rightarrow> key_row \<Rightarrow> bool" where
  "keys_in_force d t b x y \<longleftrightarrow> find_key d (source_key_id b) = Some x \<and> find_key d (target_key_id b) = Some y \<and>
     row_authority_id x = kb_source_authority b \<and> row_authority_id y = kb_target_authority b \<and>
     effective_at (key_of x) t \<and> effective_at (key_of y) t \<and> row_public_key_hex x \<noteq> row_public_key_hex y"

definition bound_to :: "registry_db \<Rightarrow> federation_relation \<Rightarrow> key_binding \<Rightarrow> bool" where
  "bound_to d r b \<longleftrightarrow> (\<exists>row. find_binding d (relation_id r) = Some row \<and> row_binding row = b) \<and>
     kb_relation_sha256 b = payload_sha256 r \<and> kb_source_authority b = source_authority r \<and>
     kb_target_authority b = target_authority r"

definition key_bytes :: "key_row \<Rightarrow> byte list" where
  "key_bytes row = the (py_fromhex (row_public_key_hex row))"

definition governed_admits ::
  "(byte list \<Rightarrow> byte list \<Rightarrow> byte list \<Rightarrow> bool) \<Rightarrow> registry_db \<Rightarrow> int \<Rightarrow> federation_relation \<Rightarrow> relation_request \<Rightarrow> bool" where
  "governed_admits verify d t r q \<longleftrightarrow> (\<exists>b x y. bound_to d r b \<and> keys_in_force d t b x y \<and>
     ed25519_admits verify [(source_authority r, key_bytes x), (target_authority r, key_bytes y)] t r q)"

lemma key_row_bytes:
  assumes "key_row_ok row"
  shows "coerce_public_key (KeyHex (row_public_key_hex row)) = Inr (key_bytes row)"
  using assms
  by (auto simp: key_row_ok_def row_to_key_def check_key_record_def authority_key_id_def key_of_def coerce_public_key_def
      key_bytes_def split: option.splits)

lemma get_relation_binding_result:
  assumes "registry_ok d"
  shows "get_relation_binding d r = Inr (map_option row_binding (find_binding d r))"
proof (cases "find_binding d r")
  case (Some row)
  then have "row_to_binding row = Inr (row_binding row)"
    using assms find_binding_Some [OF Some] by (auto simp: registry_ok_def binding_ok_def)
  then show ?thesis using Some by (simp add: get_relation_binding_def)
qed (simp add: get_relation_binding_def)

text \<open>In a good registry the bound keys are there, so the ring of the gate has exactly those two.\<close>

lemma binding_reasons_bound:
  assumes ok: "registry_ok d" and row: "find_binding d (relation_id r) = Some row"
  obtains x y where "find_key d (source_key_id (row_binding row)) = Some x"
    "find_key d (target_key_id (row_binding row)) = Some y" "key_row_ok x" "key_row_ok y"
    "binding_reasons d t r = Inr
       (reason_if (kb_relation_sha256 (row_binding row) \<noteq> payload_sha256 r) ''binding_relation_hash_mismatch'' @
        reason_if (kb_source_authority (row_binding row) \<noteq> source_authority r) ''binding_source_authority_mismatch'' @
        reason_if (kb_target_authority (row_binding row) \<noteq> target_authority r) ''binding_target_authority_mismatch'' @
        role_key_reasons (Some (key_of x)) (kb_source_authority (row_binding row)) t ''source'' @
        role_key_reasons (Some (key_of y)) (kb_target_authority (row_binding row)) t ''target'' @
        reason_if (row_public_key_hex x = row_public_key_hex y) ''bound_shared_authority_public_key'',
        dict_set [(source_authority r, row_public_key_hex x)] (target_authority r) (row_public_key_hex y))"
proof -
  have b: "binding_ok d row" using ok find_binding_Some [OF row] by (auto simp: registry_ok_def)
  then obtain x y where xy: "find_key d (source_key_id (row_binding row)) = Some x"
    "find_key d (target_key_id (row_binding row)) = Some y" by (auto simp: binding_ok_def)
  have "key_row_ok x" "key_row_ok y" using ok find_key_Some xy by (auto simp: registry_ok_def)
  moreover have "ring_entry (target_authority r) (Some (key_of y)) (ring_entry (source_authority r) (Some (key_of x)) []) =
      dict_set [(source_authority r, row_public_key_hex x)] (target_authority r) (row_public_key_hex y)"
    by (simp add: ring_entry_def dict_set_def key_of_def)
  ultimately show ?thesis
    using that xy row
    by (simp add: binding_reasons_def get_relation_binding_result [OF ok] get_key_result [OF ok] key_of_def)
qed

lemma role_key_reasons_Nil [simp]:
  "role_key_reasons (Some k) who t role = [] \<longleftrightarrow> authority_id k = who \<and> effective_at k t"
  by (simp add: role_key_reasons_def)

lemma governed_Nil:
  assumes ok: "registry_ok d" and ev: "evaluate_governed verify d t r q = Inr dec"
  shows "reasons dec = [] \<longleftrightarrow> governed_admits verify d t r q"
proof -
  obtain why keys ring inner where steps: "binding_reasons d t r = Inr (why, keys)"
    "new_key_ring (map (\<lambda>(who, pk). (who, KeyHex pk)) keys) [] = Inr ring"
    "evaluate_ed25519 verify ring t r q = Inr inner"
    and dec: "dec = decision_of r t (first_of_each (why @ reasons inner))"
    using ev by (rule evaluate_governedE)
  have Nil: "reasons dec = [] \<longleftrightarrow> why = [] \<and> ed25519_admits verify ring t r q"
    using evaluate_ed25519_Nil [OF steps(3)] by (simp add: dec decision_of_def)
  show ?thesis
  proof (cases "find_binding d (relation_id r)")
    case None
    then have "why \<noteq> []" using steps(1) by (auto simp: binding_reasons_def get_relation_binding_result [OF ok])
    then show ?thesis using None Nil by (simp add: governed_admits_def bound_to_def)
  next
    case (Some row)
    obtain x y where xy: "find_key d (source_key_id (row_binding row)) = Some x"
      "find_key d (target_key_id (row_binding row)) = Some y" "key_row_ok x" "key_row_ok y"
      and br: "binding_reasons d t r = Inr
       (reason_if (kb_relation_sha256 (row_binding row) \<noteq> payload_sha256 r) ''binding_relation_hash_mismatch'' @
        reason_if (kb_source_authority (row_binding row) \<noteq> source_authority r) ''binding_source_authority_mismatch'' @
        reason_if (kb_target_authority (row_binding row) \<noteq> target_authority r) ''binding_target_authority_mismatch'' @
        role_key_reasons (Some (key_of x)) (kb_source_authority (row_binding row)) t ''source'' @
        role_key_reasons (Some (key_of y)) (kb_target_authority (row_binding row)) t ''target'' @
        reason_if (row_public_key_hex x = row_public_key_hex y) ''bound_shared_authority_public_key'',
        dict_set [(source_authority r, row_public_key_hex x)] (target_authority r) (row_public_key_hex y))"
      using binding_reasons_bound [OF ok Some] by blast
    have distinct: "kb_source_authority (row_binding row) \<noteq> kb_target_authority (row_binding row)"
      using ok find_binding_Some [OF Some]
      by (auto simp: registry_ok_def binding_ok_def row_to_binding_def check_binding_def)
    have why: "why = [] \<longleftrightarrow> bound_to d r (row_binding row) \<and> keys_in_force d t (row_binding row) x y"
      using steps(1) Some xy unfolding br by (auto simp: bound_to_def keys_in_force_def key_of_def)
    have ring: "ring = [(source_authority r, key_bytes x), (target_authority r, key_bytes y)]" if "why = []"
    proof -
      have "source_authority r \<noteq> target_authority r" using that distinct by (auto simp: why bound_to_def)
      then show ?thesis
        using steps(1,2) key_row_bytes [OF xy(3)] key_row_bytes [OF xy(4)] unfolding br
        by (auto simp: dict_set_def)
    qed
    have unique: "b = row_binding row \<and> x' = x \<and> y' = y" if "bound_to d r b" "keys_in_force d t b x' y'" for b x' y'
      using that Some xy by (auto simp: bound_to_def keys_in_force_def)
    show ?thesis
    proof
      assume "reasons dec = []"
      then show "governed_admits verify d t r q" using Nil why ring by (auto simp: governed_admits_def)
    next
      assume "governed_admits verify d t r q"
      then obtain b x' y' where g: "bound_to d r b" "keys_in_force d t b x' y'"
        "ed25519_admits verify [(source_authority r, key_bytes x'), (target_authority r, key_bytes y')] t r q"
        by (auto simp: governed_admits_def)
      then have "why = []" using unique [OF g(1,2)] why by auto
      then show "reasons dec = []" using Nil ring g(3) unique [OF g(1,2)] by simp
    qed
  qed
qed

text \<open>C14: The governed gate decides by the registry. In every reachable registry, a decision admits if and only if the
  relation is bound under its present payload to two different registered keys of its two
  authorities, both keys are in force at that time (inside their window and not revoked), both
  signatures verify under them, and the request is in the relation's scope.\<close>

theorem governed_gate_decides:
  assumes "registry_reachable verify d" and "evaluate_governed verify d t r q = Inr dec"
  shows "(admissible dec \<longleftrightarrow> governed_admits verify d t r q) \<and> relation_sha256 dec = payload_sha256 r"
  using governed_Nil [OF registry_reachable_ok [OF assms(1)] assms(2)] governed_gate.admissible_iff [OF assms(2)]
    governed_gate.decided [OF assms(2)]
  by (metis decision_of_def relation_decision.select_convs(4))

section \<open>A bound relation is admitted\<close>

lemma ed25519_admits_evaluates:
  assumes "ed25519_admits verify ring t r q" and "is_ascii (rel_contract_hash r)"
  shows "evaluate_ed25519 verify ring t r q = Inr (decision_of r t [])"
proof -
  obtain w where w: "rel_witness r = Some (Ed25519 w)" "ew_scheme w = ED25519_SCHEME" "ew_payload_sha256 w = payload_sha256 r"
    "map_of ring (source_authority r) \<noteq> map_of ring (target_authority r)"
    "ed25519_signed verify ring (source_authority r) (payload_sha256 r) ''source'' (source_signature_hex w)"
    "ed25519_signed verify ring (target_authority r) (payload_sha256 r) ''target'' (target_signature_hex w)"
    using assms(1) by (auto simp: ed25519_admits_def)
  have scheme: "witness_scheme r = ED25519_SCHEME" and scope: "in_scope r q t"
    using assms(1) by (simp_all add: ed25519_admits_def)
  have "ed25519_witness_reasons verify ring r w = Inr []"
    using w scheme
    by (auto simp: ed25519_witness_reasons_def Let_def compare_digest_def payload_sha256_hex ed25519_signed_def
        signature_reasons_def signing_message_ok reason_if_def)
  moreover have "common_reasons r q t = Inr []" using scope assms(2) by (simp add: common_reasons_Nil)
  ultimately show ?thesis using w(1) scheme by (simp add: evaluate_ed25519_def)
qed

lemma ed25519_admits_any_time:
  "ed25519_admits verify ring t0 r q0 \<Longrightarrow> in_scope r q t \<Longrightarrow> ed25519_admits verify ring t r q"
  by (auto simp: ed25519_admits_def)

lemma evolves_fields:
  assumes "evolves row row'"
  shows "row_key_id row' = row_key_id row" "row_authority_id row' = row_authority_id row"
    "row_public_key_hex row' = row_public_key_hex row" "row_valid_from row' = row_valid_from row"
    "row_valid_until row' = row_valid_until row" "key_bytes row' = key_bytes row"
  using assms by (auto simp: evolves_def key_bytes_def)

lemma preserved_find_key:
  assumes "preserved d d'" and "registry_ok d'" and "find_key d k = Some row"
  obtains row' where "find_key d' k = Some row'" and "evolves row row'"
proof -
  obtain row' where row': "row' \<in> set (authority_keys d')" "evolves row row'"
    using assms(1) find_key_Some [OF assms(3)] by (auto simp: preserved_def)
  then have "row_key_id row' = k" using find_key_Some [OF assms(3)] by (simp add: evolves_fields)
  then show ?thesis using that find_key_row [OF assms(2) row'(1)] row'(2) by simp
qed

lemma preserved_find_binding:
  assumes "preserved d d'" and "registry_ok d'" and "row \<in> set (key_bindings d)"
  shows "find_binding d' (kb_relation_id (row_binding row)) = Some row"
  using assms unfolding find_binding_def preserved_def registry_ok_def
  by (intro find_distinct [of "\<lambda>row. kb_relation_id (row_binding row)"]) auto

text \<open>What a new binding guarantees: the keys it found, and that the witness verifies under them.\<close>

lemma bound_relationE:
  assumes ok: "registry_ok d"
    and "register_relation_binding verify now build r sk tk actor d = (Inr (b, digest, receipt, False), d1)"
  obtains x y row q0 where "find_key d sk = Some x" "find_key d tk = Some y"
    "row_authority_id x = source_authority r" "row_authority_id y = target_authority r"
    "row_public_key_hex x \<noteq> row_public_key_hex y" "check_role_window r ''source'' (key_of x) = Inr ()"
    "check_role_window r ''target'' (key_of y) = Inr ()" "source_authority r \<noteq> target_authority r"
    "ed25519_admits verify [(source_authority r, key_bytes x), (target_authority r, key_bytes y)] (rel_valid_from r) r q0"
    "is_ascii (rel_contract_hash r)" "row \<in> set (key_bindings d1)" "row_binding row = binding_of r sk tk" "preserved d d1"
    "\<not> blank (source_authority r)" "\<not> blank (target_authority r)"
proof -
  have run: "check_binding (binding_of r sk tk) = Inr (binding_of r sk tk)"
    "bind_relation_body verify now build r (binding_of r sk tk) actor d = Inr ((b, digest, receipt, False), d1)"
    using register_relation_binding_cases [of verify now build r sk tk actor d] assms(2)
    by (auto simp: transaction_Inr dest: sym)
  have auth: "source_authority r \<noteq> target_authority r" "\<not> blank (source_authority r)" "\<not> blank (target_authority r)"
    using run(1) by (auto simp: check_binding_def binding_of_def require_text_def)
  have "find_binding d (relation_id r) = None"
    using run(2) by (auto simp: bind_relation_body_def split: option.splits)
  then obtain u rc d0 row where steps: "check_bound_keys verify d r sk tk = Inr u"
    "append_ledger (snd now) build (bound_event (fst now) actor (binding_of r sk tk)) ''PASS'' d = Inr (rc, d0)"
    "insert_binding row d0 = Inr d1" "row_binding row = binding_of r sk tk"
    using run(2) by (auto simp: bind_relation_body_def binding_of_def)
  have row: "row \<in> set (key_bindings d1)" using insert_binding_tables [OF steps(3)] by simp
  obtain x y where xy: "find_key d sk = Some x" "find_key d tk = Some y"
    "row_authority_id x = source_authority r" "row_authority_id y = target_authority r"
    "row_public_key_hex x \<noteq> row_public_key_hex y"
    "check_role_window r ''source'' (key_of x) = Inr ()" "check_role_window r ''target'' (key_of y) = Inr ()"
    "verify_witness verify r (key_of x) (key_of y) = Inr ()"
    using steps(1) ok by (rule check_bound_keysE)
  have good: "key_row_ok x" "key_row_ok y" using ok find_key_Some xy(1,2) by (auto simp: registry_ok_def)
  obtain ring q0 dec where v: "new_key_ring [(source_authority r, KeyHex (row_public_key_hex x)),
       (target_authority r, KeyHex (row_public_key_hex y))] [] = Inr ring"
    "evaluate_ed25519 verify ring (rel_valid_from r) r q0 = Inr dec" "admissible dec"
    using xy(8) by (auto simp: verify_witness_def key_of_def)
  have "ring = [(source_authority r, key_bytes x), (target_authority r, key_bytes y)]"
    using v(1) auth key_row_bytes [OF good(1)] key_row_bytes [OF good(2)] by (auto simp: dict_set_def)
  moreover have "ed25519_admits verify ring (rel_valid_from r) r q0"
    using evaluate_ed25519_Nil [OF v(2)] ed25519_gate.admissible_iff [OF v(2)] v(3) by simp
  moreover have "is_ascii (rel_contract_hash r)"
    using v(2) by (auto simp: evaluate_ed25519_def common_reasons_def compare_digest_eq)
  ultimately show ?thesis
    using that xy auth row steps(4) bind_body_preserved [OF run(2)] by simp
qed

lemma in_force_of_window:
  assumes "check_role_window r role (key_of x) = Inr ()" and "in_scope r q t" and "evolves x x'"
    and "case row_revoked_at x' of None \<Rightarrow> True | Some u \<Rightarrow> t < u"
  shows "effective_at (key_of x') t"
  using assms evolves_fields(4,5) [OF assms(3)]
  by (auto simp: check_role_window_def effective_at_def key_of_def in_scope_def split: option.splits)

lemma bound_stays_admitted:
  assumes "registry_ok d"
    and "register_relation_binding verify now build r sk tk actor d = (Inr (b, digest, receipt, False), d1)"
    and "(registry_step verify)\<^sup>*\<^sup>* d1 d2" and "in_scope r q t"
    and "\<forall>row \<in> set (authority_keys d2). row_key_id row \<in> {sk, tk} \<longrightarrow>
           (case row_revoked_at row of None \<Rightarrow> True | Some u \<Rightarrow> t < u)"
  shows "evaluate_governed verify d2 t r q = Inr (decision_of r t [])"
proof -
  have ok: "registry_ok d" by (rule assms(1))
  have ok1: "registry_ok d1" using register_relation_binding_keeps [OF ok] assms(2) by (metis snd_conv)
  have later: "preserved d1 d2" "registry_ok d2" using registry_steps_preserved [OF assms(3) ok1] by simp_all
  obtain x y row q0 where b: "find_key d sk = Some x" "find_key d tk = Some y"
    "row_authority_id x = source_authority r" "row_authority_id y = target_authority r"
    "row_public_key_hex x \<noteq> row_public_key_hex y" "check_role_window r ''source'' (key_of x) = Inr ()"
    "check_role_window r ''target'' (key_of y) = Inr ()" "source_authority r \<noteq> target_authority r"
    "ed25519_admits verify [(source_authority r, key_bytes x), (target_authority r, key_bytes y)] (rel_valid_from r) r q0"
    "is_ascii (rel_contract_hash r)" "row \<in> set (key_bindings d1)" "row_binding row = binding_of r sk tk" "preserved d d1"
    "\<not> blank (source_authority r)" "\<not> blank (target_authority r)"
    using ok assms(2) by (rule bound_relationE)
  have all: "preserved d d2" using b(13) later(1) by (rule preserved_trans)
  obtain x' where x': "find_key d2 sk = Some x'" "evolves x x'" using preserved_find_key [OF all later(2) b(1)] by blast
  obtain y' where y': "find_key d2 tk = Some y'" "evolves y y'" using preserved_find_key [OF all later(2) b(2)] by blast
  have fb: "find_binding d2 (relation_id r) = Some row"
    using preserved_find_binding [OF later b(11)] by (simp add: b(12) binding_of_def)
  have open_keys: "case row_revoked_at z of None \<Rightarrow> True | Some u \<Rightarrow> t < u" if "find_key d2 k = Some z" "k \<in> {sk, tk}" for z k
    using assms(5) find_key_Some [OF that(1)] that(2) by auto
  have force: "effective_at (key_of x') t" "effective_at (key_of y') t"
    using in_force_of_window [OF b(6) assms(4) x'(2)] in_force_of_window [OF b(7) assms(4) y'(2)] open_keys x'(1) y'(1)
    by blast+
  obtain x2 y2 where br: "find_key d2 (source_key_id (row_binding row)) = Some x2"
    "find_key d2 (target_key_id (row_binding row)) = Some y2" "key_row_ok x2" "key_row_ok y2"
    "binding_reasons d2 t r = Inr
       (reason_if (kb_relation_sha256 (row_binding row) \<noteq> payload_sha256 r) ''binding_relation_hash_mismatch'' @
        reason_if (kb_source_authority (row_binding row) \<noteq> source_authority r) ''binding_source_authority_mismatch'' @
        reason_if (kb_target_authority (row_binding row) \<noteq> target_authority r) ''binding_target_authority_mismatch'' @
        role_key_reasons (Some (key_of x2)) (kb_source_authority (row_binding row)) t ''source'' @
        role_key_reasons (Some (key_of y2)) (kb_target_authority (row_binding row)) t ''target'' @
        reason_if (row_public_key_hex x2 = row_public_key_hex y2) ''bound_shared_authority_public_key'',
        dict_set [(source_authority r, row_public_key_hex x2)] (target_authority r) (row_public_key_hex y2))"
    using binding_reasons_bound [OF later(2) fb] by blast
  have same: "x2 = x'" "y2 = y'" using br(1,2) x'(1) y'(1) by (simp_all add: b(12) binding_of_def)
  note fields = evolves_fields [OF x'(2)] evolves_fields [OF y'(2)]
  have reasons: "binding_reasons d2 t r = Inr ([], [(source_authority r, row_public_key_hex x), (target_authority r, row_public_key_hex y)])"
    using br(5) b(3-5,8) force
    by (simp add: same b(12) binding_of_def reason_if_def role_key_reasons_def key_of_def fields dict_set_def
        key_state_reasons_Nil [unfolded key_of_def])
  have ring: "new_key_ring [(source_authority r, KeyHex (row_public_key_hex x)), (target_authority r, KeyHex (row_public_key_hex y))] [] =
      Inr [(source_authority r, key_bytes x), (target_authority r, key_bytes y)]"
    using key_row_bytes [OF br(3)] key_row_bytes [OF br(4)] b(8,14,15) by (simp add: same fields dict_set_def)
  have "evaluate_ed25519 verify [(source_authority r, key_bytes x), (target_authority r, key_bytes y)] t r q = Inr (decision_of r t [])"
    by (rule ed25519_admits_evaluates [OF ed25519_admits_any_time [OF b(9) assms(4)] b(10)])
  then show ?thesis
    using reasons ring by (simp add: evaluate_governed_def decision_of_def first_of_each_def)
qed

text \<open>A bound relation stays usable. After a relation has been newly bound to two keys, the governed gate of any
  later registry admits every request in its scope as long as neither key has been revoked by
  then: no other call, not even further rotations, takes that away.\<close>

theorem bound_relation_admitted:
  assumes "registry_ok d"
    and "register_relation_binding verify now build r sk tk actor d = (Inr (b, digest, receipt, False), d1)"
    and "(registry_step verify)\<^sup>*\<^sup>* d1 d2" and "in_scope r q t"
    and "\<forall>row \<in> set (authority_keys d2). row_key_id row \<in> {sk, tk} \<longrightarrow>
           (case row_revoked_at row of None \<Rightarrow> True | Some u \<Rightarrow> t < u)"
  shows "evaluate_governed verify d2 t r q = Inr (decision_of r t [])"
  using assms by (rule bound_stays_admitted)

section \<open>Witnesses\<close>

definition sample_key_id :: "byte \<Rightarrow> string" where
  "sample_key_id k = ''ed25519:'' @ bytes_hex (sha256 (toy_pub k))"

definition sample_key :: "string \<Rightarrow> byte \<Rightarrow> key_record" where
  "sample_key who k = \<lparr>authority_id = who, key_id = sample_key_id k, public_key_hex = bytes_hex (toy_pub k),
     key_valid_from = 0, key_valid_until = 100, previous_key_id = None, algorithm = ED25519_ALGORITHM,
     revoked_at = None, revocation_reason = None\<rparr>"

definition sample_receipt :: receipt where
  "sample_receipt = \<lparr>rc_seq = 1, rc_prev_hash = ''GENESIS'', rc_event_hash = ''h'', rc_decision = ''PASS''\<rparr>"

definition sample_key_row :: "string \<Rightarrow> byte \<Rightarrow> key_row" where
  "sample_key_row who k = key_row_of ''2026'' ''admin'' (sample_key who k) sample_receipt"

definition two_keys :: registry_db where
  "two_keys = \<lparr>main_db = empty_db, authority_keys = [sample_key_row ''auth-a'' 1, sample_key_row ''auth-b'' 2], key_bindings = []\<rparr>"

definition bound_relation :: federation_relation where
  "bound_relation = ed25519_relation\<lparr>rel_witness := Some (Ed25519 (both_signed toy_sign 1 2 ed25519_relation))\<rparr>"

lemma sample_key_id_ok: "is_key_id (sample_key_id k)"
  by (simp add: is_key_id_def sample_key_id_def hex_lower_n_def bytes_hex_lower)

lemma sample_key_checks: "\<not> blank who \<Longrightarrow> check_key_record (sample_key who k) = Inr (sample_key who k)"
  using sample_key_id_ok
  by (simp add: check_key_record_def sample_key_def require_text_def authority_key_id_def hex_lower_n_def bytes_hex_lower
      toy_pub_def sample_key_id_def)

lemma sample_key_row_ok: "\<not> blank who \<Longrightarrow> key_row_ok (sample_key_row who k)"
  using sample_key_checks [of who k]
  by (simp add: key_row_ok_def row_to_key_def sample_key_row_def key_row_of_facts)
    (simp add: sample_key_def)

lemma not_blank_names: "\<not> blank ''auth-a''" "\<not> blank ''auth-b''" "\<not> blank ''admin''"
  by (simp_all add: blank_iff is_space_def)

lemma sample_key_ids_differ: "sample_key_id 1 \<noteq> sample_key_id 2"
  using sample_digests_differ bytes_hex_inj by (auto simp: sample_key_id_def toy_pub_def)

lemma sample_public_keys_differ: "bytes_hex (toy_pub 1) \<noteq> bytes_hex (toy_pub 2)"
  using bytes_hex_inj toy_pub_inj by blast

lemma sample_rows:
  "row_key_id (sample_key_row who k) = sample_key_id k" "row_authority_id (sample_key_row who k) = who"
  "row_public_key_hex (sample_key_row who k) = bytes_hex (toy_pub k)" "row_previous_key_id (sample_key_row who k) = None"
  "row_valid_from (sample_key_row who k) = 0" "row_valid_until (sample_key_row who k) = 100"
  "row_revoked_at (sample_key_row who k) = None" "key_of (sample_key_row who k) = sample_key who k"
  by (simp_all add: sample_key_row_def key_row_of_def sample_key_def key_of_def)

lemma two_keys_ok: "registry_ok two_keys"
  using sample_key_ids_differ sample_public_keys_differ not_blank_names
  by (auto simp: registry_ok_def two_keys_def empty_db_ok sample_rows sample_key_row_ok authority_rows_def rotation_chain_def)

lemma two_keys_find: "find_key two_keys (sample_key_id 1) = Some (sample_key_row ''auth-a'' 1)"
  "find_key two_keys (sample_key_id 2) = Some (sample_key_row ''auth-b'' 2)"
  using sample_key_ids_differ by (simp_all add: find_key_def two_keys_def sample_rows)

lemma bound_relation_fields:
  "relation_id bound_relation = ''r1''" "source_authority bound_relation = ''auth-a''"
  "target_authority bound_relation = ''auth-b''" "witness_scheme bound_relation = ED25519_SCHEME"
  "rel_valid_from bound_relation = 10" "rel_valid_until bound_relation = 20"
  "source_domain bound_relation = ''a''" "target_domain bound_relation = ''b''"
  "rel_contract_hash bound_relation = replicate 64 (CHR ''0'')" "rel_capabilities bound_relation = [''read'']"
  by (simp_all add: bound_relation_def ed25519_relation_def sample_relation_def)

lemma bound_relation_witness:
  "rel_witness bound_relation = Some (Ed25519 (both_signed toy_sign 1 2 ed25519_relation))"
  "payload_sha256 bound_relation = payload_sha256 ed25519_relation"
  by (simp_all add: bound_relation_def)

lemma bound_relation_scope: "10 \<le> t \<Longrightarrow> t < 20 \<Longrightarrow> in_scope bound_relation sample_relation_request t"
  by (simp add: in_scope_def bound_relation_def ed25519_relation_def sample_relation_def sample_relation_request_def)

lemma bound_relation_evaluates:
  "evaluate_ed25519 toy_verify toy_ring 10 bound_relation sample_relation_request = Inr (decision_of bound_relation 10 [])"
proof -

  have "ed25519_admits toy_verify toy_ring 10 bound_relation sample_relation_request"
    using bound_relation_scope [of 10] toy_pub_inj
    by (simp add: ed25519_admits_def bound_relation_fields bound_relation_witness both_signed_def ed25519_signed_def
        toy_ring_def toy_sign_def toy_verify_def toy_pub_def)
  then show ?thesis
    using hex_lower_ascii [OF sample_hash_ok] by (intro ed25519_admits_evaluates) (simp_all add: bound_relation_fields)
qed

lemma sample_bound_keys: "check_bound_keys toy_verify two_keys bound_relation (sample_key_id 1) (sample_key_id 2) = Inr ()"
proof -
  have rows: "row_to_key (sample_key_row ''auth-a'' 1) = Inr (sample_key ''auth-a'' 1)"
    "row_to_key (sample_key_row ''auth-b'' 2) = Inr (sample_key ''auth-b'' 2)"
    using sample_key_row_ok [of "''auth-a''" 1] sample_key_row_ok [of "''auth-b''" 2] not_blank_names
    by (simp_all add: key_row_ok_def sample_rows)
  have ring: "new_key_ring [(''auth-a'', KeyHex (bytes_hex (toy_pub 1))), (''auth-b'', KeyHex (bytes_hex (toy_pub 2)))] [] = Inr toy_ring"
    using not_blank_names
    by (simp add: coerce_public_key_def hex_lower_n_def bytes_hex_lower toy_pub_def toy_ring_def dict_set_def)
  have request: "check_request \<lparr>req_source_domain = ''a'', req_target_domain = ''b'',
     req_contract_hash = replicate 64 (CHR ''0''), req_capability = ''read''\<rparr> = Inr sample_relation_request"
    using sample_hash_ok
    by (simp add: check_request_def require_text_def blank_iff is_space_def require_sha256_def sample_relation_request_def)
  show ?thesis
    using rows ring request bound_relation_evaluates sample_public_keys_differ
    by (simp add: check_bound_keys_def two_keys_find bound_relation_fields check_role_window_def verify_witness_def)
      (simp add: sample_key_def decision_of_def)
qed

lemma sample_binding:
  "\<exists>res digest receipt d1. register_relation_binding toy_verify (''2026'', ''2026'') '''' bound_relation (sample_key_id 1)
     (sample_key_id 2) ''admin'' two_keys = (Inr (res, digest, receipt, False), d1) \<and> authority_keys d1 = authority_keys two_keys"
proof -
  have check: "check_binding (binding_of bound_relation (sample_key_id 1) (sample_key_id 2)) =
      Inr (binding_of bound_relation (sample_key_id 1) (sample_key_id 2))"
    using sample_key_ids_differ sample_key_id_ok not_blank_names
    by (simp add: check_binding_def binding_of_def bound_relation_fields require_text_def require_sha256_def blank_iff
        is_space_def payload_sha256_def sha256_text_hex)
  obtain rc m where app: "append_ledger_tx ''2026'' '''' (bound_event ''2026'' ''admin''
      (binding_of bound_relation (sample_key_id 1) (sample_key_id 2))) ''PASS'' empty_db = Inr (rc, m)"
    by (auto simp: append_ledger_tx_def event_to_store_def Let_def empty_db_def bound_event_def binding_payload_def jget_def
        is_git_object_id_def hex_lower_n_def lower_def split: json.splits if_splits)
  have "find_binding two_keys ''r1'' = None" by (simp add: find_binding_def two_keys_def)
  then show ?thesis
    using check app not_blank_names sample_bound_keys
    by (simp add: register_relation_binding_def require_text_def bound_relation_fields transaction_def
        bind_relation_body_def append_ledger_def insert_binding_def two_keys_def binding_of_def)
qed

theorem bound_relation_admitted_witness:
  "\<exists>res digest receipt d1. register_relation_binding toy_verify (''2026'', ''2026'') '''' bound_relation (sample_key_id 1)
     (sample_key_id 2) ''admin'' two_keys = (Inr (res, digest, receipt, False), d1) \<and>
     evaluate_governed toy_verify d1 15 bound_relation sample_relation_request = Inr (decision_of bound_relation 15 [])"
proof -
  obtain res digest receipt d1 where b: "register_relation_binding toy_verify (''2026'', ''2026'') '''' bound_relation (sample_key_id 1)
     (sample_key_id 2) ''admin'' two_keys = (Inr (res, digest, receipt, False), d1)" "authority_keys d1 = authority_keys two_keys"
    using sample_binding by blast
  have "evaluate_governed toy_verify d1 15 bound_relation sample_relation_request = Inr (decision_of bound_relation 15 [])"
    by (rule bound_relation_admitted [OF two_keys_ok b(1) rtranclp.rtrancl_refl])
      (use b(2) bound_relation_scope in \<open>auto simp: two_keys_def sample_rows\<close>)
  then show ?thesis using b(1) by blast
qed

lemma bound_sample:
  "\<exists>d. registry_ok d \<and> evaluate_governed toy_verify d 15 bound_relation sample_relation_request = Inr (decision_of bound_relation 15 [])"
proof -
  obtain res digest receipt d1 where b: "register_relation_binding toy_verify (''2026'', ''2026'') '''' bound_relation (sample_key_id 1)
     (sample_key_id 2) ''admin'' two_keys = (Inr (res, digest, receipt, False), d1)" "authority_keys d1 = authority_keys two_keys"
    using sample_binding by blast
  have "registry_ok d1" using register_relation_binding_keeps [OF two_keys_ok] b(1) by (metis snd_conv)
  moreover have "evaluate_governed toy_verify d1 15 bound_relation sample_relation_request = Inr (decision_of bound_relation 15 [])"
    by (rule bound_stays_admitted [OF two_keys_ok b(1) rtranclp.rtrancl_refl])
      (use b(2) bound_relation_scope in \<open>auto simp: two_keys_def sample_rows\<close>)
  ultimately show ?thesis by blast
qed

theorem governed_gate_decides_witness:
  "\<exists>dec. evaluate_governed toy_verify empty_registry 15 bound_relation sample_relation_request = Inr dec \<and> \<not> admissible dec"
proof -
  have reach: "registry_reachable toy_verify empty_registry" by (simp add: registry_reachable_def)
  obtain inner where "evaluate_ed25519 toy_verify [] 15 bound_relation sample_relation_request = Inr inner"
    using hex_lower_ascii [OF sample_hash_ok]
    by (simp add: evaluate_ed25519_def bound_relation_fields bound_relation_witness sample_relation_request_def
        common_reasons_def compare_digest_def ed25519_witness_reasons_def both_signed_def signature_reasons_def
        payload_sha256_hex Let_def)
  then obtain dec where dec: "evaluate_governed toy_verify empty_registry 15 bound_relation sample_relation_request = Inr dec"
    by (simp add: evaluate_governed_def binding_reasons_def get_relation_binding_def find_binding_def empty_registry_def)
  moreover have "\<not> governed_admits toy_verify empty_registry 15 bound_relation sample_relation_request"
    by (simp add: governed_admits_def bound_to_def find_binding_def empty_registry_def)
  ultimately show ?thesis using governed_gate_decides [OF reach dec] by blast
qed

section \<open>Witnesses of the registry's invariant\<close>

lemma sample_append:
  "\<exists>rc m. append_ledger_tx ''2026'' '''' (registered_event ''2026'' ''admin'' (sample_key who k)) ''PASS'' empty_db = Inr (rc, m)"
  by (auto simp: append_ledger_tx_def event_to_store_def Let_def empty_db_def registered_event_def registration_payload_def
      jget_def is_git_object_id_def hex_lower_n_def lower_def split: json.splits if_splits)

lemma sample_registered:
  "\<exists>d row. registry_step verify empty_registry d \<and> authority_keys d = [row] \<and> row_authority_id row = ''auth-a'' \<and>
     row_key_id row = sample_key_id 1 \<and> row_valid_from row = 0 \<and> row_valid_until row = 100"
proof -
  let ?k = "sample_key ''auth-a'' 1"
  obtain rc m where app: "append_ledger_tx ''2026'' '''' (registered_event ''2026'' ''admin'' ?k) ''PASS'' empty_db = Inr (rc, m)"
    using sample_append by blast
  have fields: "revoked_at ?k = None" "previous_key_id ?k = None" by (simp_all add: sample_key_def)
  have row: "authority_keys (snd (register_key (''2026'', ''2026'') '''' ?k ''admin'' empty_registry)) =
      [key_row_of ''2026'' ''admin'' ?k rc]"
    using app not_blank_names
    by (simp add: register_key_def require_text_def fields transaction_def register_key_body_def append_ledger_def
        insert_key_def empty_registry_def find_key_def check_succession_def)
  have "registry_step verify empty_registry (snd (register_key (''2026'', ''2026'') '''' ?k ''admin'' empty_registry))"
    by (rule registry_step.register) (rule sample_key_checks [OF not_blank_names(1)])
  then show ?thesis using row
    by (intro exI [of _ "snd (register_key (''2026'', ''2026'') '''' ?k ''admin'' empty_registry)"]
        exI [of _ "key_row_of ''2026'' ''admin'' ?k rc"])
      (simp add: key_row_of_def sample_key_def)
qed

theorem one_key_in_force_witness:
  "\<exists>d row. registry_reachable toy_verify d \<and> row \<in> set (authority_keys d) \<and>
     (\<forall>b \<in> set (authority_keys d). row_authority_id b = ''auth-a'' \<and> row_valid_from b \<le> 50 \<and> 50 < row_valid_until b \<longrightarrow> row = b)"
proof -
  obtain d row where d: "registry_step toy_verify empty_registry d" "authority_keys d = [row]"
    "row_authority_id row = ''auth-a''" "row_valid_from row = 0" "row_valid_until row = 100"
    using sample_registered by blast
  have "registry_reachable toy_verify d" using d(1) by (simp add: registry_reachable_def)
  moreover from this have "row = b" if "b \<in> set (authority_keys d)" "row_authority_id b = ''auth-a''"
    "row_valid_from b \<le> 50" "50 < row_valid_until b" for b
    by (rule one_key_in_force [where t = 50]) (use d that in simp_all)
  ultimately show ?thesis using d(2) by (intro exI [of _ d] exI [of _ row]) simp
qed

theorem revocation_is_final_witness:
  "\<exists>d d' row row'. registry_step toy_verify d d' \<and> find_key d (sample_key_id 1) = Some row \<and>
     find_key d' (sample_key_id 1) = Some row' \<and> row_public_key_hex row' = row_public_key_hex row"
proof -
  obtain d row where d: "registry_step toy_verify empty_registry d" "authority_keys d = [row]" "row_key_id row = sample_key_id 1"
    using sample_registered by blast
  have reach: "registry_reachable toy_verify d" using d(1) by (simp add: registry_reachable_def)
  have "\<exists>m. db_step (main_db d) m" using db_step.nonce by blast
  then obtain m where step: "registry_step toy_verify d (d\<lparr>main_db := m\<rparr>)" using registry_step.storage by blast
  have row: "find_key d (sample_key_id 1) = Some row" using d by (simp add: find_key_def)
  show ?thesis
    using revocation_is_final [OF reach r_into_rtranclp [of "registry_step toy_verify", OF step] row] step row by blast
qed

end
