(* ===== verification/Federated_Graph.thy ===== *)
theory Federated_Graph
  imports Routing_Properties Governed_Gate
begin

text \<open>
  The routing part of \<open>app/federation_relation.py\<close>: a capability graph whose crossings each need a
  relation that its gate admits now. The relations (\<open>_current_relations\<close>), the gate, its
  \<open>enforces_key_lifecycle\<close> and what its clock reads for each crossing are arguments of a call.
\<close>

record federated_crossing =
  fc_src :: string
  fc_dst :: string
  fc_cost :: double
  fc_relation_id :: string
  fc_capability :: string
  fc_contract_hash :: string
  fc_reason :: string

definition check_federated_crossing :: "federated_crossing \<Rightarrow> federated_crossing res" where
  "check_federated_crossing c =
     res_bind (require_text (fc_src c) ''src'') (\<lambda>_.
     res_bind (require_text (fc_dst c) ''dst'') (\<lambda>_.
     res_bind (require_text (fc_relation_id c) ''relation_id'') (\<lambda>_.
     res_bind (require_text (fc_capability c) ''capability'') (\<lambda>_.
     res_bind (require_sha256 (fc_contract_hash c) ''contract_hash'') (\<lambda>_.
     res_bind (raise_if (py_lt (fc_cost c) (Fin 0)) (ValueError ''crossing cost must be non-negative'')) (\<lambda>_.
     Inr c))))))"

record federated_graph =
  fg_nodes :: "capability_node list"
  fg_crossings :: "federated_crossing list"
  fg_constraints :: "hard_constraint list"
  fg_preference :: preference

definition new_federated_graph ::
  "capability_node list \<Rightarrow> federated_crossing list \<Rightarrow> hard_constraint list \<Rightarrow> preference \<Rightarrow> federated_graph res" where
  "new_federated_graph nodes cs constraints p =
     res_bind (raise_if (\<not> distinct (map (\<lambda>c. (fc_src c, fc_dst c)) cs))
       (ValueError ''parallel federated crossings are not supported in v1'')) (\<lambda>_.
     Inr \<lparr>fg_nodes = nodes, fg_crossings = cs, fg_constraints = constraints, fg_preference = p\<rparr>)"

section \<open>The validated state\<close>

type_synonym relation_gate_fn = "int \<Rightarrow> federation_relation \<Rightarrow> relation_request \<Rightarrow> relation_decision res"

record gate_context =
  gc_gate :: relation_gate_fn
  gc_enforces_lifecycle :: bool
  gc_clock :: "federated_crossing \<Rightarrow> int"

definition crossing_request :: "federated_crossing \<Rightarrow> string \<Rightarrow> relation_request" where
  "crossing_request c capability = \<lparr>req_source_domain = fc_src c, req_target_domain = fc_dst c,
     req_contract_hash = fc_contract_hash c, req_capability = capability\<rparr>"

definition GOVERNED_SCHEMES :: "string set" where
  "GOVERNED_SCHEMES = {ED25519_SCHEME}"

text \<open>The reasons against a crossing, and the digest of its relation if there is none.\<close>

definition validate_crossing ::
  "gate_context \<Rightarrow> string \<Rightarrow> (string, federation_relation) dict \<Rightarrow> federated_crossing \<Rightarrow> (string list \<times> string option) res" where
  "validate_crossing gc capability relations c =
    (let base = reason_if (fc_capability c \<noteq> capability) ''crossing_capability_mismatch'' in
     case map_of relations (fc_relation_id c) of
       None \<Rightarrow> Inr (base @ [''relation_not_found''], None)
     | Some r \<Rightarrow>
         if witness_scheme r \<in> GOVERNED_SCHEMES \<and> \<not> gc_enforces_lifecycle gc
         then Inr (base @ [''governed_key_lifecycle_required''], None)
         else res_bind (check_request (crossing_request c capability)) (\<lambda>q.
              res_bind (gc_gate gc (gc_clock gc c) r q) (\<lambda>d.
              Inr (base @ reasons d, if base @ reasons d = [] then Some (relation_sha256 d) else None))))"

record validated =
  by_pair :: "(string \<times> string, federated_crossing) dict"
  v_blocked :: "(string, string list) dict"
  v_crossings :: "crossing list"
  v_digests :: "(string, string) dict"

definition plain_crossing :: "federated_crossing \<Rightarrow> crossing" where
  "plain_crossing c = \<lparr>cr_src = fc_src c, cr_dst = fc_dst c, cr_cost = fc_cost c, cr_reason = fc_reason c\<rparr>"

definition validate_step ::
  "gate_context \<Rightarrow> string \<Rightarrow> (string, federation_relation) dict \<Rightarrow> federated_crossing \<Rightarrow> validated \<Rightarrow> validated res" where
  "validate_step gc capability relations c v =
     res_bind (validate_crossing gc capability relations c) (\<lambda>(why, digest). case digest of
       Some h \<Rightarrow> res_bind (check_crossing (plain_crossing c)) (\<lambda>pc.
         Inr (v\<lparr>by_pair := dict_set (by_pair v) (fc_src c, fc_dst c) c,
                v_digests := dict_set (v_digests v) (fc_relation_id c) h,
                v_crossings := v_crossings v @ [pc]\<rparr>))
     | None \<Rightarrow> Inr (if why = [] then v
         else v\<lparr>v_blocked := dict_set (v_blocked v) (blocked_key (fc_src c) (fc_dst c) (fc_relation_id c)) why\<rparr>))"

definition validated_state ::
  "gate_context \<Rightarrow> federation_relation list \<Rightarrow> federated_graph \<Rightarrow> string \<Rightarrow> (capability_graph \<times> validated) res" where
  "validated_state gc relations fg capability =
     res_bind (require_text capability ''capability'') (\<lambda>_.
     res_bind (raise_if (\<not> distinct (map relation_id relations)) (ValueError ''duplicate relation_id'')) (\<lambda>_.
     res_bind (res_fold (validate_step gc capability (map (\<lambda>r. (relation_id r, r)) relations)) (fg_crossings fg)
        \<lparr>by_pair = [], v_blocked = [], v_crossings = [], v_digests = []\<rparr>) (\<lambda>v.
     Inr (new_graph (fg_nodes fg) (v_crossings v) (fg_constraints fg) (fg_preference fg), v))))"

definition blocked_for ::
  "gate_context \<Rightarrow> federation_relation list \<Rightarrow> federated_graph \<Rightarrow> string \<Rightarrow> (string, string list) dict res" where
  "blocked_for gc relations fg capability =
     res_bind (validated_state gc relations fg capability) (\<lambda>(g, v).
     Inr (fold (\<lambda>(k, why) b. dict_set b k why) (v_blocked v) (g_blocked g)))"

section \<open>Routing over validated relations\<close>

record federated_result =
  fr_route :: routing_result
  traversed_relations :: "string list"
  blocked_relations :: "(string, string list) dict"
  relation_receipt :: string

definition traverse :: "(string \<times> string, federated_crossing) dict \<Rightarrow> (string \<times> string) list \<Rightarrow> string list res" where
  "traverse pairs = res_map (\<lambda>hop. case map_of pairs hop of
      None \<Rightarrow> Inl (RuntimeError ''route crossed an edge without a validated federation relation'')
    | Some c \<Rightarrow> Inr (fc_relation_id c))"

definition hops :: "string list \<Rightarrow> (string \<times> string) list" where
  "hops path = zip path (tl path)"

definition relation_hashes :: "(string, string) dict \<Rightarrow> string list \<Rightarrow> jobj res" where
  "relation_hashes digests traversed = res_map (\<lambda>k. case map_of digests k of
      None \<Rightarrow> Inl (KeyError k) | Some h \<Rightarrow> Inr (k, JStr h)) (sort (remdups traversed))"

definition federated_payload :: "string \<Rightarrow> string \<Rightarrow> string list \<Rightarrow> jobj \<Rightarrow> (string, string list) dict \<Rightarrow> json" where
  "federated_payload capability receipt traversed hashes refused = JObj
     [(''requested_capability'', JStr capability), (''route_receipt_sha256'', JStr receipt),
      (''traversed_relations'', JArr (map JStr traversed)), (''relation_hashes'', JObj hashes),
      (''blocked_relations'', JObj (map (\<lambda>(k, why). (k, JArr (map JStr why))) (sort_key fst refused)))]"

definition federated_result_of :: "string \<Rightarrow> validated \<Rightarrow> routing_result \<Rightarrow> federated_result res" where
  "federated_result_of capability v r =
     res_bind (traverse (by_pair v) (hops (rr_path r))) (\<lambda>traversed.
     res_bind (relation_hashes (v_digests v) traversed) (\<lambda>hashes.
     Inr \<lparr>fr_route = r, traversed_relations = traversed, blocked_relations = v_blocked v,
          relation_receipt = sha256_text (ascii_json
            (federated_payload capability (receipt_sha256 r) traversed hashes (v_blocked v)))\<rparr>))"

definition federated_route ::
  "text_format \<Rightarrow> (double \<Rightarrow> double) \<Rightarrow> (string list \<Rightarrow> string list) \<Rightarrow> gate_context \<Rightarrow> federation_relation list \<Rightarrow>
   federated_graph \<Rightarrow> string \<Rightarrow> string list option \<Rightarrow> string \<Rightarrow> federated_result res option" where
  "federated_route fmt log10 iter gc relations fg origin targets capability =
    (case validated_state gc relations fg capability of
       Inl e \<Rightarrow> Some (Inl e)
     | Inr (g, v) \<Rightarrow> map_option (\<lambda>res. res_bind res (federated_result_of capability v)) (route fmt log10 iter g origin targets))"

section \<open>What validation keeps\<close>

text \<open>The crossing of a pair in the validated state, with the relation that admits it.\<close>

definition admitted_by ::
  "gate_context \<Rightarrow> federation_relation list \<Rightarrow> federated_graph \<Rightarrow> string \<Rightarrow> federated_crossing \<Rightarrow> federation_relation \<Rightarrow> bool" where
  "admitted_by gc relations fg capability c r \<longleftrightarrow> c \<in> set (fg_crossings fg) \<and> r \<in> set relations \<and>
     relation_id r = fc_relation_id c \<and> fc_capability c = capability \<and>
     (witness_scheme r \<in> GOVERNED_SCHEMES \<longrightarrow> gc_enforces_lifecycle gc) \<and>
     (\<exists>d. gc_gate gc (gc_clock gc c) r (crossing_request c capability) = Inr d \<and> reasons d = [])"

definition validated_ok :: "gate_context \<Rightarrow> federation_relation list \<Rightarrow> federated_graph \<Rightarrow> string \<Rightarrow> validated \<Rightarrow> bool" where
  "validated_ok gc relations fg capability v \<longleftrightarrow>
     (\<forall>hop c. map_of (by_pair v) hop = Some c \<longrightarrow> hop = (fc_src c, fc_dst c) \<and>
        (\<exists>r. admitted_by gc relations fg capability c r) \<and> map_of (v_digests v) (fc_relation_id c) \<noteq> None) \<and>
     (\<forall>pc \<in> set (v_crossings v). check_crossing pc = Inr pc \<and> map_of (by_pair v) (cr_src pc, cr_dst pc) \<noteq> None)"

lemma check_crossing_same: "check_crossing c = Inr d \<Longrightarrow> d = c \<and> check_crossing c = Inr c"
  by (auto simp: check_crossing_def)

lemma check_request_same: "check_request q = Inr q' \<Longrightarrow> q' = q"
  by (auto simp: check_request_def)

lemma validate_crossing_admits:
  assumes "validate_crossing gc capability (map (\<lambda>r. (relation_id r, r)) relations) c = Inr (why, Some h)"
    and "c \<in> set (fg_crossings fg)"
  shows "\<exists>r. admitted_by gc relations fg capability c r"
proof -
  obtain r where r: "map_of (map (\<lambda>r. (relation_id r, r)) relations) (fc_relation_id c) = Some r"
    using assms(1) by (auto simp: validate_crossing_def Let_def split: option.splits)
  then have "(fc_relation_id c, r) \<in> set (map (\<lambda>r. (relation_id r, r)) relations)" by (rule map_of_SomeD)
  then have "r \<in> set relations \<and> relation_id r = fc_relation_id c" by auto
  then show ?thesis
    using assms r
    by (auto simp: validate_crossing_def admitted_by_def Let_def reason_if_def split: if_splits dest!: check_request_same)
qed

lemma validate_step_ok:
  assumes "validate_step gc capability (map (\<lambda>r. (relation_id r, r)) relations) c v = Inr v'"
    and "validated_ok gc relations fg capability v" and "c \<in> set (fg_crossings fg)"
  shows "validated_ok gc relations fg capability v'"
proof -
  obtain why digest where vc: "validate_crossing gc capability (map (\<lambda>r. (relation_id r, r)) relations) c = Inr (why, digest)"
    using assms(1) by (auto simp: validate_step_def)
  show ?thesis
  proof (cases digest)
    case None
    then show ?thesis using assms vc by (cases "why = []") (auto simp: validate_step_def validated_ok_def)
  next
    case (Some h)
    then have v': "v' = v\<lparr>by_pair := dict_set (by_pair v) (fc_src c, fc_dst c) c,
                v_digests := dict_set (v_digests v) (fc_relation_id c) h,
                v_crossings := v_crossings v @ [plain_crossing c]\<rparr>" and pc: "check_crossing (plain_crossing c) = Inr (plain_crossing c)"
      using assms(1) vc by (auto simp: validate_step_def dest!: check_crossing_same)
    show ?thesis
      using assms(2) pc validate_crossing_admits [OF vc [unfolded Some] assms(3)]
      by (auto simp: validated_ok_def v' plain_crossing_def)
  qed
qed

lemma validated_state_ok:
  assumes "validated_state gc relations fg capability = Inr (g, v)"
  shows "validated_ok gc relations fg capability v \<and>
     g = new_graph (fg_nodes fg) (v_crossings v) (fg_constraints fg) (fg_preference fg)"
proof -
  have run: "res_fold (validate_step gc capability (map (\<lambda>r. (relation_id r, r)) relations)) (fg_crossings fg)
      \<lparr>by_pair = [], v_blocked = [], v_crossings = [], v_digests = []\<rparr> = Inr v"
    and g: "g = new_graph (fg_nodes fg) (v_crossings v) (fg_constraints fg) (fg_preference fg)"
    using assms by (auto simp: validated_state_def)
  have "validated_ok gc relations fg capability v"
    by (rule res_fold_invariant [OF run]) (auto simp: validated_ok_def [of _ _ _ _ "\<lparr>by_pair = [], v_blocked = [], v_crossings = [], v_digests = []\<rparr>"] intro: validate_step_ok)
  then show ?thesis using g by simp
qed

lemma hops_walk: "walk g u cs v \<Longrightarrow> set (hops (walk_nodes u cs)) \<subseteq> (\<lambda>c. (cr_src c, cr_dst c)) ` set (g_crossings g)"
proof (induction cs arbitrary: u)
  case (Cons c cs)
  have "hops (walk_nodes u (c # cs)) = (u, cr_dst c) # hops (walk_nodes (cr_dst c) cs)"
    by (cases cs) (simp_all add: hops_def walk_nodes_def)
  moreover have "(u, cr_dst c) \<in> (\<lambda>c. (cr_src c, cr_dst c)) ` set (g_crossings g)"
    using Cons.prems by (auto simp: adjacent_def intro: image_eqI [of _ _ c])
  ultimately show ?case using Cons by auto
qed (simp add: hops_def walk_nodes_def)

text \<open>What \<open>route\<close> of a validated graph crosses has passed the gate: the error for an unvalidated edge never occurs.\<close>

definition hop_admitted ::
  "gate_context \<Rightarrow> federation_relation list \<Rightarrow> federated_graph \<Rightarrow> string \<Rightarrow> string \<times> string \<Rightarrow> string \<Rightarrow> bool" where
  "hop_admitted gc relations fg capability hop k \<longleftrightarrow> (\<exists>c r. hop = (fc_src c, fc_dst c) \<and> k = fc_relation_id c \<and>
     admitted_by gc relations fg capability c r)"

lemma traverse_hops:
  assumes "validated_ok gc relations fg capability v" and "\<forall>hop \<in> set hs. map_of (by_pair v) hop \<noteq> None"
  shows "\<exists>ks. traverse (by_pair v) hs = Inr ks \<and> list_all2 (hop_admitted gc relations fg capability) hs ks \<and>
     (\<forall>k \<in> set ks. map_of (v_digests v) k \<noteq> None)"
  using assms(2)
proof (induction hs)
  case (Cons hop hs)
  then obtain c where c: "map_of (by_pair v) hop = Some c" by auto
  then have "hop_admitted gc relations fg capability hop (fc_relation_id c) \<and> map_of (v_digests v) (fc_relation_id c) \<noteq> None"
    using assms(1) unfolding validated_ok_def hop_admitted_def by blast
  then show ?case using Cons c by (auto simp: traverse_def)
qed (simp add: traverse_def)

lemma relation_hashes_total: "\<forall>k \<in> set ks. map_of digests k \<noteq> None \<Longrightarrow> \<exists>hs. relation_hashes digests ks = Inr hs"
proof -
  have "\<forall>k \<in> set xs. map_of digests k \<noteq> None \<Longrightarrow> \<exists>hs. res_map (\<lambda>k. case map_of digests k of
      None \<Rightarrow> Inl (KeyError k) | Some h \<Rightarrow> Inr (k, JStr h)) xs = Inr hs" for xs
    by (induction xs) auto
  then show "\<forall>k \<in> set ks. map_of digests k \<noteq> None \<Longrightarrow> \<exists>hs. relation_hashes digests ks = Inr hs"
    by (simp add: relation_hashes_def)
qed

text \<open>A route over a validated graph: the route of the capability graph, with the relation of each hop.\<close>

lemma federated_route_result:
  assumes "validated_state gc relations fg capability = Inr (g, v)" and "route fmt log10 iter g origin targets = Some (Inr r)"
  shows "\<exists>res. federated_route fmt log10 iter gc relations fg origin targets capability = Some (Inr res) \<and>
     fr_route res = r \<and> list_all2 (hop_admitted gc relations fg capability) (hops (rr_path r)) (traversed_relations res)"
proof -
  note ok = validated_state_ok [OF assms(1)]
  have g: "graph_ok g" using ok by (auto simp: validated_ok_def intro!: new_graph_ok)
  obtain ws w where w: "walk g origin ws w" "rr_path r = walk_nodes origin ws"
    using route_walk [OF g assms(2)] by blast
  have "g_crossings g = v_crossings v" using ok by (simp add: new_graph_def filter_nodes_eq)
  then have "\<forall>hop \<in> set (hops (rr_path r)). map_of (by_pair v) hop \<noteq> None"
    using hops_walk [OF w(1)] ok unfolding w(2) by (auto simp: validated_ok_def)
  then obtain ks where ks: "traverse (by_pair v) (hops (rr_path r)) = Inr ks"
    "list_all2 (hop_admitted gc relations fg capability) (hops (rr_path r)) ks" "\<forall>k \<in> set ks. map_of (v_digests v) k \<noteq> None"
    using traverse_hops ok by blast
  obtain hs where "relation_hashes (v_digests v) ks = Inr hs" using relation_hashes_total [OF ks(3)] by blast
  then show ?thesis using assms(1,2) ks by (simp add: federated_route_def federated_result_of_def)
qed

lemma federated_routeE:
  assumes "federated_route fmt log10 iter gc relations fg origin targets capability = Some (Inr res)"
  obtains g v where "validated_state gc relations fg capability = Inr (g, v)"
    and "route fmt log10 iter g origin targets = Some (Inr (fr_route res))"
  using assms by (auto simp: federated_route_def federated_result_of_def split: sum.splits)

section \<open>What a federated route crosses\<close>

context relation_gate
begin

text \<open>Under any gate that meets the contract, a hop has a witnessed relation that covers it at that time.\<close>

lemma hop_covered:
  assumes "gc_gate gc = gate" and "hop_admitted gc relations fg capability hop k"
  shows "\<exists>c r. c \<in> set (fg_crossings fg) \<and> r \<in> set relations \<and> hop = (source_domain r, target_domain r) \<and> relation_id r = k \<and>
     in_scope r (crossing_request c capability) (gc_clock gc c) \<and> witnessed r \<and>
     (witness_scheme r \<in> GOVERNED_SCHEMES \<longrightarrow> gc_enforces_lifecycle gc)"
proof -
  obtain c r where cr: "hop = (fc_src c, fc_dst c)" "k = fc_relation_id c" "admitted_by gc relations fg capability c r"
    using assms(2) by (auto simp: hop_admitted_def)
  obtain d where d: "gate (gc_clock gc c) r (crossing_request c capability) = Inr d" "reasons d = []"
    using cr(3) assms(1) by (auto simp: admitted_by_def)
  have scope: "in_scope r (crossing_request c capability) (gc_clock gc c)" "witnessed r"
    using admits_in_scope [OF d] admits_witnessed [OF d] by simp_all
  then have "hop = (source_domain r, target_domain r)" using cr(1) by (simp add: in_scope_def crossing_request_def)
  then show ?thesis using cr(2,3) scope unfolding admitted_by_def by blast
qed

end

text \<open>C35: A federated route only crosses relations that are in force. Every hop of a route from \<open>federated_route\<close> under the
  registry's gate has, in order, the relation it names: a current one between exactly these domains, for the
  requested capability and the crossing's contract, valid at the time the gate read, bound in the
  registry to two registered keys in force then, and signed by both authorities under them.\<close>

theorem governed_route:
  assumes "registry_ok d" and "gc_gate gc = evaluate_governed verify d"
    and "federated_route fmt log10 iter gc relations fg origin targets capability = Some (Inr res)"
  shows "list_all2 (\<lambda>hop k. \<exists>c r. r \<in> set relations \<and> relation_id r = k \<and> hop = (source_domain r, target_domain r) \<and>
     in_scope r (crossing_request c capability) (gc_clock gc c) \<and>
     governed_admits verify d (gc_clock gc c) r (crossing_request c capability))
     (hops (rr_path (fr_route res))) (traversed_relations res)"
proof -
  obtain g v where gv: "validated_state gc relations fg capability = Inr (g, v)"
    "route fmt log10 iter g origin targets = Some (Inr (fr_route res))"
    using assms(3) by (rule federated_routeE)
  then have all: "list_all2 (hop_admitted gc relations fg capability) (hops (rr_path (fr_route res))) (traversed_relations res)"
    using federated_route_result [OF gv] assms(3) by auto
  have hop: "\<exists>c r. r \<in> set relations \<and> relation_id r = k \<and> hop = (source_domain r, target_domain r) \<and>
     in_scope r (crossing_request c capability) (gc_clock gc c) \<and>
     governed_admits verify d (gc_clock gc c) r (crossing_request c capability)"
    if adm: "hop_admitted gc relations fg capability hop k" for hop k
  proof -
    obtain c r where cr: "hop = (fc_src c, fc_dst c)" "k = fc_relation_id c" "admitted_by gc relations fg capability c r"
      using adm by (auto simp: hop_admitted_def)
    obtain dec where dec: "evaluate_governed verify d (gc_clock gc c) r (crossing_request c capability) = Inr dec" "reasons dec = []"
      using cr(3) assms(2) by (auto simp: admitted_by_def)
    have "governed_admits verify d (gc_clock gc c) r (crossing_request c capability)"
      using governed_Nil [OF assms(1) dec(1)] dec(2) by simp
    moreover have "in_scope r (crossing_request c capability) (gc_clock gc c)"
      using governed_gate.admits_in_scope [OF dec] .
    ultimately show ?thesis using cr unfolding admitted_by_def
      by (intro exI [of _ c] exI [of _ r]) (auto simp: in_scope_def crossing_request_def)
  qed
  show ?thesis by (rule list_all2_mono [OF all hop])
qed

text \<open>C36: Validation refines routing. When the validated graph has a route, \<open>federated_route\<close> returns that route with the
  relation of each hop, all admitted by the gate: the error for an edge without a validated relation
  is unreachable. A gate that does not enforce the key lifecycle never gets an Ed25519 relation crossed.\<close>

theorem federated_route_refines:
  assumes "validated_state gc relations fg capability = Inr (g, v)"
    and "route fmt log10 iter g origin targets = Some (Inr r)"
  shows "\<exists>res. federated_route fmt log10 iter gc relations fg origin targets capability = Some (Inr res) \<and>
     fr_route res = r \<and>
     list_all2 (\<lambda>hop k. \<exists>c x. hop = (fc_src c, fc_dst c) \<and> c \<in> set (fg_crossings fg) \<and> k = fc_relation_id c \<and>
        x \<in> set relations \<and> relation_id x = k \<and> (witness_scheme x = ED25519_SCHEME \<longrightarrow> gc_enforces_lifecycle gc) \<and>
        (\<exists>d. gc_gate gc (gc_clock gc c) x (crossing_request c capability) = Inr d \<and> reasons d = []))
       (hops (rr_path r)) (traversed_relations res)"
proof -
  obtain res where res: "federated_route fmt log10 iter gc relations fg origin targets capability = Some (Inr res)"
    "fr_route res = r" "list_all2 (hop_admitted gc relations fg capability) (hops (rr_path r)) (traversed_relations res)"
    using federated_route_result [OF assms] by blast
  have "list_all2 (\<lambda>hop k. \<exists>c x. hop = (fc_src c, fc_dst c) \<and> c \<in> set (fg_crossings fg) \<and> k = fc_relation_id c \<and>
        x \<in> set relations \<and> relation_id x = k \<and> (witness_scheme x = ED25519_SCHEME \<longrightarrow> gc_enforces_lifecycle gc) \<and>
        (\<exists>d. gc_gate gc (gc_clock gc c) x (crossing_request c capability) = Inr d \<and> reasons d = []))
       (hops (rr_path r)) (traversed_relations res)"
    by (rule list_all2_mono [OF res(3)]) (auto simp: hop_admitted_def admitted_by_def GOVERNED_SCHEMES_def)
  then show ?thesis using res by blast
qed

section \<open>A bound relation is crossed\<close>

definition bound_crossing :: federated_crossing where
  "bound_crossing = \<lparr>fc_src = ''a'', fc_dst = ''b'', fc_cost = Fin 1, fc_relation_id = ''r1'', fc_capability = ''read'',
     fc_contract_hash = replicate 64 (CHR ''0''), fc_reason = ''''\<rparr>"

definition bound_graph :: federated_graph where
  "bound_graph = \<lparr>fg_nodes = map sample_node [''a'', ''b''], fg_crossings = [bound_crossing],
     fg_constraints = [metric_floor sample_format ''q'' (Fin 0)], fg_preference = sample_preference\<rparr>"

definition governed_context :: "registry_db \<Rightarrow> gate_context" where
  "governed_context d = \<lparr>gc_gate = evaluate_governed toy_verify d, gc_enforces_lifecycle = True, gc_clock = (\<lambda>_. 15)\<rparr>"

lemma sample_request_checks:
  "crossing_request bound_crossing ''read'' = sample_relation_request" "check_request sample_relation_request = Inr sample_relation_request"
  using sample_hash_ok
  by (simp_all add: crossing_request_def bound_crossing_def sample_relation_request_def check_request_def require_text_def
      blank_iff is_space_def require_sha256_def)

lemma bound_graph_validates:
  assumes "evaluate_governed toy_verify d 15 bound_relation sample_relation_request = Inr (decision_of bound_relation 15 [])"
  shows "\<exists>v. validated_state (governed_context d) [bound_relation] bound_graph ''read'' =
     Inr (new_graph (map sample_node [''a'', ''b'']) [plain_crossing bound_crossing]
       [metric_floor sample_format ''q'' (Fin 0)] sample_preference, v)"
proof -
  have "validate_crossing (governed_context d) ''read'' [(''r1'', bound_relation)] bound_crossing =
      Inr ([], Some (payload_sha256 bound_relation))"
    using assms sample_request_checks
    by (simp add: validate_crossing_def governed_context_def reason_if_def decision_of_def Let_def)
      (simp add: bound_crossing_def)
  moreover have "check_crossing (plain_crossing bound_crossing) = Inr (plain_crossing bound_crossing)"
    by (simp add: check_crossing_def plain_crossing_def bound_crossing_def py_lt_def)
  ultimately show ?thesis
    by (simp add: validated_state_def bound_graph_def require_text_def blank_iff is_space_def validate_step_def bound_relation_fields)
qed

lemma two_node_route:
  "\<exists>r. route sample_format log10 id (new_graph (map sample_node [''a'', ''b'']) [plain_crossing bound_crossing]
       [metric_floor sample_format ''q'' (Fin 0)] sample_preference) ''a'' (Some [''b'']) = Some (Inr r) \<and> rr_path r = [''a'', ''b'']"
proof -
  define x where "x = new_graph (map sample_node [''a'', ''b'']) [plain_crossing bound_crossing]
       [metric_floor sample_format ''q'' (Fin 0)] sample_preference"
  have g: "x = \<lparr>g_nodes = map (\<lambda>v. (v, sample_node v)) [''a'', ''b''], g_crossings = [plain_crossing bound_crossing],
     g_preference = sample_preference, g_admissible = map sample_node [''a'', ''b''], g_blocked = []\<rparr>"
    by (simp add: x_def new_graph_def filter_nodes_eq gate_admits_iff metric_floor_def sample_node_def py_le_def dict_set_def)
  have adj: "adjacent x ''a'' = [plain_crossing bound_crossing]" "adjacent x ''b'' = []"
    by (simp_all add: g adjacent_def admissible_ids_def sample_node_def plain_crossing_def bound_crossing_def)
  have cand: "route_candidates id x (Some [''b'']) = [''b'']" "''a'' \<in> set (admissible_ids x)"
    by (simp_all add: g route_candidates_def admissible_ids_def sample_node_def)
  have s: "search x (start_search ''a'') =
     Some \<lparr>distance = [(''a'', Fin 0), (''b'', Fin 1)], previous = [(''b'', ''a'')], queue = []\<rparr>"
    by (simp add: search.simps start_search_def expand_def is_current_def float_eq_def adj plain_crossing_def bound_crossing_def
        relax_def distance_to_def dadd_def py_lt_def dict_set_def Let_def)
  have pot: "node_potential sample_format log10 x ''b'' = Inr (Fin 0)"
    by (simp add: g node_potential_def potential_def score_def goodness_vector_def weighted_goodness_def
      sample_preference_def sample_node_def goodness_def clamp_def py_min_def py_max_def py_lt_def ddiv_def dsub_def
      dadd_def dmul_def float_sum_def)
  show ?thesis using pot unfolding x_def [symmetric]
    by (simp add: route_def cand s route_result_def best_by_def trace.simps Let_def)
qed

theorem federated_route_refines_witness:
  "\<exists>d res. federated_route sample_format id id (governed_context d) [bound_relation] bound_graph ''a'' (Some [''b'']) ''read''
      = Some (Inr res) \<and> rr_path (fr_route res) = [''a'', ''b'']"
proof -
  obtain d where d: "evaluate_governed toy_verify d 15 bound_relation sample_relation_request = Inr (decision_of bound_relation 15 [])"
    using bound_sample by blast
  obtain v where v: "validated_state (governed_context d) [bound_relation] bound_graph ''read'' =
     Inr (new_graph (map sample_node [''a'', ''b'']) [plain_crossing bound_crossing]
       [metric_floor sample_format ''q'' (Fin 0)] sample_preference, v)"
    using bound_graph_validates [OF d] by blast
  obtain r where r: "route sample_format id id (new_graph (map sample_node [''a'', ''b'']) [plain_crossing bound_crossing]
       [metric_floor sample_format ''q'' (Fin 0)] sample_preference) ''a'' (Some [''b'']) = Some (Inr r)" "rr_path r = [''a'', ''b'']"
    using two_node_route by blast
  show ?thesis using federated_route_refines [OF v r(1)] r(2) by blast
qed

theorem governed_route_witness:
  "\<exists>d res c r. registry_ok d \<and>
     federated_route sample_format id id (governed_context d) [bound_relation] bound_graph ''a'' (Some [''b'']) ''read''
      = Some (Inr res) \<and> traversed_relations res = [relation_id r] \<and>
     governed_admits toy_verify d 15 r (crossing_request c ''read'')"
proof -
  obtain d where d: "registry_ok d"
    "evaluate_governed toy_verify d 15 bound_relation sample_relation_request = Inr (decision_of bound_relation 15 [])"
    using bound_sample by blast
  obtain v where v: "validated_state (governed_context d) [bound_relation] bound_graph ''read'' =
     Inr (new_graph (map sample_node [''a'', ''b'']) [plain_crossing bound_crossing]
       [metric_floor sample_format ''q'' (Fin 0)] sample_preference, v)"
    using bound_graph_validates [OF d(2)] by blast
  obtain r where r: "route sample_format id id (new_graph (map sample_node [''a'', ''b'']) [plain_crossing bound_crossing]
       [metric_floor sample_format ''q'' (Fin 0)] sample_preference) ''a'' (Some [''b'']) = Some (Inr r)" "rr_path r = [''a'', ''b'']"
    using two_node_route by blast
  obtain res where res: "federated_route sample_format id id (governed_context d) [bound_relation] bound_graph ''a'' (Some [''b'']) ''read''
      = Some (Inr res)" "fr_route res = r"
    using federated_route_result [OF v r(1)] by blast
  have "gc_gate (governed_context d) = evaluate_governed toy_verify d" "gc_clock (governed_context d) = (\<lambda>_. 15)"
    by (simp_all add: governed_context_def)
  then show ?thesis
    using governed_route [OF d(1) _ res(1), of toy_verify] res r(2) d(1) by (auto simp: hops_def list_all2_Cons1)
qed

end
