(* ===== verification/Trust_Plane.thy ===== *)
theory Trust_Plane
  imports Auth Governed_Gate
begin

text \<open>
  \<open>app/federation_trust_plane.py\<close>: the HTTP endpoints over the key registry. An endpoint solves its
  capability dependency first (which spends the request's nonce), then the request model is
  validated, then the handler runs. The texts of a failed validation and of a \<open>JSONDecodeError\<close> are not
  modelled (the empty string). The lemmas show that the endpoints only ever take steps of the
  registry, and only for a principal with the capability.
\<close>

section \<open>Request models\<close>

record genesis_key_create =
  gk_public_key_hex :: string
  gk_valid_from :: int
  gk_valid_until :: int

record rotate_key_create =
  rk_public_key_hex :: string
  rk_valid_until :: int

record revoke_key_request =
  rv_effective_at :: int
  rv_reason :: string

record relation_key_binding_create =
  kc_source_domain :: string
  kc_target_domain :: string
  kc_source_authority :: string
  kc_target_authority :: string
  kc_contract_hash :: string
  kc_capabilities :: "string list"
  kc_valid_from :: int
  kc_valid_until :: int
  kc_evidence_policy :: string
  kc_witness_payload_sha256 :: string
  kc_source_signature_hex :: string
  kc_target_signature_hex :: string
  kc_source_key_id :: string
  kc_target_key_id :: string

definition is_identifier :: "string \<Rightarrow> bool" where
  "is_identifier s = (1 \<le> length s \<and> length s \<le> 128 \<and> list_all (\<lambda>c. let n = of_char c :: nat in
     (65 \<le> n \<and> n \<le> 90) \<or> (97 \<le> n \<and> n \<le> 122) \<or> (48 \<le> n \<and> n \<le> 57) \<or> c \<in> set ''._:-'') s)"

definition valid_genesis :: "genesis_key_create \<Rightarrow> bool" where
  "valid_genesis q = (hex_lower_n 64 (gk_public_key_hex q) \<and> 0 \<le> gk_valid_from q \<and> 0 < gk_valid_until q \<and>
     gk_valid_from q < gk_valid_until q)"

definition valid_rotate :: "rotate_key_create \<Rightarrow> bool" where
  "valid_rotate q = (hex_lower_n 64 (rk_public_key_hex q) \<and> 0 < rk_valid_until q)"

definition valid_revoke :: "revoke_key_request \<Rightarrow> bool" where
  "valid_revoke q = (0 \<le> rv_effective_at q \<and> 1 \<le> length (rv_reason q) \<and> length (rv_reason q) \<le> 512)"

definition valid_bind :: "relation_key_binding_create \<Rightarrow> bool" where
  "valid_bind q = (list_all is_identifier [kc_source_domain q, kc_target_domain q, kc_source_authority q, kc_target_authority q] \<and>
     hex_lower_n 64 (kc_contract_hash q) \<and> 1 \<le> length (kc_capabilities q) \<and> length (kc_capabilities q) \<le> 128 \<and>
     0 \<le> kc_valid_from q \<and> 0 < kc_valid_until q \<and> 1 \<le> length (kc_evidence_policy q) \<and> length (kc_evidence_policy q) \<le> 128 \<and>
     hex_lower_n 64 (kc_witness_payload_sha256 q) \<and> hex_lower_n 128 (kc_source_signature_hex q) \<and>
     hex_lower_n 128 (kc_target_signature_hex q) \<and> is_key_id (kc_source_key_id q) \<and> is_key_id (kc_target_key_id q) \<and>
     \<not> list_ex blank (kc_capabilities q) \<and> kc_capabilities q = sort (remdups (kc_capabilities q)) \<and>
     ''*'' \<notin> set (kc_capabilities q) \<and>
     kc_source_domain q \<noteq> kc_target_domain q \<and> kc_source_authority q \<noteq> kc_target_authority q \<and>
     kc_source_key_id q \<noteq> kc_target_key_id q \<and> kc_valid_from q < kc_valid_until q)"

section \<open>Errors and responses\<close>

definition raise_registry_error :: "exc \<Rightarrow> auth_exc" where
  "raise_registry_error e = (case e of
      LookupError s \<Rightarrow> HTTPException 404 s
    | KeyError s \<Rightarrow> HTTPException 404 s
    | PermissionError s \<Rightarrow> HTTPException 409 s
    | ValueError s \<Rightarrow> HTTPException 409 s
    | JSONDecodeError \<Rightarrow> HTTPException 409 ''''
    | _ \<Rightarrow> Raised e)"

definition registry_call :: "'a res \<Rightarrow> 'a auth" where
  "registry_call m = (case m of Inl e \<Rightarrow> Inl (raise_registry_error e) | Inr x \<Rightarrow> Inr x)"

definition int_json :: "int option \<Rightarrow> json" where
  "int_json x = (case x of None \<Rightarrow> JNull | Some i \<Rightarrow> JInt i)"

definition key_json :: "key_record \<Rightarrow> json" where
  "key_json k = JObj [(''authority_id'', JStr (authority_id k)), (''key_id'', JStr (key_id k)),
     (''public_key_hex'', JStr (public_key_hex k)), (''valid_from'', JInt (key_valid_from k)),
     (''valid_until'', JInt (key_valid_until k)), (''previous_key_id'', jopt (previous_key_id k)),
     (''algorithm'', JStr (algorithm k)), (''revoked_at'', int_json (revoked_at k)),
     (''revocation_reason'', jopt (revocation_reason k))]"

definition binding_json :: "key_binding \<Rightarrow> json" where
  "binding_json b = JObj [(''relation_id'', JStr (kb_relation_id b)), (''relation_sha256'', JStr (kb_relation_sha256 b)),
     (''source_authority'', JStr (kb_source_authority b)), (''source_key_id'', JStr (source_key_id b)),
     (''target_authority'', JStr (kb_target_authority b)), (''target_key_id'', JStr (target_key_id b))]"

definition mutation_response :: "jobj \<Rightarrow> principal_rec \<Rightarrow> json" where
  "mutation_response result p = JObj (dict_set result ''authenticated_actor'' (JStr (pr_id p)))"

definition key_response :: "mutation_result \<Rightarrow> principal_rec \<Rightarrow> json" where
  "key_response m p = mutation_response [(''record'', key_json (mr_record m)), (''registration_sha256'', JStr (mr_sha256 m)),
     (''receipt'', mr_receipt m), (''idempotent'', JBool (mr_idempotent m))] p"

section \<open>Handlers\<close>

record server_env =
  principals :: string
  state_service :: "(jobj \<Rightarrow> json res) option"
  wall_clock :: int
  sqlite_clock :: int
  stamps :: "string \<times> string"
  build_commit :: string
  ed25519_verify :: "byte list \<Rightarrow> byte list \<Rightarrow> byte list \<Rightarrow> bool"

text \<open>A record built in a handler, before its \<open>try\<close>.\<close>

definition new_key :: "string \<Rightarrow> string \<Rightarrow> int \<Rightarrow> int \<Rightarrow> string option \<Rightarrow> key_record res" where
  "new_key who pk from until previous = res_bind (authority_key_id pk) (\<lambda>k.
     check_key_record \<lparr>authority_id = who, key_id = k, public_key_hex = pk, key_valid_from = from, key_valid_until = until,
       previous_key_id = previous, algorithm = ED25519_ALGORITHM, revoked_at = None, revocation_reason = None\<rparr>)"

definition register_record :: "server_env \<Rightarrow> key_record res \<Rightarrow> principal_rec \<Rightarrow> registry_db \<Rightarrow> json auth \<times> registry_db" where
  "register_record env rec p d = (case rec of
      Inl e \<Rightarrow> (Inl (Raised e), d)
    | Inr k \<Rightarrow> (case register_key (stamps env) (build_commit env) k (pr_id p) d of
        (result, d') \<Rightarrow> (auth_bind (registry_call result) (\<lambda>m. Inr (key_response m p)), d')))"

definition register_genesis_key ::
  "server_env \<Rightarrow> string \<Rightarrow> genesis_key_create \<Rightarrow> principal_rec \<Rightarrow> registry_db \<Rightarrow> json auth \<times> registry_db" where
  "register_genesis_key env who q =
     register_record env (new_key who (gk_public_key_hex q) (gk_valid_from q) (gk_valid_until q) None)"

definition rotate_authority_key ::
  "server_env \<Rightarrow> string \<Rightarrow> string \<Rightarrow> rotate_key_create \<Rightarrow> principal_rec \<Rightarrow> registry_db \<Rightarrow> json auth \<times> registry_db" where
  "rotate_authority_key env who previous q p d =
    (case auth_bind (lift (get_key d previous)) (\<lambda>found. case found of
            None \<Rightarrow> Inl (HTTPException 404 ''previous authority key not found'')
          | Some k \<Rightarrow>
              auth_bind (refuse_if (authority_id k \<noteq> who) 409 ''previous key belongs to a different authority'') (\<lambda>_.
              auth_bind (refuse_if (rk_valid_until q \<le> key_valid_until k)
                409 ''rotated key valid_until must exceed previous valid_until'') (\<lambda>_. Inr k))) of
       Inl e \<Rightarrow> (Inl e, d)
     | Inr k \<Rightarrow> register_record env
         (new_key who (rk_public_key_hex q) (key_valid_until k) (rk_valid_until q) (Some (key_id k))) p d)"

definition revoke_authority_key ::
  "server_env \<Rightarrow> string \<Rightarrow> string \<Rightarrow> revoke_key_request \<Rightarrow> principal_rec \<Rightarrow> registry_db \<Rightarrow> json auth \<times> registry_db" where
  "revoke_authority_key env who k q p d =
    (case revoke_key (stamps env) (build_commit env) who k (rv_effective_at q) (rv_reason q) (pr_id p) d of
       (result, d') \<Rightarrow> (auth_bind (registry_call result) (\<lambda>(r, receipt, again).
          Inr (mutation_response [(''record'', key_json r), (''receipt'', receipt), (''idempotent'', JBool again)] p)), d'))"

definition list_keys_endpoint :: "string \<Rightarrow> principal_rec \<Rightarrow> registry_db \<Rightarrow> json auth \<times> registry_db" where
  "list_keys_endpoint who p d = (auth_bind (lift (list_authority_keys d who)) (\<lambda>ks.
     Inr (JObj [(''authority_id'', JStr who), (''keys'', JArr (map key_json ks)), (''read_by'', JStr (pr_id p))])), d)"

definition read_authority_key :: "string \<Rightarrow> principal_rec \<Rightarrow> registry_db \<Rightarrow> json auth \<times> registry_db" where
  "read_authority_key k p d = (auth_bind (lift (get_key d k)) (\<lambda>found. case found of
      None \<Rightarrow> Inl (HTTPException 404 ''authority key not found'')
    | Some r \<Rightarrow> Inr (JObj [(''record'', key_json r), (''read_by'', JStr (pr_id p))])), d)"

definition relation_to_bind :: "string \<Rightarrow> relation_key_binding_create \<Rightarrow> federation_relation res" where
  "relation_to_bind rid q =
     res_bind (check_ed25519_witness \<lparr>ew_scheme = ED25519_SCHEME, ew_payload_sha256 = kc_witness_payload_sha256 q,
       source_signature_hex = Some (kc_source_signature_hex q), target_signature_hex = Some (kc_target_signature_hex q)\<rparr>) (\<lambda>w.
     check_relation \<lparr>relation_id = rid, source_domain = kc_source_domain q, target_domain = kc_target_domain q,
       source_authority = kc_source_authority q, target_authority = kc_target_authority q,
       rel_contract_hash = kc_contract_hash q, rel_capabilities = kc_capabilities q, rel_valid_from = kc_valid_from q,
       rel_valid_until = kc_valid_until q, rel_status = ACTIVE, evidence_policy = kc_evidence_policy q,
       witness_scheme = ED25519_SCHEME, rel_witness = Some (Ed25519 w)\<rparr>)"

definition bind_relation_keys ::
  "server_env \<Rightarrow> string \<Rightarrow> relation_key_binding_create \<Rightarrow> principal_rec \<Rightarrow> registry_db \<Rightarrow> json auth \<times> registry_db" where
  "bind_relation_keys env rid q p d = (case relation_to_bind rid q of
      Inl e \<Rightarrow> (Inl (Raised e), d)
    | Inr r \<Rightarrow> (case register_relation_binding (ed25519_verify env) (stamps env) (build_commit env) r
          (kc_source_key_id q) (kc_target_key_id q) (pr_id p) d of
        (result, d') \<Rightarrow> (auth_bind (registry_call result) (\<lambda>(b, digest, receipt, again).
          Inr (mutation_response [(''binding'', binding_json b), (''binding_sha256'', JStr digest),
            (''receipt'', receipt), (''idempotent'', JBool again)] p)), d')))"

definition read_relation_binding :: "string \<Rightarrow> principal_rec \<Rightarrow> registry_db \<Rightarrow> json auth \<times> registry_db" where
  "read_relation_binding rid p d = (auth_bind (lift (get_relation_binding d rid)) (\<lambda>found. case found of
      None \<Rightarrow> Inl (HTTPException 404 ''relation key binding not found'')
    | Some b \<Rightarrow> Inr (JObj [(''binding'', binding_json b), (''read_by'', JStr (pr_id p))])), d)"

section \<open>The router\<close>

datatype api_call =
    RegisterGenesis string genesis_key_create
  | Rotate string string rotate_key_create
  | Revoke string string revoke_key_request
  | ListKeys string
  | ReadKey string
  | BindKeys string relation_key_binding_create
  | ReadBinding string

fun call_capability :: "api_call \<Rightarrow> string" where
  "call_capability (RegisterGenesis _ _) = ''federation:key:register''"
| "call_capability (Rotate _ _ _) = ''federation:key:rotate''"
| "call_capability (Revoke _ _ _) = ''federation:key:revoke''"
| "call_capability (ListKeys _) = ''federation:key:read''"
| "call_capability (ReadKey _) = ''federation:key:read''"
| "call_capability (BindKeys _ _) = ''federation:relation:bind-key''"
| "call_capability (ReadBinding _) = ''federation:key:read''"

fun call_valid :: "api_call \<Rightarrow> bool" where
  "call_valid (RegisterGenesis _ q) = valid_genesis q"
| "call_valid (Rotate _ _ q) = valid_rotate q"
| "call_valid (Revoke _ _ q) = valid_revoke q"
| "call_valid (BindKeys _ q) = valid_bind q"
| "call_valid _ = True"

fun handle :: "server_env \<Rightarrow> api_call \<Rightarrow> principal_rec \<Rightarrow> registry_db \<Rightarrow> json auth \<times> registry_db" where
  "handle env (RegisterGenesis who q) = register_genesis_key env who q"
| "handle env (Rotate who previous q) = rotate_authority_key env who previous q"
| "handle env (Revoke who k q) = revoke_authority_key env who k q"
| "handle env (ListKeys who) = list_keys_endpoint who"
| "handle env (ReadKey k) = read_authority_key k"
| "handle env (BindKeys rid q) = bind_relation_keys env rid q"
| "handle env (ReadBinding rid) = read_relation_binding rid"

definition authorize :: "server_env \<Rightarrow> string \<Rightarrow> request \<Rightarrow> registry_db \<Rightarrow> principal_rec auth \<times> registry_db" where
  "authorize env capability rq d =
    (case require_capability capability (principals env) (state_service env) (wall_clock env) (sqlite_clock env) rq (main_db d) of
       (p, m) \<Rightarrow> (p, d\<lparr>main_db := m\<rparr>))"

definition serve :: "server_env \<Rightarrow> request \<Rightarrow> api_call \<Rightarrow> registry_db \<Rightarrow> json auth \<times> registry_db" where
  "serve env rq call d = (case authorize env (call_capability call) rq d of
      (Inl e, d1) \<Rightarrow> (Inl e, d1)
    | (Inr p, d1) \<Rightarrow> if call_valid call then handle env call p d1 else (Inl (HTTPException 422 ''''), d1))"

section \<open>The endpoints take steps of the registry\<close>

lemma require_capability_steps: "db_step\<^sup>*\<^sup>* d (snd (require_capability c js remote now epoch rq d))"
  using authenticate_steps by (simp add: require_capability_def case_prod_beta Let_def)

lemma main_steps:
  "db_step\<^sup>*\<^sup>* m m' \<Longrightarrow> (registry_step verify)\<^sup>*\<^sup>* (d\<lparr>main_db := m\<rparr>) (d\<lparr>main_db := m'\<rparr>)"
proof (induction rule: rtranclp_induct)
  case (step a b)
  have "registry_step verify (d\<lparr>main_db := a\<rparr>) (d\<lparr>main_db := a\<rparr>\<lparr>main_db := b\<rparr>)"
    using step.hyps(2) by (intro registry_step.storage) simp
  then show ?case using step.IH by (simp add: rtranclp.rtrancl_into_rtrancl)
qed simp

lemma authorize_steps: "(registry_step verify)\<^sup>*\<^sup>* d (snd (authorize env c rq d))"
  using main_steps [OF require_capability_steps [of "main_db d" c "principals env" "state_service env" "wall_clock env"
      "sqlite_clock env" rq], where d = d and verify = verify]
  by (simp add: authorize_def case_prod_beta)

lemma register_record_step:
  assumes "\<And>k. rec = Inr k \<Longrightarrow> check_key_record k = Inr k"
  shows "(registry_step verify)\<^sup>*\<^sup>* d (snd (register_record env rec p d))"
proof (cases rec)
  case (Inr k)
  then have "registry_step verify d (snd (register_key (stamps env) (build_commit env) k (pr_id p) d))"
    using assms by (intro registry_step.register) simp
  then show ?thesis using Inr by (auto simp: register_record_def split: prod.split)
qed (simp add: register_record_def)

lemma new_key_checked: "new_key who pk from until previous = Inr k \<Longrightarrow> check_key_record k = Inr k"
  by (auto simp: new_key_def dest: check_key_record_same)

lemma handle_steps: "(registry_step (ed25519_verify env))\<^sup>*\<^sup>* d (snd (handle env call p d))"
proof (cases call)
  case (RegisterGenesis who q)
  then show ?thesis using new_key_checked by (simp add: register_genesis_key_def register_record_step)
next
  case (Rotate who previous q)
  then show ?thesis using new_key_checked by (auto simp: rotate_authority_key_def register_record_step split: sum.split)
next
  case (Revoke who k q)
  have "registry_step (ed25519_verify env) d
     (snd (revoke_key (stamps env) (build_commit env) who k (rv_effective_at q) (rv_reason q) (pr_id p) d))"
    by (rule registry_step.revoke)
  then show ?thesis using Revoke by (auto simp: revoke_authority_key_def split: prod.split)
next
  case (BindKeys rid q)
  have "registry_step (ed25519_verify env) d (snd (register_relation_binding (ed25519_verify env) (stamps env) (build_commit env) r
          (kc_source_key_id q) (kc_target_key_id q) (pr_id p) d))" for r
    by (rule registry_step.bind)
  then show ?thesis using BindKeys by (auto simp: bind_relation_keys_def split: sum.split prod.split) (metis r_into_rtranclp snd_conv)
qed (simp_all add: list_keys_endpoint_def read_authority_key_def read_relation_binding_def)

lemma serve_steps: "(registry_step (ed25519_verify env))\<^sup>*\<^sup>* d (snd (serve env rq call d))"
proof -
  obtain a d1 where a: "authorize env (call_capability call) rq d = (a, d1)" by fastforce
  have "(registry_step (ed25519_verify env))\<^sup>*\<^sup>* d d1" using authorize_steps [of _ d env "call_capability call" rq] a by simp
  moreover have "(registry_step (ed25519_verify env))\<^sup>*\<^sup>* d1 (snd (serve env rq call d))"
    using handle_steps by (auto simp: serve_def a split: sum.split)
  ultimately show ?thesis by simp
qed

text \<open>C19: The HTTP surface refines the registry. Whatever request an endpoint of the trust plane answers, accepted or
  refused, it takes the registry from a reachable state to a reachable state, so all its invariants (one key in
  force, rotation chains, final revocations, checked bindings) hold behind the API.\<close>

theorem trust_plane_refines:
  assumes "registry_reachable (ed25519_verify env) d"
  shows "registry_reachable (ed25519_verify env) (snd (serve env rq call d))"
  using assms serve_steps [of env d rq call] unfolding registry_reachable_def by (rule rtranclp_trans)

text \<open>C20: No change without authority. A call of the trust plane leaves all keys and bindings as they are, unless its
  request authenticated a principal that holds the capability of exactly that endpoint (or the wildcard)
  and passed the validation of its request model.\<close>

theorem trust_plane_authorized:
  "(authority_keys (snd (serve env rq call d)) = authority_keys d \<and> key_bindings (snd (serve env rq call d)) = key_bindings d) \<or>
   (\<exists>p m. require_capability (call_capability call) (principals env) (state_service env) (wall_clock env) (sqlite_clock env) rq
       (main_db d) = (Inr p, m) \<and> allows p (call_capability call) \<and> call_valid call)"
proof -
  obtain a m where a: "require_capability (call_capability call) (principals env) (state_service env) (wall_clock env)
      (sqlite_clock env) rq (main_db d) = (a, m)" by fastforce
  show ?thesis
  proof (cases a)
    case (Inl e)
    then show ?thesis using a by (simp add: serve_def authorize_def)
  next
    case (Inr p)
    have "allows p (call_capability call)"
      using a Inr by (auto simp: require_capability_def split: prod.splits)
    then show ?thesis using a Inr by (cases "call_valid call") (simp_all add: serve_def authorize_def)
  qed
qed

theorem trust_plane_refines_witness:
  "\<forall>env rq q. registry_reachable (ed25519_verify env) (snd (serve env rq (RegisterGenesis ''auth-a'' q) empty_registry))"
  by (intro allI trust_plane_refines) (simp add: registry_reachable_def)

text \<open>The record is built before the \<open>try\<close>: a blank authority in the path is an unmapped error.\<close>

lemma blank_authority_raises:
  assumes "valid_genesis q" and "blank who"
  shows "fst (register_genesis_key env who q p d) = Inl (Raised (ValueError ''authority_id must be a non-empty string''))"
proof -
  have hex: "hex_lower_n 64 (gk_public_key_hex q)" using assms(1) by (simp add: valid_genesis_def)
  then have "list_all (\<lambda>c. hex_value c \<noteq> None) (gk_public_key_hex q)" "even (length (gk_public_key_hex q))"
    using is_hex_lower_value by (auto simp: hex_lower_n_def list_all_iff)
  then obtain raw where "py_fromhex (gk_public_key_hex q) = Some raw" using py_fromhex_hex by blast
  then have "\<exists>k. authority_key_id (gk_public_key_hex q) = Inr k" using hex by (simp add: authority_key_id_def)
  then show ?thesis using assms(2)
    by (auto simp: register_genesis_key_def register_record_def new_key_def check_key_record_def require_text_def)
qed

end
