(* ===== verification/Spec2Isabelle.thy ===== *)
theory Spec2Isabelle
  imports Core Evidence Model_Bridge Storage_Properties Auth Organism_Properties Journal_Properties
    Supervisor_Properties Secret_Properties Bridge_Properties Runtime_Binding Service_Properties Federated_Graph Trust_Plane
begin

text \<open>
  A model of MatVerse's trust kernel (\<open>src/app\<close>): the code that decides whether an action is
  admissible, records the decision so that it cannot be altered unnoticed, and keeps an
  unattended runtime from acting when it should not.

  Parts and how they interact.
  \<^item> The constitutional core decides (\<open>core.py\<close>: \<open>evaluate_hdb\<close>, \<open>omega_gate\<close>); theory \<open>Core\<close>.
  \<^item> Evidence makes decisions checkable (\<open>evidence.py\<close>: canonical JSON, SHA-256, Merkle roots,
    receipts); theories \<open>Json\<close>, \<open>Sha256\<close>, \<open>Evidence\<close>. SHA-256, HMAC and \<open>json.dumps\<close>/\<open>json.loads\<close>
    are computed in the model, \<open>Json_Roundtrip\<close> proves that parsing inverts printing.
  \<^item> The model bridge (\<open>model_bridge.py\<close>) fixes what a session between two models may hand over:
    \<open>Model_Bridge\<close>.
  \<^item> Storage (\<open>storage.py\<close>, the schema of \<open>state_store.py\<close>) keeps a hash-chained ledger, spent
    nonces, contract artifacts, sessions and handoffs: \<open>Storage\<close> has the operations,
    \<open>Storage_Invariants\<close> the state invariant and the reachable databases, \<open>Storage_Properties\<close>
    the properties. A table is a list of rows in order of insertion.
  \<^item> Authentication (\<open>auth.py\<close>) verifies signed requests and spends their nonces in storage: \<open>Auth\<close>.
  \<^item> The governed organism (\<open>organism_loop.py\<close>) evaluates proposals with the core, learns
    constraints from rejections under signed grants and exports authenticated states:
    \<open>Organism\<close>, \<open>Organism_Properties\<close>.
  \<^item> The physiology (\<open>physiology.py\<close>) runs an organism in cycles on a durable journal:
    \<open>Journal\<close>, \<open>Journal_Properties\<close>, \<open>Physiology\<close>, \<open>Physiology_Properties\<close>.
  \<^item> Around the physiology, \<open>physiology_recovery.py\<close> closes cycles that a crash left open,
    \<open>physiology_effect_feedback.py\<close> holds the organism until the effect of its last action has been
    measured, and \<open>homeostatic_supervisor.py\<close> runs that loop under one bound policy:
    \<open>Physiology_Recovery\<close>, \<open>Effect_Feedback\<close>, \<open>Feedback_Properties\<close>, \<open>Homeostatic_Supervisor\<close>,
    \<open>Supervisor_Properties\<close>.
  \<^item> The secret plane (\<open>secret_plane.py\<close>) hands a secret to a consumer only under a signed lease
    whose uses a store counts: \<open>Lease_Store\<close>, \<open>Secret_Plane\<close>, \<open>Secret_Properties\<close>.
  \<^item> The bridge core (\<open>bridge_core.py\<close>) builds signed, expiring envelopes and promotes work
    through engineering stages by evidence; \<open>runtime_binding.py\<close> binds an execution to a discovered
    runtime: \<open>Python_Text\<close>, \<open>Python_Time\<close> (the parts of Python they write texts with), \<open>Bridge_Core\<close>,
    \<open>Bridge_Properties\<close>, \<open>Runtime_Binding\<close>.
  \<^item> The institutional plane shows the ledger to the outside as a projection
    (\<open>institutional_projection.py\<close>) that a validator checks (\<open>institutional_contract.py\<close>), and accepts
    intents bound to the projection its author saw (\<open>institutional_store.py\<close>), over HTTP
    (\<open>institutional_protocol.py\<close>, \<open>institutional_runtime_endpoint.py\<close>,
    \<open>institutional_service.py\<close>): \<open>Institutional_Contract\<close>, \<open>Institutional_Projection\<close>,
    \<open>Institutional_Properties\<close>, \<open>Institutional_Store\<close>, \<open>Intent_Properties\<close>,
    \<open>Institutional_Service\<close>, \<open>Service_Properties\<close>. \<open>Json_Loaded\<close> says what a body can be
    that \<open>json.loads\<close> accepted.
  \<^item> The federation (\<open>federation_relation.py\<close>, \<open>federation_ed25519.py\<close>,
    \<open>federation_key_registry.py\<close>, \<open>federation_trust_plane.py\<close>): relations between domains that two
    authorities sign, the gates that verify them under shared secrets, public keys, or the keys a
    registry holds beside the ledger, and the endpoints of that registry. \<open>Federation_Relation\<close>,
    \<open>Relation_Properties\<close>, \<open>Federation_Ed25519\<close>, \<open>Ed25519_Properties\<close>, \<open>Key_Registry\<close>,
    \<open>Registry_Properties\<close>, \<open>Governed_Gate\<close>, \<open>Trust_Plane\<close> (\<open>Sample_Digests\<close> holds two digests their
    examples need).
  \<^item> Routing (\<open>federation_routing.py\<close>, the graph of \<open>federation_relation.py\<close>) finds the cheapest
    path through admissible nodes over relations that are in force: \<open>Double\<close> (floating-point
    arithmetic), \<open>Federation_Routing\<close>, \<open>Shortest_Paths\<close>, \<open>Routing_Properties\<close>, \<open>Federated_Graph\<close>.

  State and effects. A database is a record of tables; an operation in a transaction returns the
  database it commits, or the exception and the old database. A Python object is a record, and
  its methods (\<open>Effects\<close>) return the object as it is when an exception leaves them. Exceptions are
  the datatype \<open>exc\<close> of \<open>Prelude\<close>. Clocks, environment variables, answers of remote services,
  executors and readings of the host are arguments.

  What the groups of lemmas show. \<open>*_Invariants\<close> and the reachability sections: every operation keeps
  its state well-formed, so what holds of reachable states holds after any calls. The \<open>*_Properties\<close>
  theories: what each component promises its clients, on every branch. The endpoints
  (\<open>Trust_Plane\<close>, \<open>Service_Properties\<close>) are shown to take only steps of the components behind
  them, so those promises hold behind HTTP.

  Strings are lists of characters U+0000 to U+00FF; floating-point numbers in JSON are kept as
  their text, and a \<open>float\<close> the code computes with is a double: a rational number rounded to 53
  bits after each operation, or an infinity or NaN (one zero only). Ed25519 is a pair of functions
  for signing and verifying; where a property needs that signatures verify, it says so
  (\<open>signatures_verify\<close>). \<open>datetime.fromisoformat\<close> is a function from texts to dates, \<open>isoformat\<close> is
  computed; HKDF and random bytes are arguments of the secret plane. SHA-256 is a function; where a property needs that it does not collide, it says so
  for the finite set of texts the property is about (\<open>inj_on sha256_text S\<close>).

  Interfaces. \<open>Hash_Chain.hash_chain\<close> is the contract of an append-only hash chain, interpreted
  by the ledger; \<open>Journal_Properties.state_store\<close> the contract of a key-value store, interpreted
  by the journal's runtime state; \<open>Feedback_Properties.cycle_invariant\<close> the contract of a cycle with
  whoever keeps an invariant of its journal, interpreted on the slots of the effect feedback and
  of the supervisor;
  \<open>Lease_Store.lease_store\<close> the contract of a store of uses, interpreted by the SQLite store, the
  in-memory store and the plane's choice of one; \<open>Relation_Properties.relation_gate\<close> the contract of a gate over
  relations, interpreted by the HMAC, the Ed25519, the hybrid and the governed gate.

  Bounds and fuel. The JSON parser takes fuel, twice the length of its input, which
  \<open>Json_Roundtrip\<close> shows to be enough for every printed value. The loops of the route search are
  partial functions whose value \<open>None\<close> is a loop that never ends; \<open>Shortest_Paths\<close> shows that it
  does not occur.

  Not modelled: the publication tools (\<open>marxiv_*.py\<close>, \<open>publication_bridge.py\<close>,
  \<open>llm_publication_bridge.py\<close>), which drive files, sandboxes and external sites; the drift engine,
  whose information measure rests on real powers and logarithms; the laboratory and the reproduction
  capsules, which generate random faults and write archives; the probing of the host
  (\<open>runtime_discovery.py\<close>, \<open>qtn_watch.py\<close>); the calls of the OpenAI API; the HTTP routing of
  \<open>main.py\<close>; a remote state service behind the institutional plane; the regular expressions of the
  secret plane's exposure detector; opening and migrating SQLite files, locks and threads, and the
  scripts and experiments that only drive the components above.
\<close>

end
